(* ===== verification/Prelude.thy ===== *)
theory Prelude
  imports Complex_Main "HOL-Library.Char_ord" "HOL-Library.List_Lexorder" "HOL-Library.Multiset"
begin

text \<open>
  Shared vocabulary of the development.

  An asynchronous method of the backend is a function of type \<open>('w, 'a) io\<close>: it takes the
  world, and gives the new world and either a value (\<open>Inr\<close>) or the exception it threw
  (\<open>Inl\<close>).  \<open>bindM\<close> is \<^verbatim>\<open>await\<close>, \<open>throwM\<close> is \<^verbatim>\<open>throw\<close>, \<open>catchM\<close> is
  \<^verbatim>\<open>try/catch\<close> and \<open>finallyM\<close> is \<^verbatim>\<open>try/finally\<close>.  The theory also holds the
  exceptions, JSON values, the decimal rendering of numbers (\<^verbatim>\<open>String(n)\<close>) and the list
  lemmas the components share.
\<close>

named_theorems io_simps "symbolic execution of io programs"
named_theorems infra "laws of the external services, in equational form"

section \<open>Exceptions\<close>

text \<open>
  The texts of the exceptions are Chinese literals in the source; each is one constructor
  here.  \<open>Http\<close> is a Nest \<^verbatim>\<open>HttpException\<close> with its status code, \<open>PgError\<close> an error
  of the database driver with its SQLSTATE, \<open>Infra\<close> any other failure of an external
  service, \<open>TypeErr\<close> and \<open>RangeErr\<close> the JavaScript errors the SDK throws.
\<close>

datatype message =
    MProjectExists | MProjectMissing | MProjectNotFound string | MProjectsRequired
  | MTokenMissing | MTokenInvalid | MTokenExpired | MTokenDisabled | MTokenExhausted
  | MTokenAbsent | MTokenNoProject | MNothingToUpdate
  | MUserMissing | MUserExists | MAccountDisabled | MAccountGone | MBadCredentials
  | MCredentialInvalid | MRootOnlySelf | MRootRequired
  | MRoleMissing | MRoleExists | MRoleNothingToUpdate | MPermissionMissing | MPermissionExists
  | MRoleHasPermission | MRoleLacksPermission | MUserHasRole | MUserLacksRole
  | MPermissionUndeclared | MPermissionDenied string string
  | MNullByte | MIdOutOfRange | MIdNotInteger | MRequestLogMissing
  | MInfraUnavailable | MProjectDisabled | MDeviceOffline | MDeviceFull | MNoDevice | MGroupFull
  | MDeviceGone | MDeviceMissing | MTimedOut int
  | MText string

datatype exn =
    Http nat message
  | PgError string
  | Infra
  | TypeErr message
  | RangeErr message

section \<open>Asynchronous methods\<close>

type_synonym ('w, 'a) io = "'w \<Rightarrow> (exn + 'a) \<times> 'w"

definition returnM :: "'a \<Rightarrow> ('w, 'a) io" where
  "returnM a w = (Inr a, w)"

definition throwM :: "exn \<Rightarrow> ('w, 'a) io" where
  "throwM e w = (Inl e, w)"

definition bindM :: "('w, 'a) io \<Rightarrow> ('a \<Rightarrow> ('w, 'b) io) \<Rightarrow> ('w, 'b) io" where
  "bindM m f w = (case fst (m w) of Inl e \<Rightarrow> (Inl e, snd (m w)) | Inr a \<Rightarrow> f a (snd (m w)))"

definition thenM :: "('w, 'a) io \<Rightarrow> ('w, 'b) io \<Rightarrow> ('w, 'b) io" where
  "thenM m n w = (case fst (m w) of Inl e \<Rightarrow> (Inl e, snd (m w)) | Inr _ \<Rightarrow> n (snd (m w)))"

definition catchM :: "('w, 'a) io \<Rightarrow> (exn \<Rightarrow> ('w, 'a) io) \<Rightarrow> ('w, 'a) io" where
  "catchM m h w = (case fst (m w) of Inl e \<Rightarrow> h e (snd (m w)) | Inr a \<Rightarrow> (Inr a, snd (m w)))"

text \<open>
  \<^verbatim>\<open>finally\<close> runs after both outcomes; an exception of the finaliser itself replaces the
  outcome, as in JavaScript.
\<close>

definition finallyM :: "('w, 'a) io \<Rightarrow> ('w, 'b) io \<Rightarrow> ('w, 'a) io" where
  "finallyM m fin w =
     (case fst (fin (snd (m w))) of
        Inl e \<Rightarrow> (Inl e, snd (fin (snd (m w))))
      | Inr _ \<Rightarrow> (fst (m w), snd (fin (snd (m w)))))"

text \<open>\<^verbatim>\<open>m.catch(() => undefined)\<close>.\<close>

definition ignoreM :: "('w, 'a) io \<Rightarrow> ('w, unit) io" where
  "ignoreM m w = (Inr (), snd (m w))"

text \<open>\<^verbatim>\<open>for (const x of xs) await f(x)\<close>.\<close>

primrec forM :: "'a list \<Rightarrow> ('a \<Rightarrow> ('w, 'b) io) \<Rightarrow> ('w, unit) io" where
  "forM [] f = returnM ()"
| "forM (x # xs) f = thenM (f x) (forM xs f)"

text \<open>
  The equations proofs unfold: they ask only whether a step threw (\<open>isl\<close>), so that a reply
  known up to some property can stay symbolic.
\<close>

lemma returnM_eq [io_simps]: "returnM a w = (Inr a, w)"
  by (simp add: returnM_def)

lemma throwM_eq [io_simps]: "throwM e w = (Inl e, w)"
  by (simp add: throwM_def)

lemma bindM_eq [io_simps]:
  "bindM m f w =
     (if isl (fst (m w)) then (Inl (projl (fst (m w))), snd (m w))
      else f (projr (fst (m w))) (snd (m w)))"
  by (simp add: bindM_def split: sum.splits)

lemma thenM_eq [io_simps]:
  "thenM m n w =
     (if isl (fst (m w)) then (Inl (projl (fst (m w))), snd (m w)) else n (snd (m w)))"
  by (simp add: thenM_def split: sum.splits)

lemma catchM_eq [io_simps]:
  "catchM m h w =
     (if isl (fst (m w)) then h (projl (fst (m w))) (snd (m w)) else m w)"
  by (simp add: catchM_def prod_eq_iff split: sum.splits)

lemma finallyM_eq [io_simps]:
  "finallyM m fin w =
     (if isl (fst (fin (snd (m w))))
      then (Inl (projl (fst (fin (snd (m w))))), snd (fin (snd (m w))))
      else (fst (m w), snd (fin (snd (m w)))))"
  by (simp add: finallyM_def split: sum.splits)

lemma ignoreM_eq [io_simps]: "ignoreM m w = (Inr (), snd (m w))"
  by (simp add: ignoreM_def)

lemma fst_returnM [simp]: "fst (returnM a w) = Inr a"
  and snd_returnM [simp]: "snd (returnM a w) = w"
  by (simp_all add: returnM_def)

lemma fst_throwM [simp]: "fst (throwM e w) = Inl e"
  and snd_throwM [simp]: "snd (throwM e w) = w"
  by (simp_all add: throwM_def)

lemma fst_ignoreM [simp]: "fst (ignoreM m w) = Inr ()"
  and snd_ignoreM [simp]: "snd (ignoreM m w) = snd (m w)"
  by (simp_all add: ignoreM_def)

lemma bindM_Inr: "fst (m w) = Inr a \<Longrightarrow> bindM m f w = f a (snd (m w))"
  by (simp add: bindM_def)

lemma bindM_Inl: "fst (m w) = Inl e \<Longrightarrow> bindM m f w = (Inl e, snd (m w))"
  by (simp add: bindM_def)

lemma thenM_Inr: "fst (m w) = Inr a \<Longrightarrow> thenM m n w = n (snd (m w))"
  by (simp add: thenM_def)

lemma thenM_Inl: "fst (m w) = Inl e \<Longrightarrow> thenM m n w = (Inl e, snd (m w))"
  by (simp add: thenM_def)

text \<open>
  A rule for loops: if the loop body keeps an invariant of the world and never throws under
  it, so does the whole loop.
\<close>

lemma forM_invariant:
  assumes "I w" and "\<And>x w. x \<in> set xs \<Longrightarrow> I w \<Longrightarrow> (\<exists>a. fst (f x w) = Inr a) \<and> I (snd (f x w))"
  shows "fst (forM xs f w) = Inr () \<and> I (snd (forM xs f w))"
  using assms
proof (induction xs arbitrary: w)
  case Nil
  then show ?case by simp
next
  case (Cons x xs)
  obtain a where a: "fst (f x w) = Inr a" and I: "I (snd (f x w))"
    using Cons.prems by fastforce
  have "thenM (f x) (forM xs f) w = forM xs f (snd (f x w))"
    using a by (simp add: thenM_def)
  then show ?case
    using Cons.IH [OF I] Cons.prems(2) by simp
qed

section \<open>Decimal rendering of numbers\<close>

definition digit_char :: "nat \<Rightarrow> char" where
  "digit_char d = char_of (48 + d)"

fun show_nat :: "nat \<Rightarrow> string" where
  "show_nat n = (if n < 10 then [digit_char n] else show_nat (n div 10) @ [digit_char (n mod 10)])"

declare show_nat.simps [simp del]

definition show_int :: "int \<Rightarrow> string" where
  "show_int i = (if i < 0 then CHR ''-'' # show_nat (nat (- i)) else show_nat (nat i))"

definition is_digit :: "char \<Rightarrow> bool" where
  "is_digit c \<longleftrightarrow> 48 \<le> (of_char c :: nat) \<and> (of_char c :: nat) < 58"

definition digit_value :: "char \<Rightarrow> nat" where
  "digit_value c = of_char c - 48"

definition digits_value :: "string \<Rightarrow> nat" where
  "digits_value cs = foldl (\<lambda>n c. 10 * n + digit_value c) 0 cs"

definition parse_nat :: "string \<Rightarrow> nat option" where
  "parse_nat cs = (if cs \<noteq> [] \<and> list_all is_digit cs then Some (digits_value cs) else None)"

definition parse_int :: "string \<Rightarrow> int option" where
  "parse_int cs =
     (case cs of
        [] \<Rightarrow> None
      | c # ds \<Rightarrow>
          if c = CHR ''-'' then map_option (\<lambda>n. - int n) (parse_nat ds)
          else map_option int (parse_nat cs))"

lemma digit_char_value: "d < 10 \<Longrightarrow> digit_value (digit_char d) = d"
  by (simp add: digit_value_def digit_char_def)

lemma digit_char_is_digit: "d < 10 \<Longrightarrow> is_digit (digit_char d)"
  by (simp add: is_digit_def digit_char_def)

lemma digits_value_snoc: "digits_value (cs @ [c]) = 10 * digits_value cs + digit_value c"
  by (simp add: digits_value_def)

lemma show_nat_nonempty: "show_nat n \<noteq> []"
  by (subst show_nat.simps) simp

lemma show_nat_digits: "list_all is_digit (show_nat n)"
proof (induction n rule: show_nat.induct)
  case (1 n)
  then show ?case
    by (subst show_nat.simps) (auto simp: digit_char_is_digit)
qed

lemma digits_value_show_nat: "digits_value (show_nat n) = n"
proof (induction n rule: show_nat.induct)
  case (1 n)
  show ?case
  proof (cases "n < 10")
    case True
    then show ?thesis
      by (subst show_nat.simps) (simp add: digits_value_def digit_char_value)
  next
    case False
    then have "digits_value (show_nat (n div 10)) = n div 10" using "1.IH" by simp
    with False show ?thesis
      by (subst show_nat.simps) (simp add: digits_value_snoc digit_char_value)
  qed
qed

lemma parse_nat_show_nat [simp]: "parse_nat (show_nat n) = Some n"
  by (simp add: parse_nat_def show_nat_nonempty show_nat_digits digits_value_show_nat)

lemma minus_not_digit: "\<not> is_digit (CHR ''-'')"
  by (simp add: is_digit_def)

lemma show_nat_Cons: "\<exists>c ds. show_nat n = c # ds \<and> is_digit c"
  using show_nat_nonempty [of n] show_nat_digits [of n] by (cases "show_nat n") auto

lemma parse_int_show_int [simp]: "parse_int (show_int i) = Some i"
proof (cases "i < 0")
  case True
  then show ?thesis by (simp add: show_int_def parse_int_def)
next
  case False
  obtain c ds where c: "show_nat (nat i) = c # ds" and d: "is_digit c"
    using show_nat_Cons by blast
  from d have "c \<noteq> CHR ''-''" using minus_not_digit by auto
  moreover have "parse_nat (c # ds) = Some (nat i)"
    using parse_nat_show_nat [of "nat i"] by (simp only: c)
  ultimately show ?thesis
    using False by (simp add: show_int_def c parse_int_def)
qed

lemma show_int_inject [simp]: "show_int i = show_int j \<longleftrightarrow> i = j"
  by (metis option.inject parse_int_show_int)

lemma show_nat_inject [simp]: "show_nat i = show_nat j \<longleftrightarrow> i = j"
  by (metis option.inject parse_nat_show_nat)

section \<open>Arrays\<close>

text \<open>\<^verbatim>\<open>xs[i]\<close> of JavaScript: \<open>None\<close> stands for \<^verbatim>\<open>undefined\<close>.\<close>

definition js_index :: "'a list \<Rightarrow> int \<Rightarrow> 'a option" where
  "js_index xs i = (if 0 \<le> i \<and> nat i < length xs then Some (xs ! nat i) else None)"

text \<open>\<^verbatim>\<open>a % b\<close> of JavaScript on integers: the sign follows the dividend.\<close>

definition js_rem :: "int \<Rightarrow> int \<Rightarrow> int" where
  "js_rem a b = (if a < 0 then - ((- a) mod \<bar>b\<bar>) else a mod \<bar>b\<bar>)"

lemma js_rem_nonneg: "0 \<le> a \<Longrightarrow> 0 < b \<Longrightarrow> js_rem a b = a mod b"
  by (simp add: js_rem_def)

lemma js_index_Some: "js_index xs i = Some x \<Longrightarrow> x \<in> set xs"
  by (auto simp: js_index_def split: if_splits)

text \<open>\<^verbatim>\<open>const [row] = rows\<close>: the first element, or \<^verbatim>\<open>undefined\<close>.\<close>

definition first :: "'a list \<Rightarrow> 'a option" where
  "first xs = (case xs of [] \<Rightarrow> None | x # _ \<Rightarrow> Some x)"

lemma first_Nil [simp]: "first [] = None"
  and first_Cons [simp]: "first (x # xs) = Some x"
  by (simp_all add: first_def)

lemma first_None_iff [simp]: "first xs = None \<longleftrightarrow> xs = []"
  by (cases xs) simp_all

lemma first_Some_set: "first xs = Some x \<Longrightarrow> x \<in> set xs"
  by (cases xs) simp_all

text \<open>\<^verbatim>\<open>[...new Set(xs)]\<close>: duplicates are dropped, first occurrences keep their order.\<close>

definition unique :: "'a list \<Rightarrow> 'a list" where
  "unique xs = rev (remdups (rev xs))"

lemma set_unique [simp]: "set (unique xs) = set xs"
  by (simp add: unique_def)

lemma distinct_unique [simp]: "distinct (unique xs)"
  by (simp add: unique_def)

lemma unique_Nil_iff [simp]: "unique xs = [] \<longleftrightarrow> xs = []"
  by (simp add: unique_def)

lemma unique_distinct: "distinct xs \<Longrightarrow> unique xs = xs"
  by (simp add: unique_def distinct_remdups_id)

section \<open>JSON values\<close>

text \<open>
  A value of type \<^verbatim>\<open>unknown\<close> that came out of \<^verbatim>\<open>JSON.parse\<close>.  \<^verbatim>\<open>undefined\<close> is not a
  JSON value; a possibly undefined value is \<open>json option\<close>.
\<close>

datatype json =
    JNull
  | JBool bool
  | JNum rat
  | JStr string
  | JArr "json list"
  | JObj "(string \<times> json) list"

end
