(* ===== verification/Js_Number.thy ===== *)
theory Js_Number
  imports Prelude "HOL-Library.Log_Nat"
begin

text \<open>
  \<^verbatim>\<open>Number(x)\<close> of JavaScript on the values a device can report: the grammar
  StringNumericLiteral of ECMA-262 and the rounding of the exact value to an IEEE double
  (53 bits, ties to even, subnormals, overflow to infinity).  Strings are over the characters
  0 to 255.  Zero has no sign here.
\<close>

datatype js_num = NaN | Infinity bool | Finite rat

section \<open>Rounding\<close>

definition round_half_even :: "rat \<Rightarrow> int" where
  "round_half_even q =
     (let n = \<lfloor>q\<rfloor>; d = q - of_int n in
      if d < 1 / 2 then n else if 1 / 2 < d then n + 1 else if even n then n else n + 1)"

definition pow2 :: "int \<Rightarrow> rat" where
  "pow2 e = (if 0 \<le> e then 2 ^ nat e else 1 / 2 ^ nat (- e))"

text \<open>The exponent \<open>e\<close> with \<open>2 ^ e \<le> q < 2 ^ (e + 1)\<close>, for positive \<open>q\<close>.\<close>

definition rat_exponent :: "rat \<Rightarrow> int" where
  "rat_exponent q =
     (case quotient_of q of
        (a, b) \<Rightarrow>
          let e = int (floorlog 2 (nat a)) - int (floorlog 2 (nat b)) in
          if pow2 e \<le> q then e else e - 1)"

definition round_positive :: "rat \<Rightarrow> rat" where
  "round_positive q =
     (let quantum = pow2 (max (rat_exponent q - 52) (- 1074)) in
      of_int (round_half_even (q / quantum)) * quantum)"

definition to_double :: "rat \<Rightarrow> js_num" where
  "to_double q =
     (if q = 0 then Finite 0
      else let r = round_positive \<bar>q\<bar> in
        if pow2 1024 \<le> r then Infinity (q < 0)
        else Finite (if q < 0 then - r else r))"

section \<open>The grammar\<close>

definition is_js_space :: "char \<Rightarrow> bool" where
  "is_js_space c \<longleftrightarrow>
     (let n = (of_char c :: nat) in 9 \<le> n \<and> n \<le> 13 \<or> n = 32 \<or> n = 160)"

definition js_trim :: "string \<Rightarrow> string" where
  "js_trim s = rev (dropWhile is_js_space (rev (dropWhile is_js_space s)))"

definition hex_digit_value :: "char \<Rightarrow> nat option" where
  "hex_digit_value c =
     (let n = (of_char c :: nat) in
      if 48 \<le> n \<and> n \<le> 57 then Some (n - 48)
      else if 97 \<le> n \<and> n \<le> 102 then Some (n - 87)
      else if 65 \<le> n \<and> n \<le> 70 then Some (n - 55) else None)"

text \<open>The digits after \<^verbatim>\<open>0x\<close>, \<^verbatim>\<open>0o\<close> or \<^verbatim>\<open>0b\<close>.\<close>

fun radix_value :: "nat \<Rightarrow> nat \<Rightarrow> string \<Rightarrow> nat option" where
  "radix_value b n [] = Some n"
| "radix_value b n (c # cs) =
     (case hex_digit_value c of
        None \<Rightarrow> None
      | Some d \<Rightarrow> if d < b then radix_value b (b * n + d) cs else None)"

definition radix_literal :: "nat \<Rightarrow> string \<Rightarrow> js_num" where
  "radix_literal b cs =
     (case cs of
        [] \<Rightarrow> NaN
      | _ \<Rightarrow> (case radix_value b 0 cs of None \<Rightarrow> NaN | Some n \<Rightarrow> to_double (of_nat n)))"

text \<open>\<^verbatim>\<open>ExponentPart\<close>: nothing, or \<^verbatim>\<open>e\<close> with a signed integer.\<close>

definition exponent_part :: "string \<Rightarrow> int option" where
  "exponent_part cs =
     (case cs of
        [] \<Rightarrow> Some 0
      | e # ds \<Rightarrow>
          if e \<noteq> CHR ''e'' \<and> e \<noteq> CHR ''E'' then None
          else (case ds of
                  [] \<Rightarrow> None
                | s # rest \<Rightarrow>
                    if s = CHR ''-'' then map_option (\<lambda>n. - int n) (parse_nat rest)
                    else if s = CHR ''+'' then map_option int (parse_nat rest)
                    else map_option int (parse_nat ds)))"

definition ten_power :: "int \<Rightarrow> rat" where
  "ten_power e = (if 0 \<le> e then 10 ^ nat e else 1 / 10 ^ nat (- e))"

definition after_point :: "string \<Rightarrow> string" where
  "after_point cs =
     (case cs of [] \<Rightarrow> [] | c # rest \<Rightarrow> if c = CHR ''.'' then rest else cs)"

text \<open>\<^verbatim>\<open>StrUnsignedDecimalLiteral\<close> other than \<^verbatim>\<open>Infinity\<close>.\<close>

definition unsigned_decimal :: "string \<Rightarrow> rat option" where
  "unsigned_decimal cs =
     (let whole = takeWhile is_digit cs;
          rest = dropWhile is_digit cs;
          point = (rest \<noteq> [] \<and> hd rest = CHR ''.'');
          fraction = (if point then takeWhile is_digit (tl rest) else []);
          exponent = (if point then dropWhile is_digit (tl rest) else rest) in
      if whole = [] \<and> fraction = [] then None
      else map_option
        (\<lambda>e. of_nat (digits_value (whole @ fraction)) * ten_power (e - int (length fraction)))
        (exponent_part exponent))"

definition signed_decimal :: "bool \<Rightarrow> string \<Rightarrow> js_num" where
  "signed_decimal negative cs =
     (if cs = ''Infinity'' then Infinity negative
      else case unsigned_decimal cs of
             None \<Rightarrow> NaN
           | Some q \<Rightarrow> to_double (if negative then - q else q))"

definition string_to_number :: "string \<Rightarrow> js_num" where
  "string_to_number s =
     (let t = js_trim s in
      if t = [] then Finite 0
      else if hd t = CHR ''-'' then signed_decimal True (tl t)
      else if hd t = CHR ''+'' then signed_decimal False (tl t)
      else if take 2 t = ''0x'' \<or> take 2 t = ''0X'' then radix_literal 16 (drop 2 t)
      else if take 2 t = ''0o'' \<or> take 2 t = ''0O'' then radix_literal 8 (drop 2 t)
      else if take 2 t = ''0b'' \<or> take 2 t = ''0B'' then radix_literal 2 (drop 2 t)
      else signed_decimal False t)"

text \<open>
  An array goes through its string: empty is the empty string, one element is the string of
  that element (and a number comes back from its own string), two or more contain a comma.
\<close>

fun number_of_element :: "json \<Rightarrow> js_num" where
  "number_of_element JNull = Finite 0"
| "number_of_element (JBool _) = NaN"
| "number_of_element (JNum q) = Finite q"
| "number_of_element (JStr s) = string_to_number s"
| "number_of_element (JArr []) = Finite 0"
| "number_of_element (JArr [x]) = number_of_element x"
| "number_of_element (JArr (x # y # xs)) = NaN"
| "number_of_element (JObj _) = NaN"

definition to_number :: "json \<Rightarrow> js_num" where
  "to_number v = (case v of JBool b \<Rightarrow> Finite (if b then 1 else 0) | _ \<Rightarrow> number_of_element v)"

text \<open>\<^verbatim>\<open>Number.isInteger\<close>, giving the integer.\<close>

definition integer_of :: "js_num \<Rightarrow> int option" where
  "integer_of x =
     (case x of Finite q \<Rightarrow> if of_int \<lfloor>q\<rfloor> = q then Some \<lfloor>q\<rfloor> else None | _ \<Rightarrow> None)"

section \<open>Small integers are read back exactly\<close>

lemma round_half_even_int [simp]: "round_half_even (of_int n) = n"
  by (simp add: round_half_even_def)

lemma pow2_nonneg: "0 \<le> e \<Longrightarrow> pow2 e = 2 ^ nat e"
  by (simp add: pow2_def)

lemma quotient_of_nat: "quotient_of (of_nat n) = (int n, 1)"
  by (simp add: of_nat_rat quotient_of_Fract)

lemma rat_exponent_nat:
  assumes "0 < n" "n < 2 ^ 53"
  shows "rat_exponent (of_nat n) \<le> 52"
proof -
  have "floorlog 2 n \<le> 53"
    using assms by (simp add: floorlog_le_iff)
  moreover have "floorlog 2 1 = 1"
    by (simp add: floorlog_def)
  ultimately show ?thesis
    by (simp add: rat_exponent_def quotient_of_nat Let_def)
qed

lemma round_positive_nat:
  assumes "0 < n" "n < 2 ^ 53"
  shows "round_positive (of_nat n) = of_nat n"
proof -
  define e where "e = max (rat_exponent (of_nat n) - 52) (- 1074)"
  have e: "e \<le> 0" using rat_exponent_nat [OF assms] by (simp add: e_def)
  then have p: "pow2 e = 1 / 2 ^ nat (- e)" by (auto simp: pow2_def)
  have "(of_nat n :: rat) / pow2 e = of_int (int n * 2 ^ nat (- e))"
    by (simp add: p)
  then have "round_half_even (of_nat n / pow2 e) = int n * 2 ^ nat (- e)"
    by (simp only: round_half_even_int)
  then show ?thesis
    by (simp add: round_positive_def Let_def e_def [symmetric] p)
qed

lemma to_double_nat:
  assumes "n < 2 ^ 53"
  shows "to_double (of_nat n) = Finite (of_nat n)"
proof (cases "n = 0")
  case False
  have "(of_nat n :: rat) < pow2 1024"
  proof -
    have "(of_nat n :: rat) < 2 ^ 53"
      using assms by (metis of_nat_less_iff of_nat_numeral of_nat_power)
    also have "(2 ^ 53 :: rat) \<le> 2 ^ 1024" by (rule power_increasing) simp_all
    finally show ?thesis by (simp add: pow2_def)
  qed
  then show ?thesis
    using False round_positive_nat [of n] assms by (simp add: to_double_def Let_def)
qed (simp add: to_double_def)

lemma digit_not_space: "is_digit c \<Longrightarrow> \<not> is_js_space c"
  by (auto simp: is_digit_def is_js_space_def Let_def)

lemma dropWhile_none: "list_all (\<lambda>c. \<not> P c) cs \<Longrightarrow> dropWhile P cs = cs"
  by (cases cs) simp_all

lemma js_trim_digits: "list_all is_digit cs \<Longrightarrow> js_trim cs = cs"
  by (simp add: js_trim_def dropWhile_none list.pred_mono_strong digit_not_space list_all_rev)

lemma signed_decimal_digits:
  assumes "list_all is_digit cs" "cs \<noteq> []" "digits_value cs < 2 ^ 53"
  shows "signed_decimal False cs = Finite (of_nat (digits_value cs))"
proof -
  have t: "takeWhile is_digit cs = cs" "dropWhile is_digit cs = []"
    using assms(1) by (simp_all add: takeWhile_eq_all_conv dropWhile_eq_Nil_conv list_all_iff)
  have "cs \<noteq> ''Infinity''"
    using assms(1) by (auto simp: is_digit_def)
  moreover have "unsigned_decimal cs = Some (of_nat (digits_value cs))"
    using assms(2) by (simp add: unsigned_decimal_def Let_def t exponent_part_def ten_power_def)
  ultimately show ?thesis
    using to_double_nat [OF assms(3)] by (simp add: signed_decimal_def)
qed

text \<open>\<^verbatim>\<open>Number(String(n))\<close> is \<open>n\<close>, for every safe natural number.\<close>

lemma string_to_number_show_nat:
  assumes "n < 2 ^ 53"
  shows "string_to_number (show_nat n) = Finite (of_nat n)"
proof -
  let ?cs = "show_nat n"
  have d: "list_all is_digit ?cs" by (rule show_nat_digits)
  obtain c ds where c: "?cs = c # ds" "is_digit c" using show_nat_Cons by blast
  have h: "hd ?cs \<noteq> CHR ''-''" "hd ?cs \<noteq> CHR ''+''"
    using c by (auto simp: is_digit_def)
  have r: "take 2 ?cs \<noteq> [a, b]" if "\<not> is_digit b" for a b
    using c d that by (cases ds) auto
  have "string_to_number ?cs = signed_decimal False ?cs"
    using show_nat_nonempty [of n] h
    by (simp add: string_to_number_def Let_def js_trim_digits [OF d] r is_digit_def)
  also have "\<dots> = Finite (of_nat n)"
    using signed_decimal_digits [OF d show_nat_nonempty] assms by (simp add: digits_value_show_nat)
  finally show ?thesis .
qed

lemma integer_of_nat [simp]: "integer_of (Finite (of_nat n)) = Some (int n)"
  by (simp add: integer_of_def)

end
