(* ===== verification/Json_Text.thy ===== *)
theory Json_Text
  imports Js_Number
begin

text \<open>
  \<^verbatim>\<open>JSON.stringify\<close> and \<^verbatim>\<open>JSON.parse\<close> of the standard library, on the values and characters of
  the model.  A number that is not an integer is written with its exact decimal expansion,
  which denotes the value JavaScript's shorter text denotes.  A repeated member of an object is
  kept; \<open>field\<close> reads the last one, as an object does.  \<open>parse_stringify\<close> is the round trip, for
  values whose numbers are safe integers.
\<close>

section \<open>Writing\<close>

primrec comma_separated :: "string list \<Rightarrow> string" where
  "comma_separated [] = []"
| "comma_separated (x # xs) = (if xs = [] then x else x @ CHR '','' # comma_separated xs)"

definition hex_char :: "nat \<Rightarrow> char" where
  "hex_char d = char_of (if d < 10 then 48 + d else 87 + d)"

definition escape_char :: "char \<Rightarrow> string" where
  "escape_char c =
     (let n = (of_char c :: nat) in
      if n = 34 \<or> n = 92 then [CHR 92, c]
      else if n = 8 then [CHR 92, CHR ''b''] else if n = 9 then [CHR 92, CHR ''t'']
      else if n = 10 then [CHR 92, CHR ''n''] else if n = 12 then [CHR 92, CHR ''f'']
      else if n = 13 then [CHR 92, CHR ''r'']
      else if n < 32 then CHR 92 # ''u00'' @ [hex_char (n div 16), hex_char (n mod 16)]
      else [c])"

definition quote :: "string \<Rightarrow> string" where
  "quote s = CHR 34 # concat (map escape_char s) @ [CHR 34]"

text \<open>The digits after the point of a fraction, at most \<open>n\<close> of them.\<close>

fun fraction_digits :: "nat \<Rightarrow> rat \<Rightarrow> string" where
  "fraction_digits 0 q = []"
| "fraction_digits (Suc n) q =
     (if q = 0 then [] else digit_char (nat \<lfloor>10 * q\<rfloor>) # fraction_digits n (10 * q - of_int \<lfloor>10 * q\<rfloor>))"

definition show_number :: "rat \<Rightarrow> string" where
  "show_number q =
     (if of_int \<lfloor>q\<rfloor> = q then show_int \<lfloor>q\<rfloor>
      else (if q < 0 then ''-'' else []) @ show_nat (nat \<lfloor>\<bar>q\<bar>\<rfloor>) @ ''.'' @
        fraction_digits 1074 (\<bar>q\<bar> - of_int \<lfloor>\<bar>q\<bar>\<rfloor>))"

fun stringify :: "json \<Rightarrow> string" where
  "stringify JNull = ''null''"
| "stringify (JBool b) = (if b then ''true'' else ''false'')"
| "stringify (JNum q) = show_number q"
| "stringify (JStr s) = quote s"
| "stringify (JArr xs) = CHR ''['' # comma_separated (map stringify xs) @ '']''"
| "stringify (JObj ps) =
     CHR ''{'' # comma_separated (map (\<lambda>(k, v). quote k @ CHR '':'' # stringify v) ps) @ ''}''"

section \<open>Reading\<close>

definition is_json_space :: "char \<Rightarrow> bool" where
  "is_json_space c \<longleftrightarrow> (let n = (of_char c :: nat) in n = 32 \<or> n = 9 \<or> n = 10 \<or> n = 13)"

definition skip_space :: "string \<Rightarrow> string" where
  "skip_space s = dropWhile is_json_space s"

definition unescape_simple :: "char \<Rightarrow> char option" where
  "unescape_simple c =
     (if c = CHR 34 \<or> c = CHR 92 \<or> c = CHR ''/'' then Some c
      else if c = CHR ''b'' then Some (CHR 8) else if c = CHR ''f'' then Some (CHR 12)
      else if c = CHR ''n'' then Some (CHR 10) else if c = CHR ''r'' then Some (CHR 13)
      else if c = CHR ''t'' then Some (CHR 9) else None)"

text \<open>The characters of a string literal, up to its closing quote.\<close>

fun parse_chars :: "string \<Rightarrow> (string \<times> string) option" where
  "parse_chars [] = None"
| "parse_chars (c # cs) =
     (if c = CHR 34 then Some ([], cs)
      else if c = CHR 92 then
        (case cs of
           [] \<Rightarrow> None
         | e # rest \<Rightarrow>
             if e = CHR ''u'' then
               (case rest of
                  a # b # h # l # rest' \<Rightarrow>
                    (case (hex_digit_value a, hex_digit_value b, hex_digit_value h, hex_digit_value l) of
                       (Some 0, Some 0, Some x, Some y) \<Rightarrow>
                         map_option (\<lambda>(t, r). (char_of (16 * x + y) # t, r)) (parse_chars rest')
                     | _ \<Rightarrow> None)
                | _ \<Rightarrow> None)
             else (case unescape_simple e of
                     None \<Rightarrow> None
                   | Some d \<Rightarrow> map_option (\<lambda>(t, r). (d # t, r)) (parse_chars rest)))
      else if (of_char c :: nat) < 32 then None
      else map_option (\<lambda>(t, r). (c # t, r)) (parse_chars cs))"

definition is_number_char :: "char \<Rightarrow> bool" where
  "is_number_char c \<longleftrightarrow> is_digit c \<or> c \<in> set ''+-.eE''"

text \<open>The JSON grammar is narrower than that of \<^verbatim>\<open>Number\<close>: no leading zero, no bare point.\<close>

definition number_token :: "string \<Rightarrow> rat option" where
  "number_token t =
     (let negative = (t \<noteq> [] \<and> hd t = CHR ''-'');
          u = (if negative then tl t else t);
          whole = takeWhile is_digit u;
          rest = dropWhile is_digit u in
      if whole = [] \<or> (hd whole = CHR ''0'' \<and> tl whole \<noteq> []) \<or>
         (rest \<noteq> [] \<and> hd rest = CHR ''.'' \<and> takeWhile is_digit (tl rest) = [])
      then None
      else (case unsigned_decimal u of
              None \<Rightarrow> None
            | Some q \<Rightarrow>
                (case to_double (if negative then - q else q) of Finite r \<Rightarrow> Some r | _ \<Rightarrow> None)))"

definition parse_number :: "string \<Rightarrow> (json \<times> string) option" where
  "parse_number s =
     map_option (\<lambda>q. (JNum q, dropWhile is_number_char s)) (number_token (takeWhile is_number_char s))"

definition literal :: "string \<Rightarrow> json \<Rightarrow> string \<Rightarrow> (json \<times> string) option" where
  "literal word v s = (if take (length word) s = word then Some (v, drop (length word) s) else None)"

fun parse_value :: "nat \<Rightarrow> string \<Rightarrow> (json \<times> string) option"
  and parse_elements :: "nat \<Rightarrow> string \<Rightarrow> (json list \<times> string) option"
  and parse_members :: "nat \<Rightarrow> string \<Rightarrow> ((string \<times> json) list \<times> string) option" where
  "parse_value 0 s = None"
| "parse_value (Suc n) s =
     (case skip_space s of
        [] \<Rightarrow> None
      | c # r \<Rightarrow>
          if c = CHR ''n'' then literal ''null'' JNull (c # r)
          else if c = CHR ''t'' then literal ''true'' (JBool True) (c # r)
          else if c = CHR ''f'' then literal ''false'' (JBool False) (c # r)
          else if c = CHR 34 then map_option (\<lambda>(t, r'). (JStr t, r')) (parse_chars r)
          else if c = CHR ''['' then
            (case skip_space r of
               [] \<Rightarrow> None
             | d # r' \<Rightarrow>
                 if d = CHR '']'' then Some (JArr [], r')
                 else map_option (\<lambda>(xs, q). (JArr xs, q)) (parse_elements n (d # r')))
          else if c = CHR ''{'' then
            (case skip_space r of
               [] \<Rightarrow> None
             | d # r' \<Rightarrow>
                 if d = CHR ''}'' then Some (JObj [], r')
                 else map_option (\<lambda>(ps, q). (JObj ps, q)) (parse_members n (d # r')))
          else parse_number (c # r))"
| "parse_elements 0 s = None"
| "parse_elements (Suc n) s =
     (case parse_value n s of
        None \<Rightarrow> None
      | Some (v, r) \<Rightarrow>
          (case skip_space r of
             [] \<Rightarrow> None
           | c # r' \<Rightarrow>
               if c = CHR '','' then map_option (\<lambda>(xs, q). (v # xs, q)) (parse_elements n r')
               else if c = CHR '']'' then Some ([v], r') else None))"
| "parse_members 0 s = None"
| "parse_members (Suc n) s =
     (case skip_space s of
        [] \<Rightarrow> None
      | c # r \<Rightarrow>
          if c \<noteq> CHR 34 then None
          else (case parse_chars r of
            None \<Rightarrow> None
          | Some (k, r1) \<Rightarrow>
              (case skip_space r1 of
                 [] \<Rightarrow> None
               | d # r2 \<Rightarrow>
                   if d \<noteq> CHR '':'' then None
                   else (case parse_value n r2 of
                     None \<Rightarrow> None
                   | Some (v, r3) \<Rightarrow>
                       (case skip_space r3 of
                          [] \<Rightarrow> None
                        | e # r4 \<Rightarrow>
                            if e = CHR '','' then
                              map_option (\<lambda>(ps, q). ((k, v) # ps, q)) (parse_members n r4)
                            else if e = CHR ''}'' then Some ([(k, v)], r4) else None)))))"

text \<open>\<open>None\<close> is a \<^verbatim>\<open>SyntaxError\<close>.  The fuel is enough for every text: each level consumes a character.\<close>

definition parse_json :: "string \<Rightarrow> json option" where
  "parse_json s =
     (case parse_value (2 * length s + 1) s of
        None \<Rightarrow> None
      | Some (v, r) \<Rightarrow> if skip_space r = [] then Some v else None)"

text \<open>\<^verbatim>\<open>x.key\<close> of a parsed value, \<open>None\<close> for \<^verbatim>\<open>undefined\<close>.\<close>

definition field :: "string \<Rightarrow> json \<Rightarrow> json option" where
  "field k v = (case v of JObj ps \<Rightarrow> map_of (rev ps) k | _ \<Rightarrow> None)"

section \<open>Reading back what was written\<close>

fun json_ok :: "json \<Rightarrow> bool" where
  "json_ok JNull = True"
| "json_ok (JBool b) = True"
| "json_ok (JNum q) = (of_int \<lfloor>q\<rfloor> = q \<and> \<bar>q\<bar> < 2 ^ 53)"
| "json_ok (JStr s) = True"
| "json_ok (JArr xs) = (\<forall>x \<in> set xs. json_ok x)"
| "json_ok (JObj ps) = (\<forall>p \<in> set ps. json_ok (snd p))"

lemma hex_digit_value_hex_char: "d < 16 \<Longrightarrow> hex_digit_value (hex_char d) = Some d"
  by (auto simp: hex_digit_value_def hex_char_def Let_def)

lemma parse_escaped_char:
  "parse_chars (escape_char c @ rest) = map_option (\<lambda>(t, r). (c # t, r)) (parse_chars rest)"
proof -
  define n where "n = (of_char c :: nat)"
  have c: "c = char_of n" by (simp add: n_def)
  have n: "n < 256" unfolding n_def by simp
  have special: "c = d" if "n = of_char d" for d
    using that by (simp add: n_def)
  consider "c = CHR 34" | "c = CHR 92" | "c = CHR 8" | "c = CHR 9" | "c = CHR 10" | "c = CHR 12"
    | "c = CHR 13" | "n < 32" "n \<notin> {8, 9, 10, 12, 13}" | "32 \<le> n" "n \<noteq> 34" "n \<noteq> 92"
    using special [of "CHR 34"] special [of "CHR 92"] special [of "CHR 8"] special [of "CHR 9"]
      special [of "CHR 10"] special [of "CHR 12"] special [of "CHR 13"]
    by simp linarith
  then show ?thesis
  proof cases
    case 8
    have "hex_digit_value (CHR ''0'') = Some 0" by code_simp
    moreover have "char_of (16 * (n div 16) + n mod 16) = c"
      unfolding mult_div_mod_eq c ..
    ultimately show ?thesis
      using 8 hex_digit_value_hex_char [of "n div 16"] hex_digit_value_hex_char [of "n mod 16"]
      by (simp add: escape_char_def Let_def flip: n_def)
  next
    case 9
    then have "c \<noteq> CHR 34" "c \<noteq> CHR 92" by (auto simp: n_def)
    then show ?thesis using 9 by (simp add: escape_char_def Let_def flip: n_def)
  qed (simp_all add: escape_char_def Let_def unescape_simple_def)
qed

lemma parse_escaped_chars:
  "parse_chars (concat (map escape_char s) @ CHR 34 # rest) = Some (s, rest)"
  by (induction s) (simp_all add: parse_escaped_char)

lemma digit_not_json: "is_digit c \<Longrightarrow> \<not> is_json_space c \<and> is_number_char c"
  by (auto simp: is_digit_def is_json_space_def is_number_char_def Let_def)

lemma show_nat_span:
  "takeWhile is_digit (show_nat n) = show_nat n" "dropWhile is_digit (show_nat n) = []"
  using show_nat_digits [of n]
  by (simp_all add: takeWhile_eq_all_conv dropWhile_eq_Nil_conv list_all_iff)

lemma unsigned_decimal_nat: "unsigned_decimal (show_nat n) = Some (of_nat n)"
  by (simp add: unsigned_decimal_def Let_def show_nat_span show_nat_nonempty exponent_part_def
      ten_power_def digits_value_show_nat)

lemma show_nat_no_leading_zero: "hd (show_nat n) = CHR ''0'' \<Longrightarrow> tl (show_nat n) = []"
proof (induction n rule: show_nat.induct)
  case (1 n)
  show ?case
  proof (cases "n < 10")
    case True
    then show ?thesis by (subst show_nat.simps) simp
  next
    case False
    then have s: "show_nat n = show_nat (n div 10) @ [digit_char (n mod 10)]"
      by (subst show_nat.simps) simp
    then have "hd (show_nat (n div 10)) = CHR ''0''"
      using "1.prems" show_nat_nonempty [of "n div 10"] by simp
    then have "tl (show_nat (n div 10)) = []" using "1.IH" False by simp
    with \<open>hd (show_nat (n div 10)) = CHR ''0''\<close> have "show_nat (n div 10) = ''0''"
      by (metis list.collapse show_nat_nonempty)
    then have "n div 10 = 0"
      using digits_value_show_nat [of "n div 10"] by (simp add: digits_value_def digit_value_def)
    then show ?thesis using False by simp
  qed
qed

lemma to_double_int:
  assumes "\<bar>i\<bar> < 2 ^ 53"
  shows "to_double (of_int i) = Finite (of_int i)"
proof (cases "0 \<le> i")
  case True
  then show ?thesis using to_double_nat [of "nat i"] assms by simp
next
  case False
  then have n: "nat (- i) < 2 ^ 53" "0 < nat (- i)" using assms by simp_all
  have "to_double (of_nat (nat (- i))) = Finite (of_nat (nat (- i)))" by (rule to_double_nat [OF n(1)])
  with False show ?thesis by (auto simp: to_double_def Let_def split: if_splits)
qed

lemma number_token_show_int:
  assumes "\<bar>i\<bar> < 2 ^ 53"
  shows "number_token (show_int i) = Some (of_int i)"
proof -
  have h: "hd (show_nat n) \<noteq> CHR ''-''" for n
    using show_nat_Cons [of n] minus_not_digit by auto
  have z: "\<not> (hd (show_nat n) = CHR ''0'' \<and> tl (show_nat n) \<noteq> [])" for n
    using show_nat_no_leading_zero by blast
  show ?thesis
  proof (cases "i < 0")
    case True
    then show ?thesis
      using to_double_int [OF assms] z [of "nat (- i)"] show_nat_digits [of "nat (- i)"]
        show_nat_digits [of "nat i"]
      by (simp add: number_token_def Let_def show_int_def show_nat_span show_nat_nonempty unsigned_decimal_nat
          list_all_iff)
  next
    case False
    then show ?thesis
      using to_double_int [OF assms] z [of "nat i"] show_nat_digits [of "nat i"]
      by (simp add: number_token_def Let_def show_int_def show_nat_span h show_nat_nonempty unsigned_decimal_nat
          list_all_iff)
  qed
qed

lemma show_int_chars: "list_all is_number_char (show_int i)"
proof -
  have "list_all is_number_char (show_nat n)" for n
    using show_nat_digits [of n] digit_not_json by (auto simp: list_all_iff)
  then show ?thesis by (simp add: show_int_def is_number_char_def)
qed

definition delimited :: "string \<Rightarrow> bool" where
  "delimited rest \<longleftrightarrow> rest = [] \<or> \<not> is_number_char (hd rest)"

lemma parse_number_show_int:
  assumes "\<bar>i\<bar> < 2 ^ 53" "delimited rest"
  shows "parse_number (show_int i @ rest) = Some (JNum (of_int i), rest)"
proof -
  have "takeWhile is_number_char rest = []" "dropWhile is_number_char rest = rest"
    using assms(2) by (cases rest; simp add: delimited_def)+
  then show ?thesis
    using show_int_chars [of i] number_token_show_int [OF assms(1)]
    by (simp add: parse_number_def list_all_iff)
qed

text \<open>How the text of a value begins.\<close>

lemma show_int_Cons: "\<exists>c r. show_int i = c # r \<and> (is_digit c \<or> c = CHR ''-'')"
  using show_nat_Cons [of "nat i"] by (auto simp: show_int_def)

lemma stringify_Cons:
  assumes "json_ok j"
  shows "\<exists>c r. stringify j = c # r \<and> \<not> is_json_space c \<and> c \<noteq> CHR '']''"
proof (cases j)
  case (JNum q)
  then obtain c r where c: "stringify j = c # r" "is_digit c \<or> c = CHR ''-''"
    using assms show_int_Cons [of "\<lfloor>q\<rfloor>"] by (auto simp: show_number_def)
  then have "\<not> is_json_space c" "c \<noteq> CHR '']''"
    by (auto simp: digit_not_json) (auto simp: is_digit_def is_json_space_def)
  with c show ?thesis by blast
qed (auto simp: quote_def is_json_space_def)

lemma skip_space_id: "\<not> is_json_space c \<Longrightarrow> skip_space (c # r) = c # r"
  by (simp add: skip_space_def)

definition reads_back :: "json \<Rightarrow> bool" where
  "reads_back j \<longleftrightarrow> (\<forall>n rest. delimited rest \<longrightarrow> 2 * length (stringify j @ rest) + 1 \<le> n \<longrightarrow>
     parse_value n (stringify j @ rest) = Some (j, rest))"

lemma punctuation:
  "\<not> is_json_space (CHR '','')" "\<not> is_json_space (CHR '']'')" "\<not> is_json_space (CHR ''}'')"
  "\<not> is_json_space (CHR '':'')" "\<not> is_json_space (CHR ''['')" "\<not> is_json_space (CHR ''{'')"
  "\<not> is_json_space (CHR 34)" "\<not> is_json_space (CHR ''n'')" "\<not> is_json_space (CHR ''t'')"
  "\<not> is_json_space (CHR ''f'')"
  "\<not> is_number_char (CHR '','')" "\<not> is_number_char (CHR '']'')" "\<not> is_number_char (CHR ''}'')"
  by (simp_all add: is_json_space_def is_number_char_def is_digit_def)

lemma parse_elements_text:
  assumes "xs \<noteq> []" "\<forall>x \<in> set xs. reads_back x"
    and "2 * length (comma_separated (map stringify xs) @ '']'' @ rest) + 2 \<le> n"
  shows "parse_elements n (comma_separated (map stringify xs) @ '']'' @ rest) = Some (xs, rest)"
  using assms
proof (induction xs arbitrary: n)
  case (Cons x xs)
  then obtain m where n: "n = Suc m" by (cases n) simp_all
  let ?more = "if xs = [] then '']'' @ rest
    else CHR '','' # comma_separated (map stringify xs) @ '']'' @ rest"
  have tx: "comma_separated (map stringify (x # xs)) @ '']'' @ rest = stringify x @ ?more"
    by simp
  have len: "2 * length (stringify x @ ?more) + 1 \<le> m"
    using Cons.prems(3) unfolding n tx by simp
  have "delimited ?more" by (simp add: delimited_def punctuation)
  then have v: "parse_value m (stringify x @ ?more) = Some (x, ?more)"
    using Cons.prems(2) len by (simp add: reads_back_def)
  show ?case
  proof (cases "xs = []")
    case True
    then show ?thesis
      unfolding tx n using v by (simp add: skip_space_id punctuation)
  next
    case False
    have "parse_elements m (comma_separated (map stringify xs) @ '']'' @ rest) = Some (xs, rest)"
      using len False Cons.prems(2) by (intro Cons.IH) simp_all
    then show ?thesis
      unfolding tx n using v False by (simp add: skip_space_id punctuation)
  qed
qed simp

lemma quote_append: "quote k @ rest = CHR 34 # concat (map escape_char k) @ CHR 34 # rest"
  by (simp add: quote_def)

lemma member_step:
  assumes "parse_value m (stringify v @ more) = Some (v, more)"
  shows "parse_members (Suc m) (quote k @ CHR '':'' # stringify v @ more) =
    (case skip_space more of
       [] \<Rightarrow> None
     | e # r4 \<Rightarrow>
         if e = CHR '','' then map_option (\<lambda>(ps, q). ((k, v) # ps, q)) (parse_members m r4)
         else if e = CHR ''}'' then Some ([(k, v)], r4) else None)"
  using assms by (simp add: quote_append skip_space_id punctuation parse_escaped_chars)

lemma parse_members_text:
  assumes "ps \<noteq> []" "\<forall>p \<in> set ps. reads_back (snd p)"
    and "2 * length (comma_separated (map (\<lambda>(k, v). quote k @ CHR '':'' # stringify v) ps) @
      ''}'' @ rest) + 2 \<le> n"
  shows "parse_members n (comma_separated (map (\<lambda>(k, v). quote k @ CHR '':'' # stringify v) ps) @
    ''}'' @ rest) = Some (ps, rest)"
  using assms
proof (induction ps arbitrary: n)
  case (Cons p ps)
  obtain k v where p: "p = (k, v)" by (cases p)
  obtain m where n: "n = Suc m" using Cons.prems by (cases n) simp_all
  let ?text = "\<lambda>ps. comma_separated (map (\<lambda>(k, v). quote k @ CHR '':'' # stringify v) ps) @ ''}'' @ rest"
  define more where "more = (if ps = [] then ''}'' @ rest else CHR '','' # ?text ps)"
  have tx: "?text (p # ps) = quote k @ CHR '':'' # stringify v @ more"
    by (simp add: p more_def)
  have len: "2 * length (stringify v @ more) + 1 \<le> m"
    using Cons.prems(3) unfolding n tx by (simp add: quote_def)
  have "delimited more" by (simp add: delimited_def punctuation more_def)
  then have v: "parse_value m (stringify v @ more) = Some (v, more)"
    using Cons.prems(2) len by (simp add: reads_back_def p)
  have step: "parse_members n (?text (p # ps)) =
      (case skip_space more of
         [] \<Rightarrow> None
       | e # r4 \<Rightarrow>
           if e = CHR '','' then map_option (\<lambda>(ps, q). ((k, v) # ps, q)) (parse_members m r4)
           else if e = CHR ''}'' then Some ([(k, v)], r4) else None)"
    unfolding tx n by (rule member_step [OF v])
  show ?case
  proof (cases "ps = []")
    case True
    then show ?thesis
      unfolding step by (simp add: more_def skip_space_id punctuation p)
  next
    case False
    have "parse_members m (?text ps) = Some (ps, rest)"
      using len False Cons.prems(2) by (intro Cons.IH) (simp_all add: more_def)
    then show ?thesis
      unfolding step using False by (simp add: more_def skip_space_id punctuation p)
  qed
qed simp

lemma comma_separated_Cons:
  "x = c # r \<Longrightarrow> comma_separated (x # xs) = c # (r @ (if xs = [] then [] else CHR '','' # comma_separated xs))"
  by simp

lemma positive_fuel:
  assumes "2 * k + 1 \<le> (n :: nat)" "\<And>m. n = Suc m \<Longrightarrow> P"
  shows P
  using assms by (cases n) simp_all

lemma stringify_reads_back: "json_ok j \<Longrightarrow> reads_back j"
proof (induction j)
  case JNull
  show ?case unfolding reads_back_def
    by (intro allI impI, elim positive_fuel) (simp add: skip_space_id punctuation literal_def)
next
  case (JBool b)
  show ?case unfolding reads_back_def
    by (intro allI impI, elim positive_fuel) (simp add: skip_space_id punctuation literal_def)
next
  case (JNum q)
  then have q: "of_int \<lfloor>q\<rfloor> = q" "\<bar>\<lfloor>q\<rfloor>\<bar> < 2 ^ 53"
    by (simp, metis json_ok.simps(3) of_int_abs of_int_less_iff of_int_numeral of_int_power)
  obtain c r where c: "show_int \<lfloor>q\<rfloor> = c # r" "is_digit c \<or> c = CHR ''-''"
    using show_int_Cons by blast
  have ns: "\<not> is_json_space c" using c(2) digit_not_json by (auto simp: is_json_space_def)
  have nc: "c \<noteq> CHR ''n''" "c \<noteq> CHR ''t''" "c \<noteq> CHR ''f''" "c \<noteq> CHR 34" "c \<noteq> CHR ''[''" "c \<noteq> CHR ''{''"
    using c(2) by (auto simp: is_digit_def)
  show ?case unfolding reads_back_def
  proof (intro allI impI)
    fix n rest
    assume d: "delimited rest" and "2 * length (stringify (JNum q) @ rest) + 1 \<le> n"
    then obtain m where n: "n = Suc m" by (cases n) simp_all
    have "parse_number (c # r @ rest) = Some (JNum q, rest)"
      using parse_number_show_int [OF q(2) d] by (simp add: c(1) q(1))
    then show "parse_value n (stringify (JNum q) @ rest) = Some (JNum q, rest)"
      using q(1) nc by (simp add: n show_number_def c(1) skip_space_id [OF ns])
  qed
next
  case (JStr s)
  show ?case unfolding reads_back_def
    by (intro allI impI, elim positive_fuel)
      (simp add: quote_append skip_space_id punctuation parse_escaped_chars)
next
  case (JArr xs)
  show ?case unfolding reads_back_def
  proof (intro allI impI)
    fix n rest
    assume d: "delimited rest" and len: "2 * length (stringify (JArr xs) @ rest) + 1 \<le> n"
    then obtain m where n: "n = Suc m" by (cases n) simp_all
    show "parse_value n (stringify (JArr xs) @ rest) = Some (JArr xs, rest)"
    proof (cases xs)
      case Nil
      then show ?thesis by (simp add: n skip_space_id punctuation)
    next
      case (Cons x ys)
      obtain c r where c: "stringify x = c # r" "\<not> is_json_space c" "c \<noteq> CHR '']''"
        using stringify_Cons [of x] JArr.prems Cons by auto
      have "parse_elements m (comma_separated (map stringify xs) @ '']'' @ rest) = Some (xs, rest)"
        using JArr Cons len by (intro parse_elements_text) (simp_all add: n)
      then show ?thesis
        using c by (cases "ys = []") (simp_all add: n Cons skip_space_id punctuation)
    qed
  qed
next
  case (JObj ps)
  show ?case unfolding reads_back_def
  proof (intro allI impI)
    fix n rest
    assume d: "delimited rest" and len: "2 * length (stringify (JObj ps) @ rest) + 1 \<le> n"
    then obtain m where n: "n = Suc m" by (cases n) simp_all
    show "parse_value n (stringify (JObj ps) @ rest) = Some (JObj ps, rest)"
    proof (cases ps)
      case Nil
      then show ?thesis by (simp add: n skip_space_id punctuation)
    next
      case (Cons p qs)
      have all: "\<forall>p \<in> set ps. reads_back (snd p)"
        using JObj by (metis json_ok.simps(6) snds.intros surjective_pairing)
      have "parse_members m (comma_separated (map (\<lambda>(k, v). quote k @ CHR '':'' # stringify v) ps) @
          ''}'' @ rest) = Some (ps, rest)"
        using Cons len by (intro parse_members_text all) (simp_all add: n)
      then show ?thesis
        by (cases p; cases "qs = []") (simp_all add: n Cons skip_space_id punctuation quote_def)
    qed
  qed
qed

theorem parse_stringify:
  assumes "json_ok j"
  shows "parse_json (stringify j) = Some j"
proof -
  have "delimited []" by (simp add: delimited_def)
  then have "parse_value (2 * length (stringify j) + 1) (stringify j @ []) = Some (j, [])"
    using stringify_reads_back [OF assms] unfolding reads_back_def by fastforce
  then show ?thesis by (simp add: parse_json_def skip_space_def)
qed

end
