(* ===== verification/Schema.thy ===== *)
theory Schema
  imports Prelude
begin

text \<open>
  The PostgreSQL tables of the backend (the \<^verbatim>\<open>*.schema.ts\<close> files under
  \<^verbatim>\<open>backend/src/application\<close>): one record per \<^verbatim>\<open>pgTable\<close>, a field per column,
  \<open>option\<close> for a nullable column, timestamps in milliseconds since the epoch.  A date
  column (\<^verbatim>\<open>statDate\<close>, rendered \<^verbatim>\<open>YYYY-MM-DD\<close>) is the number of the UTC day since the
  epoch and a month (\<^verbatim>\<open>usagePeriod\<close>, rendered \<^verbatim>\<open>YYYY-MM\<close>) the number of the month.  \<open>row\<close> is the disjoint sum of
  the rows of all tables; a \<open>table\<close> says how a row of one table sits in it, so that one
  set of laws about the database serves every table.  The unique indexes and primary keys
  of the schemas are the relations named after their table with suffix \<^verbatim>\<open>_conflict\<close>.
\<close>

section \<open>Rows\<close>

record user_row =
  usr_id :: nat
  usr_username :: string
  usr_passwordHash :: string
  usr_role :: string
  usr_isRoot :: bool
  usr_enabled :: bool
  usr_lastLoginAt :: "int option"
  usr_description :: "string option"
  usr_createdAt :: int
  usr_deletedAt :: "int option"

record project_row =
  prj_id :: nat
  prj_name :: string
  prj_description :: "string option"
  prj_enabled :: bool
  prj_createdAt :: int
  prj_deletedAt :: "int option"

record access_token_row =
  act_id :: nat
  act_name :: string
  act_token :: string
  act_status :: string
  act_expiresAt :: "int option"
  act_maximumUsageCount :: "nat option"
  act_usageCount :: nat
  act_monthlyUsageCount :: nat
  act_usagePeriod :: "int option"
  act_description :: "string option"
  act_createdBy :: "nat option"
  act_createdAt :: int
  act_deletedAt :: "int option"

record token_project_row =
  tp_tokenId :: nat
  tp_projectId :: nat
  tp_description :: "string option"

record device_token_row =
  dvt_id :: nat
  dvt_name :: string
  dvt_token :: string
  dvt_status :: string
  dvt_description :: "string option"
  dvt_createdBy :: "nat option"
  dvt_createdAt :: int
  dvt_deletedAt :: "int option"

record device_row =
  dev_id :: nat
  dev_clientId :: string
  dev_deviceTokenId :: "nat option"
  dev_online :: bool
  dev_status :: string
  dev_platform :: "string option"
  dev_lastIp :: "string option"
  dev_extra :: "string option"
  dev_maxInFlight :: "nat option"
  dev_description :: "string option"
  dev_lastSeenAt :: "int option"
  dev_deletedAt :: "int option"

record role_row =
  rol_id :: nat
  rol_name :: string
  rol_description :: "string option"
  rol_createdAt :: int
  rol_deletedAt :: "int option"

record permission_row =
  prm_id :: nat
  prm_action :: string
  prm_subject :: string
  prm_description :: "string option"
  prm_deletedAt :: "int option"

record role_permission_row =
  rp_roleId :: nat
  rp_permissionId :: nat
  rp_description :: "string option"

record user_role_row =
  ur_userId :: nat
  ur_roleId :: nat
  ur_description :: "string option"

record request_log_row =
  rql_id :: nat
  rql_requestId :: string
  rql_projectName :: string
  rql_actionName :: string
  rql_clientId :: "string option"
  rql_clientRequestId :: "string option"
  rql_requesterUserId :: "nat option"
  rql_accessTokenId :: "nat option"
  rql_status :: string
  rql_httpCode :: "int option"
  rql_latencyMs :: "int option"
  rql_errorMessage :: "message option"
  rql_payloadState :: string
  rql_createdAt :: int
  rql_finishedAt :: "int option"

record rpc_metric_row =
  rpm_statDate :: int
  rpm_projectName :: string
  rpm_actionName :: string
  rpm_clientId :: string
  rpm_totalRequests :: int
  rpm_successRequests :: int
  rpm_failedRequests :: int
  rpm_timeoutRequests :: int
  rpm_totalLatencyMs :: int
  rpm_maxLatencyMs :: int
  rpm_updatedAt :: int

record device_metric_row =
  dvm_statDate :: int
  dvm_clientId :: string
  dvm_projectName :: string
  dvm_totalRequests :: int
  dvm_successRequests :: int
  dvm_failedRequests :: int
  dvm_timeoutRequests :: int
  dvm_totalLatencyMs :: int
  dvm_maxLatencyMs :: int
  dvm_updatedAt :: int

record system_log_row =
  sl_id :: nat
  sl_name :: string
  sl_description :: string
  sl_actorUserId :: nat
  sl_actorUsername :: string
  sl_action :: string
  sl_subject :: string
  sl_targetType :: string
  sl_targetId :: "string option"
  sl_targetName :: "string option"
  sl_metadata :: "(string \<times> json) list"
  sl_method :: string
  sl_route :: string
  sl_status :: string
  sl_statusCode :: nat
  sl_errorMessage :: "string option"
  sl_ipAddress :: "string option"
  sl_userAgent :: "string option"
  sl_createdAt :: int

datatype row =
    User user_row
  | Project project_row
  | AccessToken access_token_row
  | AccessTokenProject token_project_row
  | DeviceToken device_token_row
  | DeviceTokenProject token_project_row
  | Device device_row
  | Role role_row
  | Permission permission_row
  | RolePermission role_permission_row
  | UserRole user_role_row
  | RequestLog request_log_row
  | RpcMetric rpc_metric_row
  | DeviceMetric device_metric_row
  | SystemLog system_log_row

section \<open>Tables\<close>

record 'a table =
  emb :: "'a \<Rightarrow> row"
  prj :: "row \<Rightarrow> 'a option"

definition users :: "user_row table" where
  "users = \<lparr>emb = User, prj = (\<lambda>r. case r of User x \<Rightarrow> Some x | _ \<Rightarrow> None)\<rparr>"

definition projects :: "project_row table" where
  "projects = \<lparr>emb = Project, prj = (\<lambda>r. case r of Project x \<Rightarrow> Some x | _ \<Rightarrow> None)\<rparr>"

definition accessTokens :: "access_token_row table" where
  "accessTokens = \<lparr>emb = AccessToken, prj = (\<lambda>r. case r of AccessToken x \<Rightarrow> Some x | _ \<Rightarrow> None)\<rparr>"

definition accessTokenProjects :: "token_project_row table" where
  "accessTokenProjects =
     \<lparr>emb = AccessTokenProject, prj = (\<lambda>r. case r of AccessTokenProject x \<Rightarrow> Some x | _ \<Rightarrow> None)\<rparr>"

definition deviceTokens :: "device_token_row table" where
  "deviceTokens = \<lparr>emb = DeviceToken, prj = (\<lambda>r. case r of DeviceToken x \<Rightarrow> Some x | _ \<Rightarrow> None)\<rparr>"

definition deviceTokenProjects :: "token_project_row table" where
  "deviceTokenProjects =
     \<lparr>emb = DeviceTokenProject, prj = (\<lambda>r. case r of DeviceTokenProject x \<Rightarrow> Some x | _ \<Rightarrow> None)\<rparr>"

definition devices :: "device_row table" where
  "devices = \<lparr>emb = Device, prj = (\<lambda>r. case r of Device x \<Rightarrow> Some x | _ \<Rightarrow> None)\<rparr>"

definition roles :: "role_row table" where
  "roles = \<lparr>emb = Role, prj = (\<lambda>r. case r of Role x \<Rightarrow> Some x | _ \<Rightarrow> None)\<rparr>"

definition permissions :: "permission_row table" where
  "permissions = \<lparr>emb = Permission, prj = (\<lambda>r. case r of Permission x \<Rightarrow> Some x | _ \<Rightarrow> None)\<rparr>"

definition rolePermissions :: "role_permission_row table" where
  "rolePermissions =
     \<lparr>emb = RolePermission, prj = (\<lambda>r. case r of RolePermission x \<Rightarrow> Some x | _ \<Rightarrow> None)\<rparr>"

definition userRoles :: "user_role_row table" where
  "userRoles = \<lparr>emb = UserRole, prj = (\<lambda>r. case r of UserRole x \<Rightarrow> Some x | _ \<Rightarrow> None)\<rparr>"

definition requestLogs :: "request_log_row table" where
  "requestLogs = \<lparr>emb = RequestLog, prj = (\<lambda>r. case r of RequestLog x \<Rightarrow> Some x | _ \<Rightarrow> None)\<rparr>"

definition rpcDailyMetrics :: "rpc_metric_row table" where
  "rpcDailyMetrics = \<lparr>emb = RpcMetric, prj = (\<lambda>r. case r of RpcMetric x \<Rightarrow> Some x | _ \<Rightarrow> None)\<rparr>"

definition deviceDailyMetrics :: "device_metric_row table" where
  "deviceDailyMetrics =
     \<lparr>emb = DeviceMetric, prj = (\<lambda>r. case r of DeviceMetric x \<Rightarrow> Some x | _ \<Rightarrow> None)\<rparr>"

definition systemLogs :: "system_log_row table" where
  "systemLogs = \<lparr>emb = SystemLog, prj = (\<lambda>r. case r of SystemLog x \<Rightarrow> Some x | _ \<Rightarrow> None)\<rparr>"

lemmas table_defs =
  users_def projects_def accessTokens_def accessTokenProjects_def deviceTokens_def
  deviceTokenProjects_def devices_def roles_def permissions_def rolePermissions_def
  userRoles_def requestLogs_def rpcDailyMetrics_def deviceDailyMetrics_def systemLogs_def

lemma emb_simps [simp]:
  "emb users = User"
  "emb projects = Project"
  "emb accessTokens = AccessToken"
  "emb accessTokenProjects = AccessTokenProject"
  "emb deviceTokens = DeviceToken"
  "emb deviceTokenProjects = DeviceTokenProject"
  "emb devices = Device"
  "emb roles = Role"
  "emb permissions = Permission"
  "emb rolePermissions = RolePermission"
  "emb userRoles = UserRole"
  "emb requestLogs = RequestLog"
  "emb rpcDailyMetrics = RpcMetric"
  "emb deviceDailyMetrics = DeviceMetric"
  "emb systemLogs = SystemLog"
  by (simp_all add: table_defs)

lemma prj_simps [simp]:
  "prj users = (\<lambda>r. case r of User x \<Rightarrow> Some x | _ \<Rightarrow> None)"
  "prj projects = (\<lambda>r. case r of Project x \<Rightarrow> Some x | _ \<Rightarrow> None)"
  "prj accessTokens = (\<lambda>r. case r of AccessToken x \<Rightarrow> Some x | _ \<Rightarrow> None)"
  "prj accessTokenProjects = (\<lambda>r. case r of AccessTokenProject x \<Rightarrow> Some x | _ \<Rightarrow> None)"
  "prj deviceTokens = (\<lambda>r. case r of DeviceToken x \<Rightarrow> Some x | _ \<Rightarrow> None)"
  "prj deviceTokenProjects = (\<lambda>r. case r of DeviceTokenProject x \<Rightarrow> Some x | _ \<Rightarrow> None)"
  "prj devices = (\<lambda>r. case r of Device x \<Rightarrow> Some x | _ \<Rightarrow> None)"
  "prj roles = (\<lambda>r. case r of Role x \<Rightarrow> Some x | _ \<Rightarrow> None)"
  "prj permissions = (\<lambda>r. case r of Permission x \<Rightarrow> Some x | _ \<Rightarrow> None)"
  "prj rolePermissions = (\<lambda>r. case r of RolePermission x \<Rightarrow> Some x | _ \<Rightarrow> None)"
  "prj userRoles = (\<lambda>r. case r of UserRole x \<Rightarrow> Some x | _ \<Rightarrow> None)"
  "prj requestLogs = (\<lambda>r. case r of RequestLog x \<Rightarrow> Some x | _ \<Rightarrow> None)"
  "prj rpcDailyMetrics = (\<lambda>r. case r of RpcMetric x \<Rightarrow> Some x | _ \<Rightarrow> None)"
  "prj deviceDailyMetrics = (\<lambda>r. case r of DeviceMetric x \<Rightarrow> Some x | _ \<Rightarrow> None)"
  "prj systemLogs = (\<lambda>r. case r of SystemLog x \<Rightarrow> Some x | _ \<Rightarrow> None)"
  by (simp_all add: table_defs)

text \<open>A table reads back exactly the rows it writes.\<close>

definition table_ok :: "'a table \<Rightarrow> bool" where
  "table_ok T \<longleftrightarrow> (\<forall>x. prj T (emb T x) = Some x) \<and> (\<forall>r x. prj T r = Some x \<longrightarrow> r = emb T x)"

definition disjoint_tables :: "'a table \<Rightarrow> 'b table \<Rightarrow> bool" where
  "disjoint_tables T U \<longleftrightarrow> (\<forall>x. prj U (emb T x) = None)"

text \<open>The rows of one table in the database, in the order of the whole.\<close>

definition contents :: "row list \<Rightarrow> 'a table \<Rightarrow> 'a list" where
  "contents rs T = List.map_filter (prj T) rs"

lemma contents_Nil [simp]: "contents [] T = []"
  by (simp add: contents_def map_filter_def)

lemma contents_append [simp]: "contents (rs @ ss) T = contents rs T @ contents ss T"
  by (simp add: contents_def map_filter_def)

lemma contents_Cons [simp]:
  "contents (r # rs) T = (case prj T r of None \<Rightarrow> contents rs T | Some x \<Rightarrow> x # contents rs T)"
  by (simp add: contents_def map_filter_def split: option.splits)

lemma tables_ok [simp]:
  "table_ok users" "table_ok projects" "table_ok accessTokens" "table_ok accessTokenProjects"
  "table_ok deviceTokens" "table_ok deviceTokenProjects" "table_ok devices" "table_ok roles"
  "table_ok permissions" "table_ok rolePermissions" "table_ok userRoles" "table_ok requestLogs"
  "table_ok rpcDailyMetrics" "table_ok deviceDailyMetrics" "table_ok systemLogs"
  by (auto simp: table_ok_def split: row.splits)

text \<open>Predicates, assignments and result rows of one table, read at the level of all rows.\<close>

definition on_table :: "'a table \<Rightarrow> ('a \<Rightarrow> bool) \<Rightarrow> row \<Rightarrow> bool" where
  "on_table T P r = (case prj T r of None \<Rightarrow> False | Some x \<Rightarrow> P x)"

definition map_table :: "'a table \<Rightarrow> ('a \<Rightarrow> 'a) \<Rightarrow> row \<Rightarrow> row" where
  "map_table T f r = (case prj T r of None \<Rightarrow> r | Some x \<Rightarrow> emb T (f x))"

lemma contents_filter:
  "contents (filter (on_table T P) rs) T = filter P (contents rs T)"
  by (induction rs) (auto simp: on_table_def split: option.splits)

lemma contents_update:
  assumes "table_ok T"
  shows "contents (map (\<lambda>r. if on_table T P r then map_table T f r else r) rs) T =
         map (\<lambda>x. if P x then f x else x) (contents rs T)"
  using assms
  by (induction rs) (auto simp: on_table_def map_table_def table_ok_def split: option.splits)

lemma contents_update_other:
  assumes "table_ok T" "disjoint_tables T U"
  shows "contents (map (\<lambda>r. if on_table T P r then map_table T f r else r) rs) U = contents rs U"
  using assms
  by (induction rs)
    (force simp: on_table_def map_table_def table_ok_def disjoint_tables_def split: option.splits)+

lemma contents_delete:
  "contents (filter (\<lambda>r. \<not> on_table T P r) rs) T = filter (\<lambda>x. \<not> P x) (contents rs T)"
  by (induction rs) (auto simp: on_table_def split: option.splits)

lemma contents_delete_other:
  assumes "table_ok T" "disjoint_tables T U"
  shows "contents (filter (\<lambda>r. \<not> on_table T P r) rs) U = contents rs U"
  using assms
  by (induction rs)
    (force simp: on_table_def table_ok_def disjoint_tables_def split: option.splits)+

section \<open>Unique indexes and primary keys\<close>

text \<open>
  \<open>conflicts r s\<close>: a new row \<open>r\<close> and a stored row \<open>s\<close> cannot both be in their table.
  Every partial unique index of the schemas is over the rows whose \<^verbatim>\<open>deleted_at\<close> is null.
\<close>

definition user_conflict :: "user_row \<Rightarrow> user_row \<Rightarrow> bool" where
  "user_conflict r s \<longleftrightarrow> usr_id r = usr_id s \<or>
     usr_deletedAt r = None \<and> usr_deletedAt s = None \<and> usr_username r = usr_username s"

definition project_conflict :: "project_row \<Rightarrow> project_row \<Rightarrow> bool" where
  "project_conflict r s \<longleftrightarrow> prj_id r = prj_id s \<or>
     prj_deletedAt r = None \<and> prj_deletedAt s = None \<and> prj_name r = prj_name s"

definition access_token_conflict :: "access_token_row \<Rightarrow> access_token_row \<Rightarrow> bool" where
  "access_token_conflict r s \<longleftrightarrow> act_id r = act_id s \<or>
     act_deletedAt r = None \<and> act_deletedAt s = None \<and> act_token r = act_token s"

definition token_project_conflict :: "token_project_row \<Rightarrow> token_project_row \<Rightarrow> bool" where
  "token_project_conflict r s \<longleftrightarrow> tp_tokenId r = tp_tokenId s \<and> tp_projectId r = tp_projectId s"

definition device_token_conflict :: "device_token_row \<Rightarrow> device_token_row \<Rightarrow> bool" where
  "device_token_conflict r s \<longleftrightarrow> dvt_id r = dvt_id s \<or>
     dvt_deletedAt r = None \<and> dvt_deletedAt s = None \<and> dvt_token r = dvt_token s"

definition device_conflict :: "device_row \<Rightarrow> device_row \<Rightarrow> bool" where
  "device_conflict r s \<longleftrightarrow> dev_id r = dev_id s \<or>
     dev_deletedAt r = None \<and> dev_deletedAt s = None \<and> dev_clientId r = dev_clientId s"

definition role_conflict :: "role_row \<Rightarrow> role_row \<Rightarrow> bool" where
  "role_conflict r s \<longleftrightarrow> rol_id r = rol_id s \<or>
     rol_deletedAt r = None \<and> rol_deletedAt s = None \<and> rol_name r = rol_name s"

definition permission_conflict :: "permission_row \<Rightarrow> permission_row \<Rightarrow> bool" where
  "permission_conflict r s \<longleftrightarrow> prm_id r = prm_id s \<or>
     prm_deletedAt r = None \<and> prm_deletedAt s = None \<and>
     prm_action r = prm_action s \<and> prm_subject r = prm_subject s"

definition role_permission_conflict :: "role_permission_row \<Rightarrow> role_permission_row \<Rightarrow> bool" where
  "role_permission_conflict r s \<longleftrightarrow>
     rp_roleId r = rp_roleId s \<and> rp_permissionId r = rp_permissionId s"

definition user_role_conflict :: "user_role_row \<Rightarrow> user_role_row \<Rightarrow> bool" where
  "user_role_conflict r s \<longleftrightarrow> ur_userId r = ur_userId s \<and> ur_roleId r = ur_roleId s"

definition request_log_conflict :: "request_log_row \<Rightarrow> request_log_row \<Rightarrow> bool" where
  "request_log_conflict r s \<longleftrightarrow> rql_id r = rql_id s \<or> rql_requestId r = rql_requestId s"

definition rpc_metric_conflict :: "rpc_metric_row \<Rightarrow> rpc_metric_row \<Rightarrow> bool" where
  "rpc_metric_conflict r s \<longleftrightarrow>
     rpm_statDate r = rpm_statDate s \<and> rpm_projectName r = rpm_projectName s \<and>
     rpm_actionName r = rpm_actionName s \<and> rpm_clientId r = rpm_clientId s"

definition device_metric_conflict :: "device_metric_row \<Rightarrow> device_metric_row \<Rightarrow> bool" where
  "device_metric_conflict r s \<longleftrightarrow>
     dvm_statDate r = dvm_statDate s \<and> dvm_clientId r = dvm_clientId s \<and>
     dvm_projectName r = dvm_projectName s"

definition conflicts :: "row \<Rightarrow> row \<Rightarrow> bool" where
  "conflicts r s =
     (case r of
        User x \<Rightarrow> (case s of User y \<Rightarrow> user_conflict x y | _ \<Rightarrow> False)
      | Project x \<Rightarrow> (case s of Project y \<Rightarrow> project_conflict x y | _ \<Rightarrow> False)
      | AccessToken x \<Rightarrow> (case s of AccessToken y \<Rightarrow> access_token_conflict x y | _ \<Rightarrow> False)
      | AccessTokenProject x \<Rightarrow>
          (case s of AccessTokenProject y \<Rightarrow> token_project_conflict x y | _ \<Rightarrow> False)
      | DeviceToken x \<Rightarrow> (case s of DeviceToken y \<Rightarrow> device_token_conflict x y | _ \<Rightarrow> False)
      | DeviceTokenProject x \<Rightarrow>
          (case s of DeviceTokenProject y \<Rightarrow> token_project_conflict x y | _ \<Rightarrow> False)
      | Device x \<Rightarrow> (case s of Device y \<Rightarrow> device_conflict x y | _ \<Rightarrow> False)
      | Role x \<Rightarrow> (case s of Role y \<Rightarrow> role_conflict x y | _ \<Rightarrow> False)
      | Permission x \<Rightarrow> (case s of Permission y \<Rightarrow> permission_conflict x y | _ \<Rightarrow> False)
      | RolePermission x \<Rightarrow>
          (case s of RolePermission y \<Rightarrow> role_permission_conflict x y | _ \<Rightarrow> False)
      | UserRole x \<Rightarrow> (case s of UserRole y \<Rightarrow> user_role_conflict x y | _ \<Rightarrow> False)
      | RequestLog x \<Rightarrow> (case s of RequestLog y \<Rightarrow> request_log_conflict x y | _ \<Rightarrow> False)
      | RpcMetric x \<Rightarrow> (case s of RpcMetric y \<Rightarrow> rpc_metric_conflict x y | _ \<Rightarrow> False)
      | DeviceMetric x \<Rightarrow> (case s of DeviceMetric y \<Rightarrow> device_metric_conflict x y | _ \<Rightarrow> False)
      | SystemLog x \<Rightarrow> (case s of SystemLog y \<Rightarrow> sl_id x = sl_id y | _ \<Rightarrow> False))"

lemmas conflict_defs =
  user_conflict_def project_conflict_def access_token_conflict_def token_project_conflict_def
  device_token_conflict_def device_conflict_def role_conflict_def permission_conflict_def
  role_permission_conflict_def user_role_conflict_def request_log_conflict_def
  rpc_metric_conflict_def device_metric_conflict_def

definition conflict_free :: "row list \<Rightarrow> bool" where
  "conflict_free rs = sorted_wrt (\<lambda>r s. \<not> conflicts r s) rs"

end
