(* ===== verification/Environment.thy ===== *)
theory Environment
  imports Schema "HOL-Library.Sublist"
begin

text \<open>
  The services the backend talks to and does not implement: Redis, PostgreSQL, the HTTP peers,
  the clocks and the random sources.  They are one record \<open>env\<close> of commands on an unknown
  world \<open>'w\<close>; every model of a method takes it as its first argument.  A command may throw.

  What the code relies on is the locale \<open>services\<close>: while the services are up, each
  command has the effect its documentation states on the \<open>store\<close> the world can be viewed
  as (strings with their lifetime, sets, rows, published messages).  A row query may
  return its rows in any order.  Only the single-caller effect is stated here; operations that
  interleave are treated by step relations whose steps are these commands.
\<close>

section \<open>Values that cross the boundary\<close>

text \<open>\<^verbatim>\<open>RequestLogJob\<close>: the body of a job of the request-log queue.\<close>

record request_log_job =
  rlj_requestId :: string
  rlj_project :: string
  rlj_action :: string
  rlj_clientId :: "string option"
  rlj_clientRequestId :: "string option"
  rlj_requesterUserId :: "nat option"
  rlj_accessTokenId :: "nat option"
  rlj_status :: string
  rlj_httpCode :: int
  rlj_latencyMs :: int
  rlj_error :: "message option"
  rlj_requestPayload :: json
  rlj_responsePayload :: "json option"
  rlj_appAudit :: "json option"
  rlj_createdAt :: int
  rlj_finishedAt :: int

record http_response =
  hr_ok :: bool
  hr_status :: nat
  hr_text :: string
  hr_json :: "json option"

section \<open>Commands\<close>

record 'w env =
  redis_get :: "string \<Rightarrow> ('w, string option) io"
  redis_set :: "string \<Rightarrow> string \<Rightarrow> ('w, unit) io"
  redis_set_ttl :: "string \<Rightarrow> string \<Rightarrow> nat \<Rightarrow> ('w, unit) io"
  redis_set_nx :: "string \<Rightarrow> string \<Rightarrow> nat \<Rightarrow> ('w, bool) io"
  redis_del :: "string list \<Rightarrow> ('w, nat) io"
  redis_exists :: "string \<Rightarrow> ('w, nat) io"
  redis_expire :: "string \<Rightarrow> nat \<Rightarrow> ('w, nat) io"
  redis_incr :: "string \<Rightarrow> ('w, int) io"
  redis_decr :: "string \<Rightarrow> ('w, int) io"
  redis_sadd :: "string \<Rightarrow> string \<Rightarrow> ('w, nat) io"
  redis_srem :: "string \<Rightarrow> string \<Rightarrow> ('w, nat) io"
  redis_smembers :: "string \<Rightarrow> ('w, string list) io"
  redis_publish :: "string \<Rightarrow> json \<Rightarrow> ('w, unit) io"
  queue_add :: "string \<Rightarrow> request_log_job \<Rightarrow> ('w, unit) io"
  queue_repeat :: "string \<Rightarrow> string \<Rightarrow> nat \<Rightarrow> ('w, unit) io"
  db_select :: "(row \<Rightarrow> bool) \<Rightarrow> ('w, row list) io"
  db_insert :: "(nat \<Rightarrow> row) \<Rightarrow> ('w, row) io"
  db_insert_all :: "row list \<Rightarrow> ('w, row list) io"
  db_insert_nc :: "(nat \<Rightarrow> row) \<Rightarrow> ('w, row option) io"
  db_upsert :: "row \<Rightarrow> (row \<Rightarrow> row) \<Rightarrow> ('w, unit) io"
  db_update :: "(row \<Rightarrow> bool) \<Rightarrow> (row \<Rightarrow> row) \<Rightarrow> ('w, row list) io"
  db_delete :: "(row \<Rightarrow> bool) \<Rightarrow> ('w, row list) io"
  db_rollback :: "'w \<Rightarrow> 'w \<Rightarrow> 'w"
  http_fetch :: "string \<Rightarrow> json \<Rightarrow> ('w, http_response) io"
  random_uuid :: "('w, string) io"
  random_token :: "('w, string) io"
  sha256_hex :: "string \<Rightarrow> string"
  now_ms :: "'w \<Rightarrow> int"
  pg_now :: "'w \<Rightarrow> int"

text \<open>
  \<open>redis_set_ttl k v ms\<close> is \<^verbatim>\<open>SET k v EX s\<close> with \<open>ms\<close> the seconds in milliseconds, or
  \<^verbatim>\<open>SET k v PX ms\<close>; \<open>redis_set_nx\<close> is \<^verbatim>\<open>SET k v EX s NX\<close> and says whether the reply was
  \<^verbatim>\<open>OK\<close>; \<open>redis_expire\<close> takes milliseconds too.
  \<open>queue_repeat q n ms\<close> is \<^verbatim>\<open>q.add(n, {}, {repeat: {every: ms}})\<close>.  \<open>now_ms\<close> is \<^verbatim>\<open>Date.now()\<close>, \<open>pg_now\<close> the
  database's \<^verbatim>\<open>NOW()\<close>: two clocks of two machines.
\<close>

definition seconds :: "nat \<Rightarrow> nat" where
  "seconds s = 1000 * s"

section \<open>Typed access to one table\<close>

text \<open>\<^verbatim>\<open>select().from(T).where(P)\<close>.\<close>

definition select_from :: "'w env \<Rightarrow> 'a table \<Rightarrow> ('a \<Rightarrow> bool) \<Rightarrow> ('w, 'a list) io" where
  "select_from E T P =
     bindM (db_select E (on_table T P)) (\<lambda>rs. returnM (contents rs T))"

text \<open>\<^verbatim>\<open>update(T).set(f).where(P).returning()\<close>.\<close>

definition update_table ::
  "'w env \<Rightarrow> 'a table \<Rightarrow> ('a \<Rightarrow> bool) \<Rightarrow> ('a \<Rightarrow> 'a) \<Rightarrow> ('w, 'a list) io" where
  "update_table E T P f =
     bindM (db_update E (on_table T P) (map_table T f)) (\<lambda>rs. returnM (contents rs T))"

text \<open>\<^verbatim>\<open>delete(T).where(P).returning()\<close>.\<close>

definition delete_from :: "'w env \<Rightarrow> 'a table \<Rightarrow> ('a \<Rightarrow> bool) \<Rightarrow> ('w, 'a list) io" where
  "delete_from E T P =
     bindM (db_delete E (on_table T P)) (\<lambda>rs. returnM (contents rs T))"

text \<open>
  \<^verbatim>\<open>insert(T).values(x).returning()\<close>; the serial key is the argument of \<open>mk\<close>.  The row that
  comes back is the row that was sent.
\<close>

definition insert_into :: "'w env \<Rightarrow> 'a table \<Rightarrow> (nat \<Rightarrow> 'a) \<Rightarrow> ('w, 'a list) io" where
  "insert_into E T mk =
     bindM (db_insert E (\<lambda>i. emb T (mk i))) (\<lambda>r. returnM (contents [r] T))"

text \<open>\<^verbatim>\<open>insert(T).values(x).onConflictDoNothing().returning()\<close>.\<close>

definition insert_or_ignore :: "'w env \<Rightarrow> 'a table \<Rightarrow> (nat \<Rightarrow> 'a) \<Rightarrow> ('w, 'a list) io" where
  "insert_or_ignore E T mk =
     bindM (db_insert_nc E (\<lambda>i. emb T (mk i)))
       (\<lambda>r. returnM (case r of None \<Rightarrow> [] | Some x \<Rightarrow> contents [x] T))"

text \<open>A statement whose rows are not used.\<close>

definition ignore_rows :: "('w, 'a) io \<Rightarrow> ('w, unit) io" where
  "ignore_rows m = thenM m (returnM ())"

text \<open>\<^verbatim>\<open>transaction(async tx => ...)\<close>: an exception rolls the database back.\<close>

definition transaction :: "'w env \<Rightarrow> ('w, 'a) io \<Rightarrow> ('w, 'a) io" where
  "transaction E m w =
     (case fst (m w) of
        Inl e \<Rightarrow> (Inl e, db_rollback E w (snd (m w)))
      | Inr a \<Rightarrow> (Inr a, snd (m w)))"

section \<open>The documented effects\<close>

record store =
  up :: bool
  strs :: "string \<Rightarrow> string option"
  ttls :: "string \<Rightarrow> nat option"
  sets :: "string \<Rightarrow> string list"
  rows :: "row list"
  published :: "(string \<times> json) list"
  jobs :: "(string \<times> request_log_job) list"

text \<open>An integer kept as a Redis string; an absent key counts as zero.\<close>

definition counter_value :: "string option \<Rightarrow> int option" where
  "counter_value v = (case v of None \<Rightarrow> Some 0 | Some s \<Rightarrow> parse_int s)"

lemma counter_value_simps [simp]:
  "counter_value None = Some 0" "counter_value (Some (show_int i)) = Some i"
  by (simp_all add: counter_value_def)

text \<open>A key exists when it holds a string or a set.\<close>

definition key_live :: "store \<Rightarrow> string \<Rightarrow> bool" where
  "key_live s k \<longleftrightarrow> strs s k \<noteq> None \<or> sets s k \<noteq> []"

definition put_str :: "string \<Rightarrow> string \<Rightarrow> nat option \<Rightarrow> store \<Rightarrow> store" where
  "put_str k v t s =
     s\<lparr>strs := (strs s)(k := Some v), ttls := (ttls s)(k := t), sets := (sets s)(k := [])\<rparr>"

definition del_keys :: "string list \<Rightarrow> store \<Rightarrow> store" where
  "del_keys ks s =
     s\<lparr>strs := (\<lambda>k. if k \<in> set ks then None else strs s k),
       ttls := (\<lambda>k. if k \<in> set ks then None else ttls s k),
       sets := (\<lambda>k. if k \<in> set ks then [] else sets s k)\<rparr>"

definition expire_key :: "string \<Rightarrow> nat \<Rightarrow> store \<Rightarrow> store" where
  "expire_key k t s =
     (if \<not> key_live s k then s else s\<lparr>ttls := (ttls s)(k := Some t)\<rparr>)"

definition add_counter :: "string \<Rightarrow> int \<Rightarrow> store \<Rightarrow> store" where
  "add_counter k d s =
     (case counter_value (strs s k) of
        None \<Rightarrow> s
      | Some i \<Rightarrow> s\<lparr>strs := (strs s)(k := Some (show_int (i + d)))\<rparr>)"

definition update_rows :: "(row \<Rightarrow> bool) \<Rightarrow> (row \<Rightarrow> row) \<Rightarrow> row list \<Rightarrow> row list" where
  "update_rows P f rs = map (\<lambda>r. if P r then f r else r) rs"

definition upsert_rows :: "row \<Rightarrow> (row \<Rightarrow> row) \<Rightarrow> row list \<Rightarrow> row list" where
  "upsert_rows n f rs =
     (if list_ex (conflicts n) rs then map (\<lambda>r. if conflicts n r then f r else r) rs
      else rs @ [n])"

text \<open>The serial key of a row, for the tables that have one.\<close>

definition row_id :: "row \<Rightarrow> nat option" where
  "row_id r =
     (case r of
        User x \<Rightarrow> Some (usr_id x) | Project x \<Rightarrow> Some (prj_id x)
      | AccessToken x \<Rightarrow> Some (act_id x) | DeviceToken x \<Rightarrow> Some (dvt_id x)
      | Device x \<Rightarrow> Some (dev_id x) | Role x \<Rightarrow> Some (rol_id x)
      | Permission x \<Rightarrow> Some (prm_id x) | RequestLog x \<Rightarrow> Some (rql_id x)
      | SystemLog x \<Rightarrow> Some (sl_id x) | _ \<Rightarrow> None)"

text \<open>The table a row belongs to: a serial key is fresh within its own table.\<close>

definition table_no :: "row \<Rightarrow> nat" where
  "table_no r =
     (case r of
        User _ \<Rightarrow> 0 | Project _ \<Rightarrow> 1 | AccessToken _ \<Rightarrow> 2 | AccessTokenProject _ \<Rightarrow> 3
      | DeviceToken _ \<Rightarrow> 4 | DeviceTokenProject _ \<Rightarrow> 5 | Device _ \<Rightarrow> 6 | Role _ \<Rightarrow> 7
      | Permission _ \<Rightarrow> 8 | RolePermission _ \<Rightarrow> 9 | UserRole _ \<Rightarrow> 10 | RequestLog _ \<Rightarrow> 11
      | RpcMetric _ \<Rightarrow> 12 | DeviceMetric _ \<Rightarrow> 13 | SystemLog _ \<Rightarrow> 14)"

definition fresh_id :: "row list \<Rightarrow> row \<Rightarrow> nat \<Rightarrow> bool" where
  "fresh_id rs n i \<longleftrightarrow> (\<forall>r \<in> set rs. table_no r = table_no n \<longrightarrow> row_id r \<noteq> Some i)"

text \<open>
  The laws.  Each has the shape: while the services are up, this is the reply and this is the
  store afterwards.
\<close>

locale services =
  fixes E :: "'w env" and view :: "'w \<Rightarrow> store"
  assumes get: "up (view w) \<Longrightarrow> sets (view w) k = [] \<Longrightarrow>
      fst (redis_get E k w) = Inr (strs (view w) k) \<and> view (snd (redis_get E k w)) = view w"
    and set_key: "up (view w) \<Longrightarrow>
      fst (redis_set E k v w) = Inr () \<and> view (snd (redis_set E k v w)) = put_str k v None (view w)"
    and set_ttl: "up (view w) \<Longrightarrow>
      fst (redis_set_ttl E k v t w) = Inr () \<and>
      view (snd (redis_set_ttl E k v t w)) = put_str k v (Some t) (view w)"
    and set_nx: "up (view w) \<Longrightarrow>
      fst (redis_set_nx E k v t w) = Inr (\<not> key_live (view w) k) \<and>
      view (snd (redis_set_nx E k v t w)) =
        (if key_live (view w) k then view w else put_str k v (Some t) (view w))"
    and del: "up (view w) \<Longrightarrow>
      (\<exists>n. fst (redis_del E ks w) = Inr n) \<and> view (snd (redis_del E ks w)) = del_keys ks (view w)"
    and key_exists: "up (view w) \<Longrightarrow>
      fst (redis_exists E k w) = Inr (if key_live (view w) k then 1 else 0) \<and>
      view (snd (redis_exists E k w)) = view w"
    and expire: "up (view w) \<Longrightarrow>
      (\<exists>n. fst (redis_expire E k t w) = Inr n) \<and>
      view (snd (redis_expire E k t w)) = expire_key k t (view w)"
    and incr: "up (view w) \<Longrightarrow> sets (view w) k = [] \<Longrightarrow>
      counter_value (strs (view w) k) = Some i \<Longrightarrow>
      fst (redis_incr E k w) = Inr (i + 1) \<and> view (snd (redis_incr E k w)) = add_counter k 1 (view w)"
    and decr: "up (view w) \<Longrightarrow> sets (view w) k = [] \<Longrightarrow>
      counter_value (strs (view w) k) = Some i \<Longrightarrow>
      fst (redis_decr E k w) = Inr (i - 1) \<and>
      view (snd (redis_decr E k w)) = add_counter k (- 1) (view w)"
    and sadd: "up (view w) \<Longrightarrow> strs (view w) k = None \<Longrightarrow>
      (\<exists>n. fst (redis_sadd E k x w) = Inr n) \<and>
      view (snd (redis_sadd E k x w)) = (view w)\<lparr>sets := (sets (view w))(k := List.insert x (sets (view w) k))\<rparr>"
    and srem: "up (view w) \<Longrightarrow> strs (view w) k = None \<Longrightarrow>
      (\<exists>n. fst (redis_srem E k x w) = Inr n) \<and>
      view (snd (redis_srem E k x w)) = (view w)\<lparr>sets := (sets (view w))(k := removeAll x (sets (view w) k))\<rparr>"
    and smembers: "up (view w) \<Longrightarrow> strs (view w) k = None \<Longrightarrow>
      (\<exists>xs. fst (redis_smembers E k w) = Inr xs \<and> distinct xs \<and> set xs = set (sets (view w) k)) \<and>
      view (snd (redis_smembers E k w)) = view w"
    and publish: "up (view w) \<Longrightarrow>
      fst (redis_publish E c m w) = Inr () \<and>
      view (snd (redis_publish E c m w)) = (view w)\<lparr>published := published (view w) @ [(c, m)]\<rparr>"
    and enqueue: "up (view w) \<Longrightarrow>
      fst (queue_add E q j w) = Inr () \<and>
      view (snd (queue_add E q j w)) = (view w)\<lparr>jobs := jobs (view w) @ [(q, j)]\<rparr>"
    and indexes: "up (view w) \<Longrightarrow> conflict_free (rows (view w))"
    and select: "up (view w) \<Longrightarrow>
      (\<exists>xs. fst (db_select E P w) = Inr xs \<and> mset xs = mset (filter P (rows (view w)))) \<and>
      view (snd (db_select E P w)) = view w"
    and insert: "up (view w) \<Longrightarrow>
      \<exists>i. fresh_id (rows (view w)) (mk i) i \<and>
        (if list_ex (conflicts (mk i)) (rows (view w))
         then fst (db_insert E mk w) = Inl (PgError ''23505'') \<and> view (snd (db_insert E mk w)) = view w
         else fst (db_insert E mk w) = Inr (mk i) \<and>
              view (snd (db_insert E mk w)) = (view w)\<lparr>rows := rows (view w) @ [mk i]\<rparr>)"
    and insert_all: "up (view w) \<Longrightarrow> conflict_free (rows (view w) @ ns) \<Longrightarrow>
      fst (db_insert_all E ns w) = Inr ns \<and>
      view (snd (db_insert_all E ns w)) = (view w)\<lparr>rows := rows (view w) @ ns\<rparr>"
    and insert_all_conflict: "up (view w) \<Longrightarrow> \<not> conflict_free (rows (view w) @ ns) \<Longrightarrow>
      fst (db_insert_all E ns w) = Inl (PgError ''23505'') \<and>
      view (snd (db_insert_all E ns w)) = view w"
    and insert_nc: "up (view w) \<Longrightarrow>
      \<exists>i. fresh_id (rows (view w)) (mk i) i \<and>
        (if list_ex (conflicts (mk i)) (rows (view w))
         then fst (db_insert_nc E mk w) = Inr None \<and> view (snd (db_insert_nc E mk w)) = view w
         else fst (db_insert_nc E mk w) = Inr (Some (mk i)) \<and>
              view (snd (db_insert_nc E mk w)) = (view w)\<lparr>rows := rows (view w) @ [mk i]\<rparr>)"
    and upsert: "up (view w) \<Longrightarrow> conflict_free (upsert_rows n f (rows (view w))) \<Longrightarrow>
      fst (db_upsert E n f w) = Inr () \<and>
      view (snd (db_upsert E n f w)) = (view w)\<lparr>rows := upsert_rows n f (rows (view w))\<rparr>"
    and update: "up (view w) \<Longrightarrow> conflict_free (update_rows P f (rows (view w))) \<Longrightarrow>
      (\<exists>xs. fst (db_update E P f w) = Inr xs \<and> mset xs = mset (map f (filter P (rows (view w))))) \<and>
      view (snd (db_update E P f w)) = (view w)\<lparr>rows := update_rows P f (rows (view w))\<rparr>"
    and update_conflict: "up (view w) \<Longrightarrow> \<not> conflict_free (update_rows P f (rows (view w))) \<Longrightarrow>
      fst (db_update E P f w) = Inl (PgError ''23505'') \<and> view (snd (db_update E P f w)) = view w"
    and delete: "up (view w) \<Longrightarrow>
      (\<exists>xs. fst (db_delete E P w) = Inr xs \<and> mset xs = mset (filter P (rows (view w)))) \<and>
      view (snd (db_delete E P w)) = (view w)\<lparr>rows := filter (\<lambda>r. \<not> P r) (rows (view w))\<rparr>"
    and rollback: "up (view w) \<Longrightarrow> up (view w') \<Longrightarrow>
      view (db_rollback E w w') = (view w')\<lparr>rows := rows (view w)\<rparr>"
    and fetch: "view (snd (http_fetch E u b w)) = view w"
    and uuid: "(\<exists>u. fst (random_uuid E w) = Inr u) \<and> view (snd (random_uuid E w)) = view w"
    and token: "(\<exists>u. fst (random_token E w) = Inr u) \<and> view (snd (random_token E w)) = view w"
    and schedule: "up (view w) \<Longrightarrow>
      fst (queue_repeat E q nm t w) = Inr () \<and> view (snd (queue_repeat E q nm t w)) = view w"

section \<open>Consequences used by every component\<close>

text \<open>
  The program keeps sets under the keys \<^verbatim>\<open>project:clients:*\<close> and strings under all others.
\<close>

definition is_set_key :: "string \<Rightarrow> bool" where
  "is_set_key k \<longleftrightarrow> prefix ''project:clients:'' k"

definition typed_keys :: "store \<Rightarrow> bool" where
  "typed_keys s \<longleftrightarrow>
     (\<forall>k. is_set_key k \<longrightarrow> strs s k = None) \<and> (\<forall>k. \<not> is_set_key k \<longrightarrow> sets s k = [])"

definition healthy :: "store \<Rightarrow> bool" where
  "healthy s \<longleftrightarrow> up s \<and> typed_keys s"

lemma is_set_key_simps [simp]:
  "is_set_key (''project:clients:'' @ k)"
  "\<not> is_set_key (''presence:'' @ k)"
  "\<not> is_set_key (''device:inflight:'' @ k)"
  "\<not> is_set_key (''device:maxinflight:'' @ k)"
  "\<not> is_set_key (''client:session:'' @ k)"
  "\<not> is_set_key (''rpc:rr:'' @ k)"
  "\<not> is_set_key (''rpc:waiter:'' @ k)"
  "\<not> is_set_key (''rpc:completed:'' @ k)"
  "\<not> is_set_key (''invoke:token:'' @ k)"
  "\<not> is_set_key (''ws:devtoken:'' @ k)"
  "\<not> is_set_key (''rbac:authorization:user:'' @ k)"
  by (simp_all add: is_set_key_def)

lemma healthy_up: "healthy s \<Longrightarrow> up s"
  by (simp add: healthy_def)

lemma healthy_string_key: "healthy s \<Longrightarrow> \<not> is_set_key k \<Longrightarrow> sets s k = []"
  by (simp add: healthy_def typed_keys_def)

lemma healthy_set_key: "healthy s \<Longrightarrow> is_set_key k \<Longrightarrow> strs s k = None"
  by (simp add: healthy_def typed_keys_def)

lemma key_live_string [simp]: "healthy s \<Longrightarrow> \<not> is_set_key k \<Longrightarrow> key_live s k \<longleftrightarrow> strs s k \<noteq> None"
  by (simp add: key_live_def healthy_string_key)

lemma put_str_sel [simp]:
  "up (put_str k v t s) = up s" "strs (put_str k v t s) = (strs s)(k := Some v)"
  "ttls (put_str k v t s) = (ttls s)(k := t)" "sets (put_str k v t s) = (sets s)(k := [])"
  "rows (put_str k v t s) = rows s" "published (put_str k v t s) = published s"
  "jobs (put_str k v t s) = jobs s"
  by (simp_all add: put_str_def)

lemma del_keys_sel [simp]:
  "up (del_keys ks s) = up s"
  "strs (del_keys ks s) = (\<lambda>k. if k \<in> set ks then None else strs s k)"
  "ttls (del_keys ks s) = (\<lambda>k. if k \<in> set ks then None else ttls s k)"
  "sets (del_keys ks s) = (\<lambda>k. if k \<in> set ks then [] else sets s k)"
  "rows (del_keys ks s) = rows s" "published (del_keys ks s) = published s"
  "jobs (del_keys ks s) = jobs s"
  by (simp_all add: del_keys_def)

lemma expire_key_sel [simp]:
  "up (expire_key k t s) = up s" "strs (expire_key k t s) = strs s"
  "sets (expire_key k t s) = sets s" "rows (expire_key k t s) = rows s"
  "published (expire_key k t s) = published s" "jobs (expire_key k t s) = jobs s"
  by (simp_all add: expire_key_def)

lemma add_counter_sel [simp]:
  "up (add_counter k d s) = up s" "sets (add_counter k d s) = sets s"
  "ttls (add_counter k d s) = ttls s" "rows (add_counter k d s) = rows s"
  "published (add_counter k d s) = published s" "jobs (add_counter k d s) = jobs s"
  by (simp_all add: add_counter_def split: option.splits)

lemma strs_add_counter:
  "counter_value (strs s k) = Some i \<Longrightarrow>
     strs (add_counter k d s) = (strs s)(k := Some (show_int (i + d)))"
  by (simp add: add_counter_def)

lemma healthy_put_str [simp]: "healthy s \<Longrightarrow> \<not> is_set_key k \<Longrightarrow> healthy (put_str k v t s)"
  by (auto simp: healthy_def typed_keys_def)

lemma healthy_del_keys [simp]: "healthy s \<Longrightarrow> healthy (del_keys ks s)"
  by (auto simp: healthy_def typed_keys_def)

lemma healthy_expire_key [simp]: "healthy s \<Longrightarrow> healthy (expire_key k t s)"
  by (auto simp: healthy_def typed_keys_def)

lemma healthy_add_counter [simp]: "healthy s \<Longrightarrow> \<not> is_set_key k \<Longrightarrow> healthy (add_counter k d s)"
  by (auto simp: healthy_def typed_keys_def add_counter_def split: option.splits)

lemma healthy_sets [simp]:
  "healthy s \<Longrightarrow> is_set_key k \<Longrightarrow> healthy (s\<lparr>sets := (sets s)(k := xs)\<rparr>)"
  by (auto simp: healthy_def typed_keys_def)

lemma healthy_frames [simp]:
  "healthy (s\<lparr>rows := rs\<rparr>) = healthy s" "healthy (s\<lparr>published := ps\<rparr>) = healthy s"
  "healthy (s\<lparr>jobs := js\<rparr>) = healthy s"
  by (simp_all add: healthy_def typed_keys_def)

declare healthy_up [simp] healthy_string_key [simp] healthy_set_key [simp]

lemma contents_mset: "mset rs = mset ss \<Longrightarrow> mset (contents rs T) = mset (contents ss T)"
  by (metis contents_def map_filter_def mset_filter mset_map)

lemma contents_map_table:
  assumes "table_ok T"
  shows "contents (map (map_table T f) (filter (on_table T P) rs)) T =
    map f (filter P (contents rs T))"
  using assms
  by (induction rs) (auto simp: on_table_def map_table_def table_ok_def split: option.splits)

text \<open>
  An update keeps the unique indexes when it creates no new conflict between two rows: that is
  the case of every update that leaves the indexed columns alone, and of a soft delete.
\<close>

lemma conflict_free_update:
  assumes "conflict_free rs"
    and "\<And>r s. conflicts (if P r then f r else r) (if P s then f s else s) \<Longrightarrow> conflicts r s"
  shows "conflict_free (update_rows P f rs)"
  using assms(1) unfolding conflict_free_def update_rows_def sorted_wrt_map
  by (rule sorted_wrt_mono_rel [rotated]) (use assms(2) in blast)

context services
begin

lemma run_get [simp]:
  "healthy (view w) \<Longrightarrow> \<not> is_set_key k \<Longrightarrow> fst (redis_get E k w) = Inr (strs (view w) k)"
  "healthy (view w) \<Longrightarrow> \<not> is_set_key k \<Longrightarrow> view (snd (redis_get E k w)) = view w"
  using get [of w k] by simp_all

lemma run_set [simp]:
  "healthy (view w) \<Longrightarrow> fst (redis_set E k v w) = Inr ()"
  "healthy (view w) \<Longrightarrow> view (snd (redis_set E k v w)) = put_str k v None (view w)"
  using set_key by simp_all

lemma run_set_ttl [simp]:
  "healthy (view w) \<Longrightarrow> fst (redis_set_ttl E k v t w) = Inr ()"
  "healthy (view w) \<Longrightarrow> view (snd (redis_set_ttl E k v t w)) = put_str k v (Some t) (view w)"
  using set_ttl by simp_all

lemma run_set_nx [simp]:
  "healthy (view w) \<Longrightarrow> \<not> is_set_key k \<Longrightarrow>
     fst (redis_set_nx E k v t w) = Inr (strs (view w) k = None)"
  "healthy (view w) \<Longrightarrow> \<not> is_set_key k \<Longrightarrow>
     view (snd (redis_set_nx E k v t w)) =
       (if strs (view w) k = None then put_str k v (Some t) (view w) else view w)"
  using set_nx [of w k v t] by simp_all

lemma run_del [simp]:
  "healthy (view w) \<Longrightarrow> \<not> isl (fst (redis_del E ks w))"
  "healthy (view w) \<Longrightarrow> view (snd (redis_del E ks w)) = del_keys ks (view w)"
  using del [of w ks] by auto

lemma run_exists [simp]:
  "healthy (view w) \<Longrightarrow> \<not> is_set_key k \<Longrightarrow>
     fst (redis_exists E k w) = Inr (if strs (view w) k = None then 0 else 1)"
  "healthy (view w) \<Longrightarrow> \<not> is_set_key k \<Longrightarrow> view (snd (redis_exists E k w)) = view w"
  using key_exists [of w k] by simp_all

lemma run_expire [simp]:
  "healthy (view w) \<Longrightarrow> \<not> isl (fst (redis_expire E k t w))"
  "healthy (view w) \<Longrightarrow> view (snd (redis_expire E k t w)) = expire_key k t (view w)"
  using expire [of w k t] by auto

lemma run_incr [simp]:
  "healthy (view w) \<Longrightarrow> \<not> is_set_key k \<Longrightarrow> counter_value (strs (view w) k) = Some i \<Longrightarrow>
     fst (redis_incr E k w) = Inr (i + 1)"
  "healthy (view w) \<Longrightarrow> \<not> is_set_key k \<Longrightarrow> counter_value (strs (view w) k) = Some i \<Longrightarrow>
     view (snd (redis_incr E k w)) = add_counter k 1 (view w)"
  using incr [of w k i] by simp_all

lemma run_decr [simp]:
  "healthy (view w) \<Longrightarrow> \<not> is_set_key k \<Longrightarrow> counter_value (strs (view w) k) = Some i \<Longrightarrow>
     fst (redis_decr E k w) = Inr (i - 1)"
  "healthy (view w) \<Longrightarrow> \<not> is_set_key k \<Longrightarrow> counter_value (strs (view w) k) = Some i \<Longrightarrow>
     view (snd (redis_decr E k w)) = add_counter k (- 1) (view w)"
  using decr [of w k i] by simp_all

lemma run_sadd [simp]:
  "healthy (view w) \<Longrightarrow> is_set_key k \<Longrightarrow> \<not> isl (fst (redis_sadd E k x w))"
  "healthy (view w) \<Longrightarrow> is_set_key k \<Longrightarrow>
     view (snd (redis_sadd E k x w)) =
       (view w)\<lparr>sets := (sets (view w))(k := List.insert x (sets (view w) k))\<rparr>"
  using sadd [of w k x] by auto

lemma run_srem [simp]:
  "healthy (view w) \<Longrightarrow> is_set_key k \<Longrightarrow> \<not> isl (fst (redis_srem E k x w))"
  "healthy (view w) \<Longrightarrow> is_set_key k \<Longrightarrow>
     view (snd (redis_srem E k x w)) =
       (view w)\<lparr>sets := (sets (view w))(k := removeAll x (sets (view w) k))\<rparr>"
  using srem [of w k x] by auto

lemma run_smembers [simp]:
  "healthy (view w) \<Longrightarrow> is_set_key k \<Longrightarrow> \<not> isl (fst (redis_smembers E k w))"
  "healthy (view w) \<Longrightarrow> is_set_key k \<Longrightarrow>
     set (projr (fst (redis_smembers E k w))) = set (sets (view w) k)"
  "healthy (view w) \<Longrightarrow> is_set_key k \<Longrightarrow> distinct (projr (fst (redis_smembers E k w)))"
  "healthy (view w) \<Longrightarrow> is_set_key k \<Longrightarrow> view (snd (redis_smembers E k w)) = view w"
  using smembers [of w k] by (metis healthy_def healthy_set_key sum.disc(2) sum.sel(2))+

lemma run_publish [simp]:
  "healthy (view w) \<Longrightarrow> fst (redis_publish E c m w) = Inr ()"
  "healthy (view w) \<Longrightarrow>
     view (snd (redis_publish E c m w)) = (view w)\<lparr>published := published (view w) @ [(c, m)]\<rparr>"
  using publish by simp_all

lemma run_enqueue [simp]:
  "healthy (view w) \<Longrightarrow> fst (queue_add E q j w) = Inr ()"
  "healthy (view w) \<Longrightarrow>
     view (snd (queue_add E q j w)) = (view w)\<lparr>jobs := jobs (view w) @ [(q, j)]\<rparr>"
  using enqueue by simp_all

lemma run_schedule [simp]:
  "healthy (view w) \<Longrightarrow> fst (queue_repeat E q n t w) = Inr ()"
  "healthy (view w) \<Longrightarrow> view (snd (queue_repeat E q n t w)) = view w"
  using schedule by simp_all

lemma run_random [simp]:
  "\<not> isl (fst (random_uuid E w))" "view (snd (random_uuid E w)) = view w"
  "\<not> isl (fst (random_token E w))" "view (snd (random_token E w)) = view w"
  using uuid [of w] token [of w] by auto

text \<open>Queries on one table.\<close>

lemma run_select [simp]:
  assumes "healthy (view w)"
  shows "\<not> isl (fst (select_from E T P w))"
    and "view (snd (select_from E T P w)) = view w"
    and "mset (projr (fst (select_from E T P w))) = filter_mset P (mset (contents (rows (view w)) T))"
proof -
  obtain xs where xs: "fst (db_select E (on_table T P) w) = Inr xs"
    and m: "mset xs = mset (filter (on_table T P) (rows (view w)))"
    using select [of w "on_table T P"] assms by auto
  show "\<not> isl (fst (select_from E T P w))"
    by (simp add: select_from_def io_simps xs)
  show "view (snd (select_from E T P w)) = view w"
    using select [of w "on_table T P"] assms by (simp add: select_from_def io_simps xs)
  have "mset (contents xs T) = mset (contents (filter (on_table T P) (rows (view w))) T)"
    by (rule contents_mset [OF m])
  then show "mset (projr (fst (select_from E T P w))) = filter_mset P (mset (contents (rows (view w)) T))"
    by (simp add: select_from_def io_simps xs contents_filter)
qed

lemma run_update:
  assumes "healthy (view w)" and T: "table_ok T"
    and cf: "conflict_free (update_rows (on_table T P) (map_table T f) (rows (view w)))"
  shows "\<not> isl (fst (update_table E T P f w))"
    and "view (snd (update_table E T P f w)) =
      (view w)\<lparr>rows := update_rows (on_table T P) (map_table T f) (rows (view w))\<rparr>"
    and "mset (projr (fst (update_table E T P f w))) =
      image_mset f (filter_mset P (mset (contents (rows (view w)) T)))"
proof -
  obtain xs where xs: "fst (db_update E (on_table T P) (map_table T f) w) = Inr xs"
    and m: "mset xs = mset (map (map_table T f) (filter (on_table T P) (rows (view w))))"
    using update [OF _ cf] assms by auto
  show "\<not> isl (fst (update_table E T P f w))"
    by (simp add: update_table_def io_simps xs)
  show "view (snd (update_table E T P f w)) =
      (view w)\<lparr>rows := update_rows (on_table T P) (map_table T f) (rows (view w))\<rparr>"
    using update [OF _ cf] assms by (simp add: update_table_def io_simps xs)
  have "mset (contents xs T) =
      mset (contents (map (map_table T f) (filter (on_table T P) (rows (view w)))) T)"
    by (rule contents_mset [OF m])
  then show "mset (projr (fst (update_table E T P f w))) =
      image_mset f (filter_mset P (mset (contents (rows (view w)) T)))"
    by (simp add: update_table_def io_simps xs contents_map_table [OF T])
qed

lemma run_update_conflict:
  assumes "healthy (view w)"
    and cf: "\<not> conflict_free (update_rows (on_table T P) (map_table T f) (rows (view w)))"
  shows "fst (update_table E T P f w) = Inl (PgError ''23505'')"
    and "view (snd (update_table E T P f w)) = view w"
  using update_conflict [OF _ cf] assms by (simp_all add: update_table_def io_simps)

lemma run_delete [simp]:
  assumes "healthy (view w)"
  shows "\<not> isl (fst (delete_from E T P w))"
    and "view (snd (delete_from E T P w)) =
      (view w)\<lparr>rows := filter (\<lambda>r. \<not> on_table T P r) (rows (view w))\<rparr>"
    and "mset (projr (fst (delete_from E T P w))) =
      filter_mset P (mset (contents (rows (view w)) T))"
proof -
  obtain xs where xs: "fst (db_delete E (on_table T P) w) = Inr xs"
    and m: "mset xs = mset (filter (on_table T P) (rows (view w)))"
    using delete [of w "on_table T P"] assms by auto
  show "\<not> isl (fst (delete_from E T P w))"
    by (simp add: delete_from_def io_simps xs)
  show "view (snd (delete_from E T P w)) =
      (view w)\<lparr>rows := filter (\<lambda>r. \<not> on_table T P r) (rows (view w))\<rparr>"
    using delete [of w "on_table T P"] assms by (simp add: delete_from_def io_simps xs)
  show "mset (projr (fst (delete_from E T P w))) =
      filter_mset P (mset (contents (rows (view w)) T))"
    using contents_mset [OF m, of T] by (simp add: delete_from_def io_simps xs contents_filter)
qed

lemma run_insert:
  assumes "healthy (view w)" and T: "table_ok T"
  shows "\<exists>i. fresh_id (rows (view w)) (emb T (mk i)) i \<and>
    (if list_ex (conflicts (emb T (mk i))) (rows (view w))
     then fst (insert_into E T mk w) = Inl (PgError ''23505'') \<and>
          view (snd (insert_into E T mk w)) = view w
     else fst (insert_into E T mk w) = Inr [mk i] \<and>
          view (snd (insert_into E T mk w)) = (view w)\<lparr>rows := rows (view w) @ [emb T (mk i)]\<rparr>)"
  using insert [of w "\<lambda>i. emb T (mk i)"] assms
  by (auto simp: insert_into_def io_simps table_ok_def split: if_splits)

lemma run_insert_or_ignore:
  assumes "healthy (view w)" and T: "table_ok T"
  shows "\<exists>i. fresh_id (rows (view w)) (emb T (mk i)) i \<and>
    (if list_ex (conflicts (emb T (mk i))) (rows (view w))
     then fst (insert_or_ignore E T mk w) = Inr [] \<and>
          view (snd (insert_or_ignore E T mk w)) = view w
     else fst (insert_or_ignore E T mk w) = Inr [mk i] \<and>
          view (snd (insert_or_ignore E T mk w)) =
            (view w)\<lparr>rows := rows (view w) @ [emb T (mk i)]\<rparr>)"
  using insert_nc [of w "\<lambda>i. emb T (mk i)"] assms
  by (auto simp: insert_or_ignore_def io_simps table_ok_def split: if_splits)

end

end
