(* ===== verification/Reference_Env.thy ===== *)
theory Reference_Env
  imports Environment
begin

text \<open>
  A concrete instance of the services: an in-memory store whose clocks stand still and whose
  commands all fail while \<open>up\<close> is false.  It shows that the laws of \<open>services\<close> can hold
  together, and the examples of the development run on it.
\<close>

record sim =
  sim_store :: store
  sim_now :: int
  sim_pg_now :: int
  sim_random :: nat
  sim_http :: "string \<Rightarrow> json \<Rightarrow> exn + http_response"

definition sim_view :: "sim \<Rightarrow> store" where
  "sim_view w =
     (if conflict_free (rows (sim_store w)) then sim_store w else (sim_store w)\<lparr>up := False\<rparr>)"

text \<open>A command: its reply and its new store, computed from the old store, while up.\<close>

definition sim_cmd :: "(store \<Rightarrow> (exn + 'a) \<times> store) \<Rightarrow> (sim, 'a) io" where
  "sim_cmd f w =
     (if up (sim_view w) then (fst (f (sim_store w)), w\<lparr>sim_store := snd (f (sim_store w))\<rparr>)
      else (Inl Infra, w))"

definition wrong_type :: "store \<Rightarrow> (exn + 'a) \<times> store" where
  "wrong_type s = (Inl Infra, s)"

definition sim_add :: "string \<Rightarrow> int \<Rightarrow> store \<Rightarrow> (exn + int) \<times> store" where
  "sim_add k d s =
     (if sets s k \<noteq> [] then wrong_type s
      else case counter_value (strs s k) of
             None \<Rightarrow> wrong_type s
           | Some i \<Rightarrow> (Inr (i + d), add_counter k d s))"

text \<open>The next serial key: above every key in use.\<close>

definition next_id :: "row list \<Rightarrow> nat" where
  "next_id rs = Suc (foldr (\<lambda>r m. case row_id r of None \<Rightarrow> m | Some i \<Rightarrow> max i m) rs 0)"

definition sim_insert :: "(nat \<Rightarrow> row) \<Rightarrow> store \<Rightarrow> (exn + row) \<times> store" where
  "sim_insert mk s =
     (let n = mk (next_id (rows s)) in
      if list_ex (conflicts n) (rows s) then (Inl (PgError ''23505''), s)
      else (Inr n, s\<lparr>rows := rows s @ [n]\<rparr>))"

definition sim_insert_nc :: "(nat \<Rightarrow> row) \<Rightarrow> store \<Rightarrow> (exn + row option) \<times> store" where
  "sim_insert_nc mk s =
     (let n = mk (next_id (rows s)) in
      if list_ex (conflicts n) (rows s) then (Inr None, s)
      else (Inr (Some n), s\<lparr>rows := rows s @ [n]\<rparr>))"

text \<open>A statement that would break a unique index fails and changes nothing.\<close>

definition guarded :: "row list \<Rightarrow> 'a \<Rightarrow> store \<Rightarrow> (exn + 'a) \<times> store" where
  "guarded rs a s = (if conflict_free rs then (Inr a, s\<lparr>rows := rs\<rparr>) else (Inl (PgError ''23505''), s))"

definition sim_env :: "sim env" where
  "sim_env = \<lparr>
    redis_get = (\<lambda>k. sim_cmd (\<lambda>s. if sets s k \<noteq> [] then wrong_type s else (Inr (strs s k), s))),
    redis_set = (\<lambda>k v. sim_cmd (\<lambda>s. (Inr (), put_str k v None s))),
    redis_set_ttl = (\<lambda>k v t. sim_cmd (\<lambda>s. (Inr (), put_str k v (Some t) s))),
    redis_set_nx = (\<lambda>k v t. sim_cmd (\<lambda>s.
      if key_live s k then (Inr False, s) else (Inr True, put_str k v (Some t) s))),
    redis_del = (\<lambda>ks. sim_cmd (\<lambda>s. (Inr (length (filter (key_live s) ks)), del_keys ks s))),
    redis_exists = (\<lambda>k. sim_cmd (\<lambda>s. (Inr (if key_live s k then 1 else 0), s))),
    redis_expire = (\<lambda>k t. sim_cmd (\<lambda>s. (Inr (if key_live s k then 1 else 0), expire_key k t s))),
    redis_incr = (\<lambda>k. sim_cmd (sim_add k 1)),
    redis_decr = (\<lambda>k. sim_cmd (sim_add k (- 1))),
    redis_sadd = (\<lambda>k x. sim_cmd (\<lambda>s.
      if strs s k \<noteq> None then wrong_type s
      else (Inr (if x \<in> set (sets s k) then 0 else 1),
            s\<lparr>sets := (sets s)(k := List.insert x (sets s k))\<rparr>))),
    redis_srem = (\<lambda>k x. sim_cmd (\<lambda>s.
      if strs s k \<noteq> None then wrong_type s
      else (Inr (if x \<in> set (sets s k) then 1 else 0),
            s\<lparr>sets := (sets s)(k := removeAll x (sets s k))\<rparr>))),
    redis_smembers = (\<lambda>k. sim_cmd (\<lambda>s.
      if strs s k \<noteq> None then wrong_type s else (Inr (remdups (sets s k)), s))),
    redis_publish = (\<lambda>c m. sim_cmd (\<lambda>s. (Inr (), s\<lparr>published := published s @ [(c, m)]\<rparr>))),
    queue_add = (\<lambda>q j. sim_cmd (\<lambda>s. (Inr (), s\<lparr>jobs := jobs s @ [(q, j)]\<rparr>))),
    queue_repeat = (\<lambda>q n t. sim_cmd (\<lambda>s. (Inr (), s))),
    db_select = (\<lambda>P. sim_cmd (\<lambda>s. (Inr (filter P (rows s)), s))),
    db_insert = (\<lambda>mk. sim_cmd (sim_insert mk)),
    db_insert_all = (\<lambda>ns. sim_cmd (\<lambda>s. guarded (rows s @ ns) ns s)),
    db_insert_nc = (\<lambda>mk. sim_cmd (sim_insert_nc mk)),
    db_upsert = (\<lambda>n f. sim_cmd (\<lambda>s. guarded (upsert_rows n f (rows s)) () s)),
    db_update = (\<lambda>P f. sim_cmd (\<lambda>s.
      guarded (update_rows P f (rows s)) (map f (filter P (rows s))) s)),
    db_delete = (\<lambda>P. sim_cmd (\<lambda>s.
      (Inr (filter P (rows s)), s\<lparr>rows := filter (\<lambda>r. \<not> P r) (rows s)\<rparr>))),
    db_rollback = (\<lambda>w w'. w'\<lparr>sim_store := (sim_store w')\<lparr>rows := rows (sim_store w)\<rparr>\<rparr>),
    http_fetch = (\<lambda>u b w. (sim_http w u b, w)),
    random_uuid = (\<lambda>w. (Inr (''uuid-'' @ show_nat (sim_random w)), w\<lparr>sim_random := Suc (sim_random w)\<rparr>)),
    random_token = (\<lambda>w. (Inr (''token-'' @ show_nat (sim_random w)), w\<lparr>sim_random := Suc (sim_random w)\<rparr>)),
    sha256_hex = (\<lambda>x. ''sha256:'' @ x),
    now_ms = sim_now,
    pg_now = sim_pg_now\<rparr>"

section \<open>It satisfies the laws\<close>

lemma sim_view_up: "up (sim_view w) \<Longrightarrow> sim_view w = sim_store w \<and> conflict_free (rows (sim_store w))"
  by (auto simp: sim_view_def split: if_splits)

lemma sim_view_intro: "conflict_free (rows s) \<Longrightarrow> sim_view (w\<lparr>sim_store := s\<rparr>) = s"
  by (simp add: sim_view_def)

text \<open>What a simulated command does to the view, when it keeps the indexes.\<close>

lemma sim_cmd_run:
  assumes "up (sim_view w)" and "conflict_free (rows (snd (f (sim_view w))))"
  shows "fst (sim_cmd f w) = fst (f (sim_view w))"
    and "sim_view (snd (sim_cmd f w)) = snd (f (sim_view w))"
  using assms sim_view_up [of w] by (auto simp: sim_cmd_def sim_view_intro)

lemma row_id_below_next_id:
  "r \<in> set rs \<Longrightarrow> row_id r = Some i \<Longrightarrow> i < next_id rs"
  unfolding next_id_def
  by (induction rs) (auto simp: less_Suc_eq_le le_max_iff_disj split: option.splits)

lemma fresh_next_id: "fresh_id rs n (next_id rs)"
  using row_id_below_next_id by (fastforce simp: fresh_id_def)

lemma conflicts_symmetric: "conflicts r s \<longleftrightarrow> conflicts s r"
  by (cases r; cases s) (auto simp: conflicts_def conflict_defs)

lemma conflict_free_append:
  "conflict_free (rs @ [n]) \<longleftrightarrow> conflict_free rs \<and> \<not> list_ex (conflicts n) rs"
  by (auto simp: conflict_free_def sorted_wrt_append list_ex_iff conflicts_symmetric)

lemma conflict_free_filter: "conflict_free rs \<Longrightarrow> conflict_free (filter P rs)"
  by (simp add: conflict_free_def sorted_wrt_filter)

lemma sim_indexes: "up (sim_view w) \<Longrightarrow> conflict_free (rows (sim_view w))"
  by (auto simp: sim_view_def split: if_splits)

lemma sim_random_view [simp]: "sim_view (w\<lparr>sim_random := n\<rparr>) = sim_view w"
  by (simp add: sim_view_def)

lemma sim_services: "services sim_env sim_view"
proof (unfold_locales, goal_cases)
  case (1 w k)
  then show ?case by (simp add: sim_env_def sim_cmd_run sim_indexes)
next
  case (2 w k v)
  then show ?case by (simp add: sim_env_def sim_cmd_run sim_indexes)
next
  case (3 w k v t)
  then show ?case by (simp add: sim_env_def sim_cmd_run sim_indexes)
next
  case (4 w k v t)
  then show ?case by (simp add: sim_env_def sim_cmd_run sim_indexes)
next
  case (5 w ks)
  then show ?case by (simp add: sim_env_def sim_cmd_run sim_indexes)
next
  case (6 w k)
  then show ?case by (simp add: sim_env_def sim_cmd_run sim_indexes)
next
  case (7 w k t)
  then show ?case by (simp add: sim_env_def sim_cmd_run sim_indexes)
next
  case (8 w k i)
  then show ?case
    using sim_cmd_run [of w "sim_add k 1"] sim_view_up [of w] by (simp add: sim_env_def sim_add_def)
next
  case (9 w k i)
  then show ?case
    using sim_cmd_run [of w "sim_add k (- 1)"] sim_view_up [of w]
    by (simp add: sim_env_def sim_add_def)
next
  case (10 w k x)
  then show ?case by (simp add: sim_env_def sim_cmd_run sim_indexes)
next
  case (11 w k x)
  then show ?case by (simp add: sim_env_def sim_cmd_run sim_indexes)
next
  case (12 w k)
  then show ?case by (simp add: sim_env_def sim_cmd_run sim_indexes)
next
  case (13 w c m)
  then show ?case by (simp add: sim_env_def sim_cmd_run sim_indexes)
next
  case (14 w q j)
  then show ?case by (simp add: sim_env_def sim_cmd_run sim_indexes)
next
  case (15 w)
  then show ?case using sim_view_up [of w] by simp
next
  case (16 w P)
  then show ?case by (simp add: sim_env_def sim_cmd_run sim_indexes)
next
  case (17 w mk)
  let ?i = "next_id (rows (sim_view w))"
  have "sim_insert mk (sim_view w) =
      (if list_ex (conflicts (mk ?i)) (rows (sim_view w)) then (Inl (PgError ''23505''), sim_view w)
       else (Inr (mk ?i), (sim_view w)\<lparr>rows := rows (sim_view w) @ [mk ?i]\<rparr>))"
    by (simp add: sim_insert_def Let_def)
  then show ?case
    using sim_cmd_run [of w "sim_insert mk"] sim_view_up [OF 17] 17 fresh_next_id
    by (intro exI [of _ ?i]) (auto simp: sim_env_def conflict_free_append)
next
  case (18 w ns)
  then show ?case
    using sim_cmd_run [of w "\<lambda>s. guarded (rows s @ ns) ns s"] by (simp add: sim_env_def guarded_def)
next
  case (19 w ns)
  then show ?case
    using sim_cmd_run [of w "\<lambda>s. guarded (rows s @ ns) ns s"] sim_view_up [of w]
    by (simp add: sim_env_def guarded_def)
next
  case (20 w mk)
  let ?i = "next_id (rows (sim_view w))"
  have "sim_insert_nc mk (sim_view w) =
      (if list_ex (conflicts (mk ?i)) (rows (sim_view w)) then (Inr None, sim_view w)
       else (Inr (Some (mk ?i)), (sim_view w)\<lparr>rows := rows (sim_view w) @ [mk ?i]\<rparr>))"
    by (simp add: sim_insert_nc_def Let_def)
  then show ?case
    using sim_cmd_run [of w "sim_insert_nc mk"] sim_view_up [OF 20] 20 fresh_next_id
    by (intro exI [of _ ?i]) (auto simp: sim_env_def conflict_free_append)
next
  case (21 w n f)
  then show ?case
    using sim_cmd_run [of w "\<lambda>s. guarded (upsert_rows n f (rows s)) () s"]
    by (simp add: sim_env_def guarded_def)
next
  case (22 w P f)
  then show ?case
    using sim_cmd_run [of w "\<lambda>s. guarded (update_rows P f (rows s)) (map f (filter P (rows s))) s"]
    by (simp add: sim_env_def guarded_def)
next
  case (23 w P f)
  then show ?case
    using sim_cmd_run [of w "\<lambda>s. guarded (update_rows P f (rows s)) (map f (filter P (rows s))) s"]
      sim_view_up [of w]
    by (simp add: sim_env_def guarded_def)
next
  case (24 w P)
  then show ?case
    using sim_cmd_run [of w "\<lambda>s. (Inr (filter P (rows s)), s\<lparr>rows := filter (\<lambda>r. \<not> P r) (rows s)\<rparr>)"]
      sim_view_up [of w] conflict_free_filter
    by (simp add: sim_env_def)
next
  case (25 w w')
  then show ?case
    using sim_view_up [of w] sim_view_up [of w'] by (simp add: sim_env_def sim_view_intro)
next
  case (26 u b w)
  then show ?case by (simp add: sim_env_def)
next
  case (27 w)
  then show ?case by (simp add: sim_env_def)
next
  case (28 w)
  then show ?case by (simp add: sim_env_def)
next
  case (29 w q n t)
  then show ?case by (simp add: sim_env_def sim_cmd_run sim_indexes)
qed

interpretation sim: services sim_env sim_view
  by (rule sim_services)

text \<open>A healthy empty world, the start of the examples.\<close>

definition empty_store :: store where
  "empty_store = \<lparr>up = True, strs = (\<lambda>_. None), ttls = (\<lambda>_. None), sets = (\<lambda>_. []), rows = [],
     published = [], jobs = []\<rparr>"

definition sim_start :: sim where
  "sim_start = \<lparr>sim_store = empty_store, sim_now = 1000, sim_pg_now = 1000, sim_random = 0,
     sim_http = (\<lambda>_ _. Inl Infra)\<rparr>"

lemma conflict_free_Nil [simp]: "conflict_free []"
  by (simp add: conflict_free_def)

lemma conflict_free_Cons [simp]:
  "conflict_free (r # rs) \<longleftrightarrow> (\<forall>s \<in> set rs. \<not> conflicts r s) \<and> conflict_free rs"
  by (simp add: conflict_free_def)

end
