(* ===== verification/Presence.thy ===== *)
theory Presence
  imports Json_Text Reference_Env
begin

text \<open>
  \<^verbatim>\<open>infrastructure/ws/presence.service.ts\<close>: the mirror in Redis of which devices are online
  and how many calls each is serving.  Four families of keys carry it: \<^verbatim>\<open>presence:<client>\<close>
  with the lifetime a heartbeat renews, the set \<^verbatim>\<open>project:clients:<project>\<close> of candidates,
  the counter \<^verbatim>\<open>device:inflight:<client>\<close> of calls in flight with its declared maximum
  \<^verbatim>\<open>device:maxinflight:<client>\<close>, and the round-robin cursor \<^verbatim>\<open>rpc:rr:<project>\<close>.

  \<open>try_acquire_run\<close>, \<open>listOnline_run\<close> and \<open>pick_loop_run\<close> give each operation's reply and effect
  on the view of a healthy world; the properties are read off them.
\<close>

section \<open>Keys and constants\<close>

definition PRESENCE_TIME_TO_LIVE_SECONDS :: nat where
  "PRESENCE_TIME_TO_LIVE_SECONDS = 30"

definition DEFAULT_IN_FLIGHT_CAPACITY :: int where
  "DEFAULT_IN_FLIGHT_CAPACITY = 16"

definition MINIMUM_IN_FLIGHT_CAPACITY :: int where
  "MINIMUM_IN_FLIGHT_CAPACITY = 1"

definition MAXIMUM_IN_FLIGHT_CAPACITY :: int where
  "MAXIMUM_IN_FLIGHT_CAPACITY = 1024"

definition presence_key :: "string \<Rightarrow> string" where
  "presence_key c = ''presence:'' @ c"

definition inflight_key :: "string \<Rightarrow> string" where
  "inflight_key c = ''device:inflight:'' @ c"

definition maxinflight_key :: "string \<Rightarrow> string" where
  "maxinflight_key c = ''device:maxinflight:'' @ c"

definition clients_key :: "nat \<Rightarrow> string" where
  "clients_key p = ''project:clients:'' @ show_nat p"

definition cursor_key :: "nat \<Rightarrow> string" where
  "cursor_key p = ''rpc:rr:'' @ show_nat p"

lemmas presence_keys =
  presence_key_def inflight_key_def maxinflight_key_def clients_key_def cursor_key_def

lemma presence_key_types [simp]:
  "\<not> is_set_key (presence_key c)" "\<not> is_set_key (inflight_key c)"
  "\<not> is_set_key (maxinflight_key c)" "is_set_key (clients_key p)" "\<not> is_set_key (cursor_key p)"
  by (simp_all add: presence_keys is_set_key_def)

lemma presence_key_families [simp]:
  "presence_key c \<noteq> inflight_key d" "presence_key c \<noteq> maxinflight_key d"
  "presence_key c \<noteq> clients_key p" "presence_key c \<noteq> cursor_key p"
  "inflight_key c \<noteq> presence_key d" "inflight_key c \<noteq> maxinflight_key d"
  "inflight_key c \<noteq> clients_key p" "inflight_key c \<noteq> cursor_key p"
  "maxinflight_key c \<noteq> presence_key d" "maxinflight_key c \<noteq> inflight_key d"
  "maxinflight_key c \<noteq> clients_key p" "maxinflight_key c \<noteq> cursor_key p"
  "clients_key p \<noteq> presence_key d" "clients_key p \<noteq> inflight_key d"
  "clients_key p \<noteq> maxinflight_key d" "clients_key p \<noteq> cursor_key q"
  "cursor_key p \<noteq> presence_key d" "cursor_key p \<noteq> inflight_key d"
  "cursor_key p \<noteq> maxinflight_key d" "cursor_key p \<noteq> clients_key q"
  by (simp_all add: presence_keys is_set_key_def)

lemma presence_key_inject [simp]:
  "presence_key c = presence_key d \<longleftrightarrow> c = d" "inflight_key c = inflight_key d \<longleftrightarrow> c = d"
  "maxinflight_key c = maxinflight_key d \<longleftrightarrow> c = d" "clients_key p = clients_key q \<longleftrightarrow> p = q"
  "cursor_key p = cursor_key q \<longleftrightarrow> p = q"
  by (simp_all add: presence_keys is_set_key_def)

section \<open>Operations\<close>

text \<open>\<^verbatim>\<open>JSON.stringify(projectIds)\<close>.\<close>

definition json_ids :: "nat list \<Rightarrow> string" where
  "json_ids ps = stringify (JArr (map (\<lambda>p. JNum (of_nat p)) ps))"

definition online :: "'w env \<Rightarrow> string \<Rightarrow> nat list \<Rightarrow> ('w, unit) io" where
  "online E clientId projectIds =
     thenM (redis_set_ttl E (presence_key clientId) (json_ids projectIds)
              (seconds PRESENCE_TIME_TO_LIVE_SECONDS))
       (forM projectIds (\<lambda>p. redis_sadd E (clients_key p) clientId))"

definition refresh :: "'w env \<Rightarrow> string \<Rightarrow> ('w, nat) io" where
  "refresh E clientId =
     redis_expire E (presence_key clientId) (seconds PRESENCE_TIME_TO_LIVE_SECONDS)"

definition offline :: "'w env \<Rightarrow> string \<Rightarrow> nat list \<Rightarrow> ('w, unit) io" where
  "offline E clientId projectIds =
     thenM (redis_del E [presence_key clientId])
       (thenM (redis_del E [maxinflight_key clientId])
         (thenM (redis_del E [inflight_key clientId])
           (forM projectIds (\<lambda>p. redis_srem E (clients_key p) clientId))))"

text \<open>The argument is \<open>None\<close> for \<^verbatim>\<open>undefined\<close>.\<close>

definition clampMaxInFlight :: "json option \<Rightarrow> int" where
  "clampMaxInFlight reported =
     (case reported of
        None \<Rightarrow> DEFAULT_IN_FLIGHT_CAPACITY
      | Some v \<Rightarrow>
          if v = JNull \<or> v = JStr '''' then DEFAULT_IN_FLIGHT_CAPACITY
          else case integer_of (to_number v) of
                 None \<Rightarrow> DEFAULT_IN_FLIGHT_CAPACITY
               | Some n \<Rightarrow>
                   if n < MINIMUM_IN_FLIGHT_CAPACITY then DEFAULT_IN_FLIGHT_CAPACITY
                   else min MAXIMUM_IN_FLIGHT_CAPACITY n)"

definition setMaxInFlight :: "'w env \<Rightarrow> string \<Rightarrow> int \<Rightarrow> ('w, unit) io" where
  "setMaxInFlight E clientId maximum =
     redis_set_ttl E (maxinflight_key clientId) (show_int maximum)
       (seconds PRESENCE_TIME_TO_LIVE_SECONDS)"

definition stored_maximum :: "string option \<Rightarrow> int" where
  "stored_maximum v = clampMaxInFlight (Some (case v of None \<Rightarrow> JNull | Some s \<Rightarrow> JStr s))"

definition getMaxInFlight :: "'w env \<Rightarrow> string \<Rightarrow> ('w, int) io" where
  "getMaxInFlight E clientId =
     bindM (redis_get E (maxinflight_key clientId)) (\<lambda>v. returnM (stored_maximum v))"

definition resetInFlight :: "'w env \<Rightarrow> string \<Rightarrow> ('w, nat) io" where
  "resetInFlight E clientId = redis_del E [inflight_key clientId]"

text \<open>The Lua script \<^verbatim>\<open>ACQUIRE_SLOT_LUA\<close>; Redis runs it as one command.\<close>

definition tryAcquireSlot :: "'w env \<Rightarrow> string \<Rightarrow> int \<Rightarrow> ('w, bool) io" where
  "tryAcquireSlot E clientId maximum =
     bindM (redis_incr E (inflight_key clientId))
       (\<lambda>n. if maximum < n then thenM (redis_decr E (inflight_key clientId)) (returnM False)
            else returnM True)"

definition releaseSlot :: "'w env \<Rightarrow> string \<Rightarrow> ('w, unit) io" where
  "releaseSlot E clientId =
     bindM (redis_decr E (inflight_key clientId))
       (\<lambda>n. if n < 0 then redis_set E (inflight_key clientId) ''0'' else returnM ())"

definition isOnline :: "'w env \<Rightarrow> string \<Rightarrow> ('w, bool) io" where
  "isOnline E clientId = bindM (redis_exists E (presence_key clientId)) (\<lambda>n. returnM (n = 1))"

primrec list_online_loop ::
  "'w env \<Rightarrow> nat \<Rightarrow> string list \<Rightarrow> string list \<Rightarrow> ('w, string list) io" where
  "list_online_loop E p acc [] = returnM acc"
| "list_online_loop E p acc (c # cs) =
     bindM (isOnline E c)
       (\<lambda>on. if on then list_online_loop E p (acc @ [c]) cs
             else thenM (redis_srem E (clients_key p) c) (list_online_loop E p acc cs))"

definition listOnline :: "'w env \<Rightarrow> nat \<Rightarrow> ('w, string list) io" where
  "listOnline E p = bindM (redis_smembers E (clients_key p)) (list_online_loop E p [])"

text \<open>An array read past the end is \<^verbatim>\<open>undefined\<close>, which a template string prints as such.\<close>

datatype pick = Acquired "string option" | NoDevice | Saturated

definition template :: "string option \<Rightarrow> string" where
  "template x = (case x of None \<Rightarrow> ''undefined'' | Some s \<Rightarrow> s)"

primrec pick_loop :: "'w env \<Rightarrow> string list \<Rightarrow> int \<Rightarrow> int list \<Rightarrow> ('w, pick) io" where
  "pick_loop E cs start [] = returnM Saturated"
| "pick_loop E cs start (offset # offsets) =
     (let c = js_index cs (js_rem (start + offset) (int (length cs))) in
      bindM (getMaxInFlight E (template c))
        (\<lambda>m. bindM (tryAcquireSlot E (template c) m)
          (\<lambda>taken. if taken then returnM (Acquired c) else pick_loop E cs start offsets)))"

definition pickOnlineAcquire :: "'w env \<Rightarrow> nat \<Rightarrow> ('w, pick) io" where
  "pickOnlineAcquire E p =
     bindM (listOnline E p)
       (\<lambda>cs. if cs = [] then returnM NoDevice
             else bindM (redis_incr E (cursor_key p))
               (\<lambda>n. pick_loop E (sort cs) (js_rem n (int (length cs)))
                      (map int [0..<length cs])))"

section \<open>What the store says\<close>

definition online_in :: "store \<Rightarrow> string \<Rightarrow> bool" where
  "online_in s c \<longleftrightarrow> strs s (presence_key c) \<noteq> None"

definition maximum_of :: "store \<Rightarrow> string \<Rightarrow> int" where
  "maximum_of s c = stored_maximum (strs s (maxinflight_key c))"

definition inflight_of :: "store \<Rightarrow> string \<Rightarrow> int" where
  "inflight_of s c = the (counter_value (strs s (inflight_key c)))"

definition free_slot :: "store \<Rightarrow> string \<Rightarrow> bool" where
  "free_slot s c \<longleftrightarrow> inflight_of s c < maximum_of s c"

text \<open>The counters are numbers and the round-robin cursor is not negative.\<close>

definition counters_ok :: "store \<Rightarrow> bool" where
  "counters_ok s \<longleftrightarrow>
     (\<forall>c. counter_value (strs s (inflight_key c)) \<noteq> None) \<and>
     (\<forall>p. \<exists>n \<ge> 0. counter_value (strs s (cursor_key p)) = Some n)"

definition cursor_of :: "store \<Rightarrow> nat \<Rightarrow> int" where
  "cursor_of s p = the (counter_value (strs s (cursor_key p)))"

definition is_inflight_key :: "string \<Rightarrow> bool" where
  "is_inflight_key k \<longleftrightarrow> prefix ''device:inflight:'' k"

lemma is_inflight_key_simps [simp]:
  "is_inflight_key (inflight_key c)" "\<not> is_inflight_key (presence_key c)"
  "\<not> is_inflight_key (maxinflight_key c)" "\<not> is_inflight_key (clients_key p)"
  "\<not> is_inflight_key (cursor_key p)"
  by (simp_all add: is_inflight_key_def presence_keys)

lemma is_inflight_key_string: "is_set_key k \<Longrightarrow> \<not> is_inflight_key k"
  by (auto simp: is_inflight_key_def is_set_key_def prefix_def)

lemma inflight_key_cases: "is_inflight_key k \<Longrightarrow> \<exists>c. k = inflight_key c"
  by (auto simp: is_inflight_key_def inflight_key_def prefix_def)

text \<open>The store without the in-flight counters (and lifetimes).\<close>

definition frame :: "store \<Rightarrow> store" where
  "frame s = s\<lparr>strs := (\<lambda>k. if is_inflight_key k then None else strs s k), ttls := (\<lambda>_. None)\<rparr>"

text \<open>\<open>t\<close> is \<open>s\<close> with the in-flight count of each client \<open>c\<close> changed by \<open>d c\<close>.\<close>

definition slots_changed :: "store \<Rightarrow> (string \<Rightarrow> int) \<Rightarrow> store \<Rightarrow> bool" where
  "slots_changed s d t \<longleftrightarrow> frame t = frame s \<and>
     (\<forall>c. counter_value (strs t (inflight_key c)) =
          map_option (\<lambda>i. i + d c) (counter_value (strs s (inflight_key c))))"

lemma slots_changed_frame: "slots_changed s d t \<Longrightarrow> frame t = frame s"
  by (simp add: slots_changed_def)

lemma slots_changed_counter:
  "slots_changed s d t \<Longrightarrow> counter_value (strs t (inflight_key c)) =
     map_option (\<lambda>i. i + d c) (counter_value (strs s (inflight_key c)))"
  by (simp add: slots_changed_def)

lemma slots_changed_strs:
  assumes "slots_changed s d t" "\<not> is_inflight_key k"
  shows "strs t k = strs s k"
proof -
  have "strs (frame t) k = strs (frame s) k" using slots_changed_frame [OF assms(1)] by simp
  then show ?thesis using assms(2) by (simp add: frame_def)
qed

lemma frame_sel:
  "up (frame s) = up s" "sets (frame s) = sets s" "rows (frame s) = rows s"
  "published (frame s) = published s" "jobs (frame s) = jobs s"
  by (simp_all add: frame_def)

lemma slots_changed_fields:
  assumes "slots_changed s d t"
  shows "up t = up s" "sets t = sets s" "rows t = rows s" "published t = published s"
    "jobs t = jobs s"
  using slots_changed_frame [OF assms] by (metis frame_sel)+

lemma slots_changed_refl: "slots_changed s (\<lambda>_. 0) s"
  by (simp add: slots_changed_def option.map_ident)

lemma slots_changed_trans:
  assumes "slots_changed s d t" "slots_changed t e u"
  shows "slots_changed s (\<lambda>c. d c + e c) u"
proof -
  have "counter_value (strs u (inflight_key c)) =
      map_option (\<lambda>i. i + (d c + e c)) (counter_value (strs s (inflight_key c)))" for c
    by (cases "counter_value (strs s (inflight_key c))")
      (simp_all add: slots_changed_counter [OF assms(1)] slots_changed_counter [OF assms(2)])
  then show ?thesis
    using slots_changed_frame [OF assms(1)] slots_changed_frame [OF assms(2)]
    by (simp add: slots_changed_def)
qed

lemma slots_changed_healthy: "slots_changed s d t \<Longrightarrow> healthy s \<Longrightarrow> healthy t"
  unfolding healthy_def typed_keys_def
  by (auto simp: slots_changed_strs slots_changed_fields is_inflight_key_string)

lemma slots_changed_counters: "slots_changed s d t \<Longrightarrow> counters_ok s \<Longrightarrow> counters_ok t"
  by (simp add: counters_ok_def slots_changed_counter slots_changed_strs)

lemma slots_changed_reads:
  assumes "slots_changed s d t"
  shows "maximum_of t c = maximum_of s c" "online_in t c = online_in s c"
  using slots_changed_strs [OF assms] by (simp_all add: maximum_of_def online_in_def)

lemma slots_changed_inflight:
  assumes "slots_changed s d t" "counters_ok s"
  shows "inflight_of t c = inflight_of s c + d c"
proof -
  obtain i where "counter_value (strs s (inflight_key c)) = Some i"
    using assms(2) by (auto simp: counters_ok_def)
  then show ?thesis by (simp add: slots_changed_counter [OF assms(1)] inflight_of_def)
qed

lemma slots_changed_add:
  assumes "counter_value (strs s (inflight_key c)) = Some i"
  shows "slots_changed s (\<lambda>x. if x = c then d else 0) (add_counter (inflight_key c) d s)"
proof -
  have "strs (add_counter (inflight_key c) d s) = (strs s)(inflight_key c := Some (show_int (i + d)))"
    by (rule strs_add_counter [OF assms])
  then have strs: "strs (add_counter (inflight_key c) d s) k =
      (if k = inflight_key c then Some (show_int (i + d)) else strs s k)" for k
    by simp
  have "frame (add_counter (inflight_key c) d s) = frame s"
    by (auto simp: frame_def strs fun_eq_iff)
  then show ?thesis
    using assms by (simp add: slots_changed_def strs option.map_ident)
qed

section \<open>What the operations do while the services are up\<close>

lemma clamp_bounds: "1 \<le> clampMaxInFlight v \<and> clampMaxInFlight v \<le> 1024"
  by (simp add: clampMaxInFlight_def DEFAULT_IN_FLIGHT_CAPACITY_def
      MINIMUM_IN_FLIGHT_CAPACITY_def MAXIMUM_IN_FLIGHT_CAPACITY_def split: option.splits)

lemma counter_of:
  assumes "counters_ok s"
  shows "counter_value (strs s (inflight_key c)) = Some (inflight_of s c)"
    and "counter_value (strs s (cursor_key p)) = Some (cursor_of s p)" and "0 \<le> cursor_of s p"
proof -
  obtain n where "0 \<le> n" "counter_value (strs s (cursor_key p)) = Some n"
    using assms unfolding counters_ok_def by blast
  then show "counter_value (strs s (cursor_key p)) = Some (cursor_of s p)" "0 \<le> cursor_of s p"
    by (simp_all add: cursor_of_def)
  show "counter_value (strs s (inflight_key c)) = Some (inflight_of s c)"
    using assms by (auto simp: counters_ok_def inflight_of_def)
qed

text \<open>The order in which \<open>pick_loop\<close> visits the sorted clients: one full turn from the cursor.\<close>

lemma turn_is_rotate:
  assumes "cs \<noteq> []" "0 \<le> start" "start < int (length cs)"
  shows "map (\<lambda>i. cs ! nat (js_rem (start + i) (int (length cs)))) (map int [0..<length cs]) =
    rotate (nat start) cs"
proof (rule nth_equalityI)
  fix i assume "i < length (map (\<lambda>i. cs ! nat (js_rem (start + i) (int (length cs)))) (map int [0..<length cs]))"
  then have i: "i < length cs" by simp
  have "nat (js_rem (start + int i) (int (length cs))) = (nat start + i) mod length cs"
    using assms by (simp add: js_rem_def nat_mod_as_int nat_add_distrib)
  then show "map (\<lambda>i. cs ! nat (js_rem (start + i) (int (length cs)))) (map int [0..<length cs]) ! i =
      rotate (nat start) cs ! i"
    using i by (simp add: nth_rotate add.commute)
qed simp

context services
begin

lemma isOnline_run [simp]:
  assumes "healthy (view w)"
  shows "fst (isOnline E c w) = Inr (online_in (view w) c)" "view (snd (isOnline E c w)) = view w"
  using assms by (simp_all add: isOnline_def io_simps online_in_def)

lemma getMaxInFlight_run [simp]:
  assumes "healthy (view w)"
  shows "fst (getMaxInFlight E c w) = Inr (maximum_of (view w) c)"
    and "view (snd (getMaxInFlight E c w)) = view w"
  using assms by (simp_all add: getMaxInFlight_def io_simps maximum_of_def)

lemma try_acquire_run:
  assumes "healthy (view w)" "counters_ok (view w)"
  shows "fst (tryAcquireSlot E c m w) = Inr (inflight_of (view w) c < m)"
    and "slots_changed (view w) (\<lambda>x. if x = c \<and> inflight_of (view w) c < m then 1 else 0)
      (view (snd (tryAcquireSlot E c m w)))"
proof -
  let ?k = "inflight_key c" and ?i = "inflight_of (view w) c"
  define w1 where "w1 = snd (redis_incr E ?k w)"
  have i: "counter_value (strs (view w) ?k) = Some ?i"
    using counter_of(1) [OF assms(2)] .
  have f1: "fst (redis_incr E ?k w) = Inr (?i + 1)" and v1: "view w1 = add_counter ?k 1 (view w)"
    using run_incr [OF assms(1) _ i] by (simp_all add: w1_def)
  have ch1: "slots_changed (view w) (\<lambda>x. if x = c then 1 else 0) (view w1)"
    unfolding v1 by (rule slots_changed_add [OF i])
  have h1: "healthy (view w1)" using slots_changed_healthy [OF ch1 assms(1)] .
  have i1: "counter_value (strs (view w1) ?k) = Some (?i + 1)"
    using slots_changed_counter [OF ch1, of c] i by simp
  have f2: "\<not> isl (fst (redis_decr E ?k w1))"
    and v2: "view (snd (redis_decr E ?k w1)) = add_counter ?k (- 1) (view w1)"
    using run_decr [OF h1 _ i1] by simp_all
  show "fst (tryAcquireSlot E c m w) = Inr (?i < m)"
    using f2 by (simp add: tryAcquireSlot_def io_simps f1 flip: w1_def)
  show "slots_changed (view w) (\<lambda>x. if x = c \<and> ?i < m then 1 else 0)
      (view (snd (tryAcquireSlot E c m w)))"
  proof (cases "?i < m")
    case True
    then show ?thesis
      using ch1 by (simp add: tryAcquireSlot_def io_simps f1 flip: w1_def)
  next
    case False
    have "slots_changed (view w1) (\<lambda>x. if x = c then - 1 else 0) (add_counter ?k (- 1) (view w1))"
      by (rule slots_changed_add [OF i1])
    from slots_changed_trans [OF ch1 this]
    have "slots_changed (view w) (\<lambda>_. 0) (add_counter ?k (- 1) (view w1))"
      by (rule back_subst [of "\<lambda>d. slots_changed (view w) d (add_counter ?k (- 1) (view w1))"]) auto
    then show ?thesis
      using False f2 v2 by (simp add: tryAcquireSlot_def io_simps f1 flip: w1_def)
  qed
qed

lemma pick_loop_run:
  assumes "healthy (view w)" "counters_ok (view w)" "cs \<noteq> []" "0 \<le> start"
    and "\<forall>i \<in> set offsets. 0 \<le> i"
  shows "fst (pick_loop E cs start offsets w) =
      Inr (case find (free_slot (view w))
             (map (\<lambda>i. cs ! nat (js_rem (start + i) (int (length cs)))) offsets) of
             None \<Rightarrow> Saturated | Some c \<Rightarrow> Acquired (Some c)) \<and>
    slots_changed (view w)
      (\<lambda>x. if find (free_slot (view w))
             (map (\<lambda>i. cs ! nat (js_rem (start + i) (int (length cs)))) offsets) = Some x
           then 1 else 0)
      (view (snd (pick_loop E cs start offsets w)))"
  using assms
proof (induction offsets arbitrary: w)
  case Nil
  then show ?case by (simp add: io_simps slots_changed_refl)
next
  case (Cons i offsets)
  let ?n = "int (length cs)"
  define c where "c = cs ! nat (js_rem (start + i) ?n)"
  have "0 < ?n" using Cons.prems by simp
  then have r: "0 \<le> js_rem (start + i) ?n" "js_rem (start + i) ?n < ?n"
    using Cons.prems by (simp_all add: js_rem_def)
  then have idx: "js_index cs (js_rem (start + i) ?n) = Some c"
    by (simp add: js_index_def c_def nat_less_iff)
  define w1 where "w1 = snd (getMaxInFlight E c w)"
  have v1: "view w1 = view w" using Cons.prems by (simp add: w1_def)
  let ?m = "maximum_of (view w) c"
  define w2 where "w2 = snd (tryAcquireSlot E c ?m w1)"
  have f: "fst (tryAcquireSlot E c ?m w1) = Inr (free_slot (view w) c)"
    and ch: "slots_changed (view w) (\<lambda>x. if x = c \<and> inflight_of (view w) c < ?m then 1 else 0) (view w2)"
    using try_acquire_run [of w1 c ?m] Cons.prems by (simp_all add: v1 free_slot_def w2_def)
  have step: "pick_loop E cs start (i # offsets) w =
      (if free_slot (view w) c then (Inr (Acquired (Some c)), w2) else pick_loop E cs start offsets w2)"
    using Cons.prems f
    by (simp add: Let_def idx template_def io_simps flip: w1_def c_def) (simp add: w2_def)
  show ?case
  proof (cases "free_slot (view w) c")
    case True
    then have "slots_changed (view w) (\<lambda>x. if c = x then 1 else 0) (view w2)"
      using ch by (simp add: free_slot_def eq_commute [of c])
    then show ?thesis unfolding step using True by (simp flip: c_def)
  next
    case False
    then have same: "slots_changed (view w) (\<lambda>_. 0) (view w2)"
      using ch by (simp add: free_slot_def)
    then have free: "free_slot (view w2) = free_slot (view w)"
      using slots_changed_inflight [OF same] slots_changed_reads [OF same] Cons.prems
      by (simp add: free_slot_def fun_eq_iff)
    have rest: "\<forall>i \<in> set offsets. 0 \<le> i" using Cons.prems by simp
    note IH = Cons.IH [OF slots_changed_healthy [OF same Cons.prems(1)]
      slots_changed_counters [OF same Cons.prems(2)] Cons.prems(3,4) rest]
    from slots_changed_trans [OF same conjunct2 [OF IH]] show ?thesis
      unfolding step using False IH by (simp add: free flip: c_def)
  qed
qed

lemma list_online_loop_run:
  assumes "healthy (view w)"
  shows "fst (list_online_loop E p acc cs w) = Inr (acc @ filter (online_in (view w)) cs) \<and>
    view (snd (list_online_loop E p acc cs w)) =
      (view w)\<lparr>sets := (sets (view w))(clients_key p :=
        filter (\<lambda>c. c \<notin> set cs \<or> online_in (view w) c) (sets (view w) (clients_key p)))\<rparr>"
  using assms
proof (induction cs arbitrary: acc w)
  case Nil
  then show ?case by (simp add: io_simps)
next
  case (Cons c cs)
  define w1 where "w1 = snd (isOnline E c w)"
  have v1: "view w1 = view w" using Cons.prems by (simp add: w1_def)
  define w2 where "w2 = snd (redis_srem E (clients_key p) c w1)"
  have v2: "view w2 = (view w)\<lparr>sets := (sets (view w))(clients_key p :=
      removeAll c (sets (view w) (clients_key p)))\<rparr>"
    and f2: "\<not> isl (fst (redis_srem E (clients_key p) c w1))"
    using Cons.prems by (simp_all add: w2_def v1)
  have same: "online_in (view w2) = online_in (view w)" and h2: "healthy (view w2)"
    using Cons.prems by (simp_all add: v2 online_in_def fun_eq_iff)
  have step: "list_online_loop E p acc (c # cs) w =
      (if online_in (view w) c then list_online_loop E p (acc @ [c]) cs w1
       else list_online_loop E p acc cs w2)"
    using Cons.prems f2 by (simp add: io_simps flip: w1_def) (simp add: w2_def)
  show ?case
  proof (cases "online_in (view w) c")
    case True
    then have "(\<lambda>x. x \<notin> set (c # cs) \<or> online_in (view w) x) =
        (\<lambda>x. x \<notin> set cs \<or> online_in (view w) x)"
      by auto
    then show ?thesis
      unfolding step using True Cons.IH [of w1 "acc @ [c]"] Cons.prems by (simp add: v1)
  next
    case False
    then have "filter (\<lambda>x. x \<notin> set (c # cs) \<or> online_in (view w) x) xs =
        filter (\<lambda>x. x \<notin> set cs \<or> online_in (view w) x) (removeAll c xs)" for xs
      by (induction xs) auto
    moreover have "sets (view w2) = (sets (view w))(clients_key p :=
        removeAll c (sets (view w) (clients_key p)))"
      by (simp add: v2)
    ultimately show ?thesis
      unfolding step using False Cons.IH [OF h2, of acc] by (simp add: same) (simp add: v2 cong: if_cong)
  qed
qed

lemma listOnline_run:
  assumes "healthy (view w)"
  shows "\<exists>cs. fst (listOnline E p w) = Inr cs \<and> distinct cs \<and>
      set cs = {c \<in> set (sets (view w) (clients_key p)). online_in (view w) c}"
    and "view (snd (listOnline E p w)) =
      (view w)\<lparr>sets := (sets (view w))(clients_key p :=
        filter (online_in (view w)) (sets (view w) (clients_key p)))\<rparr>"
proof -
  define w1 where "w1 = snd (redis_smembers E (clients_key p) w)"
  define ms where "ms = projr (fst (redis_smembers E (clients_key p) w))"
  have v1: "view w1 = view w" using assms by (simp add: w1_def)
  have ms: "set ms = set (sets (view w) (clients_key p))" "distinct ms"
    using assms by (simp_all add: ms_def)
  have step: "listOnline E p w = list_online_loop E p [] ms w1"
    using assms by (simp add: listOnline_def io_simps w1_def ms_def)
  have run: "fst (listOnline E p w) = Inr (filter (online_in (view w)) ms) \<and>
      view (snd (listOnline E p w)) = (view w)\<lparr>sets := (sets (view w))(clients_key p :=
        filter (\<lambda>c. c \<notin> set ms \<or> online_in (view w) c) (sets (view w) (clients_key p)))\<rparr>"
    unfolding step using list_online_loop_run [of w1 p "[]" ms] assms by (simp add: v1)
  then show "\<exists>cs. fst (listOnline E p w) = Inr cs \<and> distinct cs \<and>
      set cs = {c \<in> set (sets (view w) (clients_key p)). online_in (view w) c}"
    using ms by auto
  have "filter (\<lambda>c. c \<notin> set ms \<or> online_in (view w) c) (sets (view w) (clients_key p)) =
      filter (online_in (view w)) (sets (view w) (clients_key p))"
    by (rule filter_cong) (simp_all add: ms)
  with run show "view (snd (listOnline E p w)) =
      (view w)\<lparr>sets := (sets (view w))(clients_key p :=
        filter (online_in (view w)) (sets (view w) (clients_key p)))\<rparr>"
    by simp
qed

end

section \<open>Picking a device\<close>

text \<open>
  The specification of \<^verbatim>\<open>pickOnlineAcquire\<close>: the online members of the project in order, turned
  by the round-robin cursor, and the first of them with a free slot.
\<close>

definition candidates :: "store \<Rightarrow> nat \<Rightarrow> string list" where
  "candidates s p = sorted_list_of_set {c \<in> set (sets s (clients_key p)). online_in s c}"

definition turn :: "store \<Rightarrow> nat \<Rightarrow> string list" where
  "turn s p =
     rotate (nat ((cursor_of s p + 1) mod int (length (candidates s p)))) (candidates s p)"

definition chosen :: "store \<Rightarrow> nat \<Rightarrow> string option" where
  "chosen s p = find (free_slot s) (turn s p)"

lemma set_turn: "set (turn s p) = {c \<in> set (sets s (clients_key p)). online_in s c}"
  by (simp add: turn_def candidates_def)

context services
begin

lemma pick_run:
  assumes "healthy (view w)" "counters_ok (view w)"
  shows "fst (pickOnlineAcquire E p w) =
      Inr (if candidates (view w) p = [] then NoDevice
           else case chosen (view w) p of None \<Rightarrow> Saturated | Some c \<Rightarrow> Acquired (Some c))"
    and "\<exists>s. healthy s \<and> counters_ok s \<and> jobs s = jobs (view w) \<and> rows s = rows (view w) \<and> (\<forall>c. inflight_of s c = inflight_of (view w) c \<and> maximum_of s c = maximum_of (view w) c) \<and>
      slots_changed s (\<lambda>x. if chosen (view w) p = Some x then 1 else 0)
        (view (snd (pickOnlineAcquire E p w)))"
proof -
  let ?s = "view w"
  obtain cs where cs: "fst (listOnline E p w) = Inr cs" "distinct cs"
    "set cs = {c \<in> set (sets ?s (clients_key p)). online_in ?s c}"
    using listOnline_run(1) [OF assms(1)] by blast
  have cand: "candidates ?s p = sort cs"
    using cs(2)
    by (simp add: candidates_def cs(3) [symmetric] sorted_list_of_set_sort_remdups distinct_remdups_id)
  define w1 where "w1 = snd (listOnline E p w)"
  have v1: "view w1 = ?s\<lparr>sets := (sets ?s)(clients_key p :=
      filter (online_in ?s) (sets ?s (clients_key p)))\<rparr>"
    using listOnline_run(2) [OF assms(1)] by (simp add: w1_def)
  have h1: "healthy (view w1)" "counters_ok (view w1)"
    using assms by (simp_all add: v1 counters_ok_def)
  have c1: "counter_value (strs (view w1) (cursor_key p)) = Some (cursor_of ?s p)"
    using counter_of(2) [OF assms(2)] by (simp add: v1)
  define w2 where "w2 = snd (redis_incr E (cursor_key p) w1)"
  have f2: "fst (redis_incr E (cursor_key p) w1) = Inr (cursor_of ?s p + 1)"
    and v2: "view w2 = add_counter (cursor_key p) 1 (view w1)"
    using run_incr [OF h1(1) _ c1] by (simp_all add: w2_def)
  have strs2: "strs (view w2) = (strs ?s)(cursor_key p := Some (show_int (cursor_of ?s p + 1)))"
    unfolding v2 using strs_add_counter [OF c1] by (simp add: v1)
  have h2: "healthy (view w2)" using h1 by (simp add: v2)
  have ok2: "counters_ok (view w2)"
    using assms(2) counter_of(3) [OF assms(2)] by (auto simp: counters_ok_def strs2)
  have inf2: "inflight_of (view w2) c = inflight_of ?s c \<and> maximum_of (view w2) c = maximum_of ?s c" for c
    by (simp add: inflight_of_def maximum_of_def strs2)
  have jobs2: "jobs (view w2) = jobs ?s" "rows (view w2) = rows ?s" by (simp_all add: v2 v1)
  have free2: "free_slot (view w2) = free_slot ?s"
    by (simp add: free_slot_def maximum_of_def inflight_of_def strs2 fun_eq_iff)
  have step: "pickOnlineAcquire E p w =
      (if cs = [] then (Inr NoDevice, w1)
       else pick_loop E (sort cs) (js_rem (cursor_of ?s p + 1) (int (length cs)))
              (map int [0..<length cs]) w2)"
    by (simp add: pickOnlineAcquire_def io_simps cs(1) f2 flip: w1_def) (simp add: w2_def)
  have "fst (pickOnlineAcquire E p w) =
      Inr (if candidates ?s p = [] then NoDevice
           else case chosen ?s p of None \<Rightarrow> Saturated | Some c \<Rightarrow> Acquired (Some c)) \<and>
    (\<exists>s. healthy s \<and> counters_ok s \<and> jobs s = jobs (view w) \<and> rows s = rows (view w) \<and> (\<forall>c. inflight_of s c = inflight_of ?s c \<and> maximum_of s c = maximum_of ?s c) \<and>
      slots_changed s (\<lambda>x. if chosen ?s p = Some x then 1 else 0)
        (view (snd (pickOnlineAcquire E p w))))"
  proof (cases "cs = []")
    case True
    then have "chosen ?s p = None" by (simp add: chosen_def turn_def cand)
    moreover have "inflight_of (view w1) c = inflight_of ?s c \<and> maximum_of (view w1) c = maximum_of ?s c" for c
      by (simp add: inflight_of_def maximum_of_def v1)
    ultimately show ?thesis
      unfolding step using True h1 slots_changed_refl by (fastforce simp: cand v1)
  next
    case False
    let ?start = "js_rem (cursor_of ?s p + 1) (int (length cs))"
    have st: "?start = (cursor_of ?s p + 1) mod int (length cs)" "0 \<le> ?start"
      "?start < int (length (sort cs))"
      using False counter_of(3) [OF assms(2), of p] by (simp_all add: js_rem_def)
    have ne: "sort cs \<noteq> []" using False by (metis length_0_conv length_sort)
    have t: "map (\<lambda>i. sort cs ! nat (js_rem (?start + i) (int (length (sort cs)))))
        (map int [0..<length cs]) = turn ?s p"
      using turn_is_rotate [OF ne st(2,3)] by (simp add: turn_def cand st(1))
    have nonneg: "\<forall>i \<in> set (map int [0..<length cs]). 0 \<le> i" by simp
    note pick_loop_run [OF h2 ok2 ne st(2) nonneg, unfolded t free2, folded chosen_def]
    then show ?thesis
      unfolding step using False ne h2 ok2 inf2 jobs2 by (auto simp: cand)
  qed
  then show "fst (pickOnlineAcquire E p w) =
      Inr (if candidates ?s p = [] then NoDevice
           else case chosen ?s p of None \<Rightarrow> Saturated | Some c \<Rightarrow> Acquired (Some c))"
    and "\<exists>s. healthy s \<and> counters_ok s \<and> jobs s = jobs (view w) \<and> rows s = rows (view w) \<and> (\<forall>c. inflight_of s c = inflight_of ?s c \<and> maximum_of s c = maximum_of ?s c) \<and>
      slots_changed s (\<lambda>x. if chosen ?s p = Some x then 1 else 0)
        (view (snd (pickOnlineAcquire E p w)))"
    by blast+
qed

lemma release_run:
  assumes "healthy (view w)" "counters_ok (view w)"
  shows "fst (releaseSlot E c w) = Inr ()"
    and "healthy (view (snd (releaseSlot E c w)))" "counters_ok (view (snd (releaseSlot E c w)))"
    and "inflight_of (view (snd (releaseSlot E c w))) d =
      (if d = c then max 0 (inflight_of (view w) c - 1) else inflight_of (view w) d)"
    and "frame (view (snd (releaseSlot E c w))) = frame (view w)"
proof -
  let ?k = "inflight_key c" and ?i = "inflight_of (view w) c"
  define w1 where "w1 = snd (redis_decr E ?k w)"
  have i: "counter_value (strs (view w) ?k) = Some ?i" using counter_of(1) [OF assms(2)] .
  have f1: "fst (redis_decr E ?k w) = Inr (?i - 1)" and v1: "view w1 = add_counter ?k (- 1) (view w)"
    using run_decr [OF assms(1) _ i] by (simp_all add: w1_def)
  have strs1: "strs (view w1) = (strs (view w))(?k := Some (show_int (?i - 1)))"
    unfolding v1 using strs_add_counter [OF i] by simp
  have h1: "healthy (view w1)" using assms by (simp add: v1)
  define w2 where "w2 = snd (releaseSlot E c w)"
  have step: "releaseSlot E c w =
      (if ?i - 1 < 0 then redis_set E ?k ''0'' w1 else (Inr (), w1))"
    by (simp add: releaseSlot_def io_simps f1 flip: w1_def)
  have zero: "counter_value (Some ''0'') = Some 0"
    by (simp add: counter_value_def parse_int_def parse_nat_def is_digit_def digits_value_def
        digit_value_def)
  have v2: "view w2 = (if ?i - 1 < 0 then put_str ?k ''0'' None (view w1) else view w1)"
    using h1 by (simp add: w2_def step)
  have strs2: "counter_value (strs (view w2) k) =
      (if k = ?k then Some (max 0 (?i - 1)) else counter_value (strs (view w) k))" for k
    by (auto simp: v2 strs1 zero)
  show "fst (releaseSlot E c w) = Inr ()" using h1 by (simp add: step)
  show "healthy (view (snd (releaseSlot E c w)))" using h1 v2 by (simp flip: w2_def)
  show "counters_ok (view (snd (releaseSlot E c w)))"
    using assms(2) by (auto simp: counters_ok_def strs2 simp flip: w2_def)
  show "inflight_of (view (snd (releaseSlot E c w))) d =
      (if d = c then max 0 (?i - 1) else inflight_of (view w) d)"
    by (simp add: inflight_of_def strs2 flip: w2_def)
  have "sets (view w) ?k = []" using assms by simp
  then have "frame (view w2) = frame (view w)"
    unfolding frame_def by (auto simp: v2 put_str_def v1 add_counter_def i fun_eq_iff)
  then show "frame (view (snd (releaseSlot E c w))) = frame (view w)" by (simp add: w2_def)
qed

lemma join_projects_run:
  assumes "healthy (view w)"
  shows "fst (forM ps (\<lambda>p. redis_sadd E (clients_key p) c) w) = Inr () \<and>
    view (snd (forM ps (\<lambda>p. redis_sadd E (clients_key p) c) w)) =
      (view w)\<lparr>sets := (\<lambda>k. if k \<in> clients_key ` set ps then List.insert c (sets (view w) k)
                      else sets (view w) k)\<rparr>"
  using assms
proof (induction ps arbitrary: w)
  case (Cons p ps)
  define w1 where "w1 = snd (redis_sadd E (clients_key p) c w)"
  have v1: "view w1 = (view w)\<lparr>sets := (sets (view w))(clients_key p :=
      List.insert c (sets (view w) (clients_key p)))\<rparr>"
    and f1: "\<not> isl (fst (redis_sadd E (clients_key p) c w))"
    using Cons.prems by (simp_all add: w1_def)
  have "healthy (view w1)" using Cons.prems by (simp add: v1)
  note IH = Cons.IH [OF this]
  have twice: "List.insert c (List.insert c xs) = List.insert c xs" for xs by simp
  show ?case
    using IH f1 by (simp add: io_simps flip: w1_def) (auto simp: v1 fun_eq_iff)
qed (simp add: io_simps)

lemma leave_projects_run:
  assumes "healthy (view w)"
  shows "fst (forM ps (\<lambda>p. redis_srem E (clients_key p) c) w) = Inr () \<and>
    view (snd (forM ps (\<lambda>p. redis_srem E (clients_key p) c) w)) =
      (view w)\<lparr>sets := (\<lambda>k. if k \<in> clients_key ` set ps then removeAll c (sets (view w) k)
                      else sets (view w) k)\<rparr>"
  using assms
proof (induction ps arbitrary: w)
  case (Cons p ps)
  define w1 where "w1 = snd (redis_srem E (clients_key p) c w)"
  have v1: "view w1 = (view w)\<lparr>sets := (sets (view w))(clients_key p :=
      removeAll c (sets (view w) (clients_key p)))\<rparr>"
    and f1: "\<not> isl (fst (redis_srem E (clients_key p) c w))"
    using Cons.prems by (simp_all add: w1_def)
  have "healthy (view w1)" using Cons.prems by (simp add: v1)
  note IH = Cons.IH [OF this]
  show ?case
    using IH f1 by (simp add: io_simps flip: w1_def) (auto simp: v1 fun_eq_iff)
qed (simp add: io_simps)

lemma online_run:
  assumes "healthy (view w)"
  shows "fst (online E c ps w) = Inr ()"
    and "view (snd (online E c ps w)) =
      (put_str (presence_key c) (json_ids ps) (Some 30000) (view w))
        \<lparr>sets := (\<lambda>k. if k \<in> clients_key ` set ps then List.insert c (sets (view w) k)
                  else sets (view w) k)\<rparr>"
proof -
  let ?w1 = "snd (redis_set_ttl E (presence_key c) (json_ids ps) 30000 w)"
  have v1: "view ?w1 = put_str (presence_key c) (json_ids ps) (Some 30000) (view w)"
    using assms by simp
  have h1: "healthy (view ?w1)" using assms by simp
  have s1: "sets (view ?w1) = sets (view w)"
    using assms unfolding v1 by (simp add: fun_upd_idem)
  have step: "online E c ps w = forM ps (\<lambda>p. redis_sadd E (clients_key p) c) ?w1"
    using assms by (simp add: online_def io_simps seconds_def PRESENCE_TIME_TO_LIVE_SECONDS_def)
  show "fst (online E c ps w) = Inr ()"
    unfolding step using join_projects_run [OF h1] by blast
  show "view (snd (online E c ps w)) =
      (put_str (presence_key c) (json_ids ps) (Some 30000) (view w))
        \<lparr>sets := (\<lambda>k. if k \<in> clients_key ` set ps then List.insert c (sets (view w) k)
                  else sets (view w) k)\<rparr>"
    unfolding step using join_projects_run [OF h1, of ps c] unfolding s1 unfolding v1 by blast
qed

lemma offline_run:
  assumes "healthy (view w)"
  shows "fst (offline E c ps w) = Inr ()"
    and "strs (view (snd (offline E c ps w))) =
      (\<lambda>k. if k \<in> {presence_key c, maxinflight_key c, inflight_key c} then None else strs (view w) k)"
    and "sets (view (snd (offline E c ps w))) =
      (\<lambda>k. if k \<in> clients_key ` set ps then removeAll c (sets (view w) k) else sets (view w) k)"
    and "healthy (view (snd (offline E c ps w)))"
proof -
  define w1 where "w1 = snd (redis_del E [presence_key c] w)"
  define w2 where "w2 = snd (redis_del E [maxinflight_key c] w1)"
  define w3 where "w3 = snd (redis_del E [inflight_key c] w2)"
  have h1: "healthy (view w1)" and v1: "view w1 = del_keys [presence_key c] (view w)"
    using assms by (simp_all add: w1_def)
  have h2: "healthy (view w2)" and v2: "view w2 = del_keys [maxinflight_key c] (view w1)"
    using h1 by (simp_all add: w2_def)
  have h3: "healthy (view w3)" and v3: "view w3 = del_keys [inflight_key c] (view w2)"
    using h2 by (simp_all add: w3_def)
  have step: "offline E c ps w = forM ps (\<lambda>p. redis_srem E (clients_key p) c) w3"
    using assms h1 h2 by (simp add: offline_def io_simps w3_def w2_def w1_def)
  note run = leave_projects_run [OF h3, of ps c]
  have sets3: "sets (view w3) = sets (view w)"
    using assms by (auto simp: v3 v2 v1 fun_eq_iff)
  show "fst (offline E c ps w) = Inr ()"
    unfolding step using run by blast
  show "strs (view (snd (offline E c ps w))) =
      (\<lambda>k. if k \<in> {presence_key c, maxinflight_key c, inflight_key c} then None else strs (view w) k)"
    unfolding step using run by (auto simp: v3 v2 v1 fun_eq_iff)
  show "sets (view (snd (offline E c ps w))) =
      (\<lambda>k. if k \<in> clients_key ` set ps then removeAll c (sets (view w) k) else sets (view w) k)"
    unfolding step using run by (simp add: sets3 cong: if_cong)
  have "view (snd (forM ps (\<lambda>p. redis_srem E (clients_key p) c) w3)) =
      (view w3)\<lparr>sets := sets (view (snd (forM ps (\<lambda>p. redis_srem E (clients_key p) c) w3)))\<rparr>"
    using run by simp
  moreover have "typed_keys ((view w3)\<lparr>sets := (\<lambda>k. if k \<in> clients_key ` set ps
      then removeAll c (sets (view w3) k) else sets (view w3) k)\<rparr>)"
    using h3 unfolding healthy_def typed_keys_def by auto
  ultimately show "healthy (view (snd (offline E c ps w)))"
    unfolding step healthy_def using run h3 by simp
qed

end

section \<open>Properties\<close>

text \<open>
  \<^verbatim>\<open>pickOnlineAcquire\<close> scans the online members of the project once, in sorted order turned
  by the round-robin cursor.  It answers \<^verbatim>\<open>no_device\<close> exactly when none is online, and otherwise
  the first member with a free slot, or \<^verbatim>\<open>saturated\<close> when every one is full.
\<close>

theorem pick_first_free:
  assumes "services E view" "healthy (view w)" "counters_ok (view w)"
  shows "fst (pickOnlineAcquire E p w) =
    Inr (if candidates (view w) p = [] then NoDevice
         else case find (free_slot (view w))
                (rotate (nat ((cursor_of (view w) p + 1) mod int (length (candidates (view w) p))))
                   (candidates (view w) p)) of
              None \<Rightarrow> Saturated | Some c \<Rightarrow> Acquired (Some c))"
  using services.pick_run(1) [OF assms] by (simp add: chosen_def turn_def)

text \<open>A project with three members: \<open>a\<close> is full, \<open>b\<close> is free, \<open>c\<close> is offline.\<close>

definition example_presence :: sim where
  "example_presence = sim_start\<lparr>sim_store := empty_store\<lparr>
     strs := [presence_key ''a'' \<mapsto> ''[1]'', presence_key ''b'' \<mapsto> ''[1]'',
              maxinflight_key ''a'' \<mapsto> ''2'', inflight_key ''a'' \<mapsto> ''2'', cursor_key 2 \<mapsto> ''5''],
     sets := (\<lambda>_. [])(clients_key 2 := [''c'', ''b'', ''a''])\<rparr>\<rparr>"

lemma parse_small:
  "counter_value (Some ''2'') = Some 2" "counter_value (Some ''5'') = Some 5"
  by (simp_all add: counter_value_def parse_int_def parse_nat_def is_digit_def digits_value_def
      digit_value_def)

lemma example_presence_view:
  "sim_view example_presence = sim_store example_presence"
  by (simp add: sim_view_def example_presence_def sim_start_def empty_store_def)

lemma example_presence_strs:
  "strs (sim_view example_presence) =
     [presence_key ''a'' \<mapsto> ''[1]'', presence_key ''b'' \<mapsto> ''[1]'',
      maxinflight_key ''a'' \<mapsto> ''2'', inflight_key ''a'' \<mapsto> ''2'', cursor_key 2 \<mapsto> ''5'']"
  "sets (sim_view example_presence) = (\<lambda>_. [])(clients_key 2 := [''c'', ''b'', ''a''])"
  unfolding example_presence_view
  by (simp_all add: example_presence_def sim_start_def empty_store_def)

lemma example_presence_ok:
  "healthy (sim_view example_presence)" "counters_ok (sim_view example_presence)"
proof -
  have "typed_keys (sim_view example_presence)"
    unfolding typed_keys_def example_presence_strs by (auto simp: split: if_splits)
  moreover have "up (sim_view example_presence)"
    by (simp add: sim_view_def example_presence_def sim_start_def empty_store_def)
  ultimately show "healthy (sim_view example_presence)"
    unfolding healthy_def by simp
  show "counters_ok (sim_view example_presence)"
    unfolding counters_ok_def example_presence_strs by (auto simp: parse_small)
qed

lemma example_presence_reads:
  "candidates (sim_view example_presence) 2 = [''a'', ''b'']"
  "cursor_of (sim_view example_presence) 2 = 5"
  "free_slot (sim_view example_presence) ''a'' = False"
  "free_slot (sim_view example_presence) ''b'' = True"
proof -
  have eq: "{c \<in> set (sets (sim_view example_presence) (clients_key 2)). online_in (sim_view example_presence) c} =
      set [''a'', ''b'']"
    by (auto simp: example_presence_strs online_in_def)
  show "candidates (sim_view example_presence) 2 = [''a'', ''b'']"
    unfolding candidates_def eq sorted_list_of_set_sort_remdups by code_simp
  show "cursor_of (sim_view example_presence) 2 = 5"
    by (simp add: cursor_of_def example_presence_strs parse_small)
  have "stored_maximum (Some ''2'') = 2" "stored_maximum None = 16" by code_simp+
  then show "free_slot (sim_view example_presence) ''a'' = False"
    "free_slot (sim_view example_presence) ''b'' = True"
    by (simp_all add: free_slot_def maximum_of_def inflight_of_def example_presence_strs parse_small)
qed

lemma example_presence_pick:
  "fst (pickOnlineAcquire sim_env 2 example_presence) = Inr (Acquired (Some ''b''))"
  using sim.pick_run(1) [OF example_presence_ok, of 2]
  by (simp add: chosen_def turn_def example_presence_reads)

theorem pick_first_free_witness:
  "fst (pickOnlineAcquire sim_env 2 example_presence) = Inr (Acquired (Some ''b''))"
  using pick_first_free [OF sim_services example_presence_ok, of 2]
  by (simp add: example_presence_reads)

text \<open>
  C31: picking takes exactly one slot of the chosen device and none of any other: full devices it
  passed over keep their count, and the chosen one stays within its declared maximum.
\<close>

theorem pick_takes_one_slot:
  assumes "services E view" "healthy (view w)" "counters_ok (view w)"
  shows "inflight_of (view (snd (pickOnlineAcquire E p w))) c =
      inflight_of (view w) c +
        (if fst (pickOnlineAcquire E p w) = Inr (Acquired (Some c)) then 1 else 0) \<and>
    maximum_of (view (snd (pickOnlineAcquire E p w))) c = maximum_of (view w) c \<and>
    (fst (pickOnlineAcquire E p w) = Inr (Acquired (Some c)) \<longrightarrow>
      inflight_of (view (snd (pickOnlineAcquire E p w))) c \<le> maximum_of (view w) c)"
proof -
  let ?w' = "view (snd (pickOnlineAcquire E p w))"
  obtain s where s: "counters_ok s" "\<forall>c. inflight_of s c = inflight_of (view w) c \<and>
      maximum_of s c = maximum_of (view w) c"
    "slots_changed s (\<lambda>x. if chosen (view w) p = Some x then 1 else 0) ?w'"
    using services.pick_run(2) [OF assms] by blast
  have fst: "fst (pickOnlineAcquire E p w) = Inr (Acquired (Some c)) \<longleftrightarrow> chosen (view w) p = Some c"
    using services.pick_run(1) [OF assms, of p]
    by (auto simp: chosen_def turn_def split: option.splits)
  have "free_slot (view w) c" if "chosen (view w) p = Some c"
    using that by (auto simp: chosen_def find_Some_iff)
  then show ?thesis
    using slots_changed_inflight [OF s(3,1), of c] slots_changed_reads(1) [OF s(3), of c] s(2)
    by (auto simp: fst free_slot_def)
qed

theorem pick_takes_one_slot_witness:
  "inflight_of (sim_view (snd (pickOnlineAcquire sim_env 2 example_presence))) ''a'' = 2"
  using pick_takes_one_slot [OF sim_services example_presence_ok, of 2 "''a''"]
    example_presence_pick
  by (simp add: inflight_of_def example_presence_strs parse_small)

text \<open>
  a slot is given exactly when the device serves fewer calls than the maximum asked for, and
  a failed attempt leaves the counter as it was; giving a slot back undoes taking it; the counter
  never goes below zero.
\<close>

theorem acquire_release:
  assumes "services E view" "healthy (view w)" "counters_ok (view w)" "0 \<le> inflight_of (view w) c"
  shows "fst (tryAcquireSlot E c m w) = Inr (inflight_of (view w) c < m) \<and>
    inflight_of (view (snd (tryAcquireSlot E c m w))) c =
      inflight_of (view w) c + (if inflight_of (view w) c < m then 1 else 0) \<and>
    (inflight_of (view w) c < m \<longrightarrow>
      inflight_of (view (snd (releaseSlot E c (snd (tryAcquireSlot E c m w))))) c =
        inflight_of (view w) c) \<and>
    0 \<le> inflight_of (view (snd (releaseSlot E c w))) c"
proof -
  let ?w1 = "snd (tryAcquireSlot E c m w)"
  note run = services.try_acquire_run [OF assms(1-3), of c m]
  have h: "healthy (view ?w1)" "counters_ok (view ?w1)"
    using slots_changed_healthy [OF run(2) assms(2)] slots_changed_counters [OF run(2) assms(3)] .
  show ?thesis
    using run(1) slots_changed_inflight [OF run(2) assms(3), of c] assms(4)
      services.release_run(4) [OF assms(1) h, of c c] services.release_run(4) [OF assms(1-3), of c c]
    by auto
qed

theorem acquire_release_witness:
  "fst (tryAcquireSlot sim_env ''a'' 2 example_presence) = Inr False \<and>
   fst (tryAcquireSlot sim_env ''b'' 2 example_presence) = Inr True"
  using acquire_release [OF sim_services example_presence_ok, of "''a''" 2]
    acquire_release [OF sim_services example_presence_ok, of "''b''" 2]
  by (simp add: inflight_of_def example_presence_strs parse_small)

text \<open>
  the capacity a device declares is always clamped to 1..1024, zero gives the default 16, and
  a capacity written with \<^verbatim>\<open>setMaxInFlight\<close> is read back by \<^verbatim>\<open>getMaxInFlight\<close>, capped at 1024.
\<close>

theorem capacity_round_trip:
  assumes "services E view" "healthy (view w)" "n < 2 ^ 53"
  shows "fst (getMaxInFlight E c (snd (setMaxInFlight E c (int n) w))) =
      Inr (if n = 0 then 16 else min 1024 (int n)) \<and>
    (\<forall>v. 1 \<le> clampMaxInFlight v \<and> clampMaxInFlight v \<le> 1024)"
proof -
  have ne: "show_int (int n) \<noteq> []" by (simp add: show_int_def show_nat_nonempty)
  have num: "integer_of (to_number (JStr (show_int (int n)))) = Some (int n)"
    using string_to_number_show_nat [OF assms(3)] by (simp add: to_number_def show_int_def)
  have "stored_maximum (Some (show_int (int n))) = (if n = 0 then 16 else min 1024 (int n))"
    using ne by (simp add: stored_maximum_def clampMaxInFlight_def num DEFAULT_IN_FLIGHT_CAPACITY_def
        MINIMUM_IN_FLIGHT_CAPACITY_def MAXIMUM_IN_FLIGHT_CAPACITY_def)
  moreover have "healthy (view (snd (setMaxInFlight E c (int n) w)))"
    "strs (view (snd (setMaxInFlight E c (int n) w))) (maxinflight_key c) = Some (show_int (int n))"
    using services.run_set_ttl(2) [OF assms(1,2)] assms(2) by (simp_all add: setMaxInFlight_def)
  ultimately have "fst (getMaxInFlight E c (snd (setMaxInFlight E c (int n) w))) =
      Inr (if n = 0 then 16 else min 1024 (int n))"
    using services.getMaxInFlight_run(1) [OF assms(1)] by (simp add: maximum_of_def)
  then show ?thesis by (simp add: clamp_bounds)
qed

theorem capacity_round_trip_witness:
  "fst (getMaxInFlight sim_env ''b'' (snd (setMaxInFlight sim_env ''b'' (int 5000) example_presence))) =
    Inr 1024"
  using capacity_round_trip [OF sim_services example_presence_ok(1), of 5000 "''b''"] by simp

text \<open>
  going online makes a device a live member of each of its projects, with thirty seconds to
  live, and removes no other; going offline with the same projects takes it out of every one of
  them and forgets its counters, so that no later listing of these projects shows it.
\<close>

theorem online_offline_membership:
  assumes "services E view" "healthy (view w)" "p \<in> set ps"
  shows "set (projr (fst (listOnline E p (snd (online E c ps w))))) =
      insert c (set (projr (fst (listOnline E p w)))) \<and>
    ttls (view (snd (online E c ps w))) (presence_key c) = Some 30000 \<and>
    set (projr (fst (listOnline E p (snd (offline E c ps w))))) =
      set (projr (fst (listOnline E p w))) - {c} \<and>
    inflight_of (view (snd (offline E c ps w))) c = 0"
proof -
  have on: "set (projr (fst (listOnline E p w))) =
      {x \<in> set (sets (view w) (clients_key p)). online_in (view w) x}" if "healthy (view w)" for w
    using services.listOnline_run(1) [OF assms(1) that, of p] by force
  note v1 = services.online_run(2) [OF assms(1,2), of c ps]
  note off = services.offline_run [OF assms(1,2), of c ps]
  have h1: "healthy (view (snd (online E c ps w)))"
    using assms(2) unfolding v1 healthy_def typed_keys_def by auto
  have s1: "set (sets (view (snd (online E c ps w))) (clients_key p)) =
      insert c (set (sets (view w) (clients_key p)))"
    "online_in (view (snd (online E c ps w))) x \<longleftrightarrow> x = c \<or> online_in (view w) x"
    "ttls (view (snd (online E c ps w))) (presence_key c) = Some 30000" for x
    using assms(3) unfolding v1 online_in_def by auto
  have s2: "set (sets (view (snd (offline E c ps w))) (clients_key p)) =
      set (sets (view w) (clients_key p)) - {c}"
    "online_in (view (snd (offline E c ps w))) x \<longleftrightarrow> x \<noteq> c \<and> online_in (view w) x"
    "inflight_of (view (snd (offline E c ps w))) c = 0" for x
    using assms(3) unfolding off online_in_def inflight_of_def by auto
  show ?thesis
    unfolding on [OF h1] on [OF off(4)] on [OF assms(2)] s1 s2 by auto
qed

theorem online_offline_membership_witness:
  "''c'' \<in> set (projr (fst (listOnline sim_env 2 (snd (online sim_env ''c'' [2, 3] example_presence)))))"
  using online_offline_membership [OF sim_services example_presence_ok(1), of 2 "[2, 3]" "''c''"] by simp

end
