(* ===== verification/Connection_Registry.thy ===== *)
theory Connection_Registry
  imports Presence "HOL-Library.AList"
begin

text \<open>
  \<^verbatim>\<open>infrastructure/ws/connection.registry.ts\<close> and \<^verbatim>\<open>cluster-bus.service.ts\<close>: the sockets and the
  pending calls of one backend instance, and their coordination across instances through Redis.
  The state of the process is the record \<open>inst\<close>: its identity, the sockets by number, the maps
  \<^verbatim>\<open>sockets\<close> and \<^verbatim>\<open>waiters\<close> (association lists in insertion order), and the log of settled
  promises; \<open>ext\<close> is the world of the external services.  A command of the services acts on
  \<open>ext\<close> alone (\<open>lift\<close>).  The handlers of the three subscribed channels are
  \<open>on_ws_send\<close>, \<open>on_rpc_result\<close> and \<open>on_scope_changed\<close>.
\<close>

section \<open>The state of an instance\<close>

text \<open>A WebSocket with the fields the gateway and the registry attach to it.\<close>

record socket =
  sk_clientId :: "string option"
  sk_sessionToken :: "string option"
  sk_deviceTokenId :: "nat option"
  sk_projects :: "nat list option"
  sk_maxInFlight :: "int option"
  sk_lastActivity :: "int option"
  sk_listening :: bool
  sk_pinging :: bool
  sk_readyState :: nat
  sk_remoteAddress :: "string option"
  sk_sent :: "json list"
  sk_pings :: nat
  sk_closed :: "(nat \<times> string) list"

text \<open>\<^verbatim>\<open>Waiter\<close>: its timer is live as long as it is in the map.\<close>

record waiter =
  wt_clientId :: string
  wt_timeoutMs :: int

datatype settlement = Resolved json | Rejected string

record 'w inst =
  ext :: 'w
  instance_id :: string
  socket_of :: "nat \<Rightarrow> socket"
  sockets :: "(string \<times> nat) list"
  waiters :: "(string \<times> waiter) list"
  settled :: "(string \<times> settlement) list"

definition lift :: "('w, 'a) io \<Rightarrow> ('w inst, 'a) io" where
  "lift m W = (fst (m (ext W)), W\<lparr>ext := snd (m (ext W))\<rparr>)"

definition gets :: "('s \<Rightarrow> 'a) \<Rightarrow> ('s, 'a) io" where
  "gets f W = (Inr (f W), W)"

definition modify :: "('s \<Rightarrow> 's) \<Rightarrow> ('s, unit) io" where
  "modify f W = (Inr (), f W)"

lemma lift_sel [simp]:
  "fst (lift m W) = fst (m (ext W))" "ext (snd (lift m W)) = snd (m (ext W))"
  "instance_id (snd (lift m W)) = instance_id W" "socket_of (snd (lift m W)) = socket_of W"
  "sockets (snd (lift m W)) = sockets W" "waiters (snd (lift m W)) = waiters W"
  "settled (snd (lift m W)) = settled W"
  by (simp_all add: lift_def)

lemma gets_modify [simp]:
  "fst (gets f W) = Inr (f W)" "snd (gets f W) = W" "fst (modify g W) = Inr ()" "snd (modify g W) = g W"
  by (simp_all add: gets_def modify_def)

section \<open>Keys and channels\<close>

definition SESSION_TIME_TO_LIVE_SECONDS :: nat where
  "SESSION_TIME_TO_LIVE_SECONDS = 30"

definition COMPLETED_TIME_TO_LIVE_SECONDS :: nat where
  "COMPLETED_TIME_TO_LIVE_SECONDS = 60"

definition session_key :: "string \<Rightarrow> string" where
  "session_key c = ''client:session:'' @ c"

definition waiter_key :: "string \<Rightarrow> string" where
  "waiter_key r = ''rpc:waiter:'' @ r"

definition completed_key :: "string \<Rightarrow> string" where
  "completed_key r = ''rpc:completed:'' @ r"

definition send_channel :: "string \<Rightarrow> string" where
  "send_channel i = ''ws:send:'' @ i"

definition result_channel :: "string \<Rightarrow> string" where
  "result_channel i = ''rpc:result:'' @ i"

definition DEVICE_TOKEN_SCOPE_CHANGED_CHANNEL :: string where
  "DEVICE_TOKEN_SCOPE_CHANGED_CHANNEL = ''ws:device-token-scope-changed''"

lemma registry_key_types [simp]:
  "\<not> is_set_key (session_key c)" "\<not> is_set_key (waiter_key r)" "\<not> is_set_key (completed_key r)"
  by (simp_all add: session_key_def waiter_key_def completed_key_def is_set_key_def)

lemma registry_key_families [simp]:
  "waiter_key r \<noteq> completed_key q" "completed_key r \<noteq> waiter_key q"
  "waiter_key r = waiter_key q \<longleftrightarrow> r = q" "completed_key r = completed_key q \<longleftrightarrow> r = q"
  "session_key c = session_key d \<longleftrightarrow> c = d" "session_key c \<noteq> waiter_key r"
  "session_key c \<noteq> completed_key r" "waiter_key r \<noteq> session_key c"
  "completed_key r \<noteq> session_key c"
  by (simp_all add: session_key_def waiter_key_def completed_key_def)

section \<open>The life of a socket\<close>

definition set_socket :: "nat \<Rightarrow> socket \<Rightarrow> 'w inst \<Rightarrow> 'w inst" where
  "set_socket n s W = W\<lparr>socket_of := (socket_of W)(n := s)\<rparr>"

definition send_socket :: "nat \<Rightarrow> json \<Rightarrow> 'w inst \<Rightarrow> 'w inst" where
  "send_socket n m W =
     set_socket n ((socket_of W n)\<lparr>sk_sent := sk_sent (socket_of W n) @ [m]\<rparr>) W"

text \<open>\<^verbatim>\<open>socket.close(code, reason)\<close>: the socket leaves the open state.\<close>

definition close_socket :: "nat \<Rightarrow> nat \<Rightarrow> string \<Rightarrow> 'w inst \<Rightarrow> 'w inst" where
  "close_socket n code reason W =
     set_socket n ((socket_of W n)\<lparr>sk_readyState := 2,
       sk_closed := sk_closed (socket_of W n) @ [(code, reason)]\<rparr>) W"

definition register :: "'w env \<Rightarrow> string \<Rightarrow> nat \<Rightarrow> ('w inst, unit) io" where
  "register E clientId n =
     bindM (lift (random_uuid E)) (\<lambda>u.
     bindM (gets (\<lambda>W. instance_id W @ '':'' @ u)) (\<lambda>token.
     thenM (modify (\<lambda>W. set_socket n ((socket_of W n)\<lparr>sk_sessionToken := Some token\<rparr>) W))
    (thenM (modify (\<lambda>W. W\<lparr>sockets := AList.update clientId n (sockets W)\<rparr>))
      (lift (redis_set_ttl E (session_key clientId) token (seconds SESSION_TIME_TO_LIVE_SECONDS))))))"

definition refreshSession :: "'w env \<Rightarrow> string \<Rightarrow> ('w inst, nat) io" where
  "refreshSession E clientId =
     lift (redis_expire E (session_key clientId) (seconds SESSION_TIME_TO_LIVE_SECONDS))"

text \<open>The Lua script \<^verbatim>\<open>COMPARE_AND_DELETE_SCRIPT\<close>; Redis runs it as one command.\<close>

definition compare_and_delete :: "'w env \<Rightarrow> string \<Rightarrow> string \<Rightarrow> ('w, nat) io" where
  "compare_and_delete E k token =
     bindM (redis_get E k) (\<lambda>v.
       case v of
         None \<Rightarrow> returnM 1
       | Some x \<Rightarrow> if x = token then thenM (redis_del E [k]) (returnM 1) else returnM 0)"

definition unregister :: "'w env \<Rightarrow> string \<Rightarrow> nat \<Rightarrow> ('w inst, bool) io" where
  "unregister E clientId n =
     thenM (modify (\<lambda>W. if map_of (sockets W) clientId = Some n
                        then W\<lparr>sockets := AList.delete clientId (sockets W)\<rparr> else W))
    (bindM (gets (\<lambda>W. sk_sessionToken (socket_of W n))) (\<lambda>token.
       case token of
         None \<Rightarrow> returnM False
       | Some t \<Rightarrow>
           if t = [] then returnM False
           else bindM (lift (compare_and_delete E (session_key clientId) t)) (\<lambda>d. returnM (d = 1))))"

definition hasLocal :: "'w inst \<Rightarrow> string \<Rightarrow> bool" where
  "hasLocal W clientId \<longleftrightarrow> map_of (sockets W) clientId \<noteq> None"

definition close_if_token :: "nat \<Rightarrow> nat \<Rightarrow> 'w inst \<Rightarrow> 'w inst" where
  "close_if_token tokenId n W =
     (if sk_deviceTokenId (socket_of W n) = Some tokenId \<and> sk_readyState (socket_of W n) = 1
      then close_socket n 4002 ''device token scope updated'' W else W)"

definition disconnectLocalDeviceTokenSessions :: "nat \<Rightarrow> 'w inst \<Rightarrow> 'w inst" where
  "disconnectLocalDeviceTokenSessions tokenId W =
     fold (close_if_token tokenId) (map snd (sockets W)) W"

section \<open>Jobs\<close>

text \<open>The job message of \<^verbatim>\<open>protocol.ts\<close>.\<close>

record job_message =
  job_requestId :: string
  job_project :: string
  job_action :: string
  job_payload :: json
  job_timeoutSeconds :: int
  job_deadlineAt :: "int option"

definition job_json :: "job_message \<Rightarrow> json" where
  "job_json j = JObj (
     [(''type'', JStr ''job''), (''requestId'', JStr (job_requestId j)),
      (''project'', JStr (job_project j)), (''action'', JStr (job_action j)),
      (''payload'', job_payload j), (''timeoutSeconds'', JNum (of_int (job_timeoutSeconds j)))] @
     (case job_deadlineAt j of None \<Rightarrow> [] | Some d \<Rightarrow> [(''deadlineAt'', JNum (of_int d))]))"

definition past_deadline :: "job_message \<Rightarrow> int \<Rightarrow> bool" where
  "past_deadline j now \<longleftrightarrow>
     (case job_deadlineAt j of None \<Rightarrow> False | Some d \<Rightarrow> d \<noteq> 0 \<and> d < now)"

definition deliverLocalJob :: "'w env \<Rightarrow> string \<Rightarrow> job_message \<Rightarrow> ('w inst, bool) io" where
  "deliverLocalJob E clientId j W =
     (case map_of (sockets W) clientId of
        None \<Rightarrow> (Inr False, W)
      | Some n \<Rightarrow>
          if sk_readyState (socket_of W n) \<noteq> 1 then (Inr False, W)
          else if past_deadline j (now_ms E (ext W)) then (Inr False, W)
          else (Inr True, send_socket n (job_json j) W))"

definition bus_publish :: "'w env \<Rightarrow> string \<Rightarrow> json \<Rightarrow> ('w inst, unit) io" where
  "bus_publish E channel m = lift (redis_publish E channel m)"

definition before_colon :: "string \<Rightarrow> string" where
  "before_colon s = takeWhile (\<lambda>c. c \<noteq> CHR '':'') s"

definition dispatchJob :: "'w env \<Rightarrow> string \<Rightarrow> job_message \<Rightarrow> ('w inst, bool) io" where
  "dispatchJob E clientId j =
     bindM (lift (redis_get E (session_key clientId))) (\<lambda>v.
       case v of
         None \<Rightarrow> returnM False
       | Some token \<Rightarrow>
           if token = [] then returnM False
           else bindM (gets instance_id) (\<lambda>me.
             if before_colon token = me then deliverLocalJob E clientId j
             else thenM (bus_publish E (send_channel (before_colon token))
                           (JObj [(''clientId'', JStr clientId), (''job'', job_json j)]))
                    (returnM True)))"

section \<open>Waiters\<close>

text \<open>\<^verbatim>\<open>registerWaiter\<close> also starts the timer; \<open>waiter_timeout\<close> is what the timer runs.\<close>

definition registerWaiter :: "string \<Rightarrow> string \<Rightarrow> int \<Rightarrow> 'w inst \<Rightarrow> 'w inst" where
  "registerWaiter requestId expected timeoutMs W =
     W\<lparr>waiters := AList.update requestId \<lparr>wt_clientId = expected, wt_timeoutMs = timeoutMs\<rparr> (waiters W)\<rparr>"

definition settle :: "string \<Rightarrow> settlement \<Rightarrow> 'w inst \<Rightarrow> 'w inst" where
  "settle requestId outcome W =
     W\<lparr>waiters := AList.delete requestId (waiters W), settled := settled W @ [(requestId, outcome)]\<rparr>"

definition waiter_timeout :: "string \<Rightarrow> 'w inst \<Rightarrow> 'w inst" where
  "waiter_timeout requestId W =
     (case map_of (waiters W) requestId of
        None \<Rightarrow> W
      | Some _ \<Rightarrow> settle requestId (Rejected ''timeout'') W)"

definition markWaiting :: "'w env \<Rightarrow> string \<Rightarrow> int \<Rightarrow> ('w inst, unit) io" where
  "markWaiting E requestId timeoutMs =
     bindM (gets instance_id) (\<lambda>me.
       lift (redis_set_ttl E (waiter_key requestId) me (nat (timeoutMs + 5000))))"

definition cancelWaiter :: "string \<Rightarrow> string \<Rightarrow> 'w inst \<Rightarrow> 'w inst" where
  "cancelWaiter requestId reason W =
     (case map_of (waiters W) requestId of
        None \<Rightarrow> W
      | Some _ \<Rightarrow> settle requestId (Rejected reason) W)"

definition resolveLocalWaiter :: "string \<Rightarrow> json \<Rightarrow> string \<Rightarrow> ('w inst, bool) io" where
  "resolveLocalWaiter requestId res fromClientId W =
     (case map_of (waiters W) requestId of
        None \<Rightarrow> (Inr False, W)
      | Some x \<Rightarrow>
          if wt_clientId x \<noteq> [] \<and> fromClientId \<noteq> wt_clientId x then (Inr False, W)
          else (Inr True, settle requestId (Resolved res) W))"

datatype outcome = OutOk | OutLate | OutRouted | OutMismatch

definition handleResult :: "'w env \<Rightarrow> string \<Rightarrow> string \<Rightarrow> json \<Rightarrow> ('w inst, outcome) io" where
  "handleResult E requestId fromClientId res =
     bindM (lift (redis_get E (waiter_key requestId))) (\<lambda>v.
       case v of
         None \<Rightarrow> returnM OutLate
       | Some waiterInstance \<Rightarrow>
           if waiterInstance = [] then returnM OutLate
           else bindM (lift (redis_set_nx E (completed_key requestId) ''1''
                               (seconds COMPLETED_TIME_TO_LIVE_SECONDS))) (\<lambda>isFirst.
             if \<not> isFirst then returnM OutLate
             else bindM (gets instance_id) (\<lambda>me.
               if waiterInstance = me
               then bindM (resolveLocalWaiter requestId res fromClientId) (\<lambda>resolved.
                 if resolved then returnM OutOk
                 else thenM (lift (redis_del E [completed_key requestId])) (returnM OutMismatch))
               else thenM (bus_publish E (result_channel waiterInstance)
                             (JObj [(''requestId'', JStr requestId), (''result'', res),
                                    (''fromClientId'', JStr fromClientId)]))
                      (returnM OutRouted))))"

section \<open>The subscribed channels\<close>

text \<open>\<^verbatim>\<open>onModuleInit\<close>: what each message does on the instance that receives it.\<close>

definition on_ws_send :: "'w env \<Rightarrow> string \<Rightarrow> job_message \<Rightarrow> ('w inst, unit) io" where
  "on_ws_send E clientId j = ignoreM (deliverLocalJob E clientId j)"

definition on_rpc_result :: "'w env \<Rightarrow> string \<Rightarrow> json \<Rightarrow> string \<Rightarrow> ('w inst, unit) io" where
  "on_rpc_result E requestId res fromClientId =
     ignoreM (bindM (resolveLocalWaiter requestId res fromClientId) (\<lambda>resolved.
       if resolved then returnM 0 else lift (redis_del E [completed_key requestId])))"

definition on_scope_changed :: "nat \<Rightarrow> ('w inst, unit) io" where
  "on_scope_changed tokenId = modify (disconnectLocalDeviceTokenSessions tokenId)"

section \<open>What the operations do while the services are up\<close>

lemma set_socket_sel [simp]:
  "ext (set_socket n k W) = ext W" "instance_id (set_socket n k W) = instance_id W"
  "socket_of (set_socket n k W) = (socket_of W)(n := k)" "sockets (set_socket n k W) = sockets W"
  "waiters (set_socket n k W) = waiters W" "settled (set_socket n k W) = settled W"
  by (simp_all add: set_socket_def)

lemma settle_sel [simp]:
  "ext (settle r o' W) = ext W" "instance_id (settle r o' W) = instance_id W"
  "socket_of (settle r o' W) = socket_of W" "sockets (settle r o' W) = sockets W"
  "map_of (waiters (settle r o' W)) = (map_of (waiters W))(r := None)"
  "settled (settle r o' W) = settled W @ [(r, o')]"
  by (simp_all add: settle_def delete_conv')

text \<open>Does the message come from the client the waiter expects?\<close>

definition expected_from :: "'w inst \<Rightarrow> string \<Rightarrow> string \<Rightarrow> bool" where
  "expected_from W r from \<longleftrightarrow>
     (case map_of (waiters W) r of
        None \<Rightarrow> False | Some x \<Rightarrow> wt_clientId x = [] \<or> from = wt_clientId x)"

lemma resolveLocalWaiter_eq:
  "resolveLocalWaiter r res from W =
     (if expected_from W r from then (Inr True, settle r (Resolved res) W) else (Inr False, W))"
  by (auto simp: resolveLocalWaiter_def expected_from_def split: option.splits)

text \<open>The outcome of a result, from the store and the local waiters.\<close>

definition result_outcome :: "store \<Rightarrow> 'w inst \<Rightarrow> string \<Rightarrow> string \<Rightarrow> outcome" where
  "result_outcome s W r from =
     (case strs s (waiter_key r) of
        None \<Rightarrow> OutLate
      | Some i \<Rightarrow>
          if i = [] \<or> strs s (completed_key r) \<noteq> None then OutLate
          else if i \<noteq> instance_id W then OutRouted
          else if expected_from W r from then OutOk else OutMismatch)"

context services
begin

lemma compare_and_delete_run:
  assumes "healthy (view w)" "\<not> is_set_key k"
  shows "fst (compare_and_delete E k t w) =
      Inr (if strs (view w) k = None \<or> strs (view w) k = Some t then 1 else 0)"
    and "view (snd (compare_and_delete E k t w)) =
      (if strs (view w) k = Some t then del_keys [k] (view w) else view w)"
  using assms by (auto simp: compare_and_delete_def io_simps split: option.splits)

lemma handleResult_run:
  fixes r "from" :: string and W :: "'w inst"
  assumes "healthy (view (ext W))"
  defines "out \<equiv> result_outcome (view (ext W)) W r from"
  shows "fst (handleResult E r from res W) = Inr out"
    and "view (ext (snd (handleResult E r from res W))) =
      (case out of
         OutLate \<Rightarrow> view (ext W)
       | OutOk \<Rightarrow> put_str (completed_key r) ''1'' (Some 60000) (view (ext W))
       | OutMismatch \<Rightarrow>
           del_keys [completed_key r] (put_str (completed_key r) ''1'' (Some 60000) (view (ext W)))
       | OutRouted \<Rightarrow>
           (put_str (completed_key r) ''1'' (Some 60000) (view (ext W)))
             \<lparr>published := published (view (ext W)) @
               [(result_channel (the (strs (view (ext W)) (waiter_key r))),
                 JObj [(''requestId'', JStr r), (''result'', res), (''fromClientId'', JStr from)])]\<rparr>)"
    and "settled (snd (handleResult E r from res W)) =
      settled W @ (if out = OutOk then [(r, Resolved res)] else [])"
    and "map_of (waiters (snd (handleResult E r from res W))) =
      (if out = OutOk then (map_of (waiters W))(r := None) else map_of (waiters W))"
    and "instance_id (snd (handleResult E r from res W)) = instance_id W"
  using assms(1) unfolding out_def
  by (auto simp: handleResult_def io_simps result_outcome_def resolveLocalWaiter_eq seconds_def
      COMPLETED_TIME_TO_LIVE_SECONDS_def bus_publish_def expected_from_def
      split: option.splits if_splits)

end

section \<open>Properties\<close>

text \<open>
  when a connection closes, the session of its client is deleted only if it is still this
  connection's own: the reply is true exactly when the session key is absent or holds this
  connection's token, the key is removed exactly in the second case, and the socket map forgets
  the client exactly if it points at this socket.
\<close>

theorem unregister_compares_token:
  assumes "services E view" "healthy (view (ext W))"
    and "sk_sessionToken (socket_of W n) = Some t" "t \<noteq> []"
  shows "fst (unregister E c n W) =
      Inr (strs (view (ext W)) (session_key c) \<in> {None, Some t}) \<and>
    strs (view (ext (snd (unregister E c n W)))) (session_key d) =
      (if d = c \<and> strs (view (ext W)) (session_key c) = Some t then None
       else strs (view (ext W)) (session_key d)) \<and>
    map_of (sockets (snd (unregister E c n W))) d =
      (if d = c \<and> map_of (sockets W) c = Some n then None else map_of (sockets W) d)"
proof -
  define W1 where "W1 = (if map_of (sockets W) c = Some n
      then W\<lparr>sockets := AList.delete c (sockets W)\<rparr> else W)"
  have e1: "ext W1 = ext W" "socket_of W1 = socket_of W" by (simp_all add: W1_def)
  have step: "unregister E c n W =
      bindM (lift (compare_and_delete E (session_key c) t)) (\<lambda>d. returnM (d = 1)) W1"
    using assms(3,4) by (simp add: unregister_def io_simps W1_def [symmetric] e1)
  note run = services.compare_and_delete_run [OF assms(1,2), of "session_key c" t]
  have sel: "fst (unregister E c n W) = Inr (strs (view (ext W)) (session_key c) \<in> {None, Some t})"
    "ext (snd (unregister E c n W)) = snd (compare_and_delete E (session_key c) t (ext W))"
    "sockets (snd (unregister E c n W)) = sockets W1"
    unfolding step using run(1) by (simp_all add: io_simps e1)
  show ?thesis
    unfolding sel using run(2) by (auto simp: W1_def delete_conv')
qed

text \<open>Client \<open>a\<close> moved from socket 1 to socket 2 of the same instance.\<close>

definition closed_socket :: socket where
  "closed_socket = \<lparr>sk_clientId = None, sk_sessionToken = None, sk_deviceTokenId = None,
     sk_projects = None, sk_maxInFlight = None, sk_lastActivity = None, sk_listening = False, sk_pinging = False,
     sk_readyState = 3, sk_remoteAddress = None, sk_sent = [], sk_pings = 0, sk_closed = []\<rparr>"

definition example_registry :: "sim inst" where
  "example_registry = \<lparr>ext = sim_start\<lparr>sim_store := empty_store\<lparr>
       strs := [session_key ''a'' \<mapsto> ''i:2'', waiter_key ''r'' \<mapsto> ''i'']\<rparr>\<rparr>,
     instance_id = ''i'',
     socket_of = (\<lambda>_. closed_socket)
       (1 := closed_socket\<lparr>sk_sessionToken := Some ''i:1'', sk_readyState := 1,
              sk_deviceTokenId := Some 7\<rparr>,
        2 := closed_socket\<lparr>sk_sessionToken := Some ''i:2'', sk_readyState := 1,
              sk_deviceTokenId := Some 8\<rparr>),
     sockets = [(''a'', 2)],
     waiters = [(''r'', \<lparr>wt_clientId = ''a'', wt_timeoutMs = 20000\<rparr>)],
     settled = []\<rparr>"

lemma example_registry_sel:
  "sim_view (ext example_registry) = empty_store\<lparr>
       strs := [session_key ''a'' \<mapsto> ''i:2'', waiter_key ''r'' \<mapsto> ''i'']\<rparr>"
  "sockets example_registry = [(''a'', 2)]" "instance_id example_registry = ''i''"
  "waiters example_registry = [(''r'', \<lparr>wt_clientId = ''a'', wt_timeoutMs = 20000\<rparr>)]"
  "settled example_registry = []"
  "sk_sessionToken (socket_of example_registry 1) = Some ''i:1''"
  "sk_sessionToken (socket_of example_registry 2) = Some ''i:2''"
  "sk_readyState (socket_of example_registry 2) = 1"
  "sk_deviceTokenId (socket_of example_registry 2) = Some 8"
  by (simp_all add: example_registry_def sim_view_def sim_start_def empty_store_def)

lemma example_registry_healthy: "healthy (sim_view (ext example_registry))"
  unfolding example_registry_sel healthy_def typed_keys_def
  by (auto simp: empty_store_def)

theorem unregister_compares_token_witness:
  "fst (unregister sim_env ''a'' 1 example_registry) = Inr False \<and>
   strs (sim_view (ext (snd (unregister sim_env ''a'' 1 example_registry)))) (session_key ''a'') =
     Some ''i:2''"
  using unregister_compares_token [OF sim_services example_registry_healthy, of 1 "''i:1''" "''a''" "''a''"]
  by (simp add: example_registry_sel del: One_nat_def)

text \<open>
  what \<^verbatim>\<open>handleResult\<close> answers and does, in every case.  A result nobody waits for, or whose
  request is already completed, is late and changes nothing; a result for another instance is
  forwarded once; a result of this instance settles its waiter if it comes from the expected
  client, and otherwise settles nothing and gives the completion mark back.
\<close>

theorem handleResult_outcomes:
  assumes "services E view" "healthy (view (ext W))"
  shows "fst (handleResult E r from res W) =
      Inr (case strs (view (ext W)) (waiter_key r) of
             None \<Rightarrow> OutLate
           | Some i \<Rightarrow>
               if i = [] \<or> strs (view (ext W)) (completed_key r) \<noteq> None then OutLate
               else if i \<noteq> instance_id W then OutRouted
               else case map_of (waiters W) r of
                      None \<Rightarrow> OutMismatch
                    | Some x \<Rightarrow> if wt_clientId x = [] \<or> from = wt_clientId x then OutOk
                               else OutMismatch) \<and>
    settled (snd (handleResult E r from res W)) =
      settled W @ (if fst (handleResult E r from res W) = Inr OutOk then [(r, Resolved res)] else []) \<and>
    (strs (view (ext (snd (handleResult E r from res W)))) (completed_key r) \<noteq> None \<longleftrightarrow>
      strs (view (ext W)) (completed_key r) \<noteq> None \<or>
      fst (handleResult E r from res W) \<in> {Inr OutOk, Inr OutRouted})"
  using services.handleResult_run [OF assms, of r "from" res]
  by (auto simp: result_outcome_def expected_from_def split: option.splits if_splits)

theorem handleResult_outcomes_witness:
  "fst (handleResult sim_env ''r'' ''a'' JNull example_registry) = Inr OutOk \<and>
   fst (handleResult sim_env ''r'' ''b'' JNull example_registry) = Inr OutMismatch"
  using handleResult_outcomes [OF sim_services example_registry_healthy, of "''r''" "''a''" JNull]
    handleResult_outcomes [OF sim_services example_registry_healthy, of "''r''" "''b''" JNull]
  by (simp add: example_registry_sel empty_store_def)



text \<open>
  a job goes to the instance named in the session key.  Held here, it is sent to the socket
  exactly when the socket is open and the deadline has not passed, and sent once; held elsewhere,
  it is published to that instance and reported as dispatched; without a session it is neither.
\<close>

theorem dispatch_routes_job:
  assumes "services E view" "healthy (view (ext W))"
  shows "case strs (view (ext W)) (session_key c) of
      None \<Rightarrow> fst (dispatchJob E c j W) = Inr False
    | Some token \<Rightarrow>
        if token = [] then fst (dispatchJob E c j W) = Inr False
        else if before_colon token \<noteq> instance_id W
        then fst (dispatchJob E c j W) = Inr True \<and>
          published (view (ext (snd (dispatchJob E c j W)))) = published (view (ext W)) @
            [(send_channel (before_colon token),
              JObj [(''clientId'', JStr c), (''job'', job_json j)])]
        else case map_of (sockets W) c of
            None \<Rightarrow> fst (dispatchJob E c j W) = Inr False
          | Some n \<Rightarrow>
              if sk_readyState (socket_of W n) = 1 \<and>
                 \<not> past_deadline j (now_ms E (snd (redis_get E (session_key c) (ext W))))
              then fst (dispatchJob E c j W) = Inr True \<and>
                sk_sent (socket_of (snd (dispatchJob E c j W)) n) =
                  sk_sent (socket_of W n) @ [job_json j]
              else fst (dispatchJob E c j W) = Inr False \<and>
                sk_sent (socket_of (snd (dispatchJob E c j W)) n) = sk_sent (socket_of W n)"
  using assms(2)
  by (auto simp: dispatchJob_def io_simps services.run_get [OF assms(1)]
      services.run_publish [OF assms(1)] bus_publish_def deliverLocalJob_def send_socket_def
      split: option.splits)

theorem dispatch_routes_job_witness:
  "fst (dispatchJob sim_env ''b'' \<lparr>job_requestId = ''r'', job_project = ''p'', job_action = ''x'',
     job_payload = JNull, job_timeoutSeconds = 20, job_deadlineAt = None\<rparr> example_registry) = Inr False"
  using dispatch_routes_job [OF sim_services example_registry_healthy, of "''b''"]
  by (simp add: example_registry_sel)

lemma close_if_token_sel:
  "sockets (close_if_token t n W) = sockets W"
  "socket_of (close_if_token t n W) m =
     (if m = n \<and> sk_deviceTokenId (socket_of W n) = Some t \<and> sk_readyState (socket_of W n) = 1
      then (socket_of W n)\<lparr>sk_readyState := 2,
             sk_closed := sk_closed (socket_of W n) @ [(4002, ''device token scope updated'')]\<rparr>
      else socket_of W m)"
  by (simp_all add: close_if_token_def close_socket_def)

lemma fold_close_if_token:
  "socket_of (fold (close_if_token t) ns W) m =
     (if m \<in> set ns \<and> sk_deviceTokenId (socket_of W m) = Some t \<and> sk_readyState (socket_of W m) = 1
      then (socket_of W m)\<lparr>sk_readyState := 2,
             sk_closed := sk_closed (socket_of W m) @ [(4002, ''device token scope updated'')]\<rparr>
      else socket_of W m)"
  by (induction ns arbitrary: W) (auto simp: close_if_token_sel)

text \<open>
  when the scope of a device token changes, exactly the open sockets of this instance that
  were authenticated with it are closed, with code 4002; every other socket is left alone.
\<close>

theorem scope_change_closes_sessions:
  "socket_of (disconnectLocalDeviceTokenSessions t W) m =
     (if m \<in> snd ` set (sockets W) \<and> sk_deviceTokenId (socket_of W m) = Some t \<and>
         sk_readyState (socket_of W m) = 1
      then (socket_of W m)\<lparr>sk_readyState := 2,
             sk_closed := sk_closed (socket_of W m) @ [(4002, ''device token scope updated'')]\<rparr>
      else socket_of W m)"
  by (simp add: disconnectLocalDeviceTokenSessions_def fold_close_if_token)

end
