(* ===== verification/Cache_Aside.thy ===== *)
theory Cache_Aside
  imports Json_Text Reference_Env
begin

text \<open>
  \<^verbatim>\<open>infrastructure/redis/redis-cache-aside.service.ts\<close>, \<^verbatim>\<open>cache-keys.ts\<close> and
  \<^verbatim>\<open>user-authorization-cache.service.ts\<close>: values kept in Redis as JSON text beside the database.
  A zod schema is a function from the parsed JSON to the value it accepts.  Every failure of the
  cache itself is swallowed.  The locale \<open>cached_value\<close> states what a cached type promises (its
  schema accepts its own JSON); the lemmas about hits are proved in it once.
\<close>

section \<open>Keys\<close>

definition accessTokenCacheKey :: "'w env \<Rightarrow> string \<Rightarrow> string" where
  "accessTokenCacheKey E t = ''invoke:token:'' @ sha256_hex E t"

definition deviceTokenCacheKey :: "'w env \<Rightarrow> string \<Rightarrow> string" where
  "deviceTokenCacheKey E t = ''ws:devtoken:'' @ sha256_hex E t"

definition userAuthorizationCacheKey :: "nat \<Rightarrow> string" where
  "userAuthorizationCacheKey u = ''rbac:authorization:user:'' @ show_nat u"

lemma cache_key_types [simp]:
  "\<not> is_set_key (accessTokenCacheKey E t)" "\<not> is_set_key (deviceTokenCacheKey E t)"
  "\<not> is_set_key (userAuthorizationCacheKey u)"
  by (simp_all add: accessTokenCacheKey_def deviceTokenCacheKey_def userAuthorizationCacheKey_def
      is_set_key_def)

lemma cache_key_families [simp]:
  "accessTokenCacheKey E t \<noteq> deviceTokenCacheKey E s"
  "accessTokenCacheKey E t \<noteq> userAuthorizationCacheKey u"
  "deviceTokenCacheKey E t \<noteq> userAuthorizationCacheKey u"
  "userAuthorizationCacheKey u = userAuthorizationCacheKey v \<longleftrightarrow> u = v"
  by (simp_all add: accessTokenCacheKey_def deviceTokenCacheKey_def userAuthorizationCacheKey_def)

section \<open>The service\<close>

definition invalidate :: "'w env \<Rightarrow> string list \<Rightarrow> ('w, unit) io" where
  "invalidate E keys =
     (if unique keys = [] then returnM ()
      else catchM (thenM (redis_del E (unique keys)) (returnM ())) (\<lambda>_. returnM ()))"

definition cache_get :: "'w env \<Rightarrow> string \<Rightarrow> (json \<Rightarrow> 'v option) \<Rightarrow> ('w, 'v option) io" where
  "cache_get E k schema =
     catchM
       (bindM (redis_get E k) (\<lambda>v.
          case v of
            None \<Rightarrow> returnM None
          | Some s \<Rightarrow>
              if s = [] then returnM None
              else (case parse_json s of
                      None \<Rightarrow> throwM (TypeErr (MText ''SyntaxError''))
                    | Some j \<Rightarrow>
                        (case schema j of
                           Some x \<Rightarrow> returnM (Some x)
                         | None \<Rightarrow> thenM (invalidate E [k]) (returnM None)))))
       (\<lambda>_. returnM None)"

text \<open>Redis rejects a lifetime that is not positive; the rejection is caught like any other.\<close>

definition cache_set :: "'w env \<Rightarrow> string \<Rightarrow> json \<Rightarrow> int \<Rightarrow> ('w, unit) io" where
  "cache_set E k v ttl =
     (if ttl \<le> 0 then returnM ()
      else catchM (redis_set_ttl E k (stringify v) (seconds (nat ttl))) (\<lambda>_. returnM ()))"

definition getOrLoad ::
  "'w env \<Rightarrow> string \<Rightarrow> (json \<Rightarrow> 'v option) \<Rightarrow> ('v \<Rightarrow> json) \<Rightarrow> ('w, 'v) io \<Rightarrow> ('v \<Rightarrow> 'w \<Rightarrow> int) \<Rightarrow>
   ('w, 'v) io" where
  "getOrLoad E k schema to_json load ttl =
     bindM (cache_get E k schema) (\<lambda>cached.
       case cached of
         Some x \<Rightarrow> returnM x
       | None \<Rightarrow>
           bindM load (\<lambda>x w.
             thenM (cache_set E k (to_json x) (ttl x w)) (returnM x) w))"

definition writeAndInvalidate ::
  "'w env \<Rightarrow> ('w, 'r) io \<Rightarrow> ('r \<Rightarrow> string list) \<Rightarrow> ('w, 'r) io" where
  "writeAndInvalidate E write keys =
     bindM write (\<lambda>r. thenM (invalidate E (keys r)) (returnM r))"

section \<open>The cache never fails\<close>

lemma invalidate_ok [simp]: "fst (invalidate E ks w) = Inr ()"
  by (simp add: invalidate_def io_simps)

lemma cache_get_ok [simp]: "\<not> isl (fst (cache_get E k schema w))"
  by (auto simp: cache_get_def io_simps split: option.splits)

lemma cache_set_ok [simp]: "fst (cache_set E k v ttl w) = Inr ()"
  by (cases "fst (redis_set_ttl E k (stringify v) (seconds (nat ttl)) w)")
    (simp_all add: cache_set_def io_simps)

lemma getOrLoad_eq:
  "getOrLoad E k schema to_json load ttl w =
     (case projr (fst (cache_get E k schema w)) of
        Some x \<Rightarrow> (Inr x, snd (cache_get E k schema w))
      | None \<Rightarrow>
          let r = load (snd (cache_get E k schema w)) in
          case fst r of
            Inl e \<Rightarrow> (Inl e, snd r)
          | Inr x \<Rightarrow> (Inr x, snd (cache_set E k (to_json x) (ttl x (snd r)) (snd r))))"
  by (auto simp: getOrLoad_def io_simps Let_def prod_eq_iff split: option.splits sum.splits)

lemma writeAndInvalidate_eq:
  "writeAndInvalidate E write keys w =
     (case fst (write w) of
        Inl e \<Rightarrow> (Inl e, snd (write w))
      | Inr r \<Rightarrow> (Inr r, snd (invalidate E (keys r) (snd (write w)))))"
  by (auto simp: writeAndInvalidate_def io_simps prod_eq_iff split: sum.splits)

section \<open>What the operations do while the services are up\<close>

text \<open>What a read finds: the value of a well-formed entry.\<close>

definition cached :: "store \<Rightarrow> string \<Rightarrow> (json \<Rightarrow> 'v option) \<Rightarrow> 'v option" where
  "cached s k schema =
     (case strs s k of
        None \<Rightarrow> None
      | Some t \<Rightarrow> if t = [] then None else Option.bind (parse_json t) schema)"

lemma cached_None: "strs s k = None \<Longrightarrow> cached s k schema = None"
  by (simp add: cached_def)

context services
begin

lemma invalidate_run [simp]:
  "healthy (view w) \<Longrightarrow> view (snd (invalidate E ks w)) = del_keys ks (view w)"
  by (auto simp: invalidate_def io_simps del_keys_def)

lemma cache_get_run:
  assumes "healthy (view w)" "\<not> is_set_key k"
  shows "fst (cache_get E k schema w) = Inr (cached (view w) k schema)"
    and "rows (view (snd (cache_get E k schema w))) = rows (view w)"
    and "healthy (view (snd (cache_get E k schema w)))"
    and "view (snd (cache_get E k schema w)) = view w \<or>
      view (snd (cache_get E k schema w)) = del_keys [k] (view w)"
    and "cached (view w) k schema \<noteq> None \<Longrightarrow> view (snd (cache_get E k schema w)) = view w"
    and "strs (view w) k = None \<Longrightarrow> view (snd (cache_get E k schema w)) = view w"
  using assms
  by (auto simp: cache_get_def io_simps cached_def split: option.splits)

lemma cache_set_run [simp]:
  "healthy (view w) \<Longrightarrow> view (snd (cache_set E k v ttl w)) =
     (if ttl \<le> 0 then view w
      else put_str k (stringify v) (Some (seconds (nat ttl))) (view w))"
  by (simp add: cache_set_def io_simps)

end

text \<open>A type whose schema reads back the JSON of its valid values.\<close>

locale cached_value =
  fixes to_json :: "'v \<Rightarrow> json" and schema :: "json \<Rightarrow> 'v option" and valid :: "'v \<Rightarrow> bool"
  assumes accepts: "valid v \<Longrightarrow> schema (to_json v) = Some v"
    and plain: "valid v \<Longrightarrow> json_ok (to_json v)"
begin

lemma cached_after_put:
  assumes "valid v"
  shows "cached (put_str k (stringify (to_json v)) t s) k schema = Some v"
proof -
  have "stringify (to_json v) \<noteq> []"
    using stringify_Cons [OF plain [OF assms]] by auto
  then show ?thesis
    using parse_stringify [OF plain [OF assms]] accepts [OF assms] by (simp add: cached_def)
qed

text \<open>What was loaded once is served from the cache, whatever the loader would give now.\<close>

lemma second_read_hits:
  assumes "services E view" "healthy (view w)" "\<not> is_set_key k" "cached (view w) k schema = None"
    and "fst (load (snd (cache_get E k schema w))) = Inr v" "valid v"
    and "healthy (view (snd (load (snd (cache_get E k schema w)))))"
    and "0 < ttl v (snd (load (snd (cache_get E k schema w))))"
  shows "fst (getOrLoad E k schema to_json load' ttl'
           (snd (getOrLoad E k schema to_json load ttl w))) = Inr v"
proof -
  let ?w1 = "snd (load (snd (cache_get E k schema w)))"
  let ?w2 = "snd (getOrLoad E k schema to_json load ttl w)"
  have "view ?w2 = put_str k (stringify (to_json v)) (Some (seconds (nat (ttl v ?w1)))) (view ?w1)"
    using assms(4,5,7,8) services.cache_get_run(1) [OF assms(1-3), of schema]
      services.cache_set_run [OF assms(1,7)]
    by (simp add: getOrLoad_eq Let_def)
  then have "cached (view ?w2) k schema = Some v" "healthy (view ?w2)"
    using cached_after_put [OF assms(6)] assms(3,7) by simp_all
  then show ?thesis
    using services.cache_get_run(1) [OF assms(1) _ assms(3), of ?w2 schema]
    by (simp add: getOrLoad_eq)
qed

end

section \<open>The authorization of a user\<close>

record authorization_snapshot =
  as_isRoot :: bool
  as_enabled :: bool
  as_permissions :: "(string \<times> string) list"

definition snapshot_json :: "authorization_snapshot \<Rightarrow> json" where
  "snapshot_json a = JObj [(''schemaVersion'', JNum 1), (''isRoot'', JBool (as_isRoot a)),
     (''enabled'', JBool (as_enabled a)),
     (''permissions'', JArr (map (\<lambda>(act, subj). JObj [(''action'', JStr act), (''subject'', JStr subj)])
        (as_permissions a)))]"

definition bool_field :: "string \<Rightarrow> json \<Rightarrow> bool option" where
  "bool_field k j = (case field k j of Some (JBool b) \<Rightarrow> Some b | _ \<Rightarrow> None)"

definition string_field :: "string \<Rightarrow> json \<Rightarrow> string option" where
  "string_field k j = (case field k j of Some (JStr s) \<Rightarrow> Some s | _ \<Rightarrow> None)"

definition array_field :: "string \<Rightarrow> json \<Rightarrow> json list option" where
  "array_field k j = (case field k j of Some (JArr xs) \<Rightarrow> Some xs | _ \<Rightarrow> None)"

text \<open>\<^verbatim>\<open>z.array\<close>: every element must be accepted.\<close>

primrec accept_all :: "(json \<Rightarrow> 'a option) \<Rightarrow> json list \<Rightarrow> 'a list option" where
  "accept_all f [] = Some []"
| "accept_all f (x # xs) =
     (case f x of None \<Rightarrow> None | Some a \<Rightarrow> map_option (\<lambda>as. a # as) (accept_all f xs))"

lemma accept_all_map:
  "(\<And>x. x \<in> set xs \<Longrightarrow> f (g x) = Some x) \<Longrightarrow> accept_all f (map g xs) = Some xs"
  by (induction xs) simp_all

definition permission_schema :: "json \<Rightarrow> (string \<times> string) option" where
  "permission_schema j =
     (case (string_field ''action'' j, string_field ''subject'' j) of
        (Some a, Some s) \<Rightarrow> Some (a, s) | _ \<Rightarrow> None)"

definition authorizationSnapshotSchema :: "json \<Rightarrow> authorization_snapshot option" where
  "authorizationSnapshotSchema j =
     (if field ''schemaVersion'' j \<noteq> Some (JNum 1) then None
      else case (bool_field ''isRoot'' j, bool_field ''enabled'' j, array_field ''permissions'' j) of
             (Some r, Some e, Some ps) \<Rightarrow>
               map_option (\<lambda>qs. \<lparr>as_isRoot = r, as_enabled = e, as_permissions = qs\<rparr>)
                 (accept_all permission_schema ps)
           | _ \<Rightarrow> None)"

lemma authorization_accepts: "authorizationSnapshotSchema (snapshot_json a) = Some a"
proof -
  have "accept_all permission_schema
      (map (\<lambda>(act, subj). JObj [(''action'', JStr act), (''subject'', JStr subj)]) ps) = Some ps" for ps
    by (rule accept_all_map) (auto simp: permission_schema_def string_field_def field_def)
  then show ?thesis
    by (simp add: authorizationSnapshotSchema_def snapshot_json_def bool_field_def array_field_def
        field_def)
qed

lemma snapshot_json_ok: "json_ok (snapshot_json a)"
  by (auto simp: snapshot_json_def)

interpretation authorization: cached_value snapshot_json authorizationSnapshotSchema "\<lambda>_. True"
  by unfold_locales (simp_all add: authorization_accepts snapshot_json_ok)

definition authorization_getOrLoad ::
  "'w env \<Rightarrow> int \<Rightarrow> nat \<Rightarrow> ('w, authorization_snapshot) io \<Rightarrow> ('w, authorization_snapshot) io" where
  "authorization_getOrLoad E ttl userId load =
     getOrLoad E (userAuthorizationCacheKey userId) authorizationSnapshotSchema snapshot_json load
       (\<lambda>_ _. ttl)"

definition authorization_writeAndInvalidate ::
  "'w env \<Rightarrow> ('w, 'r) io \<Rightarrow> nat list \<Rightarrow> ('w, 'r) io" where
  "authorization_writeAndInvalidate E write userIds =
     writeAndInvalidate E write (\<lambda>_. map userAuthorizationCacheKey userIds)"

section \<open>Properties\<close>

text \<open>
  the cache is fail-open.  Whatever Redis does, a read through the cache fails only with the
  very failure of the loader, and a write through it fails only with the failure of the write.
\<close>

theorem cache_fails_open:
  "(fst (getOrLoad E k schema to_json load ttl w) = Inl e \<longrightarrow>
     fst (load (snd (cache_get E k schema w))) = Inl e) \<and>
   (fst (writeAndInvalidate E write keys w) = Inl e \<longleftrightarrow> fst (write w) = Inl e)"
  by (auto simp: getOrLoad_eq writeAndInvalidate_eq Let_def split: option.splits sum.splits)

text \<open>Redis is down: every command throws.\<close>

definition example_down :: sim where
  "example_down = sim_start\<lparr>sim_store := empty_store\<lparr>up := False\<rparr>\<rparr>"

theorem cache_fails_open_witness:
  "fst (getOrLoad sim_env ''k'' authorizationSnapshotSchema snapshot_json (throwM Infra) (\<lambda>_ _. 60)
     example_down) \<noteq> Inl (PgError ''23505'')"
  using cache_fails_open [of sim_env "''k''" authorizationSnapshotSchema snapshot_json "throwM Infra"
      "\<lambda>_ _. 60" example_down "PgError ''23505''" "throwM Infra" "\<lambda>_. []"]
  by auto

text \<open>
  permissions are never served stale after a write.  When an operation that changes the
  authorization of some users goes through \<^verbatim>\<open>writeAndInvalidate\<close>, the next reading of any of
  them asks the loader again, and the reading after that is served from the cache.
\<close>

theorem authorization_fresh_after_write:
  assumes "services E view" "u \<in> set us"
    and "fst (write w) = Inr r" "healthy (view (snd (write w)))"
    and "\<And>w'. view w' = del_keys (map userAuthorizationCacheKey us) (view (snd (write w))) \<Longrightarrow>
           fst (load w') = Inr a \<and> view (snd (load w')) = view w'"
    and "0 < ttl"
  shows "fst (authorization_getOrLoad E ttl u load
           (snd (authorization_writeAndInvalidate E write us w))) = Inr a \<and>
    fst (authorization_getOrLoad E ttl' u load'
      (snd (authorization_getOrLoad E ttl u load
        (snd (authorization_writeAndInvalidate E write us w))))) = Inr a"
proof -
  let ?k = "userAuthorizationCacheKey u"
  define w1 where "w1 = snd (authorization_writeAndInvalidate E write us w)"
  have v1: "view w1 = del_keys (map userAuthorizationCacheKey us) (view (snd (write w)))"
    using assms(3) services.invalidate_run [OF assms(1,4)]
    by (simp add: w1_def authorization_writeAndInvalidate_def writeAndInvalidate_eq)
  have h1: "healthy (view w1)" using assms(4) by (simp add: v1)
  have none: "strs (view w1) ?k = None" using assms(2) by (simp add: v1)
  have key: "\<not> is_set_key ?k" by simp
  have get: "view (snd (cache_get E ?k authorizationSnapshotSchema w1)) = view w1"
    using services.cache_get_run(6) [OF assms(1) h1 key none] .
  then have load: "fst (load (snd (cache_get E ?k authorizationSnapshotSchema w1))) = Inr a"
    "view (snd (load (snd (cache_get E ?k authorizationSnapshotSchema w1)))) = view w1"
    using assms(5) v1 by simp_all
  have miss: "cached (view w1) ?k authorizationSnapshotSchema = None"
    using cached_None [OF none] .
  have "fst (authorization_getOrLoad E ttl u load w1) = Inr a"
    using load(1) miss services.cache_get_run(1) [OF assms(1) h1 key, of authorizationSnapshotSchema]
    by (simp add: authorization_getOrLoad_def getOrLoad_eq Let_def)
  moreover have "fst (authorization_getOrLoad E ttl' u load'
      (snd (authorization_getOrLoad E ttl u load w1))) = Inr a"
    unfolding authorization_getOrLoad_def
    by (rule authorization.second_read_hits
        [where E = E and view = view and w = w1 and load = load and v = a])
      (use assms(1,6) h1 miss load in simp_all)
  ultimately show ?thesis by (simp add: w1_def)
qed

definition example_snapshot :: authorization_snapshot where
  "example_snapshot = \<lparr>as_isRoot = False, as_enabled = True, as_permissions = [(''read'', ''user'')]\<rparr>"

lemma sim_start_view [simp]: "sim_view sim_start = empty_store"
  by (simp add: sim_view_def sim_start_def empty_store_def)

lemma empty_store_healthy [simp]: "healthy empty_store"
  by (simp add: healthy_def typed_keys_def empty_store_def)

theorem authorization_fresh_after_write_witness:
  "fst (authorization_getOrLoad sim_env 60 5 (returnM example_snapshot)
     (snd (authorization_writeAndInvalidate sim_env (returnM ()) [5, 6] sim_start))) =
   Inr example_snapshot"
  using authorization_fresh_after_write [OF sim_services, of 5 "[5, 6]" "returnM ()" sim_start "()"
      "returnM example_snapshot" example_snapshot 60]
  by simp

end
