(* ===== verification/Db_Util.thy ===== *)
theory Db_Util
  imports Reference_Env
begin

text \<open>
  The helpers of \<^verbatim>\<open>common/db\<close>: filter conditions, the ILIKE pattern, page bounds, pagination and
  soft deletion; with the SQL constructs the services use them with.  A condition is a predicate
  on rows, \<^verbatim>\<open>null\<close> conditions are \<open>None\<close>, a column is a function that gives \<open>None\<close> for NULL.
  A query over several tables is a function of one snapshot of all rows (\<open>db_query\<close>).
\<close>

section \<open>Patterns\<close>

text \<open>
  PostgreSQL's LIKE: \<^verbatim>\<open>%\<close> stands for any text, \<^verbatim>\<open>_\<close> for one character, a backslash takes the next
  character literally.  A pattern that ends in a lone backslash is an error there; here it
  matches nothing.
\<close>

fun like_match :: "string \<Rightarrow> string \<Rightarrow> bool" where
  "like_match [] s = (s = [])"
| "like_match (p # ps) [] = (p = CHR ''%'' \<and> like_match ps [])"
| "like_match (p # ps) (c # cs) =
     (if p = CHR ''%'' then like_match ps (c # cs) \<or> like_match (p # ps) cs
      else if p = CHR ''_'' then like_match ps cs
      else if p = CHR 92 then (case ps of [] \<Rightarrow> False | q # qs \<Rightarrow> q = c \<and> like_match qs cs)
      else p = c \<and> like_match ps cs)"

definition lower_char :: "char \<Rightarrow> char" where
  "lower_char c =
     (let n = (of_char c :: nat) in if 65 \<le> n \<and> n \<le> 90 then char_of (n + 32) else c)"

text \<open>ILIKE compares without regard to the case of letters (of the ASCII letters, here).\<close>

definition ilike :: "string \<Rightarrow> string \<Rightarrow> bool" where
  "ilike s p \<longleftrightarrow> like_match (map lower_char p) (map lower_char s)"

definition is_wildcard :: "char \<Rightarrow> bool" where
  "is_wildcard c \<longleftrightarrow> c = CHR 92 \<or> c = CHR ''%'' \<or> c = CHR ''_''"

definition containsPattern :: "string \<Rightarrow> string" where
  "containsPattern v =
     CHR ''%'' # concat (map (\<lambda>c. if is_wildcard c then [CHR 92, c] else [c]) v) @ ''%''"

section \<open>Conditions\<close>

type_synonym 'a condition = "('a \<Rightarrow> bool) option"

definition likeIf :: "('a \<Rightarrow> string option) \<Rightarrow> string option \<Rightarrow> 'a condition" where
  "likeIf column v =
     (case v of
        None \<Rightarrow> None
      | Some s \<Rightarrow>
          if s = [] then None
          else Some (\<lambda>r. case column r of None \<Rightarrow> False | Some t \<Rightarrow> ilike t (containsPattern s)))"

text \<open>\<open>blank v\<close> says that \<open>v\<close> is the empty string; no value of another type is.\<close>

definition eqIf :: "('v \<Rightarrow> bool) \<Rightarrow> ('a \<Rightarrow> 'v option) \<Rightarrow> 'v option \<Rightarrow> 'a condition" where
  "eqIf blank column v =
     (case v of
        None \<Rightarrow> None
      | Some x \<Rightarrow> if blank x then None else Some (\<lambda>r. column r = Some x))"

definition blank_string :: "string \<Rightarrow> bool" where
  "blank_string s \<longleftrightarrow> s = []"

definition never_blank :: "'v \<Rightarrow> bool" where
  "never_blank v \<longleftrightarrow> False"

text \<open>The bounds on instants; the value is the instant its text denotes.\<close>

definition gteIf :: "('a \<Rightarrow> int option) \<Rightarrow> int option \<Rightarrow> 'a condition" where
  "gteIf column v =
     map_option (\<lambda>t r. case column r of None \<Rightarrow> False | Some x \<Rightarrow> t \<le> x) v"

definition lteIf :: "('a \<Rightarrow> int option) \<Rightarrow> int option \<Rightarrow> 'a condition" where
  "lteIf column v =
     map_option (\<lambda>t r. case column r of None \<Rightarrow> False | Some x \<Rightarrow> x \<le> t) v"

definition compactConditions :: "'a condition list \<Rightarrow> ('a \<Rightarrow> bool) list" where
  "compactConditions cs = List.map_filter (\<lambda>c. c) cs"

definition alive :: "('a \<Rightarrow> int option) \<Rightarrow> ('a \<Rightarrow> bool) list \<Rightarrow> 'a \<Rightarrow> bool" where
  "alive deletedAt conditions r \<longleftrightarrow> deletedAt r = None \<and> list_all (\<lambda>c. c r) conditions"

definition softDelete ::
  "'w env \<Rightarrow> 'a table \<Rightarrow> ('a \<Rightarrow> int option) \<Rightarrow> (int option \<Rightarrow> 'a \<Rightarrow> 'a) \<Rightarrow> ('a \<Rightarrow> bool) \<Rightarrow>
   ('w, 'a list) io" where
  "softDelete E T deletedAt set_deletedAt P w =
     update_table E T (alive deletedAt [P]) (set_deletedAt (Some (now_ms E w))) w"

section \<open>Pages\<close>

definition DEFAULT_PAGE_SIZE :: int where
  "DEFAULT_PAGE_SIZE = 10"

definition MAXIMUM_PAGE_SIZE :: int where
  "MAXIMUM_PAGE_SIZE = 100"

definition MAXIMUM_PAGE :: int where
  "MAXIMUM_PAGE = 1000000"

record bounds =
  bd_page :: int
  bd_pageSize :: int
  bd_offset :: int

definition or_default :: "'a \<Rightarrow> 'a option \<Rightarrow> 'a" where
  "or_default d v = (case v of None \<Rightarrow> d | Some x \<Rightarrow> x)"

definition pageBounds :: "int option \<Rightarrow> int option \<Rightarrow> bounds" where
  "pageBounds page pageSize =
     (let p = min MAXIMUM_PAGE (max 1 (or_default 1 page));
          n = min MAXIMUM_PAGE_SIZE (max 1 (or_default DEFAULT_PAGE_SIZE pageSize)) in
      \<lparr>bd_page = p, bd_pageSize = n, bd_offset = (p - 1) * n\<rparr>)"

record 'r paginated =
  pg_rows :: "'r list"
  pg_page :: int
  pg_pageSize :: int
  pg_total :: int

definition db_query :: "'w env \<Rightarrow> (row list \<Rightarrow> 'a) \<Rightarrow> ('w, 'a) io" where
  "db_query E f = bindM (db_select E (\<lambda>_. True)) (\<lambda>rs. returnM (f rs))"

definition limit_offset :: "int \<Rightarrow> int \<Rightarrow> 'a list \<Rightarrow> 'a list" where
  "limit_offset limit offset xs = take (nat limit) (drop (nat offset) xs)"

definition paginate ::
  "'w env \<Rightarrow> 'a table \<Rightarrow> ('a \<Rightarrow> bool) \<Rightarrow> int option \<Rightarrow> int option \<Rightarrow>
   (int \<Rightarrow> int \<Rightarrow> ('w, 'r list) io) \<Rightarrow> ('w, 'r paginated) io" where
  "paginate E T whereClause page pageSize fetchRows =
     (let b = pageBounds page pageSize in
      bindM (select_from E T whereClause) (\<lambda>counted.
      bindM (fetchRows (bd_pageSize b) (bd_offset b)) (\<lambda>rs.
        returnM \<lparr>pg_rows = rs, pg_page = bd_page b, pg_pageSize = bd_pageSize b,
                 pg_total = int (length counted)\<rparr>)))"

text \<open>The usual row query of a list: one table, sorted by a key, one page of it.\<close>

definition select_page ::
  "'w env \<Rightarrow> 'a table \<Rightarrow> ('a \<Rightarrow> bool) \<Rightarrow> ('a \<Rightarrow> 'k :: linorder) \<Rightarrow> int \<Rightarrow> int \<Rightarrow> ('w, 'a list) io" where
  "select_page E T P key limit offset =
     bindM (select_from E T P) (\<lambda>rs. returnM (limit_offset limit offset (sort_key key rs)))"

section \<open>The ILIKE pattern matches literally\<close>

lemma lower_char_special [simp]:
  "lower_char (CHR ''%'') = CHR ''%''" "lower_char (CHR ''_'') = CHR ''_''" "lower_char (CHR 92) = CHR 92"
  by (simp_all add: lower_char_def)

lemma lower_char_code: "(of_char (lower_char c) :: nat) =
    (let n = of_char c in if 65 \<le> n \<and> n \<le> 90 then n + 32 else n)"
  by (auto simp: lower_char_def Let_def)

lemma char_code_eq: "(of_char c :: nat) = of_char d \<longleftrightarrow> c = d"
  by (rule of_char_eq_iff)

lemma is_wildcard_code: "is_wildcard c \<longleftrightarrow> (of_char c :: nat) \<in> {92, 37, 95}"
  using char_code_eq [of c "CHR 92"] char_code_eq [of c "CHR ''%''"] char_code_eq [of c "CHR ''_''"]
  by (simp add: is_wildcard_def)

lemma lower_char_wildcard [simp]: "is_wildcard (lower_char c) \<longleftrightarrow> is_wildcard c"
  by (auto simp: is_wildcard_code lower_char_code Let_def)

text \<open>The escaped text, then \<^verbatim>\<open>%\<close>: a prefix test.\<close>

lemma like_prefix:
  "like_match (concat (map (\<lambda>c. if is_wildcard c then [CHR 92, c] else [c]) v) @ ''%'') s \<longleftrightarrow>
     prefix v s"
proof (induction v arbitrary: s)
  case Nil
  show ?case by (induction s) simp_all
next
  case (Cons c v)
  show ?case
  proof (cases s)
    case Nil
    then show ?thesis by (auto simp: is_wildcard_def)
  next
    case (Cons d s')
    then show ?thesis using Cons.IH by (auto simp: is_wildcard_def)
  qed
qed

lemma like_any_prefix: "like_match (CHR ''%'' # p) s \<longleftrightarrow> (\<exists>t. suffix t s \<and> like_match p t)"
proof (induction s)
  case (Cons c s)
  then show ?case by (auto simp: suffix_Cons)
qed simp

lemma map_lower_pattern:
  "map lower_char (concat (map (\<lambda>c. if is_wildcard c then [CHR 92, c] else [c]) v)) =
   concat (map (\<lambda>c. if is_wildcard c then [CHR 92, c] else [c]) (map lower_char v))"
  by (induction v) auto

text \<open>
  searching finds exactly the texts that contain the searched text: the characters \<^verbatim>\<open>%\<close>,
  \<^verbatim>\<open>_\<close> and backslash of the input match only themselves, and letters match in either case.
\<close>

theorem contains_pattern_is_literal:
  "ilike s (containsPattern v) \<longleftrightarrow> sublist (map lower_char v) (map lower_char s)"
  by (auto simp: ilike_def containsPattern_def map_lower_pattern like_any_prefix like_prefix
      sublist_altdef' simp del: map_map)

text \<open>
  whatever page and page size a caller sends, the page is within 1..1000000, the size within
  1..100, and the offset is a non-negative multiple of the size below 100000000; values already
  within the bounds are kept.
\<close>

theorem page_bounds_clamp:
  "1 \<le> bd_page (pageBounds p n) \<and> bd_page (pageBounds p n) \<le> 1000000 \<and>
   1 \<le> bd_pageSize (pageBounds p n) \<and> bd_pageSize (pageBounds p n) \<le> 100 \<and>
   0 \<le> bd_offset (pageBounds p n) \<and> bd_offset (pageBounds p n) < 100000000 \<and>
   bd_offset (pageBounds p n) = (bd_page (pageBounds p n) - 1) * bd_pageSize (pageBounds p n) \<and>
   (\<forall>q \<in> {1..1000000}. bd_page (pageBounds (Some q) n) = q) \<and>
   (\<forall>m \<in> {1..100}. bd_pageSize (pageBounds p (Some m)) = m)"
proof -
  let ?b = "pageBounds p n"
  have b: "1 \<le> bd_page ?b" "bd_page ?b \<le> 1000000" "1 \<le> bd_pageSize ?b" "bd_pageSize ?b \<le> 100"
    "bd_offset ?b = (bd_page ?b - 1) * bd_pageSize ?b"
    by (auto simp: pageBounds_def Let_def MAXIMUM_PAGE_def MAXIMUM_PAGE_SIZE_def)
  have "(bd_page ?b - 1) * bd_pageSize ?b \<le> 999999 * 100"
    using b by (intro mult_mono) simp_all
  moreover have "0 \<le> (bd_page ?b - 1) * bd_pageSize ?b" using b by simp
  ultimately show ?thesis
    using b by (auto simp: pageBounds_def Let_def MAXIMUM_PAGE_def MAXIMUM_PAGE_SIZE_def or_default_def)
qed

theorem page_bounds_clamp_witness:
  "bd_page (pageBounds (Some 7) None) = 7"
  using page_bounds_clamp [of None None] by (auto dest: bspec [of _ _ 7])

end
