(* ===== verification/Metrics.thy ===== *)
theory Metrics
  imports Db_Util
begin

text \<open>
  \<^verbatim>\<open>application/metrics/metrics.service.ts\<close>: the daily aggregates of calls, kept incrementally by
  \<open>recordCompletion\<close> (an upsert per completed call), rebuilt from the request logs by
  \<open>rebuildRecent\<close>, and read by \<open>overview\<close>, \<open>weekly\<close>, \<open>trend\<close> and \<open>requests7dByProject\<close>.
  A SQL GROUP BY is \<open>group_by\<close>; the groups come in the order of the rows, which the services
  leave open.
\<close>

section \<open>Arithmetic of the queries\<close>

definition MS_PER_DAY :: int where
  "MS_PER_DAY = 86400000"

text \<open>The UTC day of an instant.\<close>

definition day_of :: "int \<Rightarrow> int" where
  "day_of ms = ms div MS_PER_DAY"

text \<open>\<^verbatim>\<open>Math.round\<close>: to the nearest integer, halves upwards.\<close>

definition math_round :: "rat \<Rightarrow> int" where
  "math_round q = \<lfloor>q + 1 / 2\<rfloor>"

text \<open>PostgreSQL's rounding of a numeric: halves away from zero.\<close>

definition pg_round :: "rat \<Rightarrow> int" where
  "pg_round q = (if 0 \<le> q then \<lfloor>q + 1 / 2\<rfloor> else - \<lfloor>- q + 1 / 2\<rfloor>)"

definition group_by :: "('a \<Rightarrow> 'k) \<Rightarrow> 'a list \<Rightarrow> ('k \<times> 'a list) list" where
  "group_by key xs = map (\<lambda>k. (k, filter (\<lambda>x. key x = k) xs)) (remdups (map key xs))"

text \<open>\<^verbatim>\<open>coalesce(max(...), 0)\<close>.\<close>

definition max_or_zero :: "int list \<Rightarrow> int" where
  "max_or_zero xs = (case xs of [] \<Rightarrow> 0 | y # ys \<Rightarrow> fold max ys y)"

definition count_if :: "('a \<Rightarrow> bool) \<Rightarrow> 'a list \<Rightarrow> int" where
  "count_if P xs = int (length (filter P xs))"

section \<open>Recording a completed call\<close>

record classification =
  cl_success :: int
  cl_timeout :: int
  cl_failed :: int

definition classify :: "string \<Rightarrow> classification" where
  "classify status =
     (if status = ''ok'' then \<lparr>cl_success = 1, cl_timeout = 0, cl_failed = 0\<rparr>
      else if status = ''timeout'' then \<lparr>cl_success = 0, cl_timeout = 1, cl_failed = 0\<rparr>
      else \<lparr>cl_success = 0, cl_timeout = 0, cl_failed = 1\<rparr>)"

definition rpc_metric_new :: "request_log_job \<Rightarrow> int \<Rightarrow> rpc_metric_row" where
  "rpc_metric_new j now =
     (let c = classify (rlj_status j) in
      \<lparr>rpm_statDate = day_of (rlj_createdAt j), rpm_projectName = rlj_project j,
       rpm_actionName = rlj_action j, rpm_clientId = or_default [] (rlj_clientId j),
       rpm_totalRequests = 1, rpm_successRequests = cl_success c, rpm_failedRequests = cl_failed c,
       rpm_timeoutRequests = cl_timeout c, rpm_totalLatencyMs = rlj_latencyMs j,
       rpm_maxLatencyMs = rlj_latencyMs j, rpm_updatedAt = now\<rparr>)"

definition rpc_metric_bump :: "request_log_job \<Rightarrow> int \<Rightarrow> rpc_metric_row \<Rightarrow> rpc_metric_row" where
  "rpc_metric_bump j now r =
     (let c = classify (rlj_status j) in
      r\<lparr>rpm_totalRequests := rpm_totalRequests r + 1,
        rpm_successRequests := rpm_successRequests r + cl_success c,
        rpm_failedRequests := rpm_failedRequests r + cl_failed c,
        rpm_timeoutRequests := rpm_timeoutRequests r + cl_timeout c,
        rpm_totalLatencyMs := rpm_totalLatencyMs r + rlj_latencyMs j,
        rpm_maxLatencyMs := max (rpm_maxLatencyMs r) (rlj_latencyMs j),
        rpm_updatedAt := now\<rparr>)"

definition device_metric_new :: "request_log_job \<Rightarrow> string \<Rightarrow> int \<Rightarrow> device_metric_row" where
  "device_metric_new j c now =
     (let cl = classify (rlj_status j) in
      \<lparr>dvm_statDate = day_of (rlj_createdAt j), dvm_clientId = c, dvm_projectName = rlj_project j,
       dvm_totalRequests = 1, dvm_successRequests = cl_success cl, dvm_failedRequests = cl_failed cl,
       dvm_timeoutRequests = cl_timeout cl, dvm_totalLatencyMs = rlj_latencyMs j,
       dvm_maxLatencyMs = rlj_latencyMs j, dvm_updatedAt = now\<rparr>)"

definition device_metric_bump :: "request_log_job \<Rightarrow> int \<Rightarrow> device_metric_row \<Rightarrow> device_metric_row" where
  "device_metric_bump j now r =
     (let cl = classify (rlj_status j) in
      r\<lparr>dvm_totalRequests := dvm_totalRequests r + 1,
        dvm_successRequests := dvm_successRequests r + cl_success cl,
        dvm_failedRequests := dvm_failedRequests r + cl_failed cl,
        dvm_timeoutRequests := dvm_timeoutRequests r + cl_timeout cl,
        dvm_totalLatencyMs := dvm_totalLatencyMs r + rlj_latencyMs j,
        dvm_maxLatencyMs := max (dvm_maxLatencyMs r) (rlj_latencyMs j),
        dvm_updatedAt := now\<rparr>)"

definition upsert_into :: "'w env \<Rightarrow> 'a table \<Rightarrow> 'a \<Rightarrow> ('a \<Rightarrow> 'a) \<Rightarrow> ('w, unit) io" where
  "upsert_into E T n f = db_upsert E (emb T n) (map_table T f)"

definition recordCompletion :: "'w env \<Rightarrow> request_log_job \<Rightarrow> ('w, unit) io" where
  "recordCompletion E j =
     transaction E
       (\<lambda>w. thenM
         (upsert_into E rpcDailyMetrics (rpc_metric_new j (pg_now E w)) (rpc_metric_bump j (now_ms E w)))
         (case rlj_clientId j of
            None \<Rightarrow> returnM ()
          | Some c \<Rightarrow>
              if c = [] then returnM ()
              else (\<lambda>w. upsert_into E deviceDailyMetrics (device_metric_new j c (pg_now E w))
                          (device_metric_bump j (now_ms E w)) w)) w)"

section \<open>Rebuilding from the logs\<close>

definition rpc_metric_of_logs ::
  "int \<Rightarrow> (int \<times> string \<times> string \<times> string) \<times> request_log_row list \<Rightarrow> rpc_metric_row" where
  "rpc_metric_of_logs now g =
     (case g of ((d, p, a, c), ls) \<Rightarrow>
        \<lparr>rpm_statDate = d, rpm_projectName = p, rpm_actionName = a, rpm_clientId = c,
         rpm_totalRequests = int (length ls),
         rpm_successRequests = count_if (\<lambda>l. rql_status l = ''ok'') ls,
         rpm_failedRequests = count_if (\<lambda>l. rql_status l \<noteq> ''ok'' \<and> rql_status l \<noteq> ''timeout'') ls,
         rpm_timeoutRequests = count_if (\<lambda>l. rql_status l = ''timeout'') ls,
         rpm_totalLatencyMs = sum_list (List.map_filter rql_latencyMs ls),
         rpm_maxLatencyMs = max_or_zero (List.map_filter rql_latencyMs ls),
         rpm_updatedAt = now\<rparr>)"

definition device_metric_of_logs ::
  "int \<Rightarrow> (int \<times> string \<times> string) \<times> request_log_row list \<Rightarrow> device_metric_row" where
  "device_metric_of_logs now g =
     (case g of ((d, c, p), ls) \<Rightarrow>
        \<lparr>dvm_statDate = d, dvm_clientId = c, dvm_projectName = p,
         dvm_totalRequests = int (length ls),
         dvm_successRequests = count_if (\<lambda>l. rql_status l = ''ok'') ls,
         dvm_failedRequests = count_if (\<lambda>l. rql_status l \<noteq> ''ok'' \<and> rql_status l \<noteq> ''timeout'') ls,
         dvm_timeoutRequests = count_if (\<lambda>l. rql_status l = ''timeout'') ls,
         dvm_totalLatencyMs = sum_list (List.map_filter rql_latencyMs ls),
         dvm_maxLatencyMs = max_or_zero (List.map_filter rql_latencyMs ls),
         dvm_updatedAt = now\<rparr>)"

definition rpc_key_of_log :: "request_log_row \<Rightarrow> int \<times> string \<times> string \<times> string" where
  "rpc_key_of_log l =
     (day_of (rql_createdAt l), rql_projectName l, rql_actionName l, or_default [] (rql_clientId l))"

definition device_key_of_log :: "request_log_row \<Rightarrow> int \<times> string \<times> string" where
  "device_key_of_log l =
     (day_of (rql_createdAt l), or_default [] (rql_clientId l), rql_projectName l)"

definition rebuilt_rpc :: "int \<Rightarrow> request_log_row list \<Rightarrow> rpc_metric_row list" where
  "rebuilt_rpc now ls = map (rpc_metric_of_logs now) (group_by rpc_key_of_log ls)"

definition rebuilt_device :: "int \<Rightarrow> request_log_row list \<Rightarrow> device_metric_row list" where
  "rebuilt_device now ls =
     map (device_metric_of_logs now)
       (group_by device_key_of_log (filter (\<lambda>l. rql_clientId l \<noteq> None) ls))"

definition rebuildRecent :: "'w env \<Rightarrow> int \<Rightarrow> ('w, unit) io" where
  "rebuildRecent E days w0 =
     (let cutoffDate = day_of (now_ms E w0) - (days - 1); cutoffTime = cutoffDate * MS_PER_DAY in
      transaction E
        (thenM (delete_from E rpcDailyMetrics (\<lambda>r. cutoffDate \<le> rpm_statDate r))
        (thenM (delete_from E deviceDailyMetrics (\<lambda>r. cutoffDate \<le> dvm_statDate r))
        (thenM
          (bindM (select_from E requestLogs (\<lambda>l. cutoffTime \<le> rql_createdAt l))
            (\<lambda>ls w. db_insert_all E (map RpcMetric (rebuilt_rpc (pg_now E w) ls)) w))
        (thenM
          (bindM (select_from E requestLogs (\<lambda>l. cutoffTime \<le> rql_createdAt l))
            (\<lambda>ls w. db_insert_all E (map DeviceMetric (rebuilt_device (pg_now E w) ls)) w))
          (returnM ()))))) w0)"

definition cleanupOldMetrics :: "'w env \<Rightarrow> int \<Rightarrow> ('w, nat \<times> nat) io" where
  "cleanupOldMetrics E retentionDays w0 =
     (let cutoffDate = day_of (now_ms E w0 - (retentionDays - 1) * MS_PER_DAY) in
      bindM (delete_from E rpcDailyMetrics (\<lambda>r. rpm_statDate r < cutoffDate)) (\<lambda>rpc.
      bindM (delete_from E deviceDailyMetrics (\<lambda>r. dvm_statDate r < cutoffDate)) (\<lambda>device.
        returnM (length rpc, length device)))) w0"

section \<open>Reading\<close>

record overview_totals =
  ov_total :: int
  ov_ok :: int
  ov_failed :: int
  ov_avgLatencyMs :: int

definition average :: "int list \<Rightarrow> rat" where
  "average xs = (if xs = [] then 0 else of_int (sum_list xs) / of_nat (length xs))"

definition overview ::
  "'w env \<Rightarrow> ('w, overview_totals \<times> (string \<times> int) list \<times> (string \<times> int) list) io" where
  "overview E =
     bindM (select_from E requestLogs (\<lambda>_. True)) (\<lambda>ls.
     bindM (select_from E requestLogs (\<lambda>_. True)) (\<lambda>ls2.
     bindM (select_from E requestLogs (\<lambda>_. True)) (\<lambda>ls3.
       returnM
         (\<lparr>ov_total = int (length ls), ov_ok = count_if (\<lambda>l. rql_status l = ''ok'') ls,
           ov_failed = count_if (\<lambda>l. rql_status l \<noteq> ''ok'') ls,
           ov_avgLatencyMs = pg_round (average (List.map_filter rql_latencyMs ls))\<rparr>,
          sort_key (\<lambda>g. - snd g)
            (map (\<lambda>(k, g). (k, int (length g))) (group_by rql_status ls2)),
          take 10 (sort_key (\<lambda>g. - snd g)
            (map (\<lambda>(k, g). (k, int (length g))) (group_by rql_projectName ls3)))))))"

definition utcDateDaysAgo :: "'w env \<Rightarrow> 'w \<Rightarrow> int \<Rightarrow> int" where
  "utcDateDaysAgo E w daysAgo = day_of (now_ms E w) - daysAgo"

record weekly_metric =
  wk_clientId :: string
  wk_project :: string
  wk_totalRequests :: int
  wk_successRequests :: int
  wk_failedRequests :: int
  wk_timeoutRequests :: int
  wk_avgLatencyMs :: int
  wk_maxLatencyMs :: int

definition project_filter :: "string option \<Rightarrow> string \<Rightarrow> bool" where
  "project_filter project name =
     (case project of None \<Rightarrow> True | Some p \<Rightarrow> p = [] \<or> name = p)"

definition weekly :: "'w env \<Rightarrow> string option \<Rightarrow> ('w, weekly_metric list) io" where
  "weekly E project w0 =
     (let cutoffDate = utcDateDaysAgo E w0 6 in
      bindM (select_from E deviceDailyMetrics
               (\<lambda>r. cutoffDate \<le> dvm_statDate r \<and> project_filter project (dvm_projectName r)))
        (\<lambda>rs. returnM (sort_key (\<lambda>x. - wk_totalRequests x)
          (map (\<lambda>((c, p), g).
             \<lparr>wk_clientId = c, wk_project = p,
              wk_totalRequests = sum_list (map dvm_totalRequests g),
              wk_successRequests = sum_list (map dvm_successRequests g),
              wk_failedRequests = sum_list (map dvm_failedRequests g),
              wk_timeoutRequests = sum_list (map dvm_timeoutRequests g),
              wk_avgLatencyMs =
                (if sum_list (map dvm_totalRequests g) = 0 then 0
                 else pg_round (of_int (sum_list (map dvm_totalLatencyMs g)) /
                                of_int (sum_list (map dvm_totalRequests g)))),
              wk_maxLatencyMs = max_or_zero (map dvm_maxLatencyMs g)\<rparr>)
            (group_by (\<lambda>r. (dvm_clientId r, dvm_projectName r)) rs))))) w0"

record daily_aggregate =
  ag_totalRequests :: int
  ag_successRequests :: int
  ag_failedRequests :: int
  ag_timeoutRequests :: int
  ag_totalLatency :: int
  ag_maximumLatency :: int

record trend_point =
  tr_statDate :: int
  tr_totalRequests :: int
  tr_successRequests :: int
  tr_failedRequests :: int
  tr_timeoutRequests :: int
  tr_avgLatencyMs :: int
  tr_maxLatencyMs :: int
  tr_successRate :: rat

definition averageLatency :: "daily_aggregate \<Rightarrow> int \<Rightarrow> int" where
  "averageLatency a n =
     (if n = 0 then 0 else math_round (of_int (ag_totalLatency a) / of_int n))"

text \<open>A percentage with two decimals.\<close>

definition successRate :: "int \<Rightarrow> int \<Rightarrow> rat" where
  "successRate success n =
     (if n = 0 then 0 else of_int (math_round (of_int (success * 10000) / of_int n)) / 100)"

definition toTrendPoint :: "int \<Rightarrow> daily_aggregate option \<Rightarrow> trend_point" where
  "toTrendPoint statDate aggregate =
     (case aggregate of
        None \<Rightarrow> \<lparr>tr_statDate = statDate, tr_totalRequests = 0, tr_successRequests = 0,
          tr_failedRequests = 0, tr_timeoutRequests = 0, tr_avgLatencyMs = 0, tr_maxLatencyMs = 0,
          tr_successRate = 0\<rparr>
      | Some a \<Rightarrow> \<lparr>tr_statDate = statDate, tr_totalRequests = ag_totalRequests a,
          tr_successRequests = ag_successRequests a, tr_failedRequests = ag_failedRequests a,
          tr_timeoutRequests = ag_timeoutRequests a,
          tr_avgLatencyMs = averageLatency a (ag_totalRequests a),
          tr_maxLatencyMs = ag_maximumLatency a,
          tr_successRate = successRate (ag_successRequests a) (ag_totalRequests a)\<rparr>)"

definition aggregate_day :: "rpc_metric_row list \<Rightarrow> daily_aggregate" where
  "aggregate_day g =
     \<lparr>ag_totalRequests = sum_list (map rpm_totalRequests g),
      ag_successRequests = sum_list (map rpm_successRequests g),
      ag_failedRequests = sum_list (map rpm_failedRequests g),
      ag_timeoutRequests = sum_list (map rpm_timeoutRequests g),
      ag_totalLatency = sum_list (map rpm_totalLatencyMs g),
      ag_maximumLatency = max_or_zero (map rpm_maxLatencyMs g)\<rparr>"

text \<open>The days from the oldest to today: the loop counts \<^verbatim>\<open>daysAgo\<close> down to zero.\<close>

definition days_down :: "int \<Rightarrow> int list" where
  "days_down days = map (\<lambda>i. days - 1 - int i) [0..<nat days]"

definition trend :: "'w env \<Rightarrow> int \<Rightarrow> string option \<Rightarrow> ('w, trend_point list) io" where
  "trend E days project w0 =
     (let cutoffDate = utcDateDaysAgo E w0 (days - 1) in
      bindM (select_from E rpcDailyMetrics
               (\<lambda>r. cutoffDate \<le> rpm_statDate r \<and> project_filter project (rpm_projectName r)))
        (\<lambda>rs w. returnM
          (map (\<lambda>daysAgo.
             let d = utcDateDaysAgo E w daysAgo in
             toTrendPoint d
               (map_of (map (\<lambda>(k, g). (k, aggregate_day g)) (group_by rpm_statDate rs)) d))
            (days_down days)) w)) w0"

definition requests7dByProject :: "'w env \<Rightarrow> ('w, (string \<times> int \<times> int) list) io" where
  "requests7dByProject E w0 =
     (let cutoffDate = utcDateDaysAgo E w0 6 in
      bindM (select_from E rpcDailyMetrics (\<lambda>r. cutoffDate \<le> rpm_statDate r))
        (\<lambda>rs. returnM (map (\<lambda>(p, g).
           (p, sum_list (map rpm_totalRequests g), sum_list (map rpm_successRequests g)))
           (group_by rpm_projectName rs)))) w0"

section \<open>Tallies\<close>

text \<open>
  The specification of an aggregate row: the tally of a collection of calls, each a status and a
  latency.
\<close>

record tally =
  ta_total :: int
  ta_success :: int
  ta_failed :: int
  ta_timeout :: int
  ta_latency :: int
  ta_maximum :: int

type_synonym call = "string \<times> int option"

definition tally_of :: "call list \<Rightarrow> tally" where
  "tally_of cs =
     \<lparr>ta_total = int (length cs), ta_success = count_if (\<lambda>c. fst c = ''ok'') cs,
      ta_failed = count_if (\<lambda>c. fst c \<noteq> ''ok'' \<and> fst c \<noteq> ''timeout'') cs,
      ta_timeout = count_if (\<lambda>c. fst c = ''timeout'') cs,
      ta_latency = sum_list (List.map_filter snd cs),
      ta_maximum = max_or_zero (List.map_filter snd cs)\<rparr>"

definition tally_option :: "call list \<Rightarrow> tally option" where
  "tally_option cs = (if cs = [] then None else Some (tally_of cs))"

definition rpc_tally :: "rpc_metric_row \<Rightarrow> tally" where
  "rpc_tally r =
     \<lparr>ta_total = rpm_totalRequests r, ta_success = rpm_successRequests r,
      ta_failed = rpm_failedRequests r, ta_timeout = rpm_timeoutRequests r,
      ta_latency = rpm_totalLatencyMs r, ta_maximum = rpm_maxLatencyMs r\<rparr>"

definition rpc_key :: "rpc_metric_row \<Rightarrow> int \<times> string \<times> string \<times> string" where
  "rpc_key r = (rpm_statDate r, rpm_projectName r, rpm_actionName r, rpm_clientId r)"

definition rpc_lookup ::
  "rpc_metric_row list \<Rightarrow> int \<times> string \<times> string \<times> string \<Rightarrow> tally option" where
  "rpc_lookup rs k = map_option rpc_tally (find (\<lambda>r. rpc_key r = k) rs)"

definition rpc_key_of_job :: "request_log_job \<Rightarrow> int \<times> string \<times> string \<times> string" where
  "rpc_key_of_job j =
     (day_of (rlj_createdAt j), rlj_project j, rlj_action j, or_default [] (rlj_clientId j))"

definition job_call :: "request_log_job \<Rightarrow> call" where
  "job_call j = (rlj_status j, Some (rlj_latencyMs j))"

definition log_call :: "request_log_row \<Rightarrow> call" where
  "log_call l = (rql_status l, rql_latencyMs l)"

lemma tally_partition: "ta_total (tally_of cs) =
    ta_success (tally_of cs) + ta_failed (tally_of cs) + ta_timeout (tally_of cs)"
  by (induction cs) (auto simp: tally_of_def count_if_def)

lemma max_or_zero_Max: "max_or_zero xs = (if xs = [] then 0 else Max (set xs))"
  by (cases xs) (simp_all add: max_or_zero_def flip: Max.set_eq_fold)

lemma map_filter_mset: "mset xs = mset ys \<Longrightarrow> mset (List.map_filter f xs) = mset (List.map_filter f ys)"
  by (metis map_filter_def mset_filter mset_map)

lemma tally_of_mset:
  assumes "mset xs = mset ys"
  shows "tally_of xs = tally_of ys"
proof -
  have c: "count_if P xs = count_if P ys" for P
    unfolding count_if_def using assms by (metis mset_filter size_mset)
  have m: "mset (List.map_filter snd xs) = mset (List.map_filter snd ys)"
    by (rule map_filter_mset [OF assms])
  have "sum_list (List.map_filter snd xs) = sum_list (List.map_filter snd ys)"
    using m by (metis sum_mset_sum_list)
  moreover have "max_or_zero (List.map_filter snd xs) = max_or_zero (List.map_filter snd ys)"
  proof -
    have "set (List.map_filter snd xs) = set (List.map_filter snd ys)"
      by (rule mset_eq_setD [OF m])
    moreover from this have "List.map_filter snd xs = [] \<longleftrightarrow> List.map_filter snd ys = []"
      by (metis set_empty)
    ultimately show ?thesis by (simp add: max_or_zero_Max)
  qed
  ultimately show ?thesis
    using mset_eq_length [OF assms] by (simp add: tally_of_def c)
qed

lemma tally_option_mset: "mset xs = mset ys \<Longrightarrow> tally_option xs = tally_option ys"
  unfolding tally_option_def using tally_of_mset by (metis mset_zero_iff mset.simps(1))

lemma tally_snoc:
  "tally_of (cs @ [(s, Some l)]) =
     (let t = tally_of cs; c = classify s in
      \<lparr>ta_total = ta_total t + 1, ta_success = ta_success t + cl_success c,
       ta_failed = ta_failed t + cl_failed c, ta_timeout = ta_timeout t + cl_timeout c,
       ta_latency = ta_latency t + l,
       ta_maximum = (if List.map_filter snd cs = [] then l else max (ta_maximum t) l)\<rparr>)"
proof -
  have "max_or_zero (xs @ [l]) = (if xs = [] then l else max (max_or_zero xs) l)" for xs
    by (cases xs) (simp_all add: max_or_zero_def max.commute)
  then show ?thesis
    by (auto simp: tally_of_def count_if_def classify_def Let_def List.map_filter_def)
qed

section \<open>The upsert, on one table\<close>

definition upsert_list :: "('a \<Rightarrow> 'k) \<Rightarrow> 'a \<Rightarrow> ('a \<Rightarrow> 'a) \<Rightarrow> 'a list \<Rightarrow> 'a list" where
  "upsert_list key n f xs =
     (if key n \<in> key ` set xs then map (\<lambda>x. if key x = key n then f x else x) xs else xs @ [n])"

lemma contents_upsert:
  assumes T: "table_ok T"
    and same: "\<And>x. conflicts (emb T n) (emb T x) \<longleftrightarrow> key x = key n"
    and other: "\<And>r. prj T r = None \<Longrightarrow> \<not> conflicts (emb T n) r"
  shows "contents (upsert_rows (emb T n) (map_table T f) rs) T = upsert_list key n f (contents rs T)"
proof -
  have c: "conflicts (emb T n) r \<longleftrightarrow> on_table T (\<lambda>x. key x = key n) r" for r
  proof (cases "prj T r")
    case (Some x)
    then have "r = emb T x" using T by (simp add: table_ok_def)
    with Some show ?thesis using same by (simp add: on_table_def)
  qed (simp add: on_table_def other)
  have m: "list_ex (conflicts (emb T n)) rs \<longleftrightarrow> key n \<in> key ` set (contents rs T)"
    by (induction rs) (auto simp: c on_table_def split: option.splits)
  show ?thesis
    using contents_update [OF T, of "\<lambda>x. key x = key n" f rs] T
    by (simp add: upsert_rows_def upsert_list_def m c table_ok_def)
qed

lemma contents_upsert_other:
  assumes T: "table_ok T" and U: "disjoint_tables T U"
    and other: "\<And>r. prj T r = None \<Longrightarrow> \<not> conflicts (emb T n) r"
  shows "contents (upsert_rows (emb T n) (map_table T f) rs) U = contents rs U"
proof -
  have c: "conflicts (emb T n) r \<longleftrightarrow> on_table T (\<lambda>x. conflicts (emb T n) (emb T x)) r" for r
  proof (cases "prj T r")
    case (Some x)
    then have "r = emb T x" using T by (simp add: table_ok_def)
    with Some show ?thesis by (simp add: on_table_def)
  qed (simp add: on_table_def other)
  have mm: "map (\<lambda>r. if conflicts (emb T n) r then map_table T f r else r) rs =
      map (\<lambda>r. if on_table T (\<lambda>x. conflicts (emb T n) (emb T x)) r then map_table T f r else r) rs"
    by (rule map_cong [OF refl]) (simp only: c [symmetric])
  have "contents (map (\<lambda>r. if conflicts (emb T n) r then map_table T f r else r) rs) U = contents rs U"
    unfolding mm by (rule contents_update_other [OF T U])
  then show ?thesis
    using U by (simp add: upsert_rows_def disjoint_tables_def)
qed

lemma conflict_free_upsert:
  assumes "conflict_free rs"
    and "\<And>r s. conflicts (if conflicts n r then f r else r) (if conflicts n s then f s else s) \<Longrightarrow>
           conflicts r s"
  shows "conflict_free (upsert_rows n f rs)"
proof (cases "list_ex (conflicts n) rs")
  case True
  then show ?thesis
    using conflict_free_update [OF assms] by (simp add: upsert_rows_def update_rows_def)
next
  case False
  then show ?thesis
    using assms(1) by (simp add: upsert_rows_def conflict_free_append)
qed

lemma rpc_conflicts:
  "conflicts (RpcMetric n) (RpcMetric x) \<longleftrightarrow> rpc_key x = rpc_key n"
  "prj rpcDailyMetrics r = None \<Longrightarrow> \<not> conflicts (RpcMetric n) r"
  by (auto simp: conflicts_def rpc_metric_conflict_def rpc_key_def split: row.splits)

lemma rpc_bump_conflicts:
  "conflicts (map_table rpcDailyMetrics (rpc_metric_bump j t) r) s \<longleftrightarrow> conflicts r s"
  "conflicts r (map_table rpcDailyMetrics (rpc_metric_bump j t) s) \<longleftrightarrow> conflicts r s"
  by (cases r; cases s; simp add: map_table_def conflicts_def rpc_metric_conflict_def
      rpc_metric_bump_def Let_def)+

lemma device_bump_conflicts:
  "conflicts (map_table deviceDailyMetrics (device_metric_bump j t) r) s \<longleftrightarrow> conflicts r s"
  "conflicts r (map_table deviceDailyMetrics (device_metric_bump j t) s) \<longleftrightarrow> conflicts r s"
  by (cases r; cases s; simp add: map_table_def conflicts_def device_metric_conflict_def
      device_metric_bump_def Let_def)+

lemma device_conflicts_other:
  "prj deviceDailyMetrics r = None \<Longrightarrow> \<not> conflicts (DeviceMetric n) r"
  by (cases r) (simp_all add: conflicts_def)

lemma contents_device_upsert:
  "contents (upsert_rows (DeviceMetric n) (map_table deviceDailyMetrics f) rs) rpcDailyMetrics =
     contents rs rpcDailyMetrics"
  "contents (upsert_rows (DeviceMetric n) (map_table deviceDailyMetrics f) rs) requestLogs =
     contents rs requestLogs"
  by (rule contents_upsert_other [of deviceDailyMetrics _ n f rs, unfolded emb_simps],
      simp, simp add: disjoint_tables_def, rule device_conflicts_other, assumption)+

context services
begin

lemma upsert_rpc_run:
  assumes "healthy (view w)"
  shows "fst (upsert_into E rpcDailyMetrics (rpc_metric_new j t) (rpc_metric_bump j u) w) = Inr ()"
    and "view (snd (upsert_into E rpcDailyMetrics (rpc_metric_new j t) (rpc_metric_bump j u) w)) =
      (view w)\<lparr>rows := upsert_rows (RpcMetric (rpc_metric_new j t))
        (map_table rpcDailyMetrics (rpc_metric_bump j u)) (rows (view w))\<rparr>"
proof -
  have "conflict_free (upsert_rows (RpcMetric (rpc_metric_new j t))
      (map_table rpcDailyMetrics (rpc_metric_bump j u)) (rows (view w)))"
    using assms indexes [of w]
    by (intro conflict_free_upsert) (auto simp: rpc_bump_conflicts split: if_splits)
  then show "fst (upsert_into E rpcDailyMetrics (rpc_metric_new j t) (rpc_metric_bump j u) w) = Inr ()"
    "view (snd (upsert_into E rpcDailyMetrics (rpc_metric_new j t) (rpc_metric_bump j u) w)) =
      (view w)\<lparr>rows := upsert_rows (RpcMetric (rpc_metric_new j t))
        (map_table rpcDailyMetrics (rpc_metric_bump j u)) (rows (view w))\<rparr>"
    using upsert assms by (simp_all add: upsert_into_def)
qed

lemma upsert_device_run:
  assumes "healthy (view w)"
  shows "fst (upsert_into E deviceDailyMetrics (device_metric_new j c t) (device_metric_bump j u) w) = Inr ()"
    and "view (snd (upsert_into E deviceDailyMetrics (device_metric_new j c t) (device_metric_bump j u) w)) =
      (view w)\<lparr>rows := upsert_rows (DeviceMetric (device_metric_new j c t))
        (map_table deviceDailyMetrics (device_metric_bump j u)) (rows (view w))\<rparr>"
proof -
  have "conflict_free (upsert_rows (DeviceMetric (device_metric_new j c t))
      (map_table deviceDailyMetrics (device_metric_bump j u)) (rows (view w)))"
    using assms indexes [of w]
    by (intro conflict_free_upsert)
      (auto simp: device_bump_conflicts split: if_splits)
  then show "fst (upsert_into E deviceDailyMetrics (device_metric_new j c t) (device_metric_bump j u) w) = Inr ()"
    "view (snd (upsert_into E deviceDailyMetrics (device_metric_new j c t) (device_metric_bump j u) w)) =
      (view w)\<lparr>rows := upsert_rows (DeviceMetric (device_metric_new j c t))
        (map_table deviceDailyMetrics (device_metric_bump j u)) (rows (view w))\<rparr>"
    using upsert assms by (simp_all add: upsert_into_def)
qed

lemma recordCompletion_run:
  assumes "healthy (view w)"
  shows "fst (recordCompletion E j w) = Inr ()"
    and "\<exists>t u. contents (rows (view (snd (recordCompletion E j w)))) rpcDailyMetrics =
      upsert_list rpc_key (rpc_metric_new j t) (rpc_metric_bump j u)
        (contents (rows (view w)) rpcDailyMetrics)"
    and "contents (rows (view (snd (recordCompletion E j w)))) requestLogs =
      contents (rows (view w)) requestLogs"
    and "healthy (view (snd (recordCompletion E j w)))"
proof -
  let ?t = "pg_now E w" and ?u = "now_ms E w"
  define w1 where "w1 = snd (upsert_into E rpcDailyMetrics (rpc_metric_new j ?t) (rpc_metric_bump j ?u) w)"
  note rpc = upsert_rpc_run [OF assms, of j ?t ?u, folded w1_def]
  have h1: "healthy (view w1)" using assms by (simp add: rpc(2))
  have rows1: "contents (rows (view w1)) rpcDailyMetrics =
      upsert_list rpc_key (rpc_metric_new j ?t) (rpc_metric_bump j ?u)
        (contents (rows (view w)) rpcDailyMetrics)"
    using contents_upsert [of rpcDailyMetrics "rpc_metric_new j ?t" rpc_key] tables_ok(13)
    by (simp add: rpc(2) rpc_conflicts [simplified])
  have logs1: "contents (rows (view w1)) requestLogs = contents (rows (view w)) requestLogs"
    using contents_upsert_other [of rpcDailyMetrics requestLogs "rpc_metric_new j ?t"] tables_ok(13)
    by (simp add: rpc(2) rpc_conflicts [simplified] disjoint_tables_def)
  define rest :: "('w, unit) io" where "rest = (case rlj_clientId j of
      None \<Rightarrow> returnM ()
    | Some c \<Rightarrow> if c = [] then returnM ()
        else (\<lambda>w. upsert_into E deviceDailyMetrics (device_metric_new j c (pg_now E w))
                    (device_metric_bump j (now_ms E w)) w))"
  have rest: "fst (rest w1) = Inr () \<and>
      contents (rows (view (snd (rest w1)))) rpcDailyMetrics = contents (rows (view w1)) rpcDailyMetrics \<and>
      contents (rows (view (snd (rest w1)))) requestLogs = contents (rows (view w1)) requestLogs \<and>
      healthy (view (snd (rest w1)))"
    using h1 upsert_device_run [OF h1]
    by (simp add: rest_def contents_device_upsert [simplified] split: option.splits)
  have step: "recordCompletion E j w = (Inr (), snd (rest w1))"
    using rpc(1) rest
    by (simp add: recordCompletion_def transaction_def io_simps flip: w1_def rest_def)
  show "fst (recordCompletion E j w) = Inr ()"
    "\<exists>t u. contents (rows (view (snd (recordCompletion E j w)))) rpcDailyMetrics =
      upsert_list rpc_key (rpc_metric_new j t) (rpc_metric_bump j u)
        (contents (rows (view w)) rpcDailyMetrics)"
    "contents (rows (view (snd (recordCompletion E j w)))) requestLogs =
      contents (rows (view w)) requestLogs"
    "healthy (view (snd (recordCompletion E j w)))"
    using rest rows1 logs1 by (auto simp: step)
qed

end

section \<open>The incremental aggregates are the tallies of the calls\<close>

definition job_calls :: "request_log_job list \<Rightarrow> int \<times> string \<times> string \<times> string \<Rightarrow> call list" where
  "job_calls js k = map job_call (filter (\<lambda>j. rpc_key_of_job j = k) js)"

definition log_calls :: "request_log_row list \<Rightarrow> int \<times> string \<times> string \<times> string \<Rightarrow> call list" where
  "log_calls ls k = map log_call (filter (\<lambda>l. rpc_key_of_log l = k) ls)"

lemma rpc_key_metric [simp]:
  "rpc_key (rpc_metric_new j t) = rpc_key_of_job j" "rpc_key (rpc_metric_bump j u r) = rpc_key r"
  by (simp_all add: rpc_key_def rpc_metric_new_def rpc_metric_bump_def rpc_key_of_job_def Let_def)

lemma rpc_tally_new: "rpc_tally (rpc_metric_new j t) = tally_of [job_call j]"
  by (simp add: rpc_tally_def rpc_metric_new_def tally_of_def job_call_def count_if_def classify_def
      max_or_zero_def List.map_filter_def Let_def)

lemma rpc_tally_bump:
  assumes "rpc_tally r = tally_of cs" "List.map_filter snd cs \<noteq> []"
  shows "rpc_tally (rpc_metric_bump j u r) = tally_of (cs @ [job_call j])"
  unfolding job_call_def tally_snoc assms(1) [symmetric] using assms(2)
  by (simp add: rpc_tally_def rpc_metric_bump_def Let_def)

lemma job_calls_latencies: "List.map_filter snd (job_calls js k) = [] \<longleftrightarrow> job_calls js k = []"
  by (auto simp: job_calls_def List.map_filter_def job_call_def filter_empty_conv)

lemma find_map_update:
  "find (\<lambda>x. key x = k) (map (\<lambda>x. if key x = k' then f x else x) xs) =
     map_option (\<lambda>x. if k = k' then f x else x) (find (\<lambda>x. key x = k) xs)"
  if "\<And>x. key (f x) = key x"
  using that by (induction xs) (auto simp: option.map_ident)

lemma rpc_lookup_upsert:
  assumes "\<And>k. rpc_lookup rs k = tally_option (job_calls js k)"
  shows "rpc_lookup (upsert_list rpc_key (rpc_metric_new j t) (rpc_metric_bump j u) rs) k =
    tally_option (job_calls (js @ [j]) k)"
proof (cases "rpc_key_of_job j \<in> rpc_key ` set rs")
  case True
  let ?f = "\<lambda>x. if rpc_key x = rpc_key_of_job j then rpc_metric_bump j u x else x"
  have up: "find (\<lambda>r. rpc_key r = k) (map ?f rs) =
      map_option (\<lambda>x. if k = rpc_key_of_job j then rpc_metric_bump j u x else x)
        (find (\<lambda>r. rpc_key r = k) rs)"
    by (rule find_map_update) simp
  show ?thesis
  proof (cases "k = rpc_key_of_job j")
    case key: True
    obtain r where r: "find (\<lambda>r. rpc_key r = k) rs = Some r"
      using True key by (metis (mono_tags, lifting) find_None_iff imageE not_Some_eq)
    then have t: "tally_option (job_calls js k) = Some (rpc_tally r)"
      using assms [of k] by (simp add: rpc_lookup_def)
    then have ne: "job_calls js k \<noteq> []" and tr: "rpc_tally r = tally_of (job_calls js k)"
      by (auto simp: tally_option_def split: if_splits)
    have "rpc_tally (rpc_metric_bump j u r) = tally_of (job_calls js k @ [job_call j])"
      using rpc_tally_bump [OF tr] ne job_calls_latencies by blast
    moreover have "job_calls (js @ [j]) k = job_calls js k @ [job_call j]"
      using key by (simp add: job_calls_def)
    ultimately show ?thesis
      using True key r up by (simp add: rpc_lookup_def upsert_list_def tally_option_def)
  next
    case False
    then have "job_calls (js @ [j]) k = job_calls js k" by (simp add: job_calls_def)
    then show ?thesis
      using True False up assms [of k]
      by (simp add: rpc_lookup_def upsert_list_def option.map_ident)
  qed
next
  case False
  then have none: "find (\<lambda>r. rpc_key r = rpc_key_of_job j) rs = None"
    unfolding find_None_iff by (metis image_eqI)
  have app: "find P (rs @ [x]) = (case find P rs of None \<Rightarrow> if P x then Some x else None | Some y \<Rightarrow> Some y)"
    for P and x :: rpc_metric_row
    by (induction rs) auto
  show ?thesis
  proof (cases "k = rpc_key_of_job j")
    case True
    have "job_calls js k = []"
      using assms [of k] none True by (auto simp: rpc_lookup_def tally_option_def split: if_splits)
    moreover have "job_calls (js @ [j]) k = job_calls js k @ [job_call j]"
      using True by (simp add: job_calls_def)
    ultimately show ?thesis
      using False none True by (simp add: rpc_lookup_def upsert_list_def app rpc_tally_new tally_option_def)
  next
    case other: False
    then have "job_calls (js @ [j]) k = job_calls js k" by (simp add: job_calls_def)
    then show ?thesis
      using False other assms [of k]
      by (cases "find (\<lambda>r. rpc_key r = k) rs") (simp_all add: rpc_lookup_def upsert_list_def app)
  qed
qed

definition aggregates_of :: "store \<Rightarrow> request_log_job list \<Rightarrow> bool" where
  "aggregates_of s js \<longleftrightarrow>
     (\<forall>k. rpc_lookup (contents (rows s) rpcDailyMetrics) k = tally_option (job_calls js k))"

context services
begin

lemma recordCompletion_aggregates:
  assumes "healthy (view w)" "aggregates_of (view w) js"
  shows "aggregates_of (view (snd (recordCompletion E j w))) (js @ [j])"
proof -
  obtain t u where "contents (rows (view (snd (recordCompletion E j w)))) rpcDailyMetrics =
      upsert_list rpc_key (rpc_metric_new j t) (rpc_metric_bump j u)
        (contents (rows (view w)) rpcDailyMetrics)"
    using recordCompletion_run(2) [OF assms(1)] by blast
  moreover have "rpc_lookup (upsert_list rpc_key (rpc_metric_new j t) (rpc_metric_bump j u)
      (contents (rows (view w)) rpcDailyMetrics)) k = tally_option (job_calls (js @ [j]) k)" for k
    by (rule rpc_lookup_upsert) (use assms(2) in \<open>unfold aggregates_of_def, blast\<close>)
  ultimately show ?thesis
    unfolding aggregates_of_def by metis
qed

lemma recordCompletions_aggregates:
  assumes "healthy (view w)" "aggregates_of (view w) before"
  shows "fst (forM js (recordCompletion E) w) = Inr () \<and>
    healthy (view (snd (forM js (recordCompletion E) w))) \<and>
    aggregates_of (view (snd (forM js (recordCompletion E) w))) (before @ js)"
  using assms
proof (induction js arbitrary: w before)
  case (Cons j js)
  let ?w1 = "snd (recordCompletion E j w)"
  have "thenM (recordCompletion E j) (forM js (recordCompletion E)) w = forM js (recordCompletion E) ?w1"
    using recordCompletion_run(1) [OF Cons.prems(1)] by (simp add: thenM_def)
  then show ?case
    using Cons.IH [OF recordCompletion_run(4) [OF Cons.prems(1)]
        recordCompletion_aggregates [OF Cons.prems]] by simp
qed simp

end

section \<open>The rebuilt aggregates are the tallies of the logs\<close>

lemma find_group_by:
  "find (\<lambda>g. fst g = k) (group_by key xs) =
     (if k \<in> key ` set xs then Some (k, filter (\<lambda>x. key x = k) xs) else None)"
proof -
  have "find (\<lambda>g. fst g = k) (map (\<lambda>k. (k, h k)) ks) = (if k \<in> set ks then Some (k, h k) else None)"
    for h :: "'a \<Rightarrow> 'b list" and ks
    by (induction ks) auto
  then show ?thesis by (simp add: group_by_def)
qed

lemma rpc_metric_of_logs_sel:
  "rpc_key (rpc_metric_of_logs now g) = fst g"
  "rpc_tally (rpc_metric_of_logs now g) = tally_of (map log_call (snd g))"
proof -
  have lat: "List.map_filter (snd \<circ> log_call) ls = List.map_filter rql_latencyMs ls" for ls
    by (simp add: List.map_filter_def log_call_def o_def)
  show "rpc_key (rpc_metric_of_logs now g) = fst g"
    by (cases g) (auto simp: rpc_key_def rpc_metric_of_logs_def)
  show "rpc_tally (rpc_metric_of_logs now g) = tally_of (map log_call (snd g))"
    by (cases g) (auto simp: rpc_tally_def rpc_metric_of_logs_def tally_of_def count_if_def
        filter_map o_def log_call_def lat [unfolded o_def log_call_def] List.map_filter_def)
qed

lemma find_map_eq: "find P (map f xs) = map_option f (find (\<lambda>x. P (f x)) xs)"
  by (induction xs) simp_all

lemma rpc_lookup_rebuilt:
  "rpc_lookup (rebuilt_rpc now ls) k = tally_option (log_calls ls k)"
proof -
  have "find (\<lambda>r. rpc_key r = k) (rebuilt_rpc now ls) =
      map_option (rpc_metric_of_logs now) (find (\<lambda>g. fst g = k) (group_by rpc_key_of_log ls))"
    by (simp add: rebuilt_rpc_def find_map_eq rpc_metric_of_logs_sel)
  then have lookup: "rpc_lookup (rebuilt_rpc now ls) k =
      (if k \<in> rpc_key_of_log ` set ls then Some (tally_of (log_calls ls k)) else None)"
    by (simp add: rpc_lookup_def find_group_by rpc_metric_of_logs_sel(2) log_calls_def)
  have "log_calls ls k = [] \<longleftrightarrow> k \<notin> rpc_key_of_log ` set ls"
    unfolding log_calls_def map_is_Nil_conv filter_empty_conv by (metis image_iff)
  then show ?thesis by (simp add: lookup tally_option_def)
qed

lemma rebuilt_key_set: "rpc_key ` set (rebuilt_rpc now ls) = rpc_key_of_log ` set ls"
  by (auto simp: rebuilt_rpc_def group_by_def image_image rpc_metric_of_logs_sel)

lemma sorted_wrt_distinct_keys:
  "distinct (map key xs) \<Longrightarrow> (\<And>x y. Q x y \<Longrightarrow> key x = key y) \<Longrightarrow> sorted_wrt (\<lambda>x y. \<not> Q x y) xs"
  by (induction xs) (auto simp: image_iff)

lemma conflict_free_append_rows:
  "conflict_free (rs @ ns) \<longleftrightarrow>
     conflict_free rs \<and> conflict_free ns \<and> (\<forall>r \<in> set rs. \<forall>n \<in> set ns. \<not> conflicts r n)"
  by (auto simp: conflict_free_def sorted_wrt_append)

lemma rebuilt_rpc_conflict_free: "conflict_free (map RpcMetric (rebuilt_rpc now ls))"
proof -
  have "map rpc_key (rebuilt_rpc now ls) = remdups (map rpc_key_of_log ls)"
    by (simp add: rebuilt_rpc_def group_by_def rpc_metric_of_logs_sel o_def)
  then have "distinct (map rpc_key (rebuilt_rpc now ls))" by simp
  then have "sorted_wrt (\<lambda>x y. \<not> conflicts (RpcMetric x) (RpcMetric y)) (rebuilt_rpc now ls)"
    by (rule sorted_wrt_distinct_keys) (simp add: rpc_conflicts(1))
  then show ?thesis by (simp add: conflict_free_def sorted_wrt_map)
qed

definition device_key :: "device_metric_row \<Rightarrow> int \<times> string \<times> string" where
  "device_key r = (dvm_statDate r, dvm_clientId r, dvm_projectName r)"

lemma device_metric_of_logs_key: "device_key (device_metric_of_logs now g) = fst g"
  by (cases g) (auto simp: device_key_def device_metric_of_logs_def)

lemma rebuilt_device_conflict_free: "conflict_free (map DeviceMetric (rebuilt_device now ls))"
proof -
  have "map device_key (rebuilt_device now ls) =
      remdups (map device_key_of_log (filter (\<lambda>l. rql_clientId l \<noteq> None) ls))"
    by (simp add: rebuilt_device_def group_by_def device_metric_of_logs_key o_def)
  then have "distinct (map device_key (rebuilt_device now ls))" by simp
  then have "sorted_wrt (\<lambda>x y. \<not> conflicts (DeviceMetric x) (DeviceMetric y)) (rebuilt_device now ls)"
    by (rule sorted_wrt_distinct_keys)
      (auto simp: conflicts_def device_metric_conflict_def device_key_def)
  then show ?thesis by (simp add: conflict_free_def sorted_wrt_map)
qed

lemma rebuilt_days:
  assumes "\<forall>l \<in> set ls. c * MS_PER_DAY \<le> rql_createdAt l"
  shows "\<forall>r \<in> set (rebuilt_rpc now ls). c \<le> rpm_statDate r"
    and "\<forall>r \<in> set (rebuilt_device now ls). c \<le> dvm_statDate r"
proof -
  have day: "c \<le> day_of (rql_createdAt l)" if "l \<in> set ls" for l
  proof -
    have "c = (c * MS_PER_DAY) div MS_PER_DAY" by (simp add: MS_PER_DAY_def)
    also have "\<dots> \<le> rql_createdAt l div MS_PER_DAY"
      using assms that by (intro zdiv_mono1) (simp_all add: MS_PER_DAY_def)
    finally show ?thesis by (simp add: day_of_def)
  qed
  show "\<forall>r \<in> set (rebuilt_rpc now ls). c \<le> rpm_statDate r"
  proof
    fix r assume "r \<in> set (rebuilt_rpc now ls)"
    then have "rpc_key r \<in> rpc_key_of_log ` set ls" using rebuilt_key_set by blast
    then show "c \<le> rpm_statDate r" using day by (auto simp: rpc_key_def rpc_key_of_log_def)
  qed
  show "\<forall>r \<in> set (rebuilt_device now ls). c \<le> dvm_statDate r"
    using day by (auto simp: rebuilt_device_def group_by_def device_metric_of_logs_def device_key_of_log_def)
qed

text \<open>The rows of the tables are told apart by their table.\<close>

lemma contents_map_other [simp]:
  "contents (map RpcMetric xs) deviceDailyMetrics = []" "contents (map RpcMetric xs) requestLogs = []"
  "contents (map DeviceMetric ys) rpcDailyMetrics = []" "contents (map DeviceMetric ys) requestLogs = []"
  by (induction xs, simp_all, induction xs, simp_all, induction ys, simp_all, induction ys, simp_all)

lemma contents_map_same [simp]:
  "contents (map RpcMetric xs) rpcDailyMetrics = xs"
  "contents (map DeviceMetric ys) deviceDailyMetrics = ys"
  by (induction xs, simp_all, induction ys, simp_all)

lemma in_contents: "table_ok T \<Longrightarrow> x \<in> set (contents rs T) \<longleftrightarrow> emb T x \<in> set rs"
  by (induction rs) (auto simp: table_ok_def split: option.splits)

context services
begin

lemma rebuildRecent_run:
  fixes days :: int
  assumes h: "healthy (view w)"
  defines "cutoff \<equiv> day_of (now_ms E w) - (days - 1)"
  defines "rpc \<equiv> contents (rows (view w)) rpcDailyMetrics"
    and "logs \<equiv> contents (rows (view w)) requestLogs"
  shows "fst (rebuildRecent E days w) = Inr () \<and>
    (\<exists>ls t. mset ls = filter_mset (\<lambda>l. cutoff * MS_PER_DAY \<le> rql_createdAt l) (mset logs) \<and>
      contents (rows (view (snd (rebuildRecent E days w)))) rpcDailyMetrics =
        filter (\<lambda>r. \<not> cutoff \<le> rpm_statDate r) rpc @ rebuilt_rpc t ls)"
proof -
  define w1 where "w1 = snd (delete_from E rpcDailyMetrics (\<lambda>r. cutoff \<le> rpm_statDate r) w)"
  define w2 where "w2 = snd (delete_from E deviceDailyMetrics (\<lambda>r. cutoff \<le> dvm_statDate r) w1)"
  define Q where "Q = (\<lambda>l :: request_log_row. cutoff * MS_PER_DAY \<le> rql_createdAt l)"
  define w3 where "w3 = snd (select_from E requestLogs Q w2)"
  define ls where "ls = projr (fst (select_from E requestLogs Q w2))"
  define w4 where "w4 = snd (db_insert_all E (map RpcMetric (rebuilt_rpc (pg_now E w3) ls)) w3)"
  define w5 where "w5 = snd (select_from E requestLogs Q w4)"
  define ls' where "ls' = projr (fst (select_from E requestLogs Q w4))"
  define w6 where "w6 = snd (db_insert_all E (map DeviceMetric (rebuilt_device (pg_now E w5) ls')) w5)"
  let ?rows2 = "filter (\<lambda>r. \<not> on_table deviceDailyMetrics (\<lambda>r. cutoff \<le> dvm_statDate r) r)
      (filter (\<lambda>r. \<not> on_table rpcDailyMetrics (\<lambda>r. cutoff \<le> rpm_statDate r) r) (rows (view w)))"
  have h1: "healthy (view w1)" using h by (simp add: w1_def)
  have h2: "healthy (view w2)" and v2: "view w2 = (view w)\<lparr>rows := ?rows2\<rparr>"
    using h h1 by (simp_all add: w2_def w1_def del: filter_filter)
  have v3: "view w3 = view w2" using h2 by (simp add: w3_def)
  have logs2: "contents ?rows2 requestLogs = logs"
    using contents_delete_other [of rpcDailyMetrics requestLogs]
      contents_delete_other [of deviceDailyMetrics requestLogs] tables_ok(13,14)
    by (simp add: logs_def disjoint_tables_def del: filter_filter)
  have ls: "mset ls = filter_mset Q (mset logs)"
    using run_select(3) [OF h2, of requestLogs Q] by (simp add: ls_def v2 logs2 del: filter_filter)
  have lsQ: "\<forall>l \<in> set ls. cutoff * MS_PER_DAY \<le> rql_createdAt l"
    using ls by (metis Q_def mem_Collect_eq set_mset_filter set_mset_mset)
  have old: "x \<in> set ?rows2 \<Longrightarrow> x = RpcMetric r \<Longrightarrow> rpm_statDate r < cutoff" for x r
    by (auto simp: on_table_def)
  have oldd: "x \<in> set ?rows2 \<Longrightarrow> x = DeviceMetric r \<Longrightarrow> dvm_statDate r < cutoff" for x r
    by (auto simp: on_table_def)
  have cf2: "conflict_free ?rows2"
    using indexes [of w] h by (simp add: conflict_free_filter)
  have sep: "\<not> conflicts r n" if "r \<in> set ?rows2" "n \<in> set (map RpcMetric (rebuilt_rpc t ls))" for r n t
  proof -
    note new = that(2)
    obtain m where m: "n = RpcMetric m" "cutoff \<le> rpm_statDate m"
      using new rebuilt_days(1) [OF lsQ] by auto
    show ?thesis
      using old [OF that(1)] m by (cases r) (auto simp: conflicts_def rpc_metric_conflict_def)
  qed
  have cf3: "conflict_free (rows (view w3) @ map RpcMetric (rebuilt_rpc (pg_now E w3) ls))"
    unfolding conflict_free_append_rows using cf2 rebuilt_rpc_conflict_free sep
    by (auto simp: v3 v2 simp del: filter_filter)
  have f4: "fst (db_insert_all E (map RpcMetric (rebuilt_rpc (pg_now E w3) ls)) w3) =
      Inr (map RpcMetric (rebuilt_rpc (pg_now E w3) ls))"
    and v4: "view w4 = (view w)\<lparr>rows := ?rows2 @ map RpcMetric (rebuilt_rpc (pg_now E w3) ls)\<rparr>"
    using insert_all [OF _ cf3] h2 by (simp_all add: w4_def v3 v2 del: filter_filter)
  have h4: "healthy (view w4)" using h by (simp add: v4)
  have v5: "view w5 = view w4" using h4 by (simp add: w5_def)
  have "mset ls' = filter_mset Q (mset logs)"
    using run_select(3) [OF h4, of requestLogs Q] by (simp add: ls'_def v4 logs2 del: filter_filter)
  then have lsQ': "\<forall>l \<in> set ls'. cutoff * MS_PER_DAY \<le> rql_createdAt l"
    by (metis Q_def mem_Collect_eq set_mset_filter set_mset_mset)
  have sep': "\<not> conflicts r n" if "r \<in> set ?rows2" "n \<in> set (map DeviceMetric (rebuilt_device t ls'))" for r n t
  proof -
    note new = that(2)
    obtain m where m: "n = DeviceMetric m" "cutoff \<le> dvm_statDate m"
      using new rebuilt_days(2) [OF lsQ'] by auto
    show ?thesis
      using oldd [OF that(1)] m by (cases r) (auto simp: conflicts_def device_metric_conflict_def)
  qed
  have sep'': "\<not> conflicts r n" if "r \<in> set (map RpcMetric xs)" "n \<in> set (map DeviceMetric ys)" for r n xs ys
    using that by (auto simp: conflicts_def)
  have cf5: "conflict_free (rows (view w5) @ map DeviceMetric (rebuilt_device (pg_now E w5) ls'))"
  proof -
    have r5: "rows (view w5) = ?rows2 @ map RpcMetric (rebuilt_rpc (pg_now E w3) ls)"
      by (simp add: v5 v4 del: filter_filter)
    have "conflict_free (rows (view w5))"
      using cf3 by (simp add: r5 v3 v2 del: filter_filter)
    moreover have "\<forall>r \<in> set (rows (view w5)).
        \<forall>n \<in> set (map DeviceMetric (rebuilt_device (pg_now E w5) ls')). \<not> conflicts r n"
      unfolding r5 set_append ball_Un using sep' sep'' by blast
    ultimately show ?thesis
      unfolding conflict_free_append_rows using rebuilt_device_conflict_free by blast
  qed
  have f6: "fst (db_insert_all E (map DeviceMetric (rebuilt_device (pg_now E w5) ls')) w5) =
      Inr (map DeviceMetric (rebuilt_device (pg_now E w5) ls'))"
    and v6: "rows (view w6) = ?rows2 @ map RpcMetric (rebuilt_rpc (pg_now E w3) ls) @
      map DeviceMetric (rebuilt_device (pg_now E w5) ls')"
    using insert_all [OF _ cf5] h4 by (simp_all add: w6_def v5 v4 del: filter_filter)
  have ok: "\<not> isl (fst (delete_from E rpcDailyMetrics (\<lambda>r. cutoff \<le> rpm_statDate r) w))"
    "\<not> isl (fst (delete_from E deviceDailyMetrics (\<lambda>r. cutoff \<le> dvm_statDate r) w1))"
    "\<not> isl (fst (select_from E requestLogs Q w2))" "\<not> isl (fst (select_from E requestLogs Q w4))"
    using h h1 h2 h4 by simp_all
  have step: "rebuildRecent E days w = (Inr (), w6)"
    by (simp add: rebuildRecent_def Let_def transaction_def io_simps ok f4 f6
        flip: cutoff_def Q_def w1_def w2_def w3_def ls_def w4_def w5_def ls'_def w6_def)
  have "contents ?rows2 rpcDailyMetrics = filter (\<lambda>r. \<not> cutoff \<le> rpm_statDate r) rpc"
    using contents_delete_other [of deviceDailyMetrics rpcDailyMetrics] tables_ok(14)
    by (simp add: contents_delete disjoint_tables_def rpc_def del: filter_filter)
  then have "contents (rows (view w6)) rpcDailyMetrics =
      filter (\<lambda>r. \<not> cutoff \<le> rpm_statDate r) rpc @ rebuilt_rpc (pg_now E w3) ls"
    unfolding v6 by simp
  then show ?thesis
    using ls unfolding step Q_def by auto
qed

end

section \<open>Properties\<close>

lemma rpc_lookup_append:
  "rpc_lookup (xs @ ys) k = (case rpc_lookup xs k of None \<Rightarrow> rpc_lookup ys k | Some t \<Rightarrow> Some t)"
  by (induction xs) (simp_all add: rpc_lookup_def)

lemma rpc_lookup_filter:
  "rpc_lookup (filter P xs) k = (if \<forall>r \<in> set xs. rpc_key r = k \<longrightarrow> P r then rpc_lookup xs k else
     rpc_lookup (filter P xs) k)"
  by (induction xs) (auto simp: rpc_lookup_def)

lemma rpc_lookup_absent: "k \<notin> rpc_key ` set xs \<Longrightarrow> rpc_lookup xs k = None"
  by (auto simp: rpc_lookup_def find_None_iff)

lemma day_of_less: "day_of t < c \<longleftrightarrow> t < c * MS_PER_DAY"
proof -
  have "t = MS_PER_DAY * (t div MS_PER_DAY) + t mod MS_PER_DAY" by simp
  moreover have "0 \<le> t mod MS_PER_DAY" "t mod MS_PER_DAY < MS_PER_DAY"
    by (simp_all add: MS_PER_DAY_def)
  ultimately show ?thesis by (simp add: day_of_def MS_PER_DAY_def) linarith
qed

text \<open>
  C35: recording completed calls one by one from empty aggregates, the row of every (day, group,
  action, device) holds exactly the tally of the calls recorded for it: their number, how many
  succeeded, failed and timed out (three counts that add up to the total), the sum and the
  maximum of their latencies; and no other row exists.
\<close>

theorem incremental_metrics_are_tallies:
  assumes "services E view" "healthy (view w)" "contents (rows (view w)) rpcDailyMetrics = []"
  shows "fst (forM js (recordCompletion E) w) = Inr () \<and>
    (\<forall>k. rpc_lookup (contents (rows (view (snd (forM js (recordCompletion E) w)))) rpcDailyMetrics) k =
       tally_option (map job_call (filter (\<lambda>j. rpc_key_of_job j = k) js))) \<and>
    (\<forall>cs. ta_total (tally_of cs) =
       ta_success (tally_of cs) + ta_failed (tally_of cs) + ta_timeout (tally_of cs))"
proof -
  have "aggregates_of (view w) []"
    by (simp add: aggregates_of_def assms(3) rpc_lookup_def tally_option_def job_calls_def)
  then show ?thesis
    using services.recordCompletions_aggregates [OF assms(1,2), of "[]" js] tally_partition
    by (simp add: aggregates_of_def job_calls_def)
qed

definition example_job :: request_log_job where
  "example_job = \<lparr>rlj_requestId = ''r1'', rlj_project = ''p'', rlj_action = ''a'',
     rlj_clientId = Some ''c'', rlj_clientRequestId = None, rlj_requesterUserId = None,
     rlj_accessTokenId = None, rlj_status = ''ok'', rlj_httpCode = 200, rlj_latencyMs = 40,
     rlj_error = None, rlj_requestPayload = JNull, rlj_responsePayload = None, rlj_appAudit = None,
     rlj_createdAt = 5, rlj_finishedAt = 45\<rparr>"

lemma sim_start_store [simp]: "sim_view sim_start = empty_store"
  by (simp add: sim_view_def sim_start_def empty_store_def)

lemma empty_store_ok [simp]: "healthy empty_store" "rows empty_store = []"
  by (simp_all add: healthy_def typed_keys_def empty_store_def)

theorem incremental_metrics_are_tallies_witness:
  "map_option ta_total (rpc_lookup (contents (rows (sim_view
     (snd (forM [example_job, example_job\<lparr>rlj_status := ''timeout''\<rparr>] (recordCompletion sim_env) sim_start))))
     rpcDailyMetrics) (0, ''p'', ''a'', ''c'')) = Some 2"
  using incremental_metrics_are_tallies [OF sim_services, of sim_start
      "[example_job, example_job\<lparr>rlj_status := ''timeout''\<rparr>]"]
  by (simp add: example_job_def rpc_key_of_job_def day_of_def MS_PER_DAY_def or_default_def
      tally_option_def tally_of_def)

text \<open>
  C36: rebuilding the last days repairs the aggregates.  Afterwards, for every day from the cutoff
  on, each row is the tally of the request logs of its key, whatever the aggregates said before;
  the rows of earlier days are left as they were.
\<close>

theorem rebuild_matches_logs:
  assumes "services E view" "healthy (view w)"
  shows "fst (rebuildRecent E days w) = Inr () \<and>
    rpc_lookup (contents (rows (view (snd (rebuildRecent E days w)))) rpcDailyMetrics) k =
      (if day_of (now_ms E w) - (days - 1) \<le> fst k
       then tally_option (map log_call
              (filter (\<lambda>l. rpc_key_of_log l = k) (contents (rows (view w)) requestLogs)))
       else rpc_lookup (contents (rows (view w)) rpcDailyMetrics) k)"
proof -
  let ?c = "day_of (now_ms E w) - (days - 1)"
  let ?logs = "contents (rows (view w)) requestLogs"
  let ?old = "contents (rows (view w)) rpcDailyMetrics"
  let ?kept = "filter (\<lambda>r. \<not> ?c \<le> rpm_statDate r) ?old"
  obtain ls t where ls: "mset ls = filter_mset (\<lambda>l. ?c * MS_PER_DAY \<le> rql_createdAt l) (mset ?logs)"
    and new: "contents (rows (view (snd (rebuildRecent E days w)))) rpcDailyMetrics =
      ?kept @ rebuilt_rpc t ls"
    and ok: "fst (rebuildRecent E days w) = Inr ()"
    using services.rebuildRecent_run [OF assms, of days] by blast
  have "rpc_lookup (?kept @ rebuilt_rpc t ls) k =
      (if ?c \<le> fst k then tally_option (log_calls ?logs k) else rpc_lookup ?old k)"
  proof (cases "?c \<le> fst k")
    case True
    have recent: "?c * MS_PER_DAY \<le> rql_createdAt l" if "rpc_key_of_log l = k" for l
      using True that day_of_less [of "rql_createdAt l" ?c] by (auto simp: rpc_key_of_log_def)
    have "filter_mset (\<lambda>l. rpc_key_of_log l = k) (mset ls) =
        filter_mset (\<lambda>l. rpc_key_of_log l = k) (mset ?logs)"
      unfolding ls filter_filter_mset
      by (rule filter_mset_cong [OF refl]) (use recent in blast)
    then have "mset (log_calls ls k) = mset (log_calls ?logs k)"
      by (simp add: log_calls_def)
    then have "tally_option (log_calls ls k) = tally_option (log_calls ?logs k)"
      by (rule tally_option_mset)
    moreover have "rpc_lookup ?kept k = None"
      by (rule rpc_lookup_absent) (use True in \<open>auto simp: rpc_key_def\<close>)
    ultimately show ?thesis
      using True by (simp add: rpc_lookup_append rpc_lookup_rebuilt)
  next
    case False
    have "log_calls ls k = []"
    proof -
      have "?c \<le> day_of (rql_createdAt l)" if "l \<in> set ls" for l
      proof -
        have "?c * MS_PER_DAY \<le> rql_createdAt l"
          using ls that by (metis (no_types, lifting) mem_Collect_eq set_mset_filter set_mset_mset)
        then show ?thesis using day_of_less [of "rql_createdAt l" ?c] by linarith
      qed
      then show ?thesis
        using False by (force simp: log_calls_def filter_empty_conv rpc_key_of_log_def)
    qed
    then have "rpc_lookup (rebuilt_rpc t ls) k = None"
      by (simp add: rpc_lookup_rebuilt tally_option_def)
    moreover have "\<forall>r \<in> set ?old. rpc_key r = k \<longrightarrow> \<not> ?c \<le> rpm_statDate r"
      using False by (auto simp: rpc_key_def)
    then have "rpc_lookup ?kept k = rpc_lookup ?old k"
      by (subst rpc_lookup_filter) simp
    ultimately show ?thesis
      using False by (simp add: rpc_lookup_append split: option.splits)
  qed
  then show ?thesis using ok new by (simp add: log_calls_def)
qed

theorem rebuild_matches_logs_witness:
  "fst (rebuildRecent sim_env 7 sim_start) = Inr ()"
  using rebuild_matches_logs [OF sim_services, of sim_start 7] by simp

text \<open>
  a success rate is a percentage of at most two decimals, within half a hundredth of the true
  one, never below 0 nor above 100, and zero when there was no call.
\<close>

theorem success_rate_is_percentage:
  assumes "0 \<le> s" "s \<le> n"
  shows "0 \<le> successRate s n \<and> successRate s n \<le> 100 \<and> successRate 0 0 = 0 \<and>
    (0 < n \<longrightarrow> \<bar>successRate s n - 100 * of_int s / of_int n\<bar> \<le> 1 / 200) \<and>
    (\<exists>i. successRate s n = of_int i / 100)"
proof (cases "n = 0")
  case True
  then show ?thesis by (auto simp: successRate_def intro: exI [of _ 0])
next
  case False
  then have n: "0 < n" using assms by simp
  define q :: rat where "q = of_int (s * 10000) / of_int n"
  have q0: "0 \<le> q" using assms n by (simp add: q_def)
  have "of_int (s * 10000) \<le> (of_int n * 10000 :: rat)"
    using assms by simp
  then have q1: "q \<le> 10000" using n by (simp add: q_def field_simps)
  have r: "successRate s n = of_int \<lfloor>q + 1 / 2\<rfloor> / 100"
    using n by (simp add: successRate_def math_round_def q_def)
  have near: "of_int \<lfloor>q + 1 / 2\<rfloor> \<le> q + 1 / 2" "q + 1 / 2 < of_int \<lfloor>q + 1 / 2\<rfloor> + 1" by linarith+
  have "0 \<le> \<lfloor>q + 1 / 2\<rfloor>" "\<lfloor>q + 1 / 2\<rfloor> \<le> 10000" using q0 q1 by linarith+
  then have "0 \<le> successRate s n" "successRate s n \<le> 100"
    unfolding r by simp_all
  moreover have "\<bar>of_int \<lfloor>q + 1 / 2\<rfloor> / 100 - q / 100\<bar> \<le> 1 / 200" using near by linarith
  moreover have "100 * of_int s / of_int n = q / 100" by (simp add: q_def)
  moreover have "successRate 0 0 = 0" by (simp add: successRate_def)
  ultimately show ?thesis unfolding r by metis
qed

theorem success_rate_is_percentage_witness:
  "successRate 2 3 \<le> 100 \<and> 0 \<le> successRate 2 3"
  using success_rate_is_percentage [of 2 3] by simp

lemma map_of_pairs: "map_of (map (\<lambda>k. (k, h k)) ks) d = (if d \<in> set ks then Some (h d) else None)"
  by (induction ks) auto

lemma find_aggregate:
  "map_of (map (\<lambda>(k, g). (k, f g)) (group_by key xs)) d =
     (if d \<in> key ` set xs then Some (f (filter (\<lambda>x. key x = d) xs)) else None)"
  by (simp add: group_by_def o_def map_of_pairs)

text \<open>
  the trend of \<open>days\<close> days has one point per day, in order, the last one for today, and each
  point counts exactly the calls its aggregate rows count, zero for a day without rows.
\<close>

theorem trend_covers_every_day:
  assumes "services E view" "healthy (view w)" "i < nat days"
  shows "\<exists>ps. fst (trend E days project w) = Inr ps \<and> length ps = nat days \<and>
    tr_statDate (ps ! i) = day_of (now_ms E (snd (trend E days project w))) - (days - 1 - int i) \<and>
    tr_totalRequests (ps ! i) = sum_list (map rpm_totalRequests
      (filter (\<lambda>r. rpm_statDate r = tr_statDate (ps ! i) \<and>
          day_of (now_ms E w) - (days - 1) \<le> rpm_statDate r \<and>
          project_filter project (rpm_projectName r))
        (contents (rows (view w)) rpcDailyMetrics)))"
proof -
  let ?P = "\<lambda>r. day_of (now_ms E w) - (days - 1) \<le> rpm_statDate r \<and>
      project_filter project (rpm_projectName r)"
  let ?all = "contents (rows (view w)) rpcDailyMetrics"
  define w1 where "w1 = snd (select_from E rpcDailyMetrics ?P w)"
  define rs where "rs = projr (fst (select_from E rpcDailyMetrics ?P w))"
  note run = services.run_select [OF assms(1,2), of rpcDailyMetrics ?P]
  have mrs: "mset rs = filter_mset ?P (mset ?all)" using run(3) by (simp add: rs_def)
  let ?d = "day_of (now_ms E w1) - (days - 1 - int i)"
  define point where "point d = toTrendPoint d
      (map_of (map (\<lambda>(k, g). (k, aggregate_day g)) (group_by rpm_statDate rs)) d)" for d
  have step: "trend E days project w =
      (Inr (map (\<lambda>n. point (day_of (now_ms E w1) - n)) (days_down days)), w1)"
    using run(1) by (simp add: trend_def Let_def utcDateDaysAgo_def io_simps point_def rs_def w1_def)
  have ith: "map (\<lambda>n. point (day_of (now_ms E w1) - n)) (days_down days) ! i = point ?d"
    using assms(3) by (simp add: days_down_def)
  have date: "tr_statDate (point d) = d" for d
    by (simp add: point_def toTrendPoint_def split: option.splits)
  have "filter_mset (\<lambda>r. rpm_statDate r = d) (mset rs) =
      filter_mset (\<lambda>r. rpm_statDate r = d \<and> ?P r) (mset ?all)" for d
    by (simp add: mrs filter_filter_mset conj_commute)
  then have "sum_list (map rpm_totalRequests (filter (\<lambda>r. rpm_statDate r = d) rs)) =
      sum_list (map rpm_totalRequests (filter (\<lambda>r. rpm_statDate r = d \<and> ?P r) ?all))" for d
    by (metis (no_types, lifting) mset_filter mset_map sum_mset_sum_list)
  moreover have "tr_totalRequests (point d) =
      sum_list (map rpm_totalRequests (filter (\<lambda>r. rpm_statDate r = d) rs))" for d
  proof (cases "d \<in> rpm_statDate ` set rs")
    case False
    then have "filter (\<lambda>r. rpm_statDate r = d) rs = []" by (auto simp: filter_empty_conv)
    then show ?thesis using False by (simp add: point_def find_aggregate toTrendPoint_def)
  qed (simp add: point_def find_aggregate toTrendPoint_def aggregate_day_def)
  ultimately have tot: "tr_totalRequests (point d) =
      sum_list (map rpm_totalRequests (filter (\<lambda>r. rpm_statDate r = d \<and> ?P r) ?all))" for d
    by simp
  have "length (map (\<lambda>n. point (day_of (now_ms E w1) - n)) (days_down days)) = nat days"
    by (simp add: days_down_def)
  then show ?thesis
    unfolding step
    by (intro exI [of _ "map (\<lambda>n. point (day_of (now_ms E w1) - n)) (days_down days)"] conjI)
      (simp_all only: fst_conv snd_conv ith date tot)
qed

theorem trend_covers_every_day_witness:
  "\<exists>ps. fst (trend sim_env 7 None sim_start) = Inr ps \<and> length ps = 7"
  using trend_covers_every_day [OF sim_services, of sim_start 0 7 None] by auto

end
