(* ===== verification/Projects.thy ===== *)
theory Projects
  imports Metrics "HOL-Library.AList"
begin

text \<open>
  \<^verbatim>\<open>application/projects/projects.service.ts\<close>: the function groups (projects), their lookup by
  name, their life (create, enable, soft delete), and the statistics of the list page.  Joins
  are computed on one snapshot of the rows.
\<close>

section \<open>Definitions\<close>

definition SEVEN_DAYS_IN_MILLISECONDS :: int where
  "SEVEN_DAYS_IN_MILLISECONDS = 7 * MS_PER_DAY"

datatype project_status = PsDisabled | PsNoDevice | PsOnline | PsStale | PsOffline

text \<open>A zero instant is not null; \<^verbatim>\<open>lastSeenAt\<close> is tested as an object.\<close>

definition deriveProjectStatus ::
  "bool \<Rightarrow> int \<Rightarrow> int \<Rightarrow> int option \<Rightarrow> int \<Rightarrow> project_status" where
  "deriveProjectStatus enabled totalDevices onlineDevices lastSeenAt currentTime =
     (if \<not> enabled then PsDisabled
      else if totalDevices = 0 then PsNoDevice
      else if 0 < onlineDevices then PsOnline
      else case lastSeenAt of
             Some t \<Rightarrow> if SEVEN_DAYS_IN_MILLISECONDS < currentTime - t then PsStale else PsOffline
           | None \<Rightarrow> PsOffline)"

definition alive_project :: "(project_row \<Rightarrow> bool) \<Rightarrow> project_row \<Rightarrow> bool" where
  "alive_project P = alive prj_deletedAt [P]"

definition list_projects :: "'w env \<Rightarrow> ('w, project_row list) io" where
  "list_projects E =
     bindM (select_from E projects (alive prj_deletedAt [])) (\<lambda>rs. returnM (sort_key prj_id rs))"

text \<open>The inner join of a token-project table with the live projects.\<close>

definition live_relations :: "row list \<Rightarrow> token_project_row table \<Rightarrow> (token_project_row \<times> project_row) list" where
  "live_relations rs T =
     [(tp, p). tp \<leftarrow> contents rs T, p \<leftarrow> contents rs projects,
        alive_project (\<lambda>p. tp_projectId tp = prj_id p) p]"

text \<open>A \<^verbatim>\<open>Map<number, string[]>\<close> filled in the order of the relations.\<close>

definition append_name :: "nat \<Rightarrow> string \<Rightarrow> (nat \<times> string list) list \<Rightarrow> (nat \<times> string list) list" where
  "append_name t n m = AList.update t (or_default [] (map_of m t) @ [n]) m"

definition namesByTokenIds ::
  "'w env \<Rightarrow> token_project_row table \<Rightarrow> nat list \<Rightarrow> ('w, (nat \<times> string list) list) io" where
  "namesByTokenIds E T tokenIds =
     (if tokenIds = [] then returnM []
      else bindM
        (db_query E (\<lambda>rs. sort_key snd
           [(tp_tokenId tp, prj_name p). (tp, p) \<leftarrow> live_relations rs T, tp_tokenId tp \<in> set tokenIds]))
        (\<lambda>relations. returnM (fold (\<lambda>(t, n). append_name t n) relations [])))"

definition hasProjectNameMatch :: "row list \<Rightarrow> token_project_row table \<Rightarrow> nat \<Rightarrow> string \<Rightarrow> bool" where
  "hasProjectNameMatch rs T tokenId projectName \<longleftrightarrow>
     list_ex (\<lambda>(tp, p). tp_tokenId tp = tokenId \<and> prj_name p = projectName) (live_relations rs T)"

definition findByName :: "'w env \<Rightarrow> string \<Rightarrow> ('w, project_row option) io" where
  "findByName E name =
     bindM (select_from E projects (alive_project (\<lambda>p. prj_name p = name))) (\<lambda>rs. returnM (first rs))"

definition new_project :: "string \<Rightarrow> string option \<Rightarrow> int \<Rightarrow> nat \<Rightarrow> project_row" where
  "new_project name description now i =
     \<lparr>prj_id = i, prj_name = name, prj_description = description, prj_enabled = True,
      prj_createdAt = now, prj_deletedAt = None\<rparr>"

definition create_project :: "'w env \<Rightarrow> string \<Rightarrow> string option \<Rightarrow> ('w, project_row option) io" where
  "create_project E name description =
     bindM (findByName E name) (\<lambda>existing.
       if existing \<noteq> None then throwM (Http 409 MProjectExists)
       else (\<lambda>w. bindM (insert_into E projects (new_project name description (pg_now E w)))
                   (\<lambda>rs. returnM (first rs)) w))"

definition set_project_deleted :: "int option \<Rightarrow> project_row \<Rightarrow> project_row" where
  "set_project_deleted t p = p\<lparr>prj_deletedAt := t\<rparr>"

definition remove_project :: "'w env \<Rightarrow> nat \<Rightarrow> ('w, bool) io" where
  "remove_project E projectId =
     thenM (softDelete E projects prj_deletedAt set_project_deleted (\<lambda>p. prj_id p = projectId))
       (returnM True)"

definition idByName :: "'w env \<Rightarrow> string \<Rightarrow> ('w, nat option) io" where
  "idByName E name =
     bindM (select_from E projects (alive_project (\<lambda>p. prj_name p = name)))
       (\<lambda>rs. returnM (map_option prj_id (first rs)))"

definition findEnabledIdByName :: "'w env \<Rightarrow> string \<Rightarrow> ('w, (nat \<times> bool) option) io" where
  "findEnabledIdByName E name =
     bindM (select_from E projects (alive_project (\<lambda>p. prj_name p = name)))
       (\<lambda>rs. returnM (map_option (\<lambda>p. (prj_id p, prj_enabled p)) (first rs)))"

definition setEnabled :: "'w env \<Rightarrow> nat \<Rightarrow> bool \<Rightarrow> ('w, nat \<times> string \<times> bool) io" where
  "setEnabled E projectId enabled =
     bindM (update_table E projects (alive_project (\<lambda>p. prj_id p = projectId))
              (\<lambda>p. p\<lparr>prj_enabled := enabled\<rparr>))
       (\<lambda>rs. case first rs of
          None \<Rightarrow> throwM (Http 404 MProjectMissing)
        | Some p \<Rightarrow> returnM (prj_id p, prj_name p, prj_enabled p))"

record project_query =
  pq_name :: "string option"
  pq_enabled :: "string option"
  pq_page :: "int option"
  pq_pageSize :: "int option"

definition project_conditions :: "project_query \<Rightarrow> (project_row \<Rightarrow> bool) list" where
  "project_conditions q =
     compactConditions
       [likeIf (\<lambda>p. Some (prj_name p)) (pq_name q),
        (case pq_enabled q of
           None \<Rightarrow> None
         | Some s \<Rightarrow> if s = [] then None else Some (\<lambda>p. prj_enabled p = (s = ''enabled'')))]"

definition listPaged ::
  "'w env \<Rightarrow> project_query \<Rightarrow> ('w, (nat \<times> string \<times> string option \<times> bool) paginated) io" where
  "listPaged E q =
     (let P = alive prj_deletedAt (project_conditions q) in
      paginate E projects P (pq_page q) (pq_pageSize q)
        (\<lambda>limit offset. bindM (select_page E projects P prj_id limit offset)
          (\<lambda>ps. returnM (map (\<lambda>p. (prj_id p, prj_name p, prj_description p, prj_enabled p)) ps))))"

record device_summary =
  ds_total :: int
  ds_online :: int
  ds_lastSeen :: "int option"

definition normalizeDeviceSummary :: "device_summary option \<Rightarrow> int \<times> int \<times> int option" where
  "normalizeDeviceSummary s =
     (case s of None \<Rightarrow> (0, 0, None) | Some d \<Rightarrow> (ds_total d, ds_online d, ds_lastSeen d))"

definition normalizeRequestMetrics :: "(int \<times> int) option \<Rightarrow> int \<times> int" where
  "normalizeRequestMetrics m = (case m of None \<Rightarrow> (0, 0) | Some x \<Rightarrow> x)"

definition max_option :: "int list \<Rightarrow> int option" where
  "max_option xs = (case xs of [] \<Rightarrow> None | y # ys \<Rightarrow> Some (fold max ys y))"

text \<open>The join devices, device tokens, device token projects, grouped by project.\<close>

definition device_summaries :: "nat list \<Rightarrow> row list \<Rightarrow> (nat \<times> device_summary) list" where
  "device_summaries projectIds rs =
     map (\<lambda>(p, ds). (p, \<lparr>ds_total = int (length ds), ds_online = count_if dev_online ds,
            ds_lastSeen = max_option (List.map_filter dev_lastSeenAt ds)\<rparr>))
       (map (\<lambda>(p, g). (p, map snd g))
         (group_by fst
           [(tp_projectId tp, d). d \<leftarrow> contents rs devices, t \<leftarrow> contents rs deviceTokens,
              alive dvt_deletedAt [\<lambda>t. dev_deviceTokenId d = Some (dvt_id t)] t,
              tp \<leftarrow> contents rs deviceTokenProjects, tp_tokenId tp = dvt_id t,
              alive dev_deletedAt [] d \<and> tp_projectId tp \<in> set projectIds]))"

record project_stats =
  st_projectId :: nat
  st_totalDevices :: int
  st_onlineDevices :: int
  st_lastSeenAt :: "int option"
  st_requests7d :: int
  st_success7d :: int
  st_successRate :: rat
  st_status :: project_status

definition project_stats_of ::
  "(nat \<times> device_summary) list \<Rightarrow> (string \<times> int \<times> int) list \<Rightarrow> int \<Rightarrow> project_row \<Rightarrow> project_stats" where
  "project_stats_of summaries metrics now p =
     (case normalizeDeviceSummary (map_of summaries (prj_id p)) of
        (totalDevices, onlineDevices, lastSeenAt) \<Rightarrow>
          (case normalizeRequestMetrics (map_of metrics (prj_name p)) of
             (requests7d, success7d) \<Rightarrow>
               \<lparr>st_projectId = prj_id p, st_totalDevices = totalDevices,
                st_onlineDevices = onlineDevices, st_lastSeenAt = lastSeenAt,
                st_requests7d = requests7d, st_success7d = success7d,
                st_successRate = successRate success7d requests7d,
                st_status = deriveProjectStatus (prj_enabled p) totalDevices onlineDevices
                  lastSeenAt now\<rparr>))"

definition statsByIds :: "'w env \<Rightarrow> nat list \<Rightarrow> ('w, project_stats list) io" where
  "statsByIds E projectIds =
     (if projectIds = [] then returnM []
      else bindM (select_from E projects (alive_project (\<lambda>p. prj_id p \<in> set projectIds))) (\<lambda>ps.
        bindM (db_query E (device_summaries projectIds)) (\<lambda>summaries.
        bindM (requests7dByProject E) (\<lambda>metrics w.
          returnM (map (project_stats_of summaries metrics (now_ms E w)) ps) w))))"

definition project_summary :: "'w env \<Rightarrow> ('w, int \<times> int) io" where
  "project_summary E =
     bindM (select_from E projects (alive prj_deletedAt []))
       (\<lambda>ps. returnM (int (length ps), count_if prj_enabled ps))"

section \<open>What the operations do while the services are up\<close>

definition live_project :: "row list \<Rightarrow> project_row \<Rightarrow> bool" where
  "live_project rs p \<longleftrightarrow> p \<in> set (contents rs projects) \<and> prj_deletedAt p = None"

text \<open>The partial unique index: at most one live project has a given name.\<close>

lemma conflict_free_pair:
  assumes "conflict_free rs" "r \<in> set rs" "s \<in> set rs" "conflicts r s"
  shows "r = s"
  using assms
proof (induction rs)
  case (Cons x xs)
  then show ?case using conflicts_symmetric [of r s] by auto
qed simp

lemma live_project_unique:
  assumes "conflict_free rs" "live_project rs p" "live_project rs q" "prj_name p = prj_name q"
  shows "p = q"
proof -
  have "Project p = Project q"
    using assms by (intro conflict_free_pair [OF assms(1)])
      (auto simp: live_project_def in_contents conflicts_def project_conflict_def)
  then show ?thesis by simp
qed

lemma alive_project_simp [simp]: "alive_project P p \<longleftrightarrow> prj_deletedAt p = None \<and> P p"
  by (auto simp: alive_project_def alive_def)

context services
begin

text \<open>A query for the live project of a name gives it, or nothing.\<close>

lemma select_project_by_name:
  assumes "healthy (view w)"
  shows "first (projr (fst (select_from E projects (alive_project (\<lambda>p. prj_name p = name)) w))) = Some p \<longleftrightarrow>
      live_project (rows (view w)) p \<and> prj_name p = name"
    and "first (projr (fst (select_from E projects (alive_project (\<lambda>p. prj_name p = name)) w))) = None \<longleftrightarrow>
      (\<forall>p. live_project (rows (view w)) p \<longrightarrow> prj_name p \<noteq> name)"
proof -
  let ?rs = "projr (fst (select_from E projects (alive_project (\<lambda>p. prj_name p = name)) w))"
  have m: "set ?rs = {p. live_project (rows (view w)) p \<and> prj_name p = name}"
    using arg_cong [OF run_select(3) [OF assms, of projects "alive_project (\<lambda>p. prj_name p = name)"],
        of set_mset]
    by (auto simp: live_project_def)
  have u: "x = y" if "x \<in> set ?rs" "y \<in> set ?rs" for x y
    using live_project_unique [of "rows (view w)" x y] indexes [of w] assms that by (auto simp: m)
  show "first ?rs = Some p \<longleftrightarrow> live_project (rows (view w)) p \<and> prj_name p = name"
    using u m first_Some_set [of ?rs] by (cases ?rs) auto
  show "first ?rs = None \<longleftrightarrow> (\<forall>p. live_project (rows (view w)) p \<longrightarrow> prj_name p \<noteq> name)"
    using m by (auto simp flip: set_empty)
qed

lemma findEnabledIdByName_run:
  assumes "healthy (view w)"
  shows "\<exists>r. fst (findEnabledIdByName E name w) = Inr r \<and>
      (r = None \<longleftrightarrow> (\<forall>p. live_project (rows (view w)) p \<longrightarrow> prj_name p \<noteq> name)) \<and>
      (\<forall>i b. r = Some (i, b) \<longrightarrow>
        (\<exists>p. live_project (rows (view w)) p \<and> prj_name p = name \<and> prj_id p = i \<and> prj_enabled p = b))"
    and "view (snd (findEnabledIdByName E name w)) = view w"
  using assms select_project_by_name [OF assms, of name]
  by (auto simp: findEnabledIdByName_def io_simps)

lemma findByName_run:
  assumes "healthy (view w)"
  shows "\<exists>r. fst (findByName E name w) = Inr r \<and>
      (r = None \<longleftrightarrow> (\<forall>p. live_project (rows (view w)) p \<longrightarrow> prj_name p \<noteq> name)) \<and>
      (\<forall>p. r = Some p \<longleftrightarrow> live_project (rows (view w)) p \<and> prj_name p = name)"
    and "view (snd (findByName E name w)) = view w"
  using assms select_project_by_name [OF assms, of name]
  by (auto simp: findByName_def io_simps)

lemma project_update_conflict_free:
  assumes "healthy (view w)"
    and "\<And>p. prj_id (f p) = prj_id p \<and> prj_name (f p) = prj_name p \<and>
           (prj_deletedAt (f p) = None \<longrightarrow> prj_deletedAt p = None)"
  shows "conflict_free (update_rows (on_table projects P) (map_table projects f) (rows (view w)))"
proof (rule conflict_free_update)
  show "conflict_free (rows (view w))" using indexes assms(1) by simp
  fix r s
  assume "conflicts (if on_table projects P r then map_table projects f r else r)
    (if on_table projects P s then map_table projects f s else s)"
  then show "conflicts r s"
    using assms(2)
    by (cases r; cases s)
      (auto simp: on_table_def map_table_def conflicts_def project_conflict_def split: if_splits)
qed

lemma create_project_run:
  assumes "healthy (view w)"
  shows "if \<exists>p. live_project (rows (view w)) p \<and> prj_name p = name
    then fst (create_project E name d w) = Inl (Http 409 MProjectExists) \<and>
         view (snd (create_project E name d w)) = view w
    else (\<exists>p. fst (create_project E name d w) = Inr (Some p) \<and> prj_name p = name \<and>
           prj_description p = d \<and> prj_enabled p \<and> prj_deletedAt p = None \<and>
           (\<forall>q \<in> set (contents (rows (view w)) projects). prj_id q \<noteq> prj_id p) \<and>
           view (snd (create_project E name d w)) =
             (view w)\<lparr>rows := rows (view w) @ [Project p]\<rparr>)"
proof -
  define w1 where "w1 = snd (findByName E name w)"
  have v1: "view w1 = view w" using findByName_run(2) [OF assms] by (simp add: w1_def)
  obtain r where r: "fst (findByName E name w) = Inr r"
    "r = None \<longleftrightarrow> (\<forall>p. live_project (rows (view w)) p \<longrightarrow> prj_name p \<noteq> name)"
    using findByName_run(1) [OF assms] by blast
  let ?mk = "new_project name d (pg_now E w1)"
  have step: "create_project E name d w =
      (if r \<noteq> None then (Inl (Http 409 MProjectExists), w1)
       else bindM (insert_into E projects ?mk) (\<lambda>rs. returnM (first rs)) w1)"
    by (simp add: create_project_def io_simps r(1) flip: w1_def)
  show ?thesis
  proof (cases "r = None")
    case False
    then show ?thesis using r(2) by (auto simp: step v1)
  next
    case True
    have h1: "healthy (view w1)" using assms by (simp add: v1)
    obtain i where i: "fresh_id (rows (view w)) (Project (?mk i)) i"
      and ins: "if list_ex (conflicts (Project (?mk i))) (rows (view w))
        then fst (insert_into E projects ?mk w1) = Inl (PgError ''23505'') \<and>
             view (snd (insert_into E projects ?mk w1)) = view w1
        else fst (insert_into E projects ?mk w1) = Inr [?mk i] \<and>
             view (snd (insert_into E projects ?mk w1)) =
               (view w1)\<lparr>rows := rows (view w1) @ [Project (?mk i)]\<rparr>"
      using run_insert [OF h1, of projects ?mk] by (auto simp: v1)
    have fresh: "prj_id q \<noteq> i" if "q \<in> set (contents (rows (view w)) projects)" for q
      using i that by (auto simp: fresh_id_def in_contents table_no_def row_id_def)
    have "\<not> list_ex (conflicts (Project (?mk i))) (rows (view w))"
    proof
      assume "list_ex (conflicts (Project (?mk i))) (rows (view w))"
      then obtain x where x: "x \<in> set (rows (view w))" "conflicts (Project (?mk i)) x"
        by (auto simp: list_ex_iff)
      obtain q where q: "x = Project q" "project_conflict (?mk i) q"
        using x(2) by (cases x) (simp_all add: conflicts_def)
      then have "q \<in> set (contents (rows (view w)) projects)" using x by (simp add: in_contents)
      then have "live_project (rows (view w)) q \<and> prj_name q = name"
        using q(2) fresh by (auto simp: project_conflict_def new_project_def live_project_def)
      then show False using True r(2) by blast
    qed
    then have "fst (create_project E name d w) = Inr (Some (?mk i))"
      "view (snd (create_project E name d w)) = (view w)\<lparr>rows := rows (view w) @ [Project (?mk i)]\<rparr>"
      using ins True by (simp_all add: step io_simps v1)
    moreover have "\<not> (\<exists>p. live_project (rows (view w)) p \<and> prj_name p = name)"
      using True r(2) by blast
    ultimately show ?thesis
      using fresh by (simp add: new_project_def)
  qed
qed

lemma remove_project_run:
  assumes "healthy (view w)"
  shows "fst (remove_project E i w) = Inr True"
    and "contents (rows (view (snd (remove_project E i w)))) projects =
      map (\<lambda>p. if prj_deletedAt p = None \<and> prj_id p = i
               then p\<lparr>prj_deletedAt := Some (now_ms E w)\<rparr> else p)
        (contents (rows (view w)) projects)"
    and "healthy (view (snd (remove_project E i w)))"
proof -
  let ?P = "alive prj_deletedAt [\<lambda>p. prj_id p = i]"
  let ?f = "set_project_deleted (Some (now_ms E w))"
  have cf: "conflict_free (update_rows (on_table projects ?P) (map_table projects ?f) (rows (view w)))"
    by (rule project_update_conflict_free [OF assms]) (simp add: set_project_deleted_def)
  note run = run_update [OF assms tables_ok(2) cf]
  show "fst (remove_project E i w) = Inr True"
    using run(1) by (simp add: remove_project_def softDelete_def io_simps)
  show "healthy (view (snd (remove_project E i w)))"
    using run(1,2) assms by (simp add: remove_project_def softDelete_def io_simps)
  show "contents (rows (view (snd (remove_project E i w)))) projects =
      map (\<lambda>p. if prj_deletedAt p = None \<and> prj_id p = i
               then p\<lparr>prj_deletedAt := Some (now_ms E w)\<rparr> else p)
        (contents (rows (view w)) projects)"
    using run(1,2) contents_update [OF tables_ok(2), of ?P ?f "rows (view w)"]
    by (simp add: remove_project_def softDelete_def io_simps update_rows_def alive_def
        set_project_deleted_def)
qed

end

section \<open>Properties\<close>

text \<open>
  a group's name is its identity among the live groups.  Creating a group whose name a live
  group has is refused with 409 and changes nothing; otherwise the group is created, enabled,
  with a fresh id, and is what a search by the name finds.
\<close>

theorem project_names_are_unique:
  assumes "services E view" "healthy (view w)"
  shows "if \<exists>p. live_project (rows (view w)) p \<and> prj_name p = name
    then fst (create_project E name d w) = Inl (Http 409 MProjectExists) \<and>
         view (snd (create_project E name d w)) = view w
    else (\<exists>p. fst (create_project E name d w) = Inr (Some p) \<and>
           prj_name p = name \<and> prj_enabled p \<and>
           (\<forall>q \<in> set (contents (rows (view w)) projects). prj_id q \<noteq> prj_id p) \<and>
           fst (findByName E name (snd (create_project E name d w))) = Inr (Some p))"
proof (cases "\<exists>p. live_project (rows (view w)) p \<and> prj_name p = name")
  case True
  then show ?thesis using services.create_project_run [OF assms, of name d] by simp
next
  case False
  then obtain p where p: "fst (create_project E name d w) = Inr (Some p)" "prj_name p = name"
    "prj_enabled p" "prj_deletedAt p = None"
    "\<forall>q \<in> set (contents (rows (view w)) projects). prj_id q \<noteq> prj_id p"
    and v: "view (snd (create_project E name d w)) = (view w)\<lparr>rows := rows (view w) @ [Project p]\<rparr>"
    using services.create_project_run [OF assms, of name d] unfolding if_not_P [OF False] by blast
  have "live_project (rows (view w) @ [Project p]) p" using p(4) by (simp add: live_project_def)
  then have "fst (findByName E name (snd (create_project E name d w))) = Inr (Some p)"
    using services.findByName_run(1) [OF assms(1), of "snd (create_project E name d w)" name]
      assms(2) p(2) by (auto simp: v)
  with False p show ?thesis by auto
qed

theorem project_names_are_unique_witness:
  "\<exists>p. fst (create_project sim_env ''sms'' None sim_start) = Inr (Some p) \<and> prj_name p = ''sms''"
  using project_names_are_unique [OF sim_services, of sim_start "''sms''" None]
  by (auto simp: live_project_def)

text \<open>
  soft deletion frees the name and hides the group: after removing a live group, no search by
  its name finds any group, every other live group is still found by its own name, and a new
  group may take the name again.
\<close>

theorem removing_project_frees_name:
  assumes "services E view" "healthy (view w)" "live_project (rows (view w)) p"
  shows "fst (findByName E (prj_name p) (snd (remove_project E (prj_id p) w))) = Inr None \<and>
    (\<forall>q. live_project (rows (view w)) q \<and> prj_name q \<noteq> prj_name p \<longrightarrow>
       fst (findByName E (prj_name q) (snd (remove_project E (prj_id p) w))) = Inr (Some q)) \<and>
    \<not> isl (fst (create_project E (prj_name p) d (snd (remove_project E (prj_id p) w))))"
proof -
  let ?w1 = "snd (remove_project E (prj_id p) w)"
  note run = services.remove_project_run [OF assms(1,2), of "prj_id p"]
  have cf: "conflict_free (rows (view w))"
    using services.indexes [OF assms(1), of w] assms(2) by simp
  have same: "q = p" if "live_project (rows (view w)) q" "prj_id q = prj_id p" for q
  proof -
    have "Project q = Project p"
      using that assms(3) by (intro conflict_free_pair [OF cf])
        (auto simp: live_project_def in_contents conflicts_def project_conflict_def)
    then show ?thesis by simp
  qed
  have live1: "live_project (rows (view ?w1)) q \<longleftrightarrow> live_project (rows (view w)) q \<and> q \<noteq> p" for q
  proof -
    have "live_project (rows (view ?w1)) q \<longleftrightarrow>
        live_project (rows (view w)) q \<and> prj_id q \<noteq> prj_id p"
      unfolding live_project_def run(2) set_map by (force split: if_splits)
    then show ?thesis using same [of q] by blast
  qed
  have none: "\<forall>q. live_project (rows (view ?w1)) q \<longrightarrow> prj_name q \<noteq> prj_name p"
    using live1 live_project_unique [OF cf _ assms(3)] by blast
  then have "fst (findByName E (prj_name p) ?w1) = Inr None"
    using services.findByName_run(1) [OF assms(1) run(3), of "prj_name p"] by auto
  moreover have "fst (findByName E (prj_name q) ?w1) = Inr (Some q)"
    if "live_project (rows (view w)) q" "prj_name q \<noteq> prj_name p" for q
    using services.findByName_run(1) [OF assms(1) run(3), of "prj_name q"] live1 [of q] that by auto
  moreover have "\<not> isl (fst (create_project E (prj_name p) d ?w1))"
    using services.create_project_run [OF assms(1) run(3), of "prj_name p" d] none
    by (auto split: if_splits)
  ultimately show ?thesis by blast
qed

definition example_project :: project_row where
  "example_project = \<lparr>prj_id = 3, prj_name = ''sms'', prj_description = None, prj_enabled = True,
     prj_createdAt = 0, prj_deletedAt = None\<rparr>"

definition example_projects :: sim where
  "example_projects = sim_start\<lparr>sim_store := empty_store\<lparr>rows := [Project example_project]\<rparr>\<rparr>"

lemma example_projects_view:
  "sim_view example_projects = empty_store\<lparr>rows := [Project example_project]\<rparr>"
  by (simp add: sim_view_def example_projects_def sim_start_def)

theorem removing_project_frees_name_witness:
  "fst (findByName sim_env ''sms'' (snd (remove_project sim_env 3 example_projects))) = Inr None"
  using removing_project_frees_name [OF sim_services, of example_projects example_project]
  by (simp add: example_projects_view live_project_def) (simp add: example_project_def)

end
