(* ===== verification/Devices.thy ===== *)
theory Devices
  imports Projects Presence "HOL-Library.Product_Lexorder"
begin

text \<open>
  \<^verbatim>\<open>application/devices/devices.service.ts\<close>: the durable record of every device, one row per client
  id, written when a device connects, disconnects, or is found stale or idle by the maintenance
  jobs, and listed for the administrators.
\<close>

section \<open>Definitions\<close>

record device_meta =
  dm_platform :: "string option"
  dm_lastIp :: "string option"
  dm_extra :: "string option"
  dm_maxInFlight :: "int option"

text \<open>\<^verbatim>\<open>base\<close> of \<^verbatim>\<open>registerOnline\<close>, the columns every connection writes.\<close>

definition online_base :: "nat \<Rightarrow> device_meta \<Rightarrow> int \<Rightarrow> device_row \<Rightarrow> device_row" where
  "online_base tokenId m now d =
     d\<lparr>dev_deviceTokenId := Some tokenId, dev_online := True, dev_status := ''online'',
       dev_lastIp := dm_lastIp m, dev_maxInFlight := map_option nat (dm_maxInFlight m),
       dev_lastSeenAt := Some now\<rparr>"

definition online_patch :: "nat \<Rightarrow> device_meta \<Rightarrow> int \<Rightarrow> bool \<Rightarrow> device_row \<Rightarrow> device_row" where
  "online_patch tokenId m now wasDeleted d =
     (let d1 = online_base tokenId m now d;
          d2 = (if wasDeleted then d1\<lparr>dev_deletedAt := None\<rparr> else d1);
          d3 = (case dm_platform m of None \<Rightarrow> d2 | Some p \<Rightarrow> d2\<lparr>dev_platform := Some p\<rparr>) in
      (case dm_extra m of None \<Rightarrow> d3 | Some x \<Rightarrow> d3\<lparr>dev_extra := Some x\<rparr>))"

definition new_device :: "string \<Rightarrow> nat \<Rightarrow> device_meta \<Rightarrow> int \<Rightarrow> nat \<Rightarrow> device_row" where
  "new_device clientId tokenId m now i =
     online_base tokenId m now
       \<lparr>dev_id = i, dev_clientId = clientId, dev_deviceTokenId = None, dev_online = False,
        dev_status = ''offline'', dev_platform = dm_platform m, dev_lastIp = None,
        dev_extra = dm_extra m, dev_maxInFlight = None, dev_description = None,
        dev_lastSeenAt = None, dev_deletedAt = None\<rparr>"

text \<open>ORDER BY deleted_at IS NOT NULL, id DESC.\<close>

definition reuse_order :: "device_row \<Rightarrow> bool \<times> int" where
  "reuse_order d = (dev_deletedAt d \<noteq> None, - int (dev_id d))"

definition registerOnline :: "'w env \<Rightarrow> string \<Rightarrow> nat \<Rightarrow> device_meta \<Rightarrow> ('w, unit) io" where
  "registerOnline E clientId tokenId m w0 =
     (let now = now_ms E w0 in
      bindM (select_from E devices (\<lambda>d. dev_clientId d = clientId)) (\<lambda>ds.
        case first (sort_key reuse_order ds) of
          Some d \<Rightarrow>
            ignore_rows (update_table E devices (\<lambda>x. dev_id x = dev_id d)
              (online_patch tokenId m now (dev_deletedAt d \<noteq> None)))
        | None \<Rightarrow> ignore_rows (insert_into E devices (new_device clientId tokenId m now)))) w0"

definition markOffline :: "'w env \<Rightarrow> string \<Rightarrow> ('w, unit) io" where
  "markOffline E clientId =
     ignore_rows (update_table E devices (alive dev_deletedAt [\<lambda>d. dev_clientId d = clientId])
       (\<lambda>d. d\<lparr>dev_online := False, dev_status := ''offline''\<rparr>))"

definition refreshLastSeen :: "'w env \<Rightarrow> nat list \<Rightarrow> ('w, unit) io" where
  "refreshLastSeen E deviceIds w0 =
     (if deviceIds = [] then returnM () w0
      else ignore_rows (update_table E devices (alive dev_deletedAt [\<lambda>d. dev_id d \<in> set deviceIds])
             (\<lambda>d. d\<lparr>dev_lastSeenAt := Some (now_ms E w0)\<rparr>)) w0)"

text \<open>The loop of \<^verbatim>\<open>markStaleOffline\<close>: the stale count and the ids still present, so far.\<close>

primrec stale_loop ::
  "'w env \<Rightarrow> nat \<Rightarrow> nat list \<Rightarrow> (nat \<times> string) list \<Rightarrow> ('w, nat \<times> nat list) io" where
  "stale_loop E stale present [] = returnM (stale, present)"
| "stale_loop E stale present (d # ds) =
     bindM (redis_exists E (presence_key (snd d))) (\<lambda>n.
       if n \<noteq> 0 then stale_loop E stale (present @ [fst d]) ds
       else bindM (update_table E devices
                     (alive dev_deletedAt [\<lambda>x. dev_id x = fst d \<and> dev_online x = True])
                     (\<lambda>x. x\<lparr>dev_online := False, dev_status := ''stale''\<rparr>))
              (\<lambda>rs. stale_loop E (if rs \<noteq> [] then stale + 1 else stale) present ds))"

definition markStaleOffline :: "'w env \<Rightarrow> ('w, nat) io" where
  "markStaleOffline E =
     bindM (select_from E devices (alive dev_deletedAt [\<lambda>d. dev_online d = True])) (\<lambda>ds.
     bindM (stale_loop E 0 [] (map (\<lambda>d. (dev_id d, dev_clientId d)) ds)) (\<lambda>(stale, present).
       thenM (refreshLastSeen E present) (returnM stale)))"

text \<open>The comparison is made with the database's clock, the deletion stamped with the backend's.\<close>

definition softDeleteIdle :: "'w env \<Rightarrow> int \<Rightarrow> ('w, nat) io" where
  "softDeleteIdle E idleDays w0 =
     bindM (update_table E devices
              (alive dev_deletedAt
                 [\<lambda>d. \<not> dev_online d,
                  \<lambda>d. case dev_lastSeenAt d of
                        None \<Rightarrow> False | Some t \<Rightarrow> t < pg_now E w0 - idleDays * MS_PER_DAY])
              (\<lambda>d. d\<lparr>dev_deletedAt := Some (now_ms E w0)\<rparr>))
       (\<lambda>rs. returnM (length rs)) w0"

record device_query =
  dq_clientId :: "string option"
  dq_platform :: "string option"
  dq_lastIp :: "string option"
  dq_status :: "string option"
  dq_page :: "int option"
  dq_pageSize :: "int option"

definition device_conditions :: "device_query \<Rightarrow> (device_row \<Rightarrow> bool) list" where
  "device_conditions q =
     compactConditions
       [likeIf (\<lambda>d. Some (dev_clientId d)) (dq_clientId q), likeIf dev_platform (dq_platform q),
        likeIf dev_lastIp (dq_lastIp q),
        eqIf blank_string (\<lambda>d. Some (dev_status d)) (dq_status q)]"

definition list_devices :: "'w env \<Rightarrow> device_query \<Rightarrow> ('w, device_row paginated) io" where
  "list_devices E q =
     (let P = alive dev_deletedAt (device_conditions q) in
      paginate E devices P (dq_page q) (dq_pageSize q)
        (select_page E devices P (\<lambda>d. - int (dev_id d))))"

definition device_summary_counts :: "'w env \<Rightarrow> ('w, int \<times> int) io" where
  "device_summary_counts E =
     bindM (select_from E devices (alive dev_deletedAt []))
       (\<lambda>ds. returnM (int (length ds), count_if dev_online ds))"

definition get_device :: "'w env \<Rightarrow> nat \<Rightarrow> ('w, device_row option) io" where
  "get_device E deviceId =
     bindM (select_from E devices (alive dev_deletedAt [\<lambda>d. dev_id d = deviceId]))
       (\<lambda>ds. returnM (first ds))"

section \<open>What the operations do while the services are up\<close>

lemma ignore_rows_eq [io_simps]:
  "ignore_rows m w = (if isl (fst (m w)) then (Inl (projl (fst (m w))), snd (m w)) else (Inr (), snd (m w)))"
  by (simp add: ignore_rows_def io_simps)

lemma online_patch_sel [simp]:
  "dev_id (online_patch t m n b d) = dev_id d" "dev_clientId (online_patch t m n b d) = dev_clientId d"
  "dev_online (online_patch t m n b d) = True" "dev_status (online_patch t m n b d) = ''online''"
  "dev_deletedAt (online_patch t m n b d) = (if b then None else dev_deletedAt d)"
  "dev_deviceTokenId (online_patch t m n b d) = Some t"
  "dev_lastSeenAt (online_patch t m n b d) = Some n"
  "dev_platform (online_patch t m n b d) =
     (case dm_platform m of None \<Rightarrow> dev_platform d | Some p \<Rightarrow> Some p)"
  "dev_extra (online_patch t m n b d) = (case dm_extra m of None \<Rightarrow> dev_extra d | Some x \<Rightarrow> Some x)"
  by (auto simp: online_patch_def online_base_def Let_def split: option.splits)

lemma device_ids_unique:
  assumes "conflict_free rs" "d \<in> set (contents rs devices)" "x \<in> set (contents rs devices)"
    and "dev_id d = dev_id x"
  shows "d = x"
proof -
  have "Device d = Device x"
    using assms by (intro conflict_free_pair [OF assms(1)])
      (auto simp: in_contents conflicts_def device_conflict_def)
  then show ?thesis by simp
qed

text \<open>Only the device of a given id is changed, and it may become live when no live row has its client id.\<close>

lemma revive_conflict_free:
  assumes "conflict_free rs" "d \<in> set (contents rs devices)"
    and "\<And>x. dev_id (f x) = dev_id x \<and> dev_clientId (f x) = dev_clientId x"
    and "dev_deletedAt d \<noteq> None \<Longrightarrow>
      \<forall>x \<in> set (contents rs devices). dev_clientId x = dev_clientId d \<longrightarrow> dev_deletedAt x \<noteq> None"
  shows "conflict_free (update_rows (on_table devices (\<lambda>x. dev_id x = dev_id d)) (map_table devices f) rs)"
proof -
  let ?g = "\<lambda>r. if on_table devices (\<lambda>x. dev_id x = dev_id d) r then map_table devices f r else r"
  have step: "\<not> conflicts (?g r) (?g s)" if rs: "r \<in> set rs" "s \<in> set rs" "\<not> conflicts r s" for r s
  proof (cases "\<exists>x y. r = Device x \<and> s = Device y")
    case False
    then have "conflicts (?g r) (?g s) = conflicts r s"
      by (cases r; cases s) (auto simp: on_table_def map_table_def conflicts_def)
    then show ?thesis using rs(3) by simp
  next
    case True
    then obtain x y where xy: "r = Device x" "s = Device y" by blast
    have "x \<in> set (contents rs devices)" "y \<in> set (contents rs devices)"
      using rs xy by (simp_all add: in_contents)
    then have same: "dev_id x = dev_id d \<Longrightarrow> x = d" "dev_id y = dev_id d \<Longrightarrow> y = d"
      and dead: "dev_deletedAt d \<noteq> None \<Longrightarrow> dev_clientId x = dev_clientId d \<Longrightarrow> dev_deletedAt x \<noteq> None"
        "dev_deletedAt d \<noteq> None \<Longrightarrow> dev_clientId y = dev_clientId d \<Longrightarrow> dev_deletedAt y \<noteq> None"
      using device_ids_unique [OF assms(1) _ assms(2)] assms(4) by blast+
    have "\<not> device_conflict x y" using rs(3) xy by (simp add: conflicts_def)
    then have "\<not> device_conflict (if dev_id x = dev_id d then f x else x) (if dev_id y = dev_id d then f y else y)"
      using same dead assms(3) by (auto simp: device_conflict_def)
    then show ?thesis using xy
      by (simp add: on_table_def map_table_def conflicts_def split: if_splits)
  qed
  have "sorted_wrt (\<lambda>r s. \<not> conflicts (?g r) (?g s)) rs"
    using assms(1) unfolding conflict_free_def by (rule sorted_wrt_mono_rel [rotated]) (use step in blast)
  then show ?thesis unfolding conflict_free_def update_rows_def sorted_wrt_map by simp
qed

lemma first_sort_key_min:
  "first (sort_key f xs) = Some x \<Longrightarrow> x \<in> set xs \<and> (\<forall>y \<in> set xs. f x \<le> f y)"
proof -
  assume f: "first (sort_key f xs) = Some x"
  then obtain ys where ys: "sort_key f xs = x # ys" by (cases "sort_key f xs") auto
  then have s: "sorted (map f (x # ys))" using sorted_sort_key [of f xs] by simp
  have "set xs = set (x # ys)" using ys by (metis set_sort)
  with s show ?thesis by auto
qed

context services
begin

lemma registerOnline_existing:
  assumes "healthy (view w)" "x \<in> set (contents (rows (view w)) devices)" "dev_clientId x = c"
  shows "\<exists>d \<in> set (contents (rows (view w)) devices). dev_clientId d = c \<and>
    (\<forall>y \<in> set (contents (rows (view w)) devices). dev_clientId y = c \<longrightarrow> reuse_order d \<le> reuse_order y) \<and>
    fst (registerOnline E c t m w) = Inr () \<and>
    view (snd (registerOnline E c t m w)) = (view w)\<lparr>rows :=
      update_rows (on_table devices (\<lambda>x. dev_id x = dev_id d))
        (map_table devices (online_patch t m (now_ms E w) (dev_deletedAt d \<noteq> None))) (rows (view w))\<rparr>"
proof -
  let ?D = "contents (rows (view w)) devices"
  define w1 where "w1 = snd (select_from E devices (\<lambda>d. dev_clientId d = c) w)"
  define ds where "ds = projr (fst (select_from E devices (\<lambda>d. dev_clientId d = c) w))"
  note run = run_select [OF assms(1), of devices "\<lambda>d. dev_clientId d = c"]
  have v1: "view w1 = view w" using run(2) by (simp add: w1_def)
  have ds: "set ds = {d \<in> set ?D. dev_clientId d = c}"
    using arg_cong [OF run(3), of set_mset] by (simp add: ds_def)
  obtain d where d: "first (sort_key reuse_order ds) = Some d"
  proof (cases "first (sort_key reuse_order ds)")
    case None
    then have "ds = []" by (metis first_None_iff length_0_conv length_sort)
    then show ?thesis using ds assms(2,3) by auto
  qed
  have dD: "d \<in> set ?D" "dev_clientId d = c"
    and min: "\<forall>y \<in> set ?D. dev_clientId y = c \<longrightarrow> reuse_order d \<le> reuse_order y"
    using first_sort_key_min [OF d] ds by auto
  let ?f = "online_patch t m (now_ms E w) (dev_deletedAt d \<noteq> None)"
  have dead: "dev_deletedAt y \<noteq> None" if "dev_deletedAt d \<noteq> None" "y \<in> set ?D" "dev_clientId y = c" for y
    using min that by (auto simp: reuse_order_def less_eq_prod_def)
  have cf: "conflict_free (update_rows (on_table devices (\<lambda>x. dev_id x = dev_id d)) (map_table devices ?f) (rows (view w)))"
    using dead dD indexes [of w] assms(1) by (intro revive_conflict_free) auto
  have h1: "healthy (view w1)" using assms(1) by (simp add: v1)
  note up = run_update [OF h1 tables_ok(7), unfolded v1, OF cf]
  have step: "registerOnline E c t m w =
      ignore_rows (update_table E devices (\<lambda>x. dev_id x = dev_id d) ?f) w1"
    using run(1) d by (simp add: registerOnline_def Let_def bindM_eq ds_def w1_def)
  show ?thesis
    using dD min up(1,2) by (intro bexI [of _ d]) (simp_all add: step io_simps)
qed

lemma registerOnline_new:
  assumes "healthy (view w)" "\<forall>x \<in> set (contents (rows (view w)) devices). dev_clientId x \<noteq> c"
  shows "fst (registerOnline E c t m w) = Inr () \<and>
    (\<exists>i. view (snd (registerOnline E c t m w)) =
      (view w)\<lparr>rows := rows (view w) @ [Device (new_device c t m (now_ms E w) i)]\<rparr>)"
proof -
  define w1 where "w1 = snd (select_from E devices (\<lambda>d. dev_clientId d = c) w)"
  define ds where "ds = projr (fst (select_from E devices (\<lambda>d. dev_clientId d = c) w))"
  note run = run_select [OF assms(1), of devices "\<lambda>d. dev_clientId d = c"]
  have v1: "view w1 = view w" using run(2) by (simp add: w1_def)
  have "set ds = {}"
    using arg_cong [OF run(3), of set_mset] assms(2) by (auto simp: ds_def)
  then have ds: "ds = []" by simp
  let ?mk = "new_device c t m (now_ms E w)"
  have sel: "dev_id (?mk i) = i" "dev_clientId (?mk i) = c" for i
    by (simp_all add: new_device_def online_base_def)
  have step: "registerOnline E c t m w = ignore_rows (insert_into E devices ?mk) w1"
    using run(1) ds by (simp add: registerOnline_def Let_def bindM_eq ds_def w1_def)
  have h1: "healthy (view w1)" using assms(1) by (simp add: v1)
  obtain i where i: "fresh_id (rows (view w)) (Device (?mk i)) i"
    and ins: "if list_ex (conflicts (Device (?mk i))) (rows (view w))
      then fst (insert_into E devices ?mk w1) = Inl (PgError ''23505'') \<and>
           view (snd (insert_into E devices ?mk w1)) = view w1
      else fst (insert_into E devices ?mk w1) = Inr [?mk i] \<and>
           view (snd (insert_into E devices ?mk w1)) = (view w1)\<lparr>rows := rows (view w1) @ [Device (?mk i)]\<rparr>"
    using run_insert [OF h1, of devices ?mk] by (auto simp: v1)
  have "\<not> list_ex (conflicts (Device (?mk i))) (rows (view w))"
  proof
    assume "list_ex (conflicts (Device (?mk i))) (rows (view w))"
    then obtain x where x: "x \<in> set (rows (view w))" "conflicts (Device (?mk i)) x"
      by (auto simp: list_ex_iff)
    obtain q where q: "x = Device q" "device_conflict (?mk i) q"
      using x(2) by (cases x) (simp_all add: conflicts_def)
    have "q \<in> set (contents (rows (view w)) devices)" using x(1) q(1) by (simp add: in_contents)
    moreover from this have "dev_id q \<noteq> i"
      using i by (auto simp: fresh_id_def in_contents table_no_def row_id_def)
    ultimately show False using q(2) assms(2) by (auto simp: device_conflict_def sel)
  qed
  then show ?thesis using ins by (auto simp: step io_simps v1)
qed

end

section \<open>Properties\<close>

text \<open>
  a device that connects again gets its own row back.  If any row of the client exists, live
  or soft-deleted, no row is inserted: a live one is reused if there is one (else the newest
  deleted one, which is revived), it ends up online under the new token, keeps the platform the
  device does not report this time, and no other row changes.  Otherwise one row is inserted.
\<close>

theorem reconnect_reuses_row:
  assumes "services E view" "healthy (view w)"
  shows "fst (registerOnline E c t m w) = Inr () \<and>
    (if \<exists>x \<in> set (contents (rows (view w)) devices). dev_clientId x = c
     then \<exists>d \<in> set (contents (rows (view w)) devices). dev_clientId d = c \<and>
       ((\<exists>x \<in> set (contents (rows (view w)) devices). dev_clientId x = c \<and> dev_deletedAt x = None) \<longrightarrow>
          dev_deletedAt d = None) \<and>
       (\<exists>d'. dev_id d' = dev_id d \<and> dev_clientId d' = c \<and> dev_online d' \<and> dev_deletedAt d' = None \<and>
          dev_deviceTokenId d' = Some t \<and>
          (dm_platform m = None \<longrightarrow> dev_platform d' = dev_platform d) \<and>
          contents (rows (view (snd (registerOnline E c t m w)))) devices =
            map (\<lambda>x. if dev_id x = dev_id d then d' else x) (contents (rows (view w)) devices))
     else \<exists>d'. dev_clientId d' = c \<and> dev_online d' \<and> dev_deletedAt d' = None \<and>
       contents (rows (view (snd (registerOnline E c t m w)))) devices =
         contents (rows (view w)) devices @ [d'])"
proof (cases "\<exists>x \<in> set (contents (rows (view w)) devices). dev_clientId x = c")
  case True
  let ?D = "contents (rows (view w)) devices"
  obtain x where x: "x \<in> set ?D" "dev_clientId x = c" using True by blast
  obtain d where d: "d \<in> set ?D" "dev_clientId d = c"
    "\<forall>y \<in> set ?D. dev_clientId y = c \<longrightarrow> reuse_order d \<le> reuse_order y"
    and ok: "fst (registerOnline E c t m w) = Inr ()"
    and v: "view (snd (registerOnline E c t m w)) = (view w)\<lparr>rows :=
      update_rows (on_table devices (\<lambda>x. dev_id x = dev_id d))
        (map_table devices (online_patch t m (now_ms E w) (dev_deletedAt d \<noteq> None))) (rows (view w))\<rparr>"
    using services.registerOnline_existing [OF assms x, of t m] by blast
  let ?f = "online_patch t m (now_ms E w) (dev_deletedAt d \<noteq> None)"
  have cf: "conflict_free (rows (view w))"
    using services.indexes [OF assms(1), of w] assms(2) by simp
  have "contents (rows (view (snd (registerOnline E c t m w)))) devices =
      map (\<lambda>x. if dev_id x = dev_id d then ?f x else x) ?D"
    unfolding v using contents_update [OF tables_ok(7)] by (simp add: update_rows_def)
  also have "\<dots> = map (\<lambda>x. if dev_id x = dev_id d then ?f d else x) ?D"
    using device_ids_unique [OF cf _ d(1)] by (intro map_cong) auto
  finally have new: "contents (rows (view (snd (registerOnline E c t m w)))) devices =
      map (\<lambda>x. if dev_id x = dev_id d then ?f d else x) ?D" .
  have live: "(\<exists>x \<in> set ?D. dev_clientId x = c \<and> dev_deletedAt x = None) \<longrightarrow> dev_deletedAt d = None"
    using d(3) by (auto simp: reuse_order_def less_eq_prod_def)
  have same: "\<exists>d'. dev_id d' = dev_id d \<and> dev_clientId d' = c \<and> dev_online d' \<and> dev_deletedAt d' = None \<and>
      dev_deviceTokenId d' = Some t \<and> (dm_platform m = None \<longrightarrow> dev_platform d' = dev_platform d) \<and>
      contents (rows (view (snd (registerOnline E c t m w)))) devices =
        map (\<lambda>x. if dev_id x = dev_id d then d' else x) ?D"
    using new d(2) by (intro exI [of _ "?f d"]) simp
  show ?thesis unfolding if_P [OF True]
    by (intro conjI bexI [of _ d]) (fact ok d live same)+
next
  case False
  then have "\<forall>x \<in> set (contents (rows (view w)) devices). dev_clientId x \<noteq> c" by blast
  then obtain i where ok: "fst (registerOnline E c t m w) = Inr ()"
    and v: "view (snd (registerOnline E c t m w)) =
      (view w)\<lparr>rows := rows (view w) @ [Device (new_device c t m (now_ms E w) i)]\<rparr>"
    using services.registerOnline_new [OF assms, of c t m] by blast
  show ?thesis
    unfolding if_not_P [OF False] using ok
    by (intro conjI exI [of _ "new_device c t m (now_ms E w) i"])
      (simp_all add: v new_device_def online_base_def)
qed

theorem reconnect_reuses_row_witness:
  "fst (registerOnline sim_env ''c'' 4 \<lparr>dm_platform = None, dm_lastIp = None, dm_extra = None,
     dm_maxInFlight = None\<rparr> sim_start) = Inr ()"
  using reconnect_reuses_row [OF sim_services, of sim_start "''c''" 4] by simp

end
