(* ===== verification/Calendar.thy ===== *)
theory Calendar
  imports Js_Number
begin

text \<open>
  What the code uses of JavaScript's \<^verbatim>\<open>Date\<close>: the civil date of an instant (milliseconds since the
  epoch, UTC), \<^verbatim>\<open>toISOString\<close>, the reading of such a text by \<^verbatim>\<open>new Date(text)\<close>, and the month that
  \<^verbatim>\<open>to_char(now() AT TIME ZONE 'UTC', 'YYYY-MM')\<close> and \<^verbatim>\<open>toISOString().slice(0, 7)\<close> name.  Years are
  counted from March inside a 400-year era, so that the leap day ends the year.
\<close>

section \<open>Civil dates\<close>

definition DAY_MS :: int where
  "DAY_MS = 86400000"

text \<open>The year of the era and the day of that year, of a day of an era.\<close>

definition year_in_era :: "int \<Rightarrow> int \<times> int" where
  "year_in_era doe =
     (let c = min 3 (doe div 36524); r = doe - c * 36524;
          q = r div 1461; s = r - q * 1461;
          a = min 3 (s div 365) in
      (100 * c + 4 * q + a, s - a * 365))"

text \<open>Month (1..12) and day (1..31) of the day of a year that begins on the first of March.\<close>

definition month_day :: "int \<Rightarrow> int \<times> int" where
  "month_day doy =
     (let mp = (5 * doy + 2) div 153 in
      (if mp < 10 then mp + 3 else mp - 9, doy - (153 * mp + 2) div 5 + 1))"

definition civil_of_day :: "int \<Rightarrow> int \<times> int \<times> int" where
  "civil_of_day z =
     (let era = (z + 719468) div 146097; doe = (z + 719468) mod 146097 in
      case year_in_era doe of (yoe, doy) \<Rightarrow>
        (case month_day doy of (m, d) \<Rightarrow>
           (400 * era + yoe + (if m \<le> 2 then 1 else 0), m, d)))"

definition day_of_civil :: "int \<times> int \<times> int \<Rightarrow> int" where
  "day_of_civil c =
     (case c of (y, m, d) \<Rightarrow>
        let y' = (if m \<le> 2 then y - 1 else y); era = y' div 400; yoe = y' mod 400;
            doy = (153 * (if 2 < m then m - 3 else m + 9) + 2) div 5 + d - 1 in
        146097 * era + 365 * yoe + yoe div 4 - yoe div 100 + doy - 719468)"

text \<open>The number of the month of an instant, since year zero.\<close>

definition month_of :: "int \<Rightarrow> int" where
  "month_of t = (case civil_of_day (t div DAY_MS) of (y, m, d) \<Rightarrow> 12 * y + m - 1)"

section \<open>ISO texts\<close>

primrec pad :: "nat \<Rightarrow> int \<Rightarrow> string" where
  "pad 0 n = []"
| "pad (Suc k) n = pad k (n div 10) @ [digit_char (nat (n mod 10))]"

definition iso_year :: "int \<Rightarrow> string" where
  "iso_year y =
     (if 0 \<le> y \<and> y \<le> 9999 then pad 4 y
      else if y < 0 then CHR ''-'' # pad 6 (- y) else CHR ''+'' # pad 6 y)"

definition iso_instant :: "int \<Rightarrow> string" where
  "iso_instant t =
     (let ms = t mod DAY_MS in
      case civil_of_day (t div DAY_MS) of (y, m, d) \<Rightarrow>
        iso_year y @ ''-'' @ pad 2 m @ ''-'' @ pad 2 d @ ''T'' @
        pad 2 (ms div 3600000) @ '':'' @ pad 2 (ms div 60000 mod 60) @ '':'' @
        pad 2 (ms div 1000 mod 60) @ ''.'' @ pad 3 (ms mod 1000) @ ''Z'')"

text \<open>
  Reading a text of that form back.  Other forms \<^verbatim>\<open>new Date\<close> may accept are not read; every text
  the backend reads was written by \<^verbatim>\<open>toISOString\<close>.
\<close>

definition read_digits :: "nat \<Rightarrow> string \<Rightarrow> (int \<times> string) option" where
  "read_digits k s =
     map_option (\<lambda>n. (int n, drop k s)) (if k \<le> length s then parse_nat (take k s) else None)"

definition read_char :: "char \<Rightarrow> string \<Rightarrow> string option" where
  "read_char c s = (case s of [] \<Rightarrow> None | d # r \<Rightarrow> if d = c then Some r else None)"

definition read_year :: "string \<Rightarrow> (int \<times> string) option" where
  "read_year s =
     (case s of
        [] \<Rightarrow> None
      | c # r \<Rightarrow>
          if c = CHR ''+'' then read_digits 6 r
          else if c = CHR ''-'' then
            (case read_digits 6 r of
               None \<Rightarrow> None | Some (y, r') \<Rightarrow> if y = 0 then None else Some (- y, r'))
          else read_digits 4 s)"

definition read_number_then :: "nat \<Rightarrow> char \<Rightarrow> string \<Rightarrow> (int \<times> string) option" where
  "read_number_then k c s =
     (case read_digits k s of
        None \<Rightarrow> None
      | Some (n, r) \<Rightarrow> map_option (Pair n) (read_char c r))"

text \<open>The time of day, in milliseconds, from \<^verbatim>\<open>HH:MM:SS.mmmZ\<close>.\<close>

definition read_time :: "string \<Rightarrow> int option" where
  "read_time s =
     (case read_number_then 2 (CHR '':'') s of None \<Rightarrow> None | Some (h, s) \<Rightarrow>
     (case read_number_then 2 (CHR '':'') s of None \<Rightarrow> None | Some (mi, s) \<Rightarrow>
     (case read_number_then 2 (CHR ''.'') s of None \<Rightarrow> None | Some (sec, s) \<Rightarrow>
     (case read_number_then 3 (CHR ''Z'') s of None \<Rightarrow> None | Some (ms, s) \<Rightarrow>
        if s = [] \<and> h < 24 \<and> mi < 60 \<and> sec < 60
        then Some (3600000 * h + 60000 * mi + 1000 * sec + ms) else None))))"

definition parse_instant :: "string \<Rightarrow> int option" where
  "parse_instant s =
     (case read_year s of None \<Rightarrow> None | Some (y, s) \<Rightarrow>
     (case read_char (CHR ''-'') s of None \<Rightarrow> None | Some s \<Rightarrow>
     (case read_number_then 2 (CHR ''-'') s of None \<Rightarrow> None | Some (m, s) \<Rightarrow>
     (case read_number_then 2 (CHR ''T'') s of None \<Rightarrow> None | Some (d, s) \<Rightarrow>
        if 1 \<le> m \<and> m \<le> 12 \<and> 1 \<le> d \<and> d \<le> 31
        then map_option (\<lambda>ms. DAY_MS * day_of_civil (y, m, d) + ms) (read_time s)
        else None))))"

section \<open>Civil dates and back\<close>

lemma year_in_era_spec:
  assumes "0 \<le> doe" "doe < 146097" "year_in_era doe = (yoe, doy)"
  shows "0 \<le> yoe" "yoe < 400" "0 \<le> doy" "doy < 366"
    "doe = 365 * yoe + yoe div 4 - yoe div 100 + doy"
proof -
  define c where "c = min 3 (doe div 36524)"
  define r where "r = doe - c * 36524"
  define q where "q = r div 1461"
  define s where "s = r - q * 1461"
  define a where "a = min 3 (s div 365)"
  have y: "yoe = 100 * c + 4 * q + a" "doy = s - a * 365"
    using assms(3) by (simp_all add: year_in_era_def Let_def c_def r_def q_def s_def a_def)
  have c: "0 \<le> c" "c \<le> 3" and r: "0 \<le> r" "r \<le> 36524"
    using assms(1,2) unfolding c_def r_def by (auto simp: min_def)
  have q: "0 \<le> q" "q \<le> 24" and s: "0 \<le> s" "s < 1461"
    using r unfolding q_def s_def by auto
  have a: "0 \<le> a" "a \<le> 3" and d: "0 \<le> s - a * 365" "s - a * 365 \<le> 365"
    using s unfolding a_def by (auto simp: min_def)
  have "yoe div 4 = 25 * c + q" "yoe div 100 = c"
    using a c q by (simp_all add: y)
  moreover have "doe = 36524 * c + 1461 * q + s" by (simp add: r_def s_def)
  ultimately show "doe = 365 * yoe + yoe div 4 - yoe div 100 + doy" by (simp add: y)
  show "0 \<le> yoe" "yoe < 400" "0 \<le> doy" "doy < 366"
    using a c q d by (simp_all add: y)
qed

lemma month_day_spec:
  assumes "0 \<le> doy" "doy < 366" "month_day doy = (m, d)"
  shows "1 \<le> m" "m \<le> 12" "1 \<le> d" "d \<le> 31"
    "doy = (153 * (if 2 < m then m - 3 else m + 9) + 2) div 5 + d - 1"
proof -
  define mp where "mp = (5 * doy + 2) div 153"
  have mp: "0 \<le> mp" "mp \<le> 11" using assms(1,2) unfolding mp_def by auto
  have m: "m = (if mp < 10 then mp + 3 else mp - 9)" and d: "d = doy - (153 * mp + 2) div 5 + 1"
    using assms(3) by (auto simp: month_day_def Let_def mp_def)
  show "1 \<le> m" "m \<le> 12" using mp by (auto simp: m)
  have "(if 2 < m then m - 3 else m + 9) = mp" using mp by (auto simp: m)
  then show "doy = (153 * (if 2 < m then m - 3 else m + 9) + 2) div 5 + d - 1" by (simp add: d)
  have low: "153 * mp \<le> 5 * doy + 2" and high: "5 * doy + 2 < 153 * mp + 153"
    unfolding mp_def by auto
  show "1 \<le> d" using low by (simp add: d) 
  show "d \<le> 31" using high by (simp add: d)
qed

lemma civil_of_day_spec:
  assumes "civil_of_day z = (y, m, d)"
  shows "1 \<le> m" "m \<le> 12" "1 \<le> d" "d \<le> 31" "day_of_civil (y, m, d) = z"
proof -
  define era where "era = (z + 719468) div 146097"
  define doe where "doe = (z + 719468) mod 146097"
  obtain yoe doy where yd: "year_in_era doe = (yoe, doy)" by (cases "year_in_era doe")
  have doe: "0 \<le> doe" "doe < 146097" by (simp_all add: doe_def)
  note ye = year_in_era_spec [OF doe yd]
  obtain m' d' where md: "month_day doy = (m', d')" by (cases "month_day doy")
  note ms = month_day_spec [OF ye(3,4) md]
  have eqs: "m = m'" "d = d'" "y = 400 * era + yoe + (if m' \<le> 2 then 1 else 0)"
    using assms by (auto simp: civil_of_day_def Let_def yd md simp flip: era_def doe_def)
  show "1 \<le> m" "m \<le> 12" "1 \<le> d" "d \<le> 31" using ms by (simp_all add: eqs)
  let ?y = "if m \<le> 2 then y - 1 else y"
  have y': "?y = 400 * era + yoe" by (simp add: eqs)
  have parts: "?y div 400 = era" "?y mod 400 = yoe" using ye(1,2) by (simp_all add: y')
  have "146097 * era + doe = z + 719468" by (simp add: era_def doe_def)
  then show "day_of_civil (y, m, d) = z"
    unfolding day_of_civil_def Let_def prod.case parts
    using ye(5) ms(5) unfolding eqs(1,2) by linarith
qed

section \<open>Texts and back\<close>

lemma pad_length [simp]: "length (pad k n) = k"
  by (induction k arbitrary: n) simp_all

lemma pad_digits: "list_all is_digit (pad k n)"
  by (induction k arbitrary: n) (simp_all add: digit_char_is_digit nat_less_iff)

lemma digits_value_pad: "0 \<le> n \<Longrightarrow> n < 10 ^ k \<Longrightarrow> digits_value (pad k n) = nat n"
proof (induction k arbitrary: n)
  case 0
  then show ?case by (simp add: digits_value_def)
next
  case (Suc k)
  have "n div 10 < 10 ^ k" using Suc.prems by (simp add: div_less_iff_less_mult)
  then have "digits_value (pad k (n div 10)) = nat (n div 10)"
    using Suc by simp
  moreover have "nat n = 10 * nat (n div 10) + nat (n mod 10)"
    using Suc.prems(1) by (simp add: nat_div_distrib nat_mod_distrib)
  ultimately show ?case
    by (simp add: digits_value_snoc digit_char_value nat_less_iff)
qed

lemma read_digits_pad [simp]:
  "0 \<le> n \<Longrightarrow> n < 10 ^ k \<Longrightarrow> 0 < k \<Longrightarrow> read_digits k (pad k n @ r) = Some (n, r)"
  using pad_length [of k n]
  by (auto simp: read_digits_def parse_nat_def pad_digits digits_value_pad simp del: pad_length)

lemma read_number_then_pad [simp]:
  "0 \<le> n \<Longrightarrow> n < 10 ^ k \<Longrightarrow> 0 < k \<Longrightarrow> read_number_then k c (pad k n @ c # r) = Some (n, r)"
  by (simp add: read_number_then_def read_char_def)

lemma read_year_iso:
  assumes "0 \<le> y" "y \<le> 9999"
  shows "read_year (iso_year y @ r) = Some (y, r)"
proof -
  obtain c cs where c: "pad 4 y = c # cs" using pad_length [of 4 y] by (cases "pad 4 y") auto
  then have "is_digit c" using pad_digits [of 4 y] by simp
  then have "c \<noteq> CHR ''+''" "c \<noteq> CHR ''-''" by (auto simp: is_digit_def)
  moreover have "read_digits 4 (pad 4 y @ r) = Some (y, r)" using assms by simp
  ultimately show ?thesis using assms by (simp add: iso_year_def read_year_def c)
qed

lemma read_time_parts:
  assumes "0 \<le> h" "h < 24" "0 \<le> mi" "mi < 60" "0 \<le> sec" "sec < 60" "0 \<le> ms" "ms < 1000"
  shows "read_time (pad 2 h @ '':'' @ pad 2 mi @ '':'' @ pad 2 sec @ ''.'' @ pad 3 ms @ ''Z'') =
    Some (3600000 * h + 60000 * mi + 1000 * sec + ms)"
  using assms by (simp add: read_time_def)

lemma read_time_iso:
  assumes "0 \<le> ms" "ms < DAY_MS"
  shows "read_time (pad 2 (ms div 3600000) @ '':'' @ pad 2 (ms div 60000 mod 60) @ '':'' @
    pad 2 (ms div 1000 mod 60) @ ''.'' @ pad 3 (ms mod 1000) @ ''Z'') = Some ms"
proof -
  have h: "0 \<le> ms div 3600000" "ms div 3600000 < 24" using assms by (auto simp: DAY_MS_def)
  have sums: "3600000 * (ms div 3600000) + 60000 * (ms div 60000 mod 60) + 1000 * (ms div 1000 mod 60) +
      ms mod 1000 = ms"
  proof -
    have parts: "ms div 60000 = ms div 1000 div 60" "ms div 3600000 = ms div 60000 div 60"
      using zdiv_zmult2_eq [of 60 ms 1000] zdiv_zmult2_eq [of 60 ms 60000] by simp_all
    have sum: "3600000 * c + 60000 * r + 1000 * q + p = ms"
      if "1000 * a + p = ms" "60 * b + q = a" "60 * c + r = b" for a b c p q r :: int
      using that by simp
    show ?thesis
      unfolding parts by (rule sum [OF mult_div_mod_eq mult_div_mod_eq mult_div_mod_eq])
  qed
  show ?thesis by (subst read_time_parts) (simp_all only: sums h pos_mod_sign pos_mod_bound zero_less_numeral)
qed

text \<open>
  Reading back the text of an instant, for the years that are written with four digits.
\<close>

lemma parse_instant_iso:
  assumes "civil_of_day (t div DAY_MS) = (y, m, d)" "0 \<le> y" "y \<le> 9999"
  shows "parse_instant (iso_instant t) = Some t"
proof -
  note spec = civil_of_day_spec [OF assms(1)]
  have ms: "0 \<le> t mod DAY_MS" "t mod DAY_MS < DAY_MS" by (simp_all add: DAY_MS_def)
  have "DAY_MS * (t div DAY_MS) + t mod DAY_MS = t" by simp
  then show ?thesis
    using spec read_time_iso [OF ms] read_year_iso [OF assms(2,3)]
    by (simp add: parse_instant_def iso_instant_def Let_def assms(1) read_char_def)
qed

end
