(* ===== verification/Access_Token.thy ===== *)
theory Access_Token
  imports Projects Cache_Aside Calendar
begin

text \<open>
  \<^verbatim>\<open>application/access-token/access-token.service.ts\<close>: the tokens callers invoke devices with.
  Their life (create, change of policy and scope, revocation, deletion), the atomic consumption
  of the call quota on the hot path, and the monthly counter the worker keeps.  Every write drops
  the cached copy of the token, by its digest.  The parts the device tokens share (the choice of
  function groups, the paged list over a snapshot) come first.
\<close>

section \<open>Shared by both kinds of tokens\<close>

record token_query =
  tq_id :: "nat option"
  tq_name :: "string option"
  tq_project :: "string option"
  tq_status :: "string option"
  tq_page :: "int option"
  tq_pageSize :: "int option"

text \<open>\<^verbatim>\<open>paginate\<close> with a condition that looks at other tables too.\<close>

definition paginate_joined ::
  "'w env \<Rightarrow> (row list \<Rightarrow> 'a list) \<Rightarrow> int option \<Rightarrow> int option \<Rightarrow>
   (int \<Rightarrow> int \<Rightarrow> ('w, 'r list) io) \<Rightarrow> ('w, 'r paginated) io" where
  "paginate_joined E selected page pageSize fetchRows =
     (let b = pageBounds page pageSize in
      bindM (db_query E (\<lambda>rs. length (selected rs))) (\<lambda>counted.
      bindM (fetchRows (bd_pageSize b) (bd_offset b)) (\<lambda>rs.
        returnM \<lparr>pg_rows = rs, pg_page = bd_page b, pg_pageSize = bd_pageSize b,
                 pg_total = int counted\<rparr>)))"

primrec resolve_ids :: "'w env \<Rightarrow> string list \<Rightarrow> ('w, nat list) io" where
  "resolve_ids E [] = returnM []"
| "resolve_ids E (n # ns) =
     bindM (idByName E n) (\<lambda>i. case i of
         None \<Rightarrow> throwM (Http 400 (MProjectNotFound n))
       | Some p \<Rightarrow> bindM (resolve_ids E ns) (\<lambda>ps. returnM (p # ps)))"

definition resolveProjectSelection :: "'w env \<Rightarrow> string list \<Rightarrow> ('w, string list \<times> nat list) io" where
  "resolveProjectSelection E projectsInput =
     (if unique projectsInput = [] then throwM (Http 400 MProjectsRequired)
      else bindM (resolve_ids E (unique projectsInput))
             (\<lambda>ids. returnM (unique projectsInput, ids)))"

text \<open>\<^verbatim>\<open>const [row] = rows\<close>, used as a row: reading a property of \<^verbatim>\<open>undefined\<close> throws.\<close>

definition the_first :: "'a list \<Rightarrow> ('w, 'a) io" where
  "the_first xs = (case first xs of None \<Rightarrow> throwM (TypeErr (MText ''undefined'')) | Some x \<Rightarrow> returnM x)"

definition the_first_or :: "exn \<Rightarrow> 'a list \<Rightarrow> ('w, 'a) io" where
  "the_first_or e xs = (case first xs of None \<Rightarrow> throwM e | Some x \<Rightarrow> returnM x)"

section \<open>Months\<close>

definition currentUsagePeriodKey :: "'w env \<Rightarrow> 'w \<Rightarrow> int" where
  "currentUsagePeriodKey E w = month_of (now_ms E w)"

text \<open>\<^verbatim>\<open>CURRENT_USAGE_PERIOD\<close>, the database's own month.\<close>

definition CURRENT_USAGE_PERIOD :: "'w env \<Rightarrow> 'w \<Rightarrow> int" where
  "CURRENT_USAGE_PERIOD E w = month_of (pg_now E w)"

definition currentMonthlyUsage :: "int \<Rightarrow> access_token_row \<Rightarrow> nat" where
  "currentMonthlyUsage month r = (if act_usagePeriod r = Some month then act_monthlyUsageCount r else 0)"

section \<open>Creation and change\<close>

record access_token_input =
  ai_name :: string
  ai_projects :: "string list"
  ai_expiresAt :: "int option"
  ai_maximumUsageCount :: "nat option"
  ai_description :: "string option"
  ai_createdBy :: "nat option"

definition new_access_token :: "access_token_input \<Rightarrow> string \<Rightarrow> int \<Rightarrow> nat \<Rightarrow> access_token_row" where
  "new_access_token input token now i =
     \<lparr>act_id = i, act_name = ai_name input, act_token = token, act_status = ''active'',
      act_expiresAt = ai_expiresAt input, act_maximumUsageCount = ai_maximumUsageCount input,
      act_usageCount = 0, act_monthlyUsageCount = 0, act_usagePeriod = None,
      act_description = ai_description input, act_createdBy = ai_createdBy input,
      act_createdAt = now, act_deletedAt = None\<rparr>"

definition token_project :: "nat \<Rightarrow> nat \<Rightarrow> token_project_row" where
  "token_project tokenId projectId =
     \<lparr>tp_tokenId = tokenId, tp_projectId = projectId, tp_description = None\<rparr>"

definition create_access_token ::
  "'w env \<Rightarrow> access_token_input \<Rightarrow> ('w, access_token_row \<times> string list) io" where
  "create_access_token E input =
     bindM (resolveProjectSelection E (ai_projects input)) (\<lambda>(projectNames, projectIds).
     bindM (random_token E) (\<lambda>rnd.
     bindM (transaction E
       (\<lambda>w. bindM (bindM (insert_into E accessTokens
                            (new_access_token input (''rk_'' @ rnd) (pg_now E w))) the_first)
          (\<lambda>tokenRow. thenM
             (forM projectIds (\<lambda>p. insert_into E accessTokenProjects
                (\<lambda>_. token_project (act_id tokenRow) p)))
             (returnM tokenRow)) w))
       (\<lambda>result. returnM (result\<lparr>act_token := ''rk_'' @ rnd\<rparr>, projectNames))))"

text \<open>
  A property of the input is absent (\<open>None\<close>), null (\<open>Some None\<close>) or a value; drizzle leaves
  a column alone whose value is \<^verbatim>\<open>undefined\<close>.
\<close>

record access_token_update =
  au_projects :: "string list option"
  au_expiresAt :: "int option option"
  au_maximumUsageCount :: "nat option option"

definition alive_access_token :: "nat \<Rightarrow> access_token_row \<Rightarrow> bool" where
  "alive_access_token i = alive act_deletedAt [\<lambda>r. act_id r = i]"

definition set_policy :: "access_token_update \<Rightarrow> access_token_row \<Rightarrow> access_token_row" where
  "set_policy input r =
     (let r1 = (case au_expiresAt input of None \<Rightarrow> r | Some t \<Rightarrow> r\<lparr>act_expiresAt := t\<rparr>) in
      case au_maximumUsageCount input of None \<Rightarrow> r1 | Some n \<Rightarrow> r1\<lparr>act_maximumUsageCount := n\<rparr>)"

definition updatePolicyInTransaction ::
  "'w env \<Rightarrow> nat \<Rightarrow> access_token_update \<Rightarrow> ('w, access_token_row) io" where
  "updatePolicyInTransaction E i input =
     bindM (update_table E accessTokens (alive_access_token i) (set_policy input))
       (the_first_or (Http 404 MTokenAbsent))"

text \<open>drizzle refuses an empty list of values; \<^verbatim>\<open>resolveProjectSelection\<close> never gives one.\<close>

definition insert_projects :: "'w env \<Rightarrow> token_project_row table \<Rightarrow> nat \<Rightarrow> nat list \<Rightarrow> ('w, unit) io" where
  "insert_projects E T i projectIds =
     (if projectIds = [] then throwM (TypeErr (MText ''values() must be called with at least one value''))
      else thenM (db_insert_all E (map (\<lambda>p. emb T (token_project i p)) projectIds)) (returnM ()))"

definition replaceProjectsInTransaction :: "'w env \<Rightarrow> nat \<Rightarrow> nat list \<Rightarrow> ('w, unit) io" where
  "replaceProjectsInTransaction E i projectIds =
     thenM (delete_from E accessTokenProjects (\<lambda>tp. tp_tokenId tp = i))
       (insert_projects E accessTokenProjects i projectIds)"

definition projectNamesOf :: "'w env \<Rightarrow> nat \<Rightarrow> ('w, string list) io" where
  "projectNamesOf E i =
     db_query E (\<lambda>rs. [prj_name p. (tp, p) \<leftarrow> live_relations rs accessTokenProjects, tp_tokenId tp = i])"

definition access_key :: "'w env \<Rightarrow> access_token_row \<Rightarrow> string list" where
  "access_key E r = [accessTokenCacheKey E (act_token r)]"

definition update_access_token ::
  "'w env \<Rightarrow> nat \<Rightarrow> access_token_update \<Rightarrow> ('w, access_token_row \<times> string list) io" where
  "update_access_token E i input =
     bindM (case au_projects input of
              None \<Rightarrow> returnM None
            | Some ps \<Rightarrow> bindM (resolveProjectSelection E ps) (\<lambda>s. returnM (Some s)))
       (\<lambda>selection.
          let updatesPolicy = (au_expiresAt input \<noteq> None \<or> au_maximumUsageCount input \<noteq> None) in
          if selection = None \<and> \<not> updatesPolicy then throwM (Http 400 MNothingToUpdate)
          else
            bindM (writeAndInvalidate E
              (transaction E
                (bindM (bindM (select_from E accessTokens (alive_access_token i))
                          (the_first_or (Http 404 MTokenAbsent)))
                   (\<lambda>existing.
                      bindM (if updatesPolicy then updatePolicyInTransaction E i input
                             else returnM existing)
                        (\<lambda>updated. thenM
                           (case selection of
                              None \<Rightarrow> returnM ()
                            | Some (_, ids) \<Rightarrow> replaceProjectsInTransaction E i ids)
                           (returnM updated)))))
              (access_key E))
            (\<lambda>record.
               bindM (case selection of Some (names, _) \<Rightarrow> returnM names | None \<Rightarrow> projectNamesOf E i)
                 (\<lambda>names. returnM (record, names))))"

definition update_access_token_projects ::
  "'w env \<Rightarrow> nat \<Rightarrow> string list \<Rightarrow> ('w, access_token_row \<times> string list) io" where
  "update_access_token_projects E i ps =
     update_access_token E i \<lparr>au_projects = Some ps, au_expiresAt = None, au_maximumUsageCount = None\<rparr>"

section \<open>The list\<close>

definition access_token_conditions :: "row list \<Rightarrow> token_query \<Rightarrow> (access_token_row \<Rightarrow> bool) list" where
  "access_token_conditions rs q =
     compactConditions
       [eqIf never_blank (\<lambda>r. Some (act_id r)) (tq_id q),
        likeIf (\<lambda>r. Some (act_name r)) (tq_name q),
        eqIf blank_string (\<lambda>r. Some (act_status r)) (tq_status q),
        (case tq_project q of
           None \<Rightarrow> None
         | Some p \<Rightarrow>
             if p = [] then None
             else Some (\<lambda>r. hasProjectNameMatch rs accessTokenProjects (act_id r) p))]"

definition selected_access_tokens :: "token_query \<Rightarrow> row list \<Rightarrow> access_token_row list" where
  "selected_access_tokens q rs =
     filter (alive act_deletedAt (access_token_conditions rs q)) (contents rs accessTokens)"

definition list_access_tokens ::
  "'w env \<Rightarrow> token_query \<Rightarrow> ('w, (access_token_row \<times> string list) paginated) io" where
  "list_access_tokens E q =
     paginate_joined E (selected_access_tokens q) (tq_page q) (tq_pageSize q)
       (\<lambda>limit offset.
          bindM (db_query E (\<lambda>rs. limit_offset limit offset
                   (sort_key (\<lambda>r. - int (act_id r)) (selected_access_tokens q rs))))
            (\<lambda>records.
               bindM (namesByTokenIds E accessTokenProjects (map act_id records)) (\<lambda>names w.
                 returnM
                   (map (\<lambda>r. (r\<lparr>act_monthlyUsageCount := currentMonthlyUsage (currentUsagePeriodKey E w) r\<rparr>,
                              or_default [] (map_of names (act_id r)))) records) w)))"

section \<open>Revocation, deletion, counters\<close>

definition revoke_access_token :: "'w env \<Rightarrow> nat \<Rightarrow> ('w, access_token_row) io" where
  "revoke_access_token E i =
     writeAndInvalidate E
       (bindM (update_table E accessTokens (\<lambda>r. act_id r = i) (\<lambda>r. r\<lparr>act_status := ''revoked''\<rparr>))
          (the_first_or (Http 404 MTokenAbsent)))
       (access_key E)"

definition set_access_token_deleted :: "int option \<Rightarrow> access_token_row \<Rightarrow> access_token_row" where
  "set_access_token_deleted t r = r\<lparr>act_deletedAt := t\<rparr>"

definition delete_access_token :: "'w env \<Rightarrow> nat \<Rightarrow> ('w, bool) io" where
  "delete_access_token E i =
     thenM
       (writeAndInvalidate E
          (bindM (softDelete E accessTokens act_deletedAt set_access_token_deleted (\<lambda>r. act_id r = i))
             (the_first_or (Http 404 MTokenAbsent)))
          (access_key E))
       (returnM True)"

text \<open>What \<^verbatim>\<open>findByToken\<close> gives; an instant loaded from the cache is still a text.\<close>

datatype expiry = EDate int | EText string

record access_snapshot =
  ts_id :: int
  ts_name :: string
  ts_status :: string
  ts_expiresAt :: "expiry option"
  ts_maximumUsageCount :: "int option"
  ts_usageCount :: int
  ts_projectIds :: "int list"

definition access_snapshot_of :: "access_token_row \<Rightarrow> nat list \<Rightarrow> access_snapshot" where
  "access_snapshot_of r ids =
     \<lparr>ts_id = int (act_id r), ts_name = act_name r, ts_status = act_status r,
      ts_expiresAt = map_option EDate (act_expiresAt r),
      ts_maximumUsageCount = map_option int (act_maximumUsageCount r),
      ts_usageCount = int (act_usageCount r), ts_projectIds = map int ids\<rparr>"

definition findByToken :: "'w env \<Rightarrow> string \<Rightarrow> ('w, access_snapshot option) io" where
  "findByToken E token =
     bindM (select_from E accessTokens (alive act_deletedAt [\<lambda>r. act_token r = token])) (\<lambda>rs.
       case first rs of
         None \<Rightarrow> returnM None
       | Some r \<Rightarrow>
           bindM (select_from E accessTokenProjects (\<lambda>tp. tp_tokenId tp = act_id r))
             (\<lambda>tps. returnM (Some (access_snapshot_of r (map tp_projectId tps)))))"

text \<open>The two comparisons with the expiry are made by the database's clock and by the backend's.\<close>

definition consumable :: "int \<Rightarrow> nat \<Rightarrow> access_token_row \<Rightarrow> bool" where
  "consumable now i =
     alive act_deletedAt
       [\<lambda>r. act_id r = i, \<lambda>r. act_status r = ''active'',
        \<lambda>r. case act_maximumUsageCount r of None \<Rightarrow> True | Some m \<Rightarrow> act_usageCount r < m,
        \<lambda>r. case act_expiresAt r of None \<Rightarrow> True | Some t \<Rightarrow> now < t]"

definition count_use :: "access_token_row \<Rightarrow> access_token_row" where
  "count_use r =
     r\<lparr>act_usageCount := (if act_maximumUsageCount r \<noteq> None then act_usageCount r + 1 else act_usageCount r)\<rparr>"

definition resolveUnconsumedToken :: "'w env \<Rightarrow> nat \<Rightarrow> ('w, access_token_row) io" where
  "resolveUnconsumedToken E i =
     bindM (select_from E accessTokens (alive_access_token i)) (\<lambda>rs w.
       (case first rs of
          None \<Rightarrow> throwM (Http 401 MTokenInvalid)
        | Some r \<Rightarrow>
            if act_status r \<noteq> ''active'' then throwM (Http 403 MTokenDisabled)
            else if (case act_expiresAt r of None \<Rightarrow> False | Some t \<Rightarrow> t < now_ms E w)
            then throwM (Http 401 MTokenExpired)
            else if (case act_maximumUsageCount r of None \<Rightarrow> False | Some m \<Rightarrow> m \<le> act_usageCount r)
            then throwM (Http 429 MTokenExhausted)
            else returnM r) w)"

definition consume_write :: "'w env \<Rightarrow> nat \<Rightarrow> ('w, access_token_row) io" where
  "consume_write E i w0 =
     bindM (update_table E accessTokens (consumable (pg_now E w0) i) count_use) (\<lambda>rs.
       case first rs of Some r \<Rightarrow> returnM r | None \<Rightarrow> resolveUnconsumedToken E i) w0"

definition consumeInvocation :: "'w env \<Rightarrow> nat \<Rightarrow> ('w, nat option) io" where
  "consumeInvocation E i =
     bindM (writeAndInvalidate E (consume_write E i) (access_key E))
       (\<lambda>r. returnM (if act_maximumUsageCount r = None then None else Some (act_usageCount r)))"

definition count_month :: "int \<Rightarrow> access_token_row \<Rightarrow> access_token_row" where
  "count_month month r =
     r\<lparr>act_monthlyUsageCount :=
         (if act_usagePeriod r = Some month then act_monthlyUsageCount r + 1 else 1),
       act_usagePeriod := Some month\<rparr>"

definition recordMonthlyUsage :: "'w env \<Rightarrow> nat \<Rightarrow> ('w, unit) io" where
  "recordMonthlyUsage E i w0 =
     thenM (update_table E accessTokens (alive_access_token i) (count_month (CURRENT_USAGE_PERIOD E w0)))
       (returnM ()) w0"

definition clear_usage :: "int \<Rightarrow> access_token_row \<Rightarrow> access_token_row" where
  "clear_usage month r =
     r\<lparr>act_usageCount := 0, act_monthlyUsageCount := 0, act_usagePeriod := Some month\<rparr>"

definition resetUsage :: "'w env \<Rightarrow> nat \<Rightarrow> ('w, nat \<times> nat) io" where
  "resetUsage E i w0 =
     bindM (writeAndInvalidate E
              (bindM (update_table E accessTokens (alive_access_token i)
                        (clear_usage (CURRENT_USAGE_PERIOD E w0)))
                 (the_first_or (Http 404 MTokenAbsent)))
              (access_key E))
       (\<lambda>r. returnM (act_usageCount r, act_monthlyUsageCount r)) w0"

section \<open>Rows with a unique id\<close>

lemma conflicts_refl [simp]: "conflicts r r"
  by (cases r) (simp_all add: conflicts_def conflict_defs)

lemma conflict_free_distinct: "conflict_free rs \<Longrightarrow> distinct rs"
proof (induction rs)
  case (Cons r rs)
  then have "\<forall>s \<in> set rs. \<not> conflicts r s" "conflict_free rs" by simp_all
  then show ?case using Cons.IH conflicts_refl [of r] by auto
qed simp

lemma contents_distinct:
  assumes "table_ok T" "distinct rs"
  shows "distinct (contents rs T)"
  using assms
proof (induction rs)
  case (Cons r rs)
  show ?case
  proof (cases "prj T r")
    case None
    then show ?thesis using Cons by simp
  next
    case (Some x)
    then have "r = emb T x" using Cons.prems(1) by (auto simp: table_ok_def)
    then have "x \<notin> set (contents rs T)"
      using Cons.prems in_contents [of T x rs] by simp
    then show ?thesis using Cons Some by simp
  qed
qed simp

lemma filter_eq_single: "distinct xs \<Longrightarrow> r \<in> set xs \<Longrightarrow> filter ((=) r) xs = [r]"
  by (induction xs) (auto simp: filter_empty_conv)

lemma filter_single:
  assumes "distinct xs" "r \<in> set xs" "P r" "\<forall>x \<in> set xs. P x \<longrightarrow> x = r"
  shows "filter P xs = [r]"
proof -
  have "filter P xs = filter ((=) r) xs"
    by (rule filter_cong [OF refl]) (use assms(3,4) in blast)
  then show ?thesis using filter_eq_single [OF assms(1,2)] by simp
qed

lemma filter_mset_list: "filter P xs = ys \<Longrightarrow> filter_mset P (mset xs) = mset ys"
  by (metis mset_filter)

lemma reply_single: "\<not> isl x \<Longrightarrow> mset (projr x) = {#r#} \<Longrightarrow> x = Inr [r]"
  by (cases x) auto

lemma reply_none: "\<not> isl x \<Longrightarrow> mset (projr x) = {#} \<Longrightarrow> x = Inr []"
  by (cases x) auto

context services
begin

text \<open>An update that hits one known row, and keeps the unique indexes.\<close>

lemma update_single_row:
  assumes "healthy (view w)" "table_ok T"
    and "r \<in> set (contents (rows (view w)) T)" "P r" "\<forall>x \<in> set (contents (rows (view w)) T). P x \<longrightarrow> x = r"
    and "conflict_free (update_rows (on_table T P) (map_table T f) (rows (view w)))"
  shows "fst (update_table E T P f w) = Inr [f r]"
    and "view (snd (update_table E T P f w)) =
      (view w)\<lparr>rows := update_rows (on_table T P) (map_table T f) (rows (view w))\<rparr>"
    and "contents (rows (view (snd (update_table E T P f w)))) T =
      map (\<lambda>x. if x = r then f r else x) (contents (rows (view w)) T)"
proof -
  note run = run_update [OF assms(1,2,6)]
  have "distinct (contents (rows (view w)) T)"
    using indexes [of w] assms(1,2) by (intro contents_distinct conflict_free_distinct) simp_all
  from filter_mset_list [OF filter_single [OF this assms(3-5)]]
  have "mset (projr (fst (update_table E T P f w))) = {#f r#}"
    unfolding run(3) by simp
  then show "fst (update_table E T P f w) = Inr [f r]"
    by (rule reply_single [OF run(1)])
  show v: "view (snd (update_table E T P f w)) =
      (view w)\<lparr>rows := update_rows (on_table T P) (map_table T f) (rows (view w))\<rparr>"
    by (rule run(2))
  have "map (\<lambda>x. if P x then f x else x) (contents (rows (view w)) T) =
      map (\<lambda>x. if x = r then f r else x) (contents (rows (view w)) T)"
  proof (rule map_cong [OF refl])
    fix x
    assume "x \<in> set (contents (rows (view w)) T)"
    then have "P x \<longleftrightarrow> x = r" using assms(4,5) by blast
    then show "(if P x then f x else x) = (if x = r then f r else x)" by simp
  qed
  then show "contents (rows (view (snd (update_table E T P f w)))) T =
      map (\<lambda>x. if x = r then f r else x) (contents (rows (view w)) T)"
    using contents_update [OF assms(2)] by (simp add: v update_rows_def)
qed

text \<open>An update that hits no row changes none.\<close>

lemma update_no_row:
  assumes "healthy (view w)" "table_ok T" "\<forall>x \<in> set (contents (rows (view w)) T). \<not> P x"
  shows "fst (update_table E T P f w) = Inr []" "view (snd (update_table E T P f w)) = view w"
proof -
  have "r \<in> set (rows (view w)) \<Longrightarrow> \<not> on_table T P r" for r
    using assms(2,3) in_contents [OF assms(2)]
    by (auto simp: on_table_def table_ok_def split: option.splits)
  then have same: "update_rows (on_table T P) (map_table T f) (rows (view w)) = rows (view w)"
    by (simp add: update_rows_def map_idI)
  note run = run_update [OF assms(1,2), of P f, unfolded same, OF indexes]
  have "filter P (contents (rows (view w)) T) = []"
    using assms(3) by (simp add: filter_empty_conv)
  from filter_mset_list [OF this]
  have "mset (projr (fst (update_table E T P f w))) = {#}"
    using run(3) assms(1) by simp
  then show "fst (update_table E T P f w) = Inr []"
    using run(1) assms(1) by (intro reply_none) simp_all
  show "view (snd (update_table E T P f w)) = view w" using run(2) assms(1) by simp
qed

lemma select_single_row:
  assumes "healthy (view w)" "table_ok T"
    and "r \<in> set (contents (rows (view w)) T)" "P r" "\<forall>x \<in> set (contents (rows (view w)) T). P x \<longrightarrow> x = r"
  shows "fst (select_from E T P w) = Inr [r]" "view (snd (select_from E T P w)) = view w"
proof -
  have "distinct (contents (rows (view w)) T)"
    using indexes [of w] assms(1,2) by (intro contents_distinct conflict_free_distinct) simp_all
  from filter_mset_list [OF filter_single [OF this assms(3-5)]]
  have "mset (projr (fst (select_from E T P w))) = {#r#}"
    unfolding run_select(3) [OF assms(1)] by simp
  then show "fst (select_from E T P w) = Inr [r]"
    by (rule reply_single [OF run_select(1) [OF assms(1)]])
  show "view (snd (select_from E T P w)) = view w" using assms(1) by simp
qed

lemma select_no_row:
  assumes "healthy (view w)" "\<forall>x \<in> set (contents (rows (view w)) T). \<not> P x"
  shows "fst (select_from E T P w) = Inr []" "view (snd (select_from E T P w)) = view w"
proof -
  have "filter P (contents (rows (view w)) T) = []"
    using assms(2) by (simp add: filter_empty_conv)
  from filter_mset_list [OF this]
  have "mset (projr (fst (select_from E T P w))) = {#}"
    unfolding run_select(3) [OF assms(1)] by simp
  then show "fst (select_from E T P w) = Inr []"
    by (rule reply_none [OF run_select(1) [OF assms(1)]])
  show "view (snd (select_from E T P w)) = view w" using assms(1) by simp
qed

end

section \<open>One access token\<close>

lemma access_token_ids_unique:
  assumes "conflict_free rs" "r \<in> set (contents rs accessTokens)" "x \<in> set (contents rs accessTokens)"
    and "act_id x = act_id r"
  shows "x = r"
proof -
  have "AccessToken x = AccessToken r"
    using assms by (intro conflict_free_pair [OF assms(1)])
      (auto simp: in_contents conflicts_def access_token_conflict_def)
  then show ?thesis by simp
qed

lemma live_tokens_unique:
  assumes "conflict_free rs" "r \<in> set (contents rs accessTokens)" "x \<in> set (contents rs accessTokens)"
    and "act_deletedAt x = None" "act_deletedAt r = None" "act_token x = act_token r"
  shows "x = r"
proof -
  have "AccessToken x = AccessToken r"
    using assms by (intro conflict_free_pair [OF assms(1)])
      (auto simp: in_contents conflicts_def access_token_conflict_def)
  then show ?thesis by simp
qed

lemma access_token_update_conflict_free:
  assumes "conflict_free rs"
    and "\<And>r. act_id (f r) = act_id r \<and> act_token (f r) = act_token r \<and>
           (act_deletedAt (f r) = None \<longrightarrow> act_deletedAt r = None)"
  shows "conflict_free (update_rows (on_table accessTokens P) (map_table accessTokens f) rs)"
proof (rule conflict_free_update [OF assms(1)])
  fix r s
  assume "conflicts (if on_table accessTokens P r then map_table accessTokens f r else r)
    (if on_table accessTokens P s then map_table accessTokens f s else s)"
  then show "conflicts r s"
    using assms(2)
    by (cases r; cases s)
      (auto simp: on_table_def map_table_def conflicts_def access_token_conflict_def split: if_splits)
qed

text \<open>The assignments of the service keep the identity of the token and never revive one.\<close>

definition keeps_identity :: "(access_token_row \<Rightarrow> access_token_row) \<Rightarrow> bool" where
  "keeps_identity f \<longleftrightarrow> (\<forall>r. act_id (f r) = act_id r \<and> act_token (f r) = act_token r \<and>
     (act_deletedAt (f r) = None \<longrightarrow> act_deletedAt r = None))"

lemma keeps_identity_simps [simp]:
  "keeps_identity count_use" "keeps_identity (count_month m)" "keeps_identity (clear_usage m)"
  "keeps_identity (set_access_token_deleted (Some t))" "keeps_identity (set_policy u)"
  "keeps_identity (\<lambda>r. r\<lparr>act_status := s\<rparr>)"
  by (simp_all add: keeps_identity_def count_use_def count_month_def clear_usage_def
      set_access_token_deleted_def set_policy_def Let_def split: option.splits)

context services
begin

lemma access_token_update:
  assumes "healthy (view w)" "r \<in> set (contents (rows (view w)) accessTokens)" "P r"
    and "\<And>x. P x \<Longrightarrow> act_id x = act_id r" "keeps_identity f"
  shows "fst (update_table E accessTokens P f w) = Inr [f r]"
    and "healthy (view (snd (update_table E accessTokens P f w)))"
    and "contents (rows (view (snd (update_table E accessTokens P f w)))) accessTokens =
      map (\<lambda>x. if x = r then f r else x) (contents (rows (view w)) accessTokens)"
    and "strs (view (snd (update_table E accessTokens P f w))) = strs (view w)"
proof -
  have cf: "conflict_free (rows (view w))" using indexes [of w] assms(1) by simp
  have one: "\<forall>x \<in> set (contents (rows (view w)) accessTokens). P x \<longrightarrow> x = r"
    using access_token_ids_unique [OF cf assms(2)] assms(4) by blast
  have cf': "conflict_free (update_rows (on_table accessTokens P) (map_table accessTokens f) (rows (view w)))"
    using assms(5) by (intro access_token_update_conflict_free [OF cf]) (simp add: keeps_identity_def)
  note run = update_single_row [OF assms(1) tables_ok(3) assms(2,3) one cf']
  show "fst (update_table E accessTokens P f w) = Inr [f r]"
    "contents (rows (view (snd (update_table E accessTokens P f w)))) accessTokens =
      map (\<lambda>x. if x = r then f r else x) (contents (rows (view w)) accessTokens)"
    by (fact run)+
  show "healthy (view (snd (update_table E accessTokens P f w)))"
    "strs (view (snd (update_table E accessTokens P f w))) = strs (view w)"
    using run(2) assms(1) by simp_all
qed

lemma access_key_run:
  assumes "healthy (view w)"
  shows "view (snd (invalidate E (access_key E r) w)) = del_keys [accessTokenCacheKey E (act_token r)] (view w)"
  using assms by (simp add: access_key_def)

lemma consume_counts:
  assumes "healthy (view w)" "r \<in> set (contents (rows (view w)) accessTokens)"
    and "consumable (pg_now E w) (act_id r) r"
  shows "fst (consumeInvocation E (act_id r) w) =
      Inr (if act_maximumUsageCount r = None then None else Some (act_usageCount (count_use r)))"
    and "contents (rows (view (snd (consumeInvocation E (act_id r) w)))) accessTokens =
      map (\<lambda>x. if x = r then count_use r else x) (contents (rows (view w)) accessTokens)"
    and "healthy (view (snd (consumeInvocation E (act_id r) w)))"
proof -
  have "\<And>x. consumable (pg_now E w) (act_id r) x \<Longrightarrow> act_id x = act_id r"
    by (simp add: consumable_def alive_def)
  note run = access_token_update [where f = count_use and P = "consumable (pg_now E w) (act_id r)", OF assms this keeps_identity_simps(1)]
  have max: "act_maximumUsageCount (count_use r) = act_maximumUsageCount r" by (simp add: count_use_def)
  show "fst (consumeInvocation E (act_id r) w) =
      Inr (if act_maximumUsageCount r = None then None else Some (act_usageCount (count_use r)))"
    "contents (rows (view (snd (consumeInvocation E (act_id r) w)))) accessTokens =
      map (\<lambda>x. if x = r then count_use r else x) (contents (rows (view w)) accessTokens)"
    "healthy (view (snd (consumeInvocation E (act_id r) w)))"
    using run by (simp_all add: consumeInvocation_def writeAndInvalidate_eq consume_write_def io_simps max
        access_key_run)
qed

lemma unconsumed_run:
  assumes "healthy (view w)" "r \<in> set (contents (rows (view w)) accessTokens)"
    and "act_deletedAt r = None" "\<not> consumable (pg_now E w) (act_id r) r"
  defines "w1 \<equiv> snd (update_table E accessTokens (consumable (pg_now E w) (act_id r)) count_use w)"
  shows "fst (select_from E accessTokens (alive_access_token (act_id r)) w1) = Inr [r]"
    and "view w1 = view w"
    and "view (snd (select_from E accessTokens (alive_access_token (act_id r)) w1)) = view w"
    and "fst (update_table E accessTokens (consumable (pg_now E w) (act_id r)) count_use w) = Inr []"
proof -
  have cf: "conflict_free (rows (view w))" using indexes [of w] assms(1) by simp
  have one: "x = r" if "x \<in> set (contents (rows (view w)) accessTokens)" "act_id x = act_id r" for x
    using access_token_ids_unique [OF cf assms(2)] that by blast
  have "\<forall>x \<in> set (contents (rows (view w)) accessTokens). \<not> consumable (pg_now E w) (act_id r) x"
    using one assms(4) by (auto simp: consumable_def alive_def)
  note up = update_no_row [OF assms(1) tables_ok(3) this, of count_use]
  show "view w1 = view w" using up(2) by (simp add: w1_def)
  then have h: "healthy (view w1)" "r \<in> set (contents (rows (view w1)) accessTokens)"
    "\<forall>x \<in> set (contents (rows (view w1)) accessTokens). alive_access_token (act_id r) x \<longrightarrow> x = r"
    "alive_access_token (act_id r) r"
    using assms(1-3) one by (auto simp: alive_access_token_def alive_def)
  note sel = select_single_row [OF h(1) tables_ok(3) h(2,4,3)]
  show "fst (select_from E accessTokens (alive_access_token (act_id r)) w1) = Inr [r]" by (rule sel(1))
  show "view (snd (select_from E accessTokens (alive_access_token (act_id r)) w1)) = view w"
    using sel(2) \<open>view w1 = view w\<close> by simp
  show "fst (update_table E accessTokens (consumable (pg_now E w) (act_id r)) count_use w) = Inr []"
    by (rule up(1))
qed

end

text \<open>Neither clock has reached the expiry of the token.\<close>

definition unexpired :: "'w env \<Rightarrow> access_token_row \<Rightarrow> bool" where
  "unexpired E r \<longleftrightarrow> (\<forall>t w. act_expiresAt r = Some t \<longrightarrow> pg_now E w < t \<and> now_ms E w \<le> t)"

context services
begin

lemma consume_exhausted:
  assumes "healthy (view w)" "r \<in> set (contents (rows (view w)) accessTokens)"
    and "act_deletedAt r = None" "act_status r = ''active''" "unexpired E r"
    and "act_maximumUsageCount r = Some m" "m \<le> act_usageCount r"
  shows "fst (consumeInvocation E (act_id r) w) = Inl (Http 429 MTokenExhausted)"
    and "view (snd (consumeInvocation E (act_id r) w)) = view w"
proof -
  have "\<not> consumable (pg_now E w) (act_id r) r"
    using assms(6,7) by (simp add: consumable_def alive_def)
  note run = unconsumed_run [OF assms(1-3) this]
  have "\<not> (case act_expiresAt r of None \<Rightarrow> False | Some t \<Rightarrow> t < now_ms E w')" for w'
    using assms(5) by (auto simp: unexpired_def not_less split: option.splits)
  then show "fst (consumeInvocation E (act_id r) w) = Inl (Http 429 MTokenExhausted)"
    "view (snd (consumeInvocation E (act_id r) w)) = view w"
    using run assms(4,6,7)
    by (simp_all add: consumeInvocation_def writeAndInvalidate_eq consume_write_def
        resolveUnconsumedToken_def io_simps)
qed

lemma month_run:
  assumes "healthy (view w)" "r \<in> set (contents (rows (view w)) accessTokens)" "act_deletedAt r = None"
  shows "fst (recordMonthlyUsage E (act_id r) w) = Inr ()"
    and "contents (rows (view (snd (recordMonthlyUsage E (act_id r) w)))) accessTokens =
      map (\<lambda>x. if x = r then count_month (CURRENT_USAGE_PERIOD E w) r else x)
        (contents (rows (view w)) accessTokens)"
    and "healthy (view (snd (recordMonthlyUsage E (act_id r) w)))"
proof -
  have "alive_access_token (act_id r) r"
    and "\<And>x. alive_access_token (act_id r) x \<Longrightarrow> act_id x = act_id r"
    using assms(3) by (simp_all add: alive_access_token_def alive_def)
  note run = access_token_update [where f = "count_month (CURRENT_USAGE_PERIOD E w)"
      and P = "alive_access_token (act_id r)", OF assms(1,2) this keeps_identity_simps(2)]
  show "fst (recordMonthlyUsage E (act_id r) w) = Inr ()"
    "contents (rows (view (snd (recordMonthlyUsage E (act_id r) w)))) accessTokens =
      map (\<lambda>x. if x = r then count_month (CURRENT_USAGE_PERIOD E w) r else x)
        (contents (rows (view w)) accessTokens)"
    "healthy (view (snd (recordMonthlyUsage E (act_id r) w)))"
    using run by (simp_all add: recordMonthlyUsage_def io_simps)
qed

end

section \<open>Properties\<close>

text \<open>A number of calls one after the other, with their replies.\<close>

primrec consume_times :: "'w env \<Rightarrow> nat \<Rightarrow> nat \<Rightarrow> 'w \<Rightarrow> (exn + nat option) list \<times> 'w" where
  "consume_times E i 0 w = ([], w)"
| "consume_times E i (Suc n) w =
     (let c = consumeInvocation E i w; rest = consume_times E i n (snd c) in
      (fst c # fst rest, snd rest))"

lemma consume_times_exhausted:
  assumes "services E view" "healthy (view w)" "r \<in> set (contents (rows (view w)) accessTokens)"
    and "act_deletedAt r = None" "act_status r = ''active''" "unexpired E r"
    and "act_maximumUsageCount r = Some m" "m \<le> act_usageCount r"
  shows "fst (consume_times E (act_id r) n w) = replicate n (Inl (Http 429 MTokenExhausted))"
  using assms(2,3)
proof (induction n arbitrary: w)
  case (Suc n)
  note one = services.consume_exhausted [OF assms(1) Suc.prems assms(4-8)]
  show ?case
    using Suc.IH [of "snd (consumeInvocation E (act_id r) w)"] Suc.prems by (simp add: Let_def one)
qed simp

text \<open>
  the call quota is exact.  Of \<open>n\<close> successive calls with a live, active, unexpired token that
  has been used \<open>u\<close> of at most \<open>m\<close> times, the first \<open>min n (m - u)\<close> go through, each numbered
  one above the last, and every later one is refused with 429.
\<close>

theorem quota_is_exact:
  assumes "services E view" "healthy (view w)" "r \<in> set (contents (rows (view w)) accessTokens)"
    and "act_deletedAt r = None" "act_status r = ''active''" "unexpired E r"
    and "act_maximumUsageCount r = Some m"
  shows "fst (consume_times E (act_id r) n w) =
    map (\<lambda>k. Inr (Some (act_usageCount r + k + 1))) [0..<min n (m - act_usageCount r)] @
    replicate (n - (m - act_usageCount r)) (Inl (Http 429 MTokenExhausted))"
  using assms(2-7)
proof (induction n arbitrary: w r)
  case (Suc n)
  show ?case
  proof (cases "act_usageCount r < m")
    case False
    then show ?thesis
      using consume_times_exhausted [OF assms(1) Suc.prems, of "Suc n"] by simp
  next
    case True
    let ?r = "count_use r" and ?w = "snd (consumeInvocation E (act_id r) w)"
    have "consumable (pg_now E w) (act_id r) r"
      using Suc.prems True by (auto simp: consumable_def alive_def unexpired_def split: option.splits)
    note one = services.consume_counts [OF assms(1) Suc.prems(1,2) this]
    have r: "act_id ?r = act_id r" "act_deletedAt ?r = None" "act_status ?r = ''active''"
      "unexpired E ?r" "act_maximumUsageCount ?r = Some m" "act_usageCount ?r = Suc (act_usageCount r)"
      using Suc.prems by (simp_all add: count_use_def unexpired_def)
    have "?r \<in> set (contents (rows (view ?w)) accessTokens)"
      using Suc.prems(2) by (auto simp: one(2))
    then have "fst (consume_times E (act_id r) n ?w) =
        map (\<lambda>k. Inr (Some (Suc (act_usageCount r) + k + 1))) [0..<min n (m - Suc (act_usageCount r))] @
        replicate (n - (m - Suc (act_usageCount r))) (Inl (Http 429 MTokenExhausted))"
      using Suc.IH [OF one(3) _ r(2-5)] by (simp add: r)
    moreover have "[0..<min (Suc n) (m - act_usageCount r)] =
        0 # map Suc [0..<min n (m - Suc (act_usageCount r))]"
    proof -
      have "min (Suc n) (m - act_usageCount r) = Suc (min n (m - Suc (act_usageCount r)))"
        using True by arith
      then show ?thesis by (simp add: upt_conv_Cons map_Suc_upt del: upt_Suc)
    qed
    moreover have "Suc n - (m - act_usageCount r) = n - (m - Suc (act_usageCount r))"
      using True by arith
    ultimately show ?thesis
      using Suc.prems(6) one(1) r(6) by (simp add: Let_def o_def del: upt_Suc)
  qed
qed simp

definition example_token :: access_token_row where
  "example_token = \<lparr>act_id = 7, act_name = ''ci'', act_token = ''rk_a'', act_status = ''active'',
     act_expiresAt = None, act_maximumUsageCount = Some 3, act_usageCount = 2,
     act_monthlyUsageCount = 2, act_usagePeriod = None, act_description = None, act_createdBy = None,
     act_createdAt = 0, act_deletedAt = None\<rparr>"

definition example_tokens :: sim where
  "example_tokens = sim_start\<lparr>sim_store := empty_store\<lparr>rows := [AccessToken example_token]\<rparr>\<rparr>"

lemma example_tokens_view [simp]:
  "sim_view example_tokens = empty_store\<lparr>rows := [AccessToken example_token]\<rparr>"
  by (simp add: sim_view_def example_tokens_def sim_start_def)

theorem quota_is_exact_witness:
  "fst (consume_times sim_env 7 3 example_tokens) =
     [Inr (Some 3), Inl (Http 429 MTokenExhausted), Inl (Http 429 MTokenExhausted)]"
  using quota_is_exact [OF sim_services, of example_tokens example_token 3 3]
  by (simp add: unexpired_def) (simp add: example_token_def numeral_2_eq_2)

text \<open>
  a token that has expired by the database's clock but not yet by the backend's is still let
  through, and the call is not counted: however many such calls are made, the stored count stays.
\<close>

theorem expiry_skew_is_uncounted:
  assumes "services E view" "healthy (view w)" "r \<in> set (contents (rows (view w)) accessTokens)"
    and "act_deletedAt r = None" "act_status r = ''active''" "act_expiresAt r = Some t"
    and "\<forall>w'. t \<le> pg_now E w' \<and> now_ms E w' \<le> t"
    and "act_maximumUsageCount r = Some m" "act_usageCount r < m"
  shows "fst (consumeInvocation E (act_id r) w) = Inr (Some (act_usageCount r)) \<and>
    rows (view (snd (consumeInvocation E (act_id r) w))) = rows (view w)"
proof -
  have "\<not> consumable (pg_now E w) (act_id r) r"
    using assms(6,7) by (auto simp: consumable_def alive_def not_less)
  note run = services.unconsumed_run [OF assms(1-4) this]
  have "\<not> t < now_ms E w'" for w' using assms(7) by (simp add: not_less)
  then show ?thesis
    using run assms(2,5,6,8,9) services.access_key_run [OF assms(1)]
    by (simp add: consumeInvocation_def writeAndInvalidate_eq consume_write_def
        resolveUnconsumedToken_def io_simps)
qed

definition example_skewed :: access_token_row where
  "example_skewed = example_token\<lparr>act_expiresAt := Some 1000\<rparr>"

definition skewed_env :: "sim env" where
  "skewed_env = sim_env\<lparr>now_ms := (\<lambda>_. 1000), pg_now := (\<lambda>_. 1000)\<rparr>"

lemma services_clocks: "services (E\<lparr>now_ms := f, pg_now := g\<rparr>) view \<longleftrightarrow> services E view"
  by (simp add: services_def)

lemma skewed_services: "services skewed_env sim_view"
  unfolding skewed_env_def services_clocks by (rule sim_services)

theorem expiry_skew_is_uncounted_witness:
  "fst (consumeInvocation skewed_env 7
     (sim_start\<lparr>sim_store := empty_store\<lparr>rows := [AccessToken example_skewed]\<rparr>\<rparr>)) = Inr (Some 2)"
  using expiry_skew_is_uncounted [OF skewed_services, of
      "sim_start\<lparr>sim_store := empty_store\<lparr>rows := [AccessToken example_skewed]\<rparr>\<rparr>" example_skewed 1000 3]
  by (simp add: sim_view_def sim_start_def skewed_env_def) (simp add: example_skewed_def example_token_def)

text \<open>
  the monthly counter counts this month's calls.  While the database's clock stays in month
  \<open>M\<close>, \<open>n\<close> recorded calls add \<open>n\<close> to what the list shows for that month, whatever an earlier
  month had left in the row, and no other token changes.
\<close>

theorem monthly_usage_counts_month:
  assumes "services E view" "healthy (view w)" "r \<in> set (contents (rows (view w)) accessTokens)"
    and "act_deletedAt r = None" "\<forall>w'. CURRENT_USAGE_PERIOD E w' = M"
  shows "\<exists>r'. currentMonthlyUsage M r' = currentMonthlyUsage M r + n \<and>
    contents (rows (view (snd (forM [0..<n] (\<lambda>_. recordMonthlyUsage E (act_id r)) w)))) accessTokens =
      map (\<lambda>x. if x = r then r' else x) (contents (rows (view w)) accessTokens)"
proof -
  have "\<exists>r'. currentMonthlyUsage M r' = currentMonthlyUsage M r + length ks \<and> act_id r' = act_id r \<and>
      contents (rows (view (snd (forM ks (\<lambda>_. recordMonthlyUsage E (act_id r)) w)))) accessTokens =
        map (\<lambda>x. if x = r then r' else x) (contents (rows (view w)) accessTokens)" for ks :: "nat list"
    using assms(2-4)
  proof (induction ks arbitrary: w r)
    case Nil
    show ?case by (intro exI [of _ r]) (simp add: map_idI)
  next
    case (Cons k ks)
    note one = services.month_run [OF assms(1) Cons.prems]
    let ?r = "count_month M r" and ?w = "snd (recordMonthlyUsage E (act_id r) w)"
    let ?D = "contents (rows (view w)) accessTokens"
    have c: "contents (rows (view ?w)) accessTokens = map (\<lambda>x. if x = r then ?r else x) ?D"
      using one(2) assms(5) by simp
    have r: "act_id ?r = act_id r" "act_deletedAt ?r = None"
      "currentMonthlyUsage M ?r = Suc (currentMonthlyUsage M r)"
      using Cons.prems(3) by (simp_all add: count_month_def currentMonthlyUsage_def)
    have "?r \<in> set (contents (rows (view ?w)) accessTokens)" using Cons.prems(2) by (auto simp: c)
    from Cons.IH [OF one(3) this r(2)] obtain r' where
      r': "currentMonthlyUsage M r' = Suc (currentMonthlyUsage M r) + length ks" "act_id r' = act_id r"
        "contents (rows (view (snd (forM ks (\<lambda>_. recordMonthlyUsage E (act_id r)) ?w)))) accessTokens =
           map (\<lambda>x. if x = ?r then r' else x) (map (\<lambda>x. if x = r then ?r else x) ?D)"
      unfolding c r by auto
    have cf: "conflict_free (rows (view w))"
      using services.indexes [OF assms(1), of w] Cons.prems(1) by simp
    have "x = r" if "x \<in> set ?D" "x = ?r" for x
      using access_token_ids_unique [OF cf Cons.prems(2) that(1)] that(2) r(1) by simp
    then have "map (\<lambda>x. if x = ?r then r' else x) (map (\<lambda>x. if x = r then ?r else x) ?D) =
        map (\<lambda>x. if x = r then r' else x) ?D"
      by (auto simp: comp_def)
    then show ?case
      using r' one(1) by (intro exI [of _ r']) (simp add: io_simps)
  qed
  from this [of "[0..<n]"] show ?thesis by auto
qed

theorem monthly_usage_counts_month_witness:
  "\<exists>r'. contents (rows (sim_view (snd (forM [0..<2] (\<lambda>_. recordMonthlyUsage skewed_env 7)
      example_tokens)))) accessTokens = [r'] \<and>
    currentMonthlyUsage (CURRENT_USAGE_PERIOD sim_env sim_start) r' = 2"
proof -
  let ?M = "CURRENT_USAGE_PERIOD sim_env sim_start"
  have "\<forall>w'. CURRENT_USAGE_PERIOD skewed_env w' = ?M"
    by (simp add: CURRENT_USAGE_PERIOD_def skewed_env_def sim_env_def sim_start_def)
  then have "\<exists>r'. currentMonthlyUsage ?M r' = currentMonthlyUsage ?M example_token + 2 \<and>
      contents (rows (sim_view (snd (forM [0..<2] (\<lambda>_. recordMonthlyUsage skewed_env (act_id example_token))
        example_tokens)))) accessTokens = map (\<lambda>x. if x = example_token then r' else x) [example_token]"
    using monthly_usage_counts_month [OF skewed_services, of example_tokens example_token ?M 2]
    by (simp add: example_token_def)
  moreover have "act_id example_token = 7" "currentMonthlyUsage ?M example_token = 0"
    by (simp_all add: example_token_def currentMonthlyUsage_def)
  ultimately show ?thesis by auto
qed

end
