(* ===== verification/Device_Token.thy ===== *)
theory Device_Token
  imports Access_Token Devices Connection_Registry
begin

text \<open>
  \<^verbatim>\<open>application/device-token/device-token.service.ts\<close>: the tokens devices connect with.  A
  connection is validated from a cached copy (60 s, 10 s for an unknown token); a change of scope
  is announced to every instance, which then closes the sessions opened with the token.
\<close>

section \<open>The cached copy\<close>

record device_token_snapshot =
  dts_id :: int
  dts_status :: string
  dts_projectIds :: "int list"

text \<open>\<^verbatim>\<open>z.number().int()\<close>; zod takes safe integers only.\<close>

definition int_of_json :: "json \<Rightarrow> int option" where
  "int_of_json j =
     (case j of
        JNum q \<Rightarrow> if of_int \<lfloor>q\<rfloor> = q \<and> \<bar>q\<bar> < 2 ^ 53 then Some \<lfloor>q\<rfloor> else None
      | _ \<Rightarrow> None)"

definition int_field :: "string \<Rightarrow> json \<Rightarrow> int option" where
  "int_field k j = Option.bind (field k j) int_of_json"

definition device_token_json :: "device_token_snapshot option \<Rightarrow> json" where
  "device_token_json v =
     (case v of
        None \<Rightarrow> JNull
      | Some d \<Rightarrow> JObj [(''id'', JNum (of_int (dts_id d))), (''status'', JStr (dts_status d)),
          (''projectIds'', JArr (map (\<lambda>p. JNum (of_int p)) (dts_projectIds d)))])"

definition cachedDeviceTokenSchema :: "json \<Rightarrow> device_token_snapshot option option" where
  "cachedDeviceTokenSchema j =
     (case j of
        JNull \<Rightarrow> Some None
      | _ \<Rightarrow>
          (case (int_field ''id'' j, string_field ''status'' j, array_field ''projectIds'' j) of
             (Some i, Some s, Some ps) \<Rightarrow>
               map_option (\<lambda>qs. Some \<lparr>dts_id = i, dts_status = s, dts_projectIds = qs\<rparr>)
                 (accept_all int_of_json ps)
           | _ \<Rightarrow> None))"

definition small_int :: "int \<Rightarrow> bool" where
  "small_int i \<longleftrightarrow> \<bar>i\<bar> < 2 ^ 53"

definition device_snapshot_ok :: "device_token_snapshot option \<Rightarrow> bool" where
  "device_snapshot_ok v \<longleftrightarrow>
     (case v of None \<Rightarrow> True | Some d \<Rightarrow> small_int (dts_id d) \<and> (\<forall>p \<in> set (dts_projectIds d). small_int p))"

lemma int_of_json_int: "small_int i \<Longrightarrow> int_of_json (JNum (of_int i)) = Some i"
proof -
  assume "small_int i"
  then have "(of_int \<bar>i\<bar> :: rat) < of_int (2 ^ 53)" unfolding small_int_def of_int_less_iff .
  then show ?thesis by (simp add: int_of_json_def)
qed

lemma small_int_json: "small_int i \<Longrightarrow> json_ok (JNum (of_int i))"
proof -
  assume "small_int i"
  then have "(of_int \<bar>i\<bar> :: rat) < of_int (2 ^ 53)" unfolding small_int_def of_int_less_iff .
  then show ?thesis by simp
qed

lemma accept_ints:
  "\<forall>p \<in> set ps. small_int p \<Longrightarrow> accept_all int_of_json (map (\<lambda>p. JNum (of_int p)) ps) = Some ps"
  by (induction ps) (simp_all add: int_of_json_int)

lemma small_nat [simp]: "n < 2 ^ 53 \<Longrightarrow> small_int (int n)"
  by (simp add: small_int_def)

interpretation device_token: cached_value device_token_json cachedDeviceTokenSchema device_snapshot_ok
proof (unfold_locales, goal_cases)
  case (1 v)
  then show ?case
    by (cases v) (auto simp: device_token_json_def cachedDeviceTokenSchema_def device_snapshot_ok_def
        int_field_def string_field_def array_field_def field_def int_of_json_int accept_ints)
next
  case (2 v)
  then show ?case
    by (cases v) (auto simp: device_token_json_def device_snapshot_ok_def small_int_json
        simp del: json_ok.simps(3))
qed

section \<open>Operations\<close>

definition WEBSOCKET_TOKEN_POSITIVE_TIME_TO_LIVE_SECONDS :: int where
  "WEBSOCKET_TOKEN_POSITIVE_TIME_TO_LIVE_SECONDS = 60"

definition WEBSOCKET_TOKEN_NEGATIVE_TIME_TO_LIVE_SECONDS :: int where
  "WEBSOCKET_TOKEN_NEGATIVE_TIME_TO_LIVE_SECONDS = 10"

record device_token_input =
  di_name :: string
  di_projects :: "string list"
  di_description :: "string option"
  di_createdBy :: "nat option"

definition new_device_token :: "device_token_input \<Rightarrow> string \<Rightarrow> int \<Rightarrow> nat \<Rightarrow> device_token_row" where
  "new_device_token input token now i =
     \<lparr>dvt_id = i, dvt_name = di_name input, dvt_token = token, dvt_status = ''active'',
      dvt_description = di_description input, dvt_createdBy = di_createdBy input,
      dvt_createdAt = now, dvt_deletedAt = None\<rparr>"

definition device_resolveProjectSelection ::
  "'w env \<Rightarrow> string list \<Rightarrow> ('w, string list \<times> nat list) io" where
  "device_resolveProjectSelection E ps = resolveProjectSelection E ps"

definition create_device_token ::
  "'w env \<Rightarrow> device_token_input \<Rightarrow> ('w, device_token_row \<times> string list) io" where
  "create_device_token E input =
     bindM (device_resolveProjectSelection E (di_projects input)) (\<lambda>(projectNames, projectIds).
     bindM (random_token E) (\<lambda>rnd.
     bindM (transaction E
       (\<lambda>w. bindM (bindM (insert_into E deviceTokens
                            (new_device_token input (''dk_'' @ rnd) (pg_now E w))) the_first)
          (\<lambda>tokenRow. thenM
             (forM projectIds (\<lambda>p. insert_into E deviceTokenProjects
                (\<lambda>_. token_project (dvt_id tokenRow) p)))
             (returnM tokenRow)) w))
       (\<lambda>result. returnM (result\<lparr>dvt_token := ''dk_'' @ rnd\<rparr>, projectNames))))"

definition alive_device_token :: "nat \<Rightarrow> device_token_row \<Rightarrow> bool" where
  "alive_device_token i = alive dvt_deletedAt [\<lambda>r. dvt_id r = i]"

definition device_key_of :: "'w env \<Rightarrow> device_token_row \<Rightarrow> string list" where
  "device_key_of E r = [deviceTokenCacheKey E (dvt_token r)]"

definition notifyScopeChanged :: "'w env \<Rightarrow> nat \<Rightarrow> ('w, unit) io" where
  "notifyScopeChanged E i =
     catchM (redis_publish E DEVICE_TOKEN_SCOPE_CHANGED_CHANNEL
               (JObj [(''deviceTokenId'', JNum (of_nat i))]))
       (\<lambda>_. returnM ())"

definition replace_device_projects :: "'w env \<Rightarrow> nat \<Rightarrow> nat list \<Rightarrow> ('w, device_token_row) io" where
  "replace_device_projects E i projectIds =
     bindM (bindM (select_from E deviceTokens (alive_device_token i)) (the_first_or (Http 404 MTokenAbsent)))
       (\<lambda>tokenRecord.
          thenM (delete_from E deviceTokenProjects (\<lambda>tp. tp_tokenId tp = i))
            (thenM (insert_projects E deviceTokenProjects i projectIds) (returnM tokenRecord)))"

definition update_device_token_projects ::
  "'w env \<Rightarrow> nat \<Rightarrow> string list \<Rightarrow> ('w, device_token_row \<times> string list) io" where
  "update_device_token_projects E i ps =
     bindM (device_resolveProjectSelection E ps) (\<lambda>(projectNames, projectIds).
     bindM (writeAndInvalidate E (transaction E (replace_device_projects E i projectIds)) (device_key_of E))
       (\<lambda>record. thenM (notifyScopeChanged E i) (returnM (record, projectNames))))"

definition device_token_conditions :: "row list \<Rightarrow> token_query \<Rightarrow> (device_token_row \<Rightarrow> bool) list" where
  "device_token_conditions rs q =
     compactConditions
       [eqIf never_blank (\<lambda>r. Some (dvt_id r)) (tq_id q),
        likeIf (\<lambda>r. Some (dvt_name r)) (tq_name q),
        eqIf blank_string (\<lambda>r. Some (dvt_status r)) (tq_status q),
        (case tq_project q of
           None \<Rightarrow> None
         | Some p \<Rightarrow>
             if p = [] then None
             else Some (\<lambda>r. hasProjectNameMatch rs deviceTokenProjects (dvt_id r) p))]"

definition selected_device_tokens :: "token_query \<Rightarrow> row list \<Rightarrow> device_token_row list" where
  "selected_device_tokens q rs =
     filter (alive dvt_deletedAt (device_token_conditions rs q)) (contents rs deviceTokens)"

text \<open>The groups of the count have a token id: the condition leaves the rows without one out.\<close>

definition onlineDeviceCountByTokenId :: "'w env \<Rightarrow> nat list \<Rightarrow> ('w, (nat \<times> int) list) io" where
  "onlineDeviceCountByTokenId E tokenIds =
     (if tokenIds = [] then returnM []
      else bindM
        (select_from E devices
           (alive dev_deletedAt
              [\<lambda>d. (case dev_deviceTokenId d of None \<Rightarrow> False | Some t \<Rightarrow> t \<in> set tokenIds) \<and>
                   dev_online d]))
        (\<lambda>ds. returnM (List.map_filter
           (\<lambda>(t, g). map_option (\<lambda>i. (i, int (length g))) t) (group_by dev_deviceTokenId ds))))"

definition list_device_tokens ::
  "'w env \<Rightarrow> token_query \<Rightarrow> ('w, (device_token_row \<times> string list \<times> int) paginated) io" where
  "list_device_tokens E q =
     paginate_joined E (selected_device_tokens q) (tq_page q) (tq_pageSize q)
       (\<lambda>limit offset.
          bindM (db_query E (\<lambda>rs. limit_offset limit offset
                   (sort_key (\<lambda>r. - int (dvt_id r)) (selected_device_tokens q rs))))
            (\<lambda>records.
               bindM (namesByTokenIds E deviceTokenProjects (map dvt_id records)) (\<lambda>names.
               bindM (onlineDeviceCountByTokenId E (map dvt_id records)) (\<lambda>counts.
                 returnM
                   (map (\<lambda>r. (r, or_default [] (map_of names (dvt_id r)),
                              or_default 0 (map_of counts (dvt_id r)))) records)))))"

definition revoke_device_token :: "'w env \<Rightarrow> nat \<Rightarrow> ('w, device_token_row) io" where
  "revoke_device_token E i =
     writeAndInvalidate E
       (bindM (update_table E deviceTokens (\<lambda>r. dvt_id r = i) (\<lambda>r. r\<lparr>dvt_status := ''revoked''\<rparr>))
          (the_first_or (Http 404 MTokenAbsent)))
       (device_key_of E)"

definition set_device_token_deleted :: "int option \<Rightarrow> device_token_row \<Rightarrow> device_token_row" where
  "set_device_token_deleted t r = r\<lparr>dvt_deletedAt := t\<rparr>"

definition delete_device_token :: "'w env \<Rightarrow> nat \<Rightarrow> ('w, bool) io" where
  "delete_device_token E i =
     thenM
       (writeAndInvalidate E
          (bindM (softDelete E deviceTokens dvt_deletedAt set_device_token_deleted (\<lambda>r. dvt_id r = i))
             (the_first_or (Http 404 MTokenAbsent)))
          (device_key_of E))
       (returnM True)"

definition device_snapshot_of :: "device_token_row \<Rightarrow> nat list \<Rightarrow> device_token_snapshot" where
  "device_snapshot_of r ids =
     \<lparr>dts_id = int (dvt_id r), dts_status = dvt_status r, dts_projectIds = map int ids\<rparr>"

definition findDeviceByToken :: "'w env \<Rightarrow> string \<Rightarrow> ('w, device_token_snapshot option) io" where
  "findDeviceByToken E token =
     bindM (select_from E deviceTokens (alive dvt_deletedAt [\<lambda>r. dvt_token r = token])) (\<lambda>rs.
       case first rs of
         None \<Rightarrow> returnM None
       | Some r \<Rightarrow>
           bindM (select_from E deviceTokenProjects (\<lambda>tp. tp_tokenId tp = dvt_id r))
             (\<lambda>tps. returnM (Some (device_snapshot_of r (map tp_projectId tps)))))"

definition websocket_token_ttl :: "device_token_snapshot option \<Rightarrow> int" where
  "websocket_token_ttl loaded =
     (if loaded \<noteq> None then WEBSOCKET_TOKEN_POSITIVE_TIME_TO_LIVE_SECONDS
      else WEBSOCKET_TOKEN_NEGATIVE_TIME_TO_LIVE_SECONDS)"

definition validateForConnect :: "'w env \<Rightarrow> string \<Rightarrow> ('w, (int \<times> int list) option) io" where
  "validateForConnect E token =
     bindM (getOrLoad E (deviceTokenCacheKey E token) cachedDeviceTokenSchema device_token_json
              (findDeviceByToken E token) (\<lambda>v _. websocket_token_ttl v))
       (\<lambda>r. returnM (case r of
               None \<Rightarrow> None
             | Some d \<Rightarrow>
                 if dts_status d \<noteq> ''active'' then None else Some (dts_id d, dts_projectIds d)))"

section \<open>One device token\<close>

lemma device_token_ids_unique:
  assumes "conflict_free rs" "r \<in> set (contents rs deviceTokens)" "x \<in> set (contents rs deviceTokens)"
    and "dvt_id x = dvt_id r"
  shows "x = r"
proof -
  have "DeviceToken x = DeviceToken r"
    using assms by (intro conflict_free_pair [OF assms(1)])
      (auto simp: in_contents conflicts_def device_token_conflict_def)
  then show ?thesis by simp
qed

lemma live_device_tokens_unique:
  assumes "conflict_free rs" "r \<in> set (contents rs deviceTokens)" "x \<in> set (contents rs deviceTokens)"
    and "dvt_deletedAt x = None" "dvt_deletedAt r = None" "dvt_token x = dvt_token r"
  shows "x = r"
proof -
  have "DeviceToken x = DeviceToken r"
    using assms by (intro conflict_free_pair [OF assms(1)])
      (auto simp: in_contents conflicts_def device_token_conflict_def)
  then show ?thesis by simp
qed

definition keeps_device_token :: "(device_token_row \<Rightarrow> device_token_row) \<Rightarrow> bool" where
  "keeps_device_token f \<longleftrightarrow> (\<forall>r. dvt_id (f r) = dvt_id r \<and> dvt_token (f r) = dvt_token r \<and>
     (dvt_deletedAt (f r) = None \<longrightarrow> dvt_deletedAt r = None))"

lemma keeps_device_token_simps [simp]:
  "keeps_device_token (\<lambda>r. r\<lparr>dvt_status := s\<rparr>)" "keeps_device_token (set_device_token_deleted (Some t))"
  by (simp_all add: keeps_device_token_def set_device_token_deleted_def)

lemma device_token_update_conflict_free:
  assumes "conflict_free rs" "keeps_device_token f"
  shows "conflict_free (update_rows (on_table deviceTokens P) (map_table deviceTokens f) rs)"
proof (rule conflict_free_update [OF assms(1)])
  fix r s
  assume "conflicts (if on_table deviceTokens P r then map_table deviceTokens f r else r)
    (if on_table deviceTokens P s then map_table deviceTokens f s else s)"
  then show "conflicts r s"
    using assms(2)
    by (cases r; cases s)
      (auto simp: keeps_device_token_def on_table_def map_table_def conflicts_def
        device_token_conflict_def split: if_splits)
qed

context services
begin

lemma device_token_update:
  assumes "healthy (view w)" "r \<in> set (contents (rows (view w)) deviceTokens)" "P r"
    and "\<And>x. P x \<Longrightarrow> dvt_id x = dvt_id r" "keeps_device_token f"
  shows "fst (update_table E deviceTokens P f w) = Inr [f r]"
    and "healthy (view (snd (update_table E deviceTokens P f w)))"
    and "contents (rows (view (snd (update_table E deviceTokens P f w)))) deviceTokens =
      map (\<lambda>x. if x = r then f r else x) (contents (rows (view w)) deviceTokens)"
    and "strs (view (snd (update_table E deviceTokens P f w))) = strs (view w)"
proof -
  have cf: "conflict_free (rows (view w))" using indexes [of w] assms(1) by simp
  have one: "\<forall>x \<in> set (contents (rows (view w)) deviceTokens). P x \<longrightarrow> x = r"
    using device_token_ids_unique [OF cf assms(2)] assms(4) by blast
  note run = update_single_row [OF assms(1) tables_ok(5) assms(2,3) one
      device_token_update_conflict_free [OF cf assms(5)]]
  show "fst (update_table E deviceTokens P f w) = Inr [f r]"
    "contents (rows (view (snd (update_table E deviceTokens P f w)))) deviceTokens =
      map (\<lambda>x. if x = r then f r else x) (contents (rows (view w)) deviceTokens)"
    by (fact run)+
  show "healthy (view (snd (update_table E deviceTokens P f w)))"
    "strs (view (snd (update_table E deviceTokens P f w))) = strs (view w)"
    using run(2) assms(1) by simp_all
qed

text \<open>What a lookup by the plain token finds.\<close>

lemma findDeviceByToken_none:
  assumes "healthy (view w)"
    and "\<forall>x \<in> set (contents (rows (view w)) deviceTokens). dvt_token x = t \<longrightarrow> dvt_deletedAt x \<noteq> None"
  shows "fst (findDeviceByToken E t w) = Inr None" "view (snd (findDeviceByToken E t w)) = view w"
proof -
  have "\<forall>x \<in> set (contents (rows (view w)) deviceTokens).
      \<not> alive dvt_deletedAt [\<lambda>r. dvt_token r = t] x"
    using assms(2) by (auto simp: alive_def)
  note sel = select_no_row [OF assms(1) this]
  show "fst (findDeviceByToken E t w) = Inr None" "view (snd (findDeviceByToken E t w)) = view w"
    using sel by (simp_all add: findDeviceByToken_def io_simps)
qed

lemma findDeviceByToken_some:
  assumes "healthy (view w)" "r \<in> set (contents (rows (view w)) deviceTokens)" "dvt_deletedAt r = None"
  shows "\<exists>ids. fst (findDeviceByToken E (dvt_token r) w) = Inr (Some (device_snapshot_of r ids)) \<and>
    mset ids = image_mset tp_projectId
      (filter_mset (\<lambda>tp. tp_tokenId tp = dvt_id r) (mset (contents (rows (view w)) deviceTokenProjects)))"
    and "view (snd (findDeviceByToken E (dvt_token r) w)) = view w"
proof -
  let ?P = "alive dvt_deletedAt [\<lambda>x. dvt_token x = dvt_token r]"
  have cf: "conflict_free (rows (view w))" using indexes [of w] assms(1) by simp
  have P: "?P r" "\<forall>x \<in> set (contents (rows (view w)) deviceTokens). ?P x \<longrightarrow> x = r"
    using live_device_tokens_unique [OF cf assms(2)] assms(3) by (auto simp: alive_def)
  note sel = select_single_row [OF assms(1) tables_ok(5) assms(2) P]
  define w1 where "w1 = snd (select_from E deviceTokens ?P w)"
  have v1: "view w1 = view w" using sel(2) by (simp add: w1_def)
  note sel2 = run_select [of w1 deviceTokenProjects "\<lambda>tp. tp_tokenId tp = dvt_id r"]
  have step: "findDeviceByToken E (dvt_token r) w =
      bindM (select_from E deviceTokenProjects (\<lambda>tp. tp_tokenId tp = dvt_id r))
        (\<lambda>tps. returnM (Some (device_snapshot_of r (map tp_projectId tps)))) w1"
    using sel(1) by (simp add: findDeviceByToken_def bindM_eq w1_def)
  show "\<exists>ids. fst (findDeviceByToken E (dvt_token r) w) = Inr (Some (device_snapshot_of r ids)) \<and>
    mset ids = image_mset tp_projectId
      (filter_mset (\<lambda>tp. tp_tokenId tp = dvt_id r) (mset (contents (rows (view w)) deviceTokenProjects)))"
    using sel2 assms(1) v1
    by (intro exI [of _ "map tp_projectId (projr (fst (select_from E deviceTokenProjects
        (\<lambda>tp. tp_tokenId tp = dvt_id r) w1)))"]) (simp add: step io_simps)
  show "view (snd (findDeviceByToken E (dvt_token r) w)) = view w"
    using sel2 assms(1) v1 by (simp add: step io_simps)
qed

text \<open>With no cached copy, a connection is judged by the database.\<close>

lemma validate_uncached:
  assumes "healthy (view w)" "strs (view w) (deviceTokenCacheKey E t) = None"
  shows "\<exists>w'. view w' = view w \<and>
    fst (validateForConnect E t w) =
      (case fst (findDeviceByToken E t w') of
         Inl e \<Rightarrow> Inl e
       | Inr None \<Rightarrow> Inr None
       | Inr (Some d) \<Rightarrow>
           Inr (if dts_status d \<noteq> ''active'' then None else Some (dts_id d, dts_projectIds d)))"
proof -
  let ?w = "snd (cache_get E (deviceTokenCacheKey E t) cachedDeviceTokenSchema w)"
  have get: "fst (cache_get E (deviceTokenCacheKey E t) cachedDeviceTokenSchema w) = Inr None"
    "view ?w = view w"
    using cache_get_run(1,6) [OF assms(1), of "deviceTokenCacheKey E t" cachedDeviceTokenSchema]
      assms(2) by (simp_all add: cached_def)
  show ?thesis
  proof (intro exI [of _ ?w] conjI get(2))
    show "fst (validateForConnect E t w) =
      (case fst (findDeviceByToken E t ?w) of
         Inl e \<Rightarrow> Inl e
       | Inr None \<Rightarrow> Inr None
       | Inr (Some d) \<Rightarrow>
           Inr (if dts_status d \<noteq> ''active'' then None else Some (dts_id d, dts_projectIds d)))"
      by (cases "fst (findDeviceByToken E t ?w)")
        (auto simp: validateForConnect_def getOrLoad_eq get bindM_eq Let_def split: option.splits)
  qed
qed

lemma revoke_device_run:
  assumes "healthy (view w)" "r \<in> set (contents (rows (view w)) deviceTokens)"
  defines "w' \<equiv> snd (revoke_device_token E (dvt_id r) w)"
  shows "fst (revoke_device_token E (dvt_id r) w) = Inr (r\<lparr>dvt_status := ''revoked''\<rparr>)"
    and "contents (rows (view w')) deviceTokens =
      map (\<lambda>x. if x = r then r\<lparr>dvt_status := ''revoked''\<rparr> else x) (contents (rows (view w)) deviceTokens)"
    and "healthy (view w')" "strs (view w') (deviceTokenCacheKey E (dvt_token r)) = None"
    and "published (view w') = published (view w)"
proof -
  let ?f = "\<lambda>r. r\<lparr>dvt_status := ''revoked''\<rparr>" and ?P = "\<lambda>x. dvt_id x = dvt_id r"
  have "\<And>x. ?P x \<Longrightarrow> dvt_id x = dvt_id r" .
  note run = device_token_update [where f = ?f and P = ?P, OF assms(1,2) refl this keeps_device_token_simps(1)]
  have cf: "conflict_free (rows (view w))" using indexes [of w] assms(1) by simp
  note up = run_update [OF assms(1) tables_ok(5)
      device_token_update_conflict_free [OF cf keeps_device_token_simps(1)], of ?P "''revoked''"]
  show "fst (revoke_device_token E (dvt_id r) w) = Inr (r\<lparr>dvt_status := ''revoked''\<rparr>)"
    "contents (rows (view w')) deviceTokens =
      map (\<lambda>x. if x = r then r\<lparr>dvt_status := ''revoked''\<rparr> else x) (contents (rows (view w)) deviceTokens)"
    "healthy (view w')" "strs (view w') (deviceTokenCacheKey E (dvt_token r)) = None"
    "published (view w') = published (view w)"
    using run up(2) unfolding w'_def
    by (simp_all add: revoke_device_token_def writeAndInvalidate_eq the_first_or_def io_simps device_key_of_def)
qed

lemma delete_device_run:
  assumes "healthy (view w)" "r \<in> set (contents (rows (view w)) deviceTokens)" "dvt_deletedAt r = None"
  defines "w' \<equiv> snd (delete_device_token E (dvt_id r) w)"
  shows "fst (delete_device_token E (dvt_id r) w) = Inr True"
    and "contents (rows (view w')) deviceTokens =
      map (\<lambda>x. if x = r then r\<lparr>dvt_deletedAt := Some (now_ms E w)\<rparr> else x)
        (contents (rows (view w)) deviceTokens)"
    and "healthy (view w')" "strs (view w') (deviceTokenCacheKey E (dvt_token r)) = None"
proof -
  let ?f = "set_device_token_deleted (Some (now_ms E w))"
    and ?P = "alive dvt_deletedAt [\<lambda>x. dvt_id x = dvt_id r]"
  have "?P r" "\<And>x. ?P x \<Longrightarrow> dvt_id x = dvt_id r" using assms(3) by (simp_all add: alive_def)
  note run = device_token_update [where f = ?f and P = ?P, OF assms(1,2) this keeps_device_token_simps(2)]
  show "fst (delete_device_token E (dvt_id r) w) = Inr True"
    "contents (rows (view w')) deviceTokens =
      map (\<lambda>x. if x = r then r\<lparr>dvt_deletedAt := Some (now_ms E w)\<rparr> else x)
        (contents (rows (view w)) deviceTokens)"
    "healthy (view w')" "strs (view w') (deviceTokenCacheKey E (dvt_token r)) = None"
    using run unfolding w'_def
    by (simp_all add: delete_device_token_def softDelete_def writeAndInvalidate_eq the_first_or_def
        io_simps device_key_of_def set_device_token_deleted_def)
qed

end

section \<open>The scope of a device token\<close>

context services
begin

lemma idByName_run:
  assumes "healthy (view w)"
  shows "\<exists>r. fst (idByName E name w) = Inr r \<and>
      (r = None \<longleftrightarrow> (\<forall>p. live_project (rows (view w)) p \<longrightarrow> prj_name p \<noteq> name)) \<and>
      (\<forall>i. r = Some i \<longrightarrow> (\<exists>p. live_project (rows (view w)) p \<and> prj_name p = name \<and> prj_id p = i))"
    and "view (snd (idByName E name w)) = view w"
  using assms select_project_by_name [OF assms, of name]
  by (auto simp: idByName_def io_simps)

text \<open>The ids a list of group names resolves to, when it resolves.\<close>

lemma resolve_ids_run:
  assumes "healthy (view w)"
  shows "view (snd (resolve_ids E ns w)) = view w"
    and "fst (resolve_ids E ns w) = Inr ids \<Longrightarrow>
      list_all2 (\<lambda>n i. \<exists>p. live_project (rows (view w)) p \<and> prj_name p = n \<and> prj_id p = i) ns ids"
proof -
  have "view (snd (resolve_ids E ns w)) = view w \<and>
    (\<forall>ids. fst (resolve_ids E ns w) = Inr ids \<longrightarrow>
      list_all2 (\<lambda>n i. \<exists>p. live_project (rows (view w)) p \<and> prj_name p = n \<and> prj_id p = i) ns ids)"
    using assms
  proof (induction ns arbitrary: w)
    case (Cons n ns)
    define w1 where "w1 = snd (idByName E n w)"
    obtain i where i: "fst (idByName E n w) = Inr i" "view w1 = view w"
      and p: "\<And>j. i = Some j \<Longrightarrow> \<exists>p. live_project (rows (view w)) p \<and> prj_name p = n \<and> prj_id p = j"
      using idByName_run [OF Cons.prems, of n] by (auto simp: w1_def)
    show ?case
    proof (cases i)
      case None
      then show ?thesis using i by (simp add: bindM_eq w1_def)
    next
      case (Some j)
      have IH: "view (snd (resolve_ids E ns w1)) = view w"
        "\<And>ids. fst (resolve_ids E ns w1) = Inr ids \<Longrightarrow>
          list_all2 (\<lambda>n i. \<exists>p. live_project (rows (view w)) p \<and> prj_name p = n \<and> prj_id p = i) ns ids"
        using Cons.IH [of w1] Cons.prems by (simp_all add: i(2))
      have step: "resolve_ids E (n # ns) w = bindM (resolve_ids E ns) (\<lambda>ps. returnM (j # ps)) w1"
        using i Some by (simp add: bindM_eq w1_def)
      show ?thesis
        using IH p [OF Some] unfolding step by (cases "fst (resolve_ids E ns w1)") (auto simp: bindM_def)
    qed
  qed simp
  then show "view (snd (resolve_ids E ns w)) = view w"
    and "fst (resolve_ids E ns w) = Inr ids \<Longrightarrow>
      list_all2 (\<lambda>n i. \<exists>p. live_project (rows (view w)) p \<and> prj_name p = n \<and> prj_id p = i) ns ids"
    by blast+
qed

end

lemma resolved_ids_distinct:
  assumes "conflict_free rs" "distinct ns"
    and "list_all2 (\<lambda>n i. \<exists>p. live_project rs p \<and> prj_name p = n \<and> prj_id p = i) ns ids"
  shows "distinct ids"
    and "set ids = {prj_id p | p. live_project rs p \<and> prj_name p \<in> set ns}"
proof -
  have same: "p = q" if "live_project rs p" "live_project rs q" "prj_id p = prj_id q" for p q
  proof -
    have "Project p = Project q"
      using that by (intro conflict_free_pair [OF assms(1)])
        (auto simp: live_project_def in_contents conflicts_def project_conflict_def)
    then show ?thesis by simp
  qed
  have len: "length ns = length ids" and
    at: "\<And>k. k < length ns \<Longrightarrow> \<exists>p. live_project rs p \<and> prj_name p = ns ! k \<and> prj_id p = ids ! k"
    using assms(3) by (auto simp: list_all2_conv_all_nth)
  show "distinct ids"
    unfolding distinct_conv_nth
  proof (intro allI impI)
    fix j k
    assume jk: "j < length ids" "k < length ids" "j \<noteq> k"
    obtain p q where pq: "live_project rs p" "prj_name p = ns ! j" "prj_id p = ids ! j"
      "live_project rs q" "prj_name q = ns ! k" "prj_id q = ids ! k"
      using at [of j] at [of k] jk len by auto
    have "ns ! j \<noteq> ns ! k" using assms(2) jk len by (simp add: nth_eq_iff_index_eq)
    then show "ids ! j \<noteq> ids ! k" using same [of p q] pq by auto
  qed
  show "set ids = {prj_id p | p. live_project rs p \<and> prj_name p \<in> set ns}"
  proof (intro set_eqI iffI)
    fix i
    assume "i \<in> set ids"
    then obtain k where "k < length ids" "ids ! k = i" by (auto simp: in_set_conv_nth)
    then show "i \<in> {prj_id p | p. live_project rs p \<and> prj_name p \<in> set ns}"
      using at [of k] len by force
  next
    fix i
    assume "i \<in> {prj_id p | p. live_project rs p \<and> prj_name p \<in> set ns}"
    then obtain p k where p: "live_project rs p" "prj_id p = i" "k < length ns" "prj_name p = ns ! k"
      by (auto simp: in_set_conv_nth)
    obtain q where q: "live_project rs q" "prj_name q = ns ! k" "prj_id q = ids ! k"
      using at [OF p(3)] by blast
    have "p = q" using live_project_unique [OF assms(1) p(1) q(1)] p(4) q(2) by simp
    then show "i \<in> set ids" using p(2,3) q(3) len by auto
  qed
qed

lemma contents_token_projects:
  "contents (map (\<lambda>p. DeviceTokenProject (token_project i p)) ps) deviceTokenProjects =
     map (token_project i) ps"
  "contents (map (\<lambda>p. DeviceTokenProject (token_project i p)) ps) deviceTokens = []"
  by (induction ps) simp_all

lemma token_projects_conflict_free:
  assumes "conflict_free rs" "distinct ps"
  shows "conflict_free (filter (\<lambda>r. \<not> on_table deviceTokenProjects (\<lambda>tp. tp_tokenId tp = i) r) rs @
    map (\<lambda>p. DeviceTokenProject (token_project i p)) ps)"
  unfolding conflict_free_append_rows
proof (intro conjI ballI)
  show "conflict_free (filter (\<lambda>r. \<not> on_table deviceTokenProjects (\<lambda>tp. tp_tokenId tp = i) r) rs)"
    by (rule conflict_free_filter [OF assms(1)])
  show "conflict_free (map (\<lambda>p. DeviceTokenProject (token_project i p)) ps)"
    using assms(2) by (induction ps) (auto simp: conflicts_def token_project_conflict_def token_project_def)
  fix r n
  assume "r \<in> set (filter (\<lambda>r. \<not> on_table deviceTokenProjects (\<lambda>tp. tp_tokenId tp = i) r) rs)"
    "n \<in> set (map (\<lambda>p. DeviceTokenProject (token_project i p)) ps)"
  then have r: "\<not> on_table deviceTokenProjects (\<lambda>tp. tp_tokenId tp = i) r"
    and "\<exists>p. n = DeviceTokenProject (token_project i p)" by auto
  then obtain p where n: "n = DeviceTokenProject (token_project i p)" by blast
  show "\<not> conflicts r n"
    using r unfolding n
    by (cases r) (simp_all add: on_table_def conflicts_def token_project_conflict_def token_project_def)
qed

context services
begin

lemma replace_device_projects_run:
  assumes "healthy (view w)" "r \<in> set (contents (rows (view w)) deviceTokens)" "dvt_deletedAt r = None"
    and "distinct ids" "ids \<noteq> []"
  defines "w' \<equiv> snd (transaction E (replace_device_projects E (dvt_id r) ids) w)"
  shows "fst (transaction E (replace_device_projects E (dvt_id r) ids) w) = Inr r"
    and "view w' = (view w)\<lparr>rows :=
      filter (\<lambda>x. \<not> on_table deviceTokenProjects (\<lambda>tp. tp_tokenId tp = dvt_id r) x) (rows (view w)) @
      map (\<lambda>p. DeviceTokenProject (token_project (dvt_id r) p)) ids\<rparr>"
proof -
  let ?D = "\<lambda>tp. tp_tokenId tp = dvt_id r"
  have cf: "conflict_free (rows (view w))" using indexes [of w] assms(1) by simp
  have P: "alive_device_token (dvt_id r) r"
    "\<forall>x \<in> set (contents (rows (view w)) deviceTokens). alive_device_token (dvt_id r) x \<longrightarrow> x = r"
    using device_token_ids_unique [OF cf assms(2)] assms(3)
    by (auto simp: alive_device_token_def alive_def)
  note sel = select_single_row [OF assms(1) tables_ok(5) assms(2) P]
  define w1 where "w1 = snd (select_from E deviceTokens (alive_device_token (dvt_id r)) w)"
  have v1: "view w1 = view w" using sel(2) by (simp add: w1_def)
  define w2 where "w2 = snd (delete_from E deviceTokenProjects ?D w1)"
  have h1: "healthy (view w1)" using assms(1) by (simp add: v1)
  note del = run_delete [OF h1, of deviceTokenProjects ?D]
  have v2: "view w2 = (view w)\<lparr>rows := filter (\<lambda>x. \<not> on_table deviceTokenProjects ?D x) (rows (view w))\<rparr>"
    using del(2) by (simp add: w2_def v1)
  have up: "up (view w2)" using assms(1) by (simp add: v2)
  have emb: "map (\<lambda>p. emb deviceTokenProjects (token_project (dvt_id r) p)) ids =
      map (\<lambda>p. DeviceTokenProject (token_project (dvt_id r) p)) ids" by simp
  note ins = insert_all [OF up, of "map (\<lambda>p. DeviceTokenProject (token_project (dvt_id r) p)) ids"]
  have cf2: "conflict_free (rows (view w2) @
      map (\<lambda>p. DeviceTokenProject (token_project (dvt_id r) p)) ids)"
    using token_projects_conflict_free [OF cf assms(4)] by (simp add: v2)
  have step: "replace_device_projects E (dvt_id r) ids w =
      thenM (insert_projects E deviceTokenProjects (dvt_id r) ids) (returnM r) w2"
    using sel(1) del(1) by (simp add: replace_device_projects_def the_first_or_def io_simps w1_def w2_def)
  have "fst (replace_device_projects E (dvt_id r) ids w) = Inr r \<and>
      view (snd (replace_device_projects E (dvt_id r) ids w)) =
        (view w2)\<lparr>rows := rows (view w2) @ map (\<lambda>p. DeviceTokenProject (token_project (dvt_id r) p)) ids\<rparr>"
    using ins [OF cf2] assms(5) unfolding step insert_projects_def emb
    by (simp add: io_simps)
  then show "fst (transaction E (replace_device_projects E (dvt_id r) ids) w) = Inr r"
    and "view w' = (view w)\<lparr>rows :=
      filter (\<lambda>x. \<not> on_table deviceTokenProjects (\<lambda>tp. tp_tokenId tp = dvt_id r) x) (rows (view w)) @
      map (\<lambda>p. DeviceTokenProject (token_project (dvt_id r) p)) ids\<rparr>"
    by (simp_all add: w'_def transaction_def v2)
qed

end

section \<open>Properties\<close>

text \<open>
  C37: a revoked or deleted device token no longer connects, at once.  Whatever the cache held
  before, after revocation or deletion of a live token the validation of a new connection with it
  refuses.
\<close>

theorem withdrawn_token_cannot_connect:
  assumes "services E view" "healthy (view w)" "r \<in> set (contents (rows (view w)) deviceTokens)"
    and "dvt_deletedAt r = None"
  shows "fst (validateForConnect E (dvt_token r) (snd (revoke_device_token E (dvt_id r) w))) = Inr None \<and>
    fst (validateForConnect E (dvt_token r) (snd (delete_device_token E (dvt_id r) w))) = Inr None"
proof
  let ?w = "snd (revoke_device_token E (dvt_id r) w)" and ?r = "r\<lparr>dvt_status := ''revoked''\<rparr>"
  note run = services.revoke_device_run [OF assms(1-3)]
  obtain w' where w': "view w' = view ?w"
    and v: "fst (validateForConnect E (dvt_token r) ?w) =
      (case fst (findDeviceByToken E (dvt_token r) w') of
         Inl e \<Rightarrow> Inl e | Inr None \<Rightarrow> Inr None
       | Inr (Some d) \<Rightarrow>
           Inr (if dts_status d \<noteq> ''active'' then None else Some (dts_id d, dts_projectIds d)))"
    using services.validate_uncached [OF assms(1) run(3,4)] by blast
  have "?r \<in> set (contents (rows (view w')) deviceTokens)" using assms(3) by (auto simp: w' run(2))
  moreover have "dvt_deletedAt ?r = None" "healthy (view w')" using assms(4) run(3) by (simp_all add: w')
  ultimately show "fst (validateForConnect E (dvt_token r) ?w) = Inr None"
    using services.findDeviceByToken_some(1) [OF assms(1), of w' ?r]
    by (auto simp: v device_snapshot_of_def)
next
  let ?w = "snd (delete_device_token E (dvt_id r) w)"
  note run = services.delete_device_run [OF assms]
  have cf: "conflict_free (rows (view w))"
    using services.indexes [OF assms(1), of w] assms(2) by simp
  obtain w' where w': "view w' = view ?w"
    and v: "fst (validateForConnect E (dvt_token r) ?w) =
      (case fst (findDeviceByToken E (dvt_token r) w') of
         Inl e \<Rightarrow> Inl e | Inr None \<Rightarrow> Inr None
       | Inr (Some d) \<Rightarrow>
           Inr (if dts_status d \<noteq> ''active'' then None else Some (dts_id d, dts_projectIds d)))"
    using services.validate_uncached [OF assms(1) run(3,4)] by blast
  have "\<forall>x \<in> set (contents (rows (view w')) deviceTokens).
      dvt_token x = dvt_token r \<longrightarrow> dvt_deletedAt x \<noteq> None"
    using live_device_tokens_unique [OF cf assms(3)] assms(4) by (auto simp: w' run(2))
  then show "fst (validateForConnect E (dvt_token r) ?w) = Inr None"
    using services.findDeviceByToken_none(1) [OF assms(1), of w' "dvt_token r"] run(3) by (simp add: v w')
qed

definition example_device_token :: device_token_row where
  "example_device_token = \<lparr>dvt_id = 4, dvt_name = ''phones'', dvt_token = ''dk_a'',
     dvt_status = ''active'', dvt_description = None, dvt_createdBy = None, dvt_createdAt = 0,
     dvt_deletedAt = None\<rparr>"

definition example_device_tokens :: sim where
  "example_device_tokens =
     sim_start\<lparr>sim_store := empty_store\<lparr>rows := [DeviceToken example_device_token]\<rparr>\<rparr>"

lemma example_device_tokens_view [simp]:
  "sim_view example_device_tokens = empty_store\<lparr>rows := [DeviceToken example_device_token]\<rparr>"
  by (simp add: sim_view_def example_device_tokens_def sim_start_def)

theorem withdrawn_token_cannot_connect_witness:
  "fst (validateForConnect sim_env ''dk_a'' (snd (revoke_device_token sim_env 4 example_device_tokens))) =
     Inr None"
  using withdrawn_token_cannot_connect [OF sim_services, of example_device_tokens example_device_token]
  by simp (simp add: example_device_token_def)


text \<open>
  a change of scope takes effect at once and everywhere.  After the groups of a live, active
  device token were changed, the next connection with it is given exactly the ids of the live
  groups named in the request, whatever was cached, and the change was announced to every instance.
\<close>

theorem scope_change_takes_effect:
  assumes "services E view" "healthy (view w)" "r \<in> set (contents (rows (view w)) deviceTokens)"
    and "dvt_deletedAt r = None" "dvt_status r = ''active''"
    and "fst (update_device_token_projects E (dvt_id r) ps w) = Inr res"
  defines "w' \<equiv> snd (update_device_token_projects E (dvt_id r) ps w)"
  shows "(\<exists>ids. fst (validateForConnect E (dvt_token r) w') = Inr (Some (int (dvt_id r), ids)) \<and>
      set ids = {int (prj_id p) | p. live_project (rows (view w)) p \<and> prj_name p \<in> set ps}) \<and>
    published (view w') = published (view w) @
      [(DEVICE_TOKEN_SCOPE_CHANGED_CHANNEL, JObj [(''deviceTokenId'', JNum (of_nat (dvt_id r)))])]"
proof -
  have cf: "conflict_free (rows (view w))"
    using services.indexes [OF assms(1), of w] assms(2) by simp
  define w1 where "w1 = snd (resolve_ids E (unique ps) w)"
  note resolve = services.resolve_ids_run [OF assms(1,2), of "unique ps"]
  have v1: "view w1 = view w" using resolve(1) by (simp add: w1_def)
  obtain ids where ne: "unique ps \<noteq> []" and ids: "fst (resolve_ids E (unique ps) w) = Inr ids"
    using assms(6)
    by (cases "fst (resolve_ids E (unique ps) w)")
      (auto simp: update_device_token_projects_def device_resolveProjectSelection_def
        resolveProjectSelection_def bindM_eq split: if_splits)
  note dist = resolved_ids_distinct [OF cf distinct_unique resolve(2) [OF ids]]
  have ne2: "ids \<noteq> []" using ne resolve(2) [OF ids] by auto
  have h1: "healthy (view w1)" "r \<in> set (contents (rows (view w1)) deviceTokens)"
    using assms(2,3) by (simp_all add: v1)
  note rep = services.replace_device_projects_run [OF assms(1) h1 assms(4) dist(1) ne2]
  define w2 where "w2 = snd (transaction E (replace_device_projects E (dvt_id r) ids) w1)"
  define w3 where "w3 = snd (invalidate E (device_key_of E r) w2)"
  let ?rows = "filter (\<lambda>x. \<not> on_table deviceTokenProjects (\<lambda>tp. tp_tokenId tp = dvt_id r) x) (rows (view w)) @
      map (\<lambda>p. DeviceTokenProject (token_project (dvt_id r) p)) ids"
  have v2: "view w2 = (view w)\<lparr>rows := ?rows\<rparr>" using rep(2) by (simp add: w2_def v1)
  have h2: "healthy (view w2)" using assms(2) by (simp add: v2)
  have v3: "view w3 = del_keys [deviceTokenCacheKey E (dvt_token r)] (view w2)"
    using services.invalidate_run [OF assms(1) h2, of "device_key_of E r"]
    by (simp add: w3_def device_key_of_def)
  have h3: "healthy (view w3)" using h2 by (simp add: v3)
  have w': "w' = snd (notifyScopeChanged E (dvt_id r) w3)"
    using ids rep(1) ne unfolding w'_def
    by (simp add: update_device_token_projects_def device_resolveProjectSelection_def
        resolveProjectSelection_def writeAndInvalidate_eq io_simps notifyScopeChanged_def
        services.run_publish [OF assms(1) h3] flip: w1_def w2_def w3_def)
  note pub = services.run_publish [OF assms(1) h3, of DEVICE_TOKEN_SCOPE_CHANGED_CHANNEL
      "JObj [(''deviceTokenId'', JNum (of_nat (dvt_id r)))]"]
  have v': "view w' = (view w3)\<lparr>published := published (view w3) @
      [(DEVICE_TOKEN_SCOPE_CHANGED_CHANNEL, JObj [(''deviceTokenId'', JNum (of_nat (dvt_id r)))])]\<rparr>"
    using pub by (simp add: w' notifyScopeChanged_def io_simps)
  have h': "healthy (view w')" "strs (view w') (deviceTokenCacheKey E (dvt_token r)) = None"
    using h3 by (simp_all add: v' v3)
  have rows': "rows (view w') = ?rows" by (simp add: v' v3 v2)
  obtain w4 where w4: "view w4 = view w'"
    and val: "fst (validateForConnect E (dvt_token r) w') =
      (case fst (findDeviceByToken E (dvt_token r) w4) of
         Inl e \<Rightarrow> Inl e | Inr None \<Rightarrow> Inr None
       | Inr (Some d) \<Rightarrow>
           Inr (if dts_status d \<noteq> ''active'' then None else Some (dts_id d, dts_projectIds d)))"
    using services.validate_uncached [OF assms(1) h'] by blast
  have other: "disjoint_tables deviceTokenProjects deviceTokens" by (simp add: disjoint_tables_def)
  have "r \<in> set (contents (rows (view w4)) deviceTokens)"
    using assms(3) contents_delete_other [OF tables_ok(6) other]
    by (simp add: w4 rows' contents_token_projects)
  then obtain qs where qs: "fst (findDeviceByToken E (dvt_token r) w4) = Inr (Some (device_snapshot_of r qs))"
    and m: "mset qs = image_mset tp_projectId
      (filter_mset (\<lambda>tp. tp_tokenId tp = dvt_id r) (mset (contents (rows (view w4)) deviceTokenProjects)))"
    using services.findDeviceByToken_some(1) [OF assms(1), of w4 r] h'(1) assms(4) by (auto simp: w4)
  have "contents (rows (view w4)) deviceTokenProjects =
      filter (\<lambda>tp. tp_tokenId tp \<noteq> dvt_id r) (contents (rows (view w)) deviceTokenProjects) @
      map (token_project (dvt_id r)) ids"
    by (simp add: w4 rows' contents_delete contents_token_projects)
  then have "set qs = set ids"
    using arg_cong [OF m, of set_mset] by (force simp: token_project_def)
  then have "set (map int qs) = {int (prj_id p) | p. live_project (rows (view w)) p \<and> prj_name p \<in> set ps}"
    using dist(2) by auto
  moreover have "published (view w3) = published (view w)" by (simp add: v3 v2)
  ultimately show ?thesis
    using assms(5) by (auto simp: val qs device_snapshot_of_def v')
qed

definition example_scope :: sim where
  "example_scope = sim_start\<lparr>sim_store := empty_store\<lparr>rows :=
     [DeviceToken example_device_token, Project example_project]\<rparr>\<rparr>"

lemma example_scope_view [simp]:
  "sim_view example_scope = empty_store\<lparr>rows := [DeviceToken example_device_token, Project example_project]\<rparr>"
  by (simp add: sim_view_def example_scope_def sim_start_def conflicts_def)

theorem scope_change_takes_effect_witness:
  "\<exists>ids. fst (validateForConnect sim_env ''dk_a''
      (snd (update_device_token_projects sim_env 4 [''sms''] example_scope))) = Inr (Some (4, ids)) \<and>
    set ids = {3}"
proof -
  have "\<not> isl (fst (update_device_token_projects sim_env 4 [''sms''] example_scope))"
    by code_simp
  then obtain res where "fst (update_device_token_projects sim_env 4 [''sms''] example_scope) = Inr res"
    by (cases "fst (update_device_token_projects sim_env 4 [''sms''] example_scope)") auto
  then show ?thesis
    using scope_change_takes_effect [OF sim_services, of example_scope example_device_token "[''sms'']" res]
    by (auto simp: live_project_def example_device_token_def example_project_def)
qed

end
