(* ===== verification/Guards.thy ===== *)
theory Guards
  imports Device_Token
begin

text \<open>
  What every request passes before a handler: the access-token guard of the invocation route
  (\<^verbatim>\<open>common/guards/access-token.guard.ts\<close>), the scan for NUL characters
  (\<^verbatim>\<open>common/middleware/reject-null-byte.middleware.ts\<close>) and the check of entity ids
  (\<^verbatim>\<open>common/pipes/parse-entity-id.pipe.ts\<close>).
\<close>

section \<open>The access-token guard\<close>

definition POSITIVE_CACHE_TIME_TO_LIVE_SECONDS :: int where
  "POSITIVE_CACHE_TIME_TO_LIVE_SECONDS = 60"

definition NEGATIVE_CACHE_TIME_TO_LIVE_SECONDS :: int where
  "NEGATIVE_CACHE_TIME_TO_LIVE_SECONDS = 10"

text \<open>\<^verbatim>\<open>JSON.stringify\<close> writes a \<^verbatim>\<open>Date\<close> as its ISO text.\<close>

definition expiry_json :: "expiry option \<Rightarrow> json" where
  "expiry_json e =
     (case e of None \<Rightarrow> JNull | Some (EDate t) \<Rightarrow> JStr (iso_instant t) | Some (EText s) \<Rightarrow> JStr s)"

definition int_json :: "int \<Rightarrow> json" where
  "int_json i = JNum (of_int i)"

definition access_token_json :: "access_snapshot option \<Rightarrow> json" where
  "access_token_json v =
     (case v of
        None \<Rightarrow> JNull
      | Some t \<Rightarrow> JObj
          [(''id'', int_json (ts_id t)), (''name'', JStr (ts_name t)), (''status'', JStr (ts_status t)),
           (''expiresAt'', expiry_json (ts_expiresAt t)),
           (''maximumUsageCount'', (case ts_maximumUsageCount t of None \<Rightarrow> JNull | Some m \<Rightarrow> int_json m)),
           (''usageCount'', int_json (ts_usageCount t)),
           (''projectIds'', JArr (map int_json (ts_projectIds t)))])"

text \<open>\<^verbatim>\<open>.nullable()\<close> around a schema; the field must be present.\<close>

definition nullable :: "(json \<Rightarrow> 'a option) \<Rightarrow> json \<Rightarrow> 'a option option" where
  "nullable f j = (case j of JNull \<Rightarrow> Some None | _ \<Rightarrow> map_option Some (f j))"

definition required :: "string \<Rightarrow> (json \<Rightarrow> 'a option) \<Rightarrow> json \<Rightarrow> 'a option" where
  "required k f j = Option.bind (field k j) f"

definition positive_int_of :: "json \<Rightarrow> int option" where
  "positive_int_of j = (case int_of_json j of Some i \<Rightarrow> if 0 < i then Some i else None | None \<Rightarrow> None)"

definition nonnegative_int_of :: "json \<Rightarrow> int option" where
  "nonnegative_int_of j = (case int_of_json j of Some i \<Rightarrow> if 0 \<le> i then Some i else None | None \<Rightarrow> None)"

definition text_of_json :: "json \<Rightarrow> string option" where
  "text_of_json j = (case j of JStr s \<Rightarrow> Some s | _ \<Rightarrow> None)"

definition cachedAccessTokenSchema :: "json \<Rightarrow> access_snapshot option option" where
  "cachedAccessTokenSchema =
     nullable (\<lambda>j.
       case (int_field ''id'' j, string_field ''name'' j, string_field ''status'' j,
             required ''expiresAt'' (nullable (\<lambda>x. map_option EText (text_of_json x))) j,
             required ''maximumUsageCount'' (nullable positive_int_of) j,
             required ''usageCount'' nonnegative_int_of j,
             Option.bind (array_field ''projectIds'' j) (accept_all int_of_json)) of
         (Some i, Some n, Some s, Some e, Some m, Some u, Some ps) \<Rightarrow>
           Some \<lparr>ts_id = i, ts_name = n, ts_status = s, ts_expiresAt = e, ts_maximumUsageCount = m,
                 ts_usageCount = u, ts_projectIds = ps\<rparr>
       | _ \<Rightarrow> None)"

definition bearerToken :: "string option \<Rightarrow> string option" where
  "bearerToken header =
     (case header of
        None \<Rightarrow> None
      | Some h \<Rightarrow> if prefix ''Bearer '' h then Some (drop 7 h) else None)"

text \<open>\<^verbatim>\<open>new Date(x)\<close>; an invalid date compares false.\<close>

definition expiry_instant :: "expiry \<Rightarrow> int option" where
  "expiry_instant e = (case e of EDate t \<Rightarrow> Some t | EText s \<Rightarrow> parse_instant s)"

definition expired :: "int \<Rightarrow> expiry option \<Rightarrow> bool" where
  "expired now e =
     (case e of
        None \<Rightarrow> False
      | Some x \<Rightarrow> x \<noteq> EText '''' \<and> (case expiry_instant x of None \<Rightarrow> False | Some t \<Rightarrow> t < now))"

definition assertTokenIsUsable :: "int \<Rightarrow> access_snapshot option \<Rightarrow> exn option" where
  "assertTokenIsUsable now cachedToken =
     (case cachedToken of
        None \<Rightarrow> Some (Http 401 MTokenInvalid)
      | Some t \<Rightarrow>
          if expired now (ts_expiresAt t) then Some (Http 401 MTokenExpired)
          else if ts_status t \<noteq> ''active'' then Some (Http 403 MTokenDisabled)
          else if (case ts_maximumUsageCount t of None \<Rightarrow> False | Some m \<Rightarrow> m \<le> ts_usageCount t)
          then Some (Http 429 MTokenExhausted)
          else None)"

record granted_token =
  gt_id :: int
  gt_name :: string
  gt_projectIds :: "int list"
  gt_maximumUsageCount :: "int option"

definition access_token_ttl :: "access_snapshot option \<Rightarrow> int" where
  "access_token_ttl loaded =
     (if loaded \<noteq> None then POSITIVE_CACHE_TIME_TO_LIVE_SECONDS else NEGATIVE_CACHE_TIME_TO_LIVE_SECONDS)"

text \<open>The argument is the header and the project of the route or the query; a zero id is falsy.\<close>

definition access_token_guard ::
  "'w env \<Rightarrow> string option \<Rightarrow> string option \<Rightarrow> ('w, granted_token) io" where
  "access_token_guard E authorization project =
     (case bearerToken authorization of
        None \<Rightarrow> throwM (Http 401 MTokenMissing)
      | Some plaintext \<Rightarrow>
          if plaintext = [] then throwM (Http 401 MTokenMissing)
          else bindM
            (getOrLoad E (accessTokenCacheKey E plaintext) cachedAccessTokenSchema access_token_json
               (findByToken E plaintext) (\<lambda>v _. access_token_ttl v))
            (\<lambda>cachedToken w.
               (case assertTokenIsUsable (now_ms E w) cachedToken of
                  Some e \<Rightarrow> throwM e
                | None \<Rightarrow>
                    bindM (case project of
                             None \<Rightarrow> returnM None
                           | Some p \<Rightarrow> if p = [] then returnM None else idByName E p)
                      (\<lambda>projectId.
                         let t = the cachedToken in
                         case projectId of
                           None \<Rightarrow> throwM (Http 403 MTokenNoProject)
                         | Some i \<Rightarrow>
                             if i = 0 \<or> int i \<notin> set (ts_projectIds t) then throwM (Http 403 MTokenNoProject)
                             else returnM \<lparr>gt_id = ts_id t, gt_name = ts_name t,
                                    gt_projectIds = ts_projectIds t,
                                    gt_maximumUsageCount = ts_maximumUsageCount t\<rparr>)) w))"

section \<open>NUL characters\<close>

definition MAXIMUM_SCAN_DEPTH :: nat where
  "MAXIMUM_SCAN_DEPTH = 8"

function containsNullByte :: "nat \<Rightarrow> json \<Rightarrow> bool" where
  "containsNullByte depth v =
     (if MAXIMUM_SCAN_DEPTH < depth then False
      else case v of
             JStr s \<Rightarrow> CHR 0x00 \<in> set s
           | JArr xs \<Rightarrow> list_ex (\<lambda>x. containsNullByte (depth + 1) x) xs
           | JObj ps \<Rightarrow> list_ex (\<lambda>p. containsNullByte (depth + 1) (snd p)) ps
           | _ \<Rightarrow> False)"
  by auto
termination
  by (relation "measure (\<lambda>(depth, _). MAXIMUM_SCAN_DEPTH + 1 - depth)") auto

declare containsNullByte.simps [simp del]

definition rejectNullByte :: "json \<Rightarrow> json \<Rightarrow> exn + unit" where
  "rejectNullByte query body =
     (if containsNullByte 0 query \<or> containsNullByte 0 body then Inl (Http 400 MNullByte) else Inr ())"

text \<open>A NUL character in any string value, at any depth.\<close>

fun has_null :: "json \<Rightarrow> bool" where
  "has_null (JStr s) = (CHR 0x00 \<in> set s)"
| "has_null (JArr xs) = list_ex has_null xs"
| "has_null (JObj ps) = list_ex (\<lambda>p. has_null (snd p)) ps"
| "has_null _ = False"

fun depth_within :: "nat \<Rightarrow> json \<Rightarrow> bool" where
  "depth_within n (JArr xs) = (case n of 0 \<Rightarrow> xs = [] | Suc m \<Rightarrow> list_all (depth_within m) xs)"
| "depth_within n (JObj ps) = (case n of 0 \<Rightarrow> ps = [] | Suc m \<Rightarrow> list_all (\<lambda>p. depth_within m (snd p)) ps)"
| "depth_within n _ = True"

section \<open>Entity ids\<close>

definition MAXIMUM_ENTITY_ID :: int where
  "MAXIMUM_ENTITY_ID = 2147483647"

text \<open>\<open>parse\<close> is \<^verbatim>\<open>ParseIntPipe.transform\<close> of the framework: \<open>None\<close> is its 400.\<close>

definition parseEntityId :: "(string \<Rightarrow> int option) \<Rightarrow> string \<Rightarrow> exn + int" where
  "parseEntityId parse v =
     (case parse v of
        None \<Rightarrow> Inl (Http 400 MIdNotInteger)
      | Some i \<Rightarrow> if MAXIMUM_ENTITY_ID < i then Inl (Http 400 MIdOutOfRange) else Inr i)"

lemma containsNullByte_iff:
  "depth_within n v \<Longrightarrow> depth + n \<le> MAXIMUM_SCAN_DEPTH \<Longrightarrow> containsNullByte depth v \<longleftrightarrow> has_null v"
proof (induction n v arbitrary: depth rule: depth_within.induct)
  case (1 n xs)
  then show ?case
    by (cases n) (auto simp: containsNullByte.simps [of depth "JArr ys" for ys] list_ex_iff list_all_iff)
next
  case (2 n ps)
  then show ?case
    by (cases n) (auto simp: containsNullByte.simps [of depth "JObj qs" for qs] list_ex_iff list_all_iff)
qed (simp_all add: containsNullByte.simps)

lemma containsNullByte_deep: "MAXIMUM_SCAN_DEPTH < depth + n \<Longrightarrow> \<not> containsNullByte depth (((\<lambda>v. JArr [v]) ^^ n) v)"
  by (induction n arbitrary: depth) (simp_all add: containsNullByte.simps)

text \<open>
  the NUL filter is complete to its depth, and no further.  A request whose parameters and
  body nest at most eight levels is refused exactly when some string value in it holds a NUL; a
  body that wraps any value in nine arrays passes whatever it holds.
\<close>

theorem null_byte_scan_complete:
  shows "(depth_within 8 query \<longrightarrow> depth_within 8 body \<longrightarrow>
      rejectNullByte query body = (if has_null query \<or> has_null body then Inl (Http 400 MNullByte) else Inr ())) \<and>
    rejectNullByte (JObj []) (((\<lambda>v. JArr [v]) ^^ 9) v) = Inr ()"
  using containsNullByte_iff [of 8 query 0] containsNullByte_iff [of 8 body 0]
    containsNullByte_deep [of 0 9 v] containsNullByte_iff [of 0 "JObj []" 0]
  by (simp add: rejectNullByte_def MAXIMUM_SCAN_DEPTH_def)

theorem null_byte_scan_complete_witness:
  "rejectNullByte (JObj []) (JObj [(''name'', JStr [CHR 0x00])]) = Inl (Http 400 MNullByte)"
  using null_byte_scan_complete [of "JObj []" "JObj [(''name'', JStr [CHR 0x00])]"] by simp

section \<open>The decision of the guard\<close>

text \<open>The live project of a name, on a snapshot of the rows.\<close>

definition project_id_of :: "row list \<Rightarrow> string option \<Rightarrow> nat option" where
  "project_id_of rs project =
     (case project of
        None \<Rightarrow> None
      | Some n \<Rightarrow>
          if n = [] then None
          else map_option prj_id
            (find (\<lambda>p. prj_deletedAt p = None \<and> prj_name p = n) (contents rs projects)))"

definition guard_decision :: "int \<Rightarrow> access_snapshot option \<Rightarrow> nat option \<Rightarrow> exn + granted_token" where
  "guard_decision now c projectId =
     (case assertTokenIsUsable now c of
        Some e \<Rightarrow> Inl e
      | None \<Rightarrow>
          (case projectId of
             None \<Rightarrow> Inl (Http 403 MTokenNoProject)
           | Some i \<Rightarrow>
               if i = 0 \<or> int i \<notin> set (ts_projectIds (the c)) then Inl (Http 403 MTokenNoProject)
               else Inr \<lparr>gt_id = ts_id (the c), gt_name = ts_name (the c),
                     gt_projectIds = ts_projectIds (the c),
                     gt_maximumUsageCount = ts_maximumUsageCount (the c)\<rparr>))"

text \<open>The lookup in general: the snapshot of the one live row, or none.\<close>

definition token_lookup :: "store \<Rightarrow> string \<Rightarrow> access_snapshot option \<Rightarrow> bool" where
  "token_lookup s t c \<longleftrightarrow>
     (case c of
        None \<Rightarrow> \<forall>x \<in> set (contents (rows s) accessTokens). act_token x = t \<longrightarrow> act_deletedAt x \<noteq> None
      | Some d \<Rightarrow> \<exists>r \<in> set (contents (rows s) accessTokens). \<exists>ids.
          act_token r = t \<and> act_deletedAt r = None \<and> d = access_snapshot_of r ids \<and>
          mset ids = image_mset tp_projectId
            (filter_mset (\<lambda>tp. tp_tokenId tp = act_id r) (mset (contents (rows s) accessTokenProjects))))"

context services
begin

lemma idByName_find:
  assumes "healthy (view w)" "name \<noteq> []"
  shows "fst (idByName E name w) = Inr (project_id_of (rows (view w)) (Some name))"
proof -
  let ?rs = "rows (view w)"
  let ?find = "find (\<lambda>p. prj_deletedAt p = None \<and> prj_name p = name) (contents ?rs projects)"
  have cf: "conflict_free ?rs" using indexes [of w] assms(1) by simp
  obtain r where r: "fst (idByName E name w) = Inr r"
    and none: "r = None \<longleftrightarrow> (\<forall>p. live_project ?rs p \<longrightarrow> prj_name p \<noteq> name)"
    and some: "\<And>i. r = Some i \<Longrightarrow> \<exists>p. live_project ?rs p \<and> prj_name p = name \<and> prj_id p = i"
    using idByName_run(1) [OF assms(1), of name] by blast
  show ?thesis
  proof (cases r)
    case None
    then have "?find = None"
      using none by (auto simp: find_None_iff live_project_def)
    then show ?thesis using r None assms(2) by (simp add: project_id_of_def)
  next
    case (Some i)
    then obtain p where p: "live_project ?rs p" "prj_name p = name" "prj_id p = i" using some by blast
    then obtain q where q: "?find = Some q"
      by (cases ?find) (auto simp: find_None_iff live_project_def)
    then have "live_project ?rs q" "prj_name q = name"
      by (auto simp: find_Some_iff live_project_def)
    then have "q = p" using live_project_unique [OF cf _ p(1)] p(2) by simp
    then show ?thesis using r Some q p(3) assms(2) by (simp add: project_id_of_def)
  qed
qed

lemma guard_run:
  assumes "t \<noteq> []"
    and "fst (getOrLoad E (accessTokenCacheKey E t) cachedAccessTokenSchema access_token_json
           (findByToken E t) (\<lambda>v _. access_token_ttl v) w) = Inr c"
  defines "w1 \<equiv> snd (getOrLoad E (accessTokenCacheKey E t) cachedAccessTokenSchema access_token_json
           (findByToken E t) (\<lambda>v _. access_token_ttl v) w)"
  assumes "healthy (view w1)"
  shows "fst (access_token_guard E (Some (''Bearer '' @ t)) project w) =
      guard_decision (now_ms E w1) c (project_id_of (rows (view w1)) project)"
    and "view (snd (access_token_guard E (Some (''Bearer '' @ t)) project w)) = view w1"
proof -
  let ?id = "case project of
      None \<Rightarrow> returnM None | Some p \<Rightarrow> if p = [] then returnM None else idByName E p"
  have id: "fst (?id w1) = Inr (project_id_of (rows (view w1)) project)" "view (snd (?id w1)) = view w1"
    using idByName_find [OF assms(4)] idByName_run(2) [OF assms(4)]
    by (auto simp: project_id_of_def split: option.splits)
  let ?G = "access_token_guard E (Some (''Bearer '' @ t)) project w"
  let ?rest = "\<lambda>projectId. let t = the c in
      case projectId of
        None \<Rightarrow> throwM (Http 403 MTokenNoProject)
      | Some i \<Rightarrow>
          if i = 0 \<or> int i \<notin> set (ts_projectIds t) then throwM (Http 403 MTokenNoProject)
          else returnM \<lparr>gt_id = ts_id t, gt_name = ts_name t, gt_projectIds = ts_projectIds t,
                 gt_maximumUsageCount = ts_maximumUsageCount t\<rparr>"
  have step: "?G = (case assertTokenIsUsable (now_ms E w1) c of
      Some e \<Rightarrow> throwM e | None \<Rightarrow> bindM ?id ?rest) w1"
    using assms(1) by (simp add: access_token_guard_def bearerToken_def bindM_def assms(2) w1_def)
  have "fst ?G = guard_decision (now_ms E w1) c (project_id_of (rows (view w1)) project) \<and>
      view (snd ?G) = view w1"
  proof (cases "assertTokenIsUsable (now_ms E w1) c")
    case (Some e)
    then show ?thesis unfolding step by (simp add: guard_decision_def)
  next
    case None
    then have "?G = ?rest (project_id_of (rows (view w1)) project) (snd (?id w1))"
      unfolding step using id(1) by (simp add: bindM_eq)
    then show ?thesis
      using None id(2)
      by (cases "project_id_of (rows (view w1)) project") (simp_all add: guard_decision_def Let_def)
  qed
  then show "fst ?G = guard_decision (now_ms E w1) c (project_id_of (rows (view w1)) project)"
    and "view (snd ?G) = view w1" by blast+
qed

lemma findByToken_none:
  assumes "healthy (view w)"
    and "\<forall>x \<in> set (contents (rows (view w)) accessTokens). act_token x = t \<longrightarrow> act_deletedAt x \<noteq> None"
  shows "fst (findByToken E t w) = Inr None" "view (snd (findByToken E t w)) = view w"
proof -
  have "\<forall>x \<in> set (contents (rows (view w)) accessTokens). \<not> alive act_deletedAt [\<lambda>r. act_token r = t] x"
    using assms(2) by (auto simp: alive_def)
  note sel = select_no_row [OF assms(1) this]
  show "fst (findByToken E t w) = Inr None" "view (snd (findByToken E t w)) = view w"
    using sel by (simp_all add: findByToken_def io_simps)
qed

lemma findByToken_some:
  assumes "healthy (view w)" "r \<in> set (contents (rows (view w)) accessTokens)" "act_deletedAt r = None"
  shows "\<exists>ids. fst (findByToken E (act_token r) w) = Inr (Some (access_snapshot_of r ids)) \<and>
    mset ids = image_mset tp_projectId
      (filter_mset (\<lambda>tp. tp_tokenId tp = act_id r) (mset (contents (rows (view w)) accessTokenProjects)))"
    and "view (snd (findByToken E (act_token r) w)) = view w"
proof -
  let ?P = "alive act_deletedAt [\<lambda>x. act_token x = act_token r]"
  have cf: "conflict_free (rows (view w))" using indexes [of w] assms(1) by simp
  have P: "?P r" "\<forall>x \<in> set (contents (rows (view w)) accessTokens). ?P x \<longrightarrow> x = r"
    using live_tokens_unique [OF cf assms(2)] assms(3) by (auto simp: alive_def)
  note sel = select_single_row [OF assms(1) tables_ok(3) assms(2) P]
  define w1 where "w1 = snd (select_from E accessTokens ?P w)"
  have v1: "view w1 = view w" using sel(2) by (simp add: w1_def)
  note sel2 = run_select [of w1 accessTokenProjects "\<lambda>tp. tp_tokenId tp = act_id r"]
  have step: "findByToken E (act_token r) w =
      bindM (select_from E accessTokenProjects (\<lambda>tp. tp_tokenId tp = act_id r))
        (\<lambda>tps. returnM (Some (access_snapshot_of r (map tp_projectId tps)))) w1"
    using sel(1) by (simp add: findByToken_def bindM_eq w1_def)
  show "\<exists>ids. fst (findByToken E (act_token r) w) = Inr (Some (access_snapshot_of r ids)) \<and>
    mset ids = image_mset tp_projectId
      (filter_mset (\<lambda>tp. tp_tokenId tp = act_id r) (mset (contents (rows (view w)) accessTokenProjects)))"
    using sel2 assms(1) v1
    by (intro exI [of _ "map tp_projectId (projr (fst (select_from E accessTokenProjects
        (\<lambda>tp. tp_tokenId tp = act_id r) w1)))"]) (simp add: step io_simps)
  show "view (snd (findByToken E (act_token r) w)) = view w"
    using sel2 assms(1) v1 by (simp add: step io_simps)
qed

lemma findByToken_run:
  assumes "healthy (view w)"
  shows "\<exists>c. fst (findByToken E t w) = Inr c \<and> token_lookup (view w) t c"
    and "view (snd (findByToken E t w)) = view w"
proof -
  have "(\<exists>c. fst (findByToken E t w) = Inr c \<and> token_lookup (view w) t c) \<and>
    view (snd (findByToken E t w)) = view w"
  proof (cases "\<exists>r \<in> set (contents (rows (view w)) accessTokens). act_token r = t \<and> act_deletedAt r = None")
    case True
    then obtain r where r: "r \<in> set (contents (rows (view w)) accessTokens)" "act_token r = t"
      "act_deletedAt r = None" by blast
    then show ?thesis
      using findByToken_some [OF assms r(1,3)] by (force simp: token_lookup_def)
  next
    case False
    then show ?thesis using findByToken_none [OF assms, of t] by (auto simp: token_lookup_def)
  qed
  then show "\<exists>c. fst (findByToken E t w) = Inr c \<and> token_lookup (view w) t c"
    and "view (snd (findByToken E t w)) = view w" by blast+
qed

text \<open>Without a cached copy the guard decides on the row, and leaves a copy in the cache.\<close>

lemma guard_uncached:
  assumes "healthy (view w)" "t \<noteq> []" "strs (view w) (accessTokenCacheKey E t) = None"
    and "\<forall>w'. now_ms E w' = n"
  shows "\<exists>c. token_lookup (view w) t c \<and>
    fst (access_token_guard E (Some (''Bearer '' @ t)) project w) =
      guard_decision n c (project_id_of (rows (view w)) project) \<and>
    view (snd (access_token_guard E (Some (''Bearer '' @ t)) project w)) =
      put_str (accessTokenCacheKey E t) (stringify (access_token_json c))
        (Some (seconds (nat (access_token_ttl c)))) (view w)"
proof -
  let ?k = "accessTokenCacheKey E t"
  define w0 where "w0 = snd (cache_get E ?k cachedAccessTokenSchema w)"
  have get: "fst (cache_get E ?k cachedAccessTokenSchema w) = Inr None" "view w0 = view w"
    using cache_get_run(1,6) [OF assms(1), of ?k cachedAccessTokenSchema] assms(3)
    by (simp_all add: cached_def w0_def)
  obtain c where c: "fst (findByToken E t w0) = Inr c" "token_lookup (view w) t c"
    using findByToken_run(1) [of w0 t] assms(1) by (auto simp: get(2))
  have v: "view (snd (findByToken E t w0)) = view w"
    using findByToken_run(2) [of w0 t] assms(1) by (simp add: get(2))
  let ?load = "getOrLoad E ?k cachedAccessTokenSchema access_token_json (findByToken E t)
    (\<lambda>v _. access_token_ttl v) w"
  have ttl: "\<not> access_token_ttl c \<le> 0"
    by (simp add: access_token_ttl_def POSITIVE_CACHE_TIME_TO_LIVE_SECONDS_def
        NEGATIVE_CACHE_TIME_TO_LIVE_SECONDS_def)
  have load: "fst ?load = Inr c"
    "view (snd ?load) = put_str ?k (stringify (access_token_json c))
      (Some (seconds (nat (access_token_ttl c)))) (view w)"
    using c(1) v get(1) assms(1) ttl by (simp_all add: getOrLoad_eq Let_def flip: w0_def)
  have "healthy (view (snd ?load))" using assms(1) by (simp add: load(2))
  note run = guard_run [OF assms(2) load(1) this, of project]
  show ?thesis using c(2) run load(2) assms(4) by (intro exI [of _ c]) simp
qed

end

section \<open>The cached copy\<close>

text \<open>What is read back: the instant has become its ISO text.\<close>

definition cached_form :: "access_snapshot \<Rightarrow> access_snapshot" where
  "cached_form t =
     t\<lparr>ts_expiresAt := (case ts_expiresAt t of
         Some (EDate d) \<Rightarrow> Some (EText (iso_instant d)) | e \<Rightarrow> e)\<rparr>"

definition access_snapshot_ok :: "access_snapshot option \<Rightarrow> bool" where
  "access_snapshot_ok v \<longleftrightarrow>
     (case v of
        None \<Rightarrow> True
      | Some t \<Rightarrow> small_int (ts_id t) \<and> small_int (ts_usageCount t) \<and> 0 \<le> ts_usageCount t \<and>
          (\<forall>p \<in> set (ts_projectIds t). small_int p) \<and>
          (\<forall>m. ts_maximumUsageCount t = Some m \<longrightarrow> small_int m \<and> 0 < m))"

definition textual :: "access_snapshot option \<Rightarrow> bool" where
  "textual v \<longleftrightarrow> (\<forall>t d. v = Some t \<longrightarrow> ts_expiresAt t \<noteq> Some (EDate d))"

lemma cached_form_json [simp]: "access_token_json (map_option cached_form v) = access_token_json v"
  by (cases v) (auto simp: access_token_json_def cached_form_def expiry_json_def split: option.splits expiry.splits)

lemma cached_form_textual: "ts_expiresAt (cached_form t) \<noteq> Some (EDate d)"
proof (cases "ts_expiresAt t")
  case (Some e)
  then show ?thesis by (cases e) (simp_all add: cached_form_def)
qed (simp add: cached_form_def)

lemma cached_form_ok [simp]:
  "access_snapshot_ok (map_option cached_form v) = access_snapshot_ok v" "textual (map_option cached_form v)"
  by (cases v, simp_all add: access_snapshot_ok_def cached_form_def)
    (auto simp: textual_def simp flip: cached_form_def dest: cached_form_textual [THEN notE])

lemma nullable_expiry:
  "(\<forall>d. e \<noteq> Some (EDate d)) \<Longrightarrow>
     nullable (\<lambda>x. map_option EText (text_of_json x)) (expiry_json e) = Some e"
  by (auto simp: expiry_json_def nullable_def text_of_json_def split: option.splits expiry.splits)

lemma int_json_simps [simp]:
  "small_int i \<Longrightarrow> int_of_json (int_json i) = Some i"
  "int_json i \<noteq> JNull"
  by (simp_all add: int_json_def int_of_json_int)

lemma nullable_int_json:
  "small_int m \<Longrightarrow> 0 < m \<Longrightarrow> nullable positive_int_of (int_json m) = Some (Some m)"
proof -
  assume m: "small_int m" "0 < m"
  then have "nullable positive_int_of (int_json m) = map_option Some (positive_int_of (int_json m))"
    by (simp add: nullable_def int_json_def)
  then show ?thesis using m by (simp add: positive_int_of_def)
qed

lemma accept_int_jsons: "\<forall>p \<in> set ps. small_int p \<Longrightarrow> accept_all int_of_json (map int_json ps) = Some ps"
  by (induction ps) simp_all

lemma int_json_ok: "small_int i \<Longrightarrow> json_ok (int_json i)"
  using small_int_json by (simp add: int_json_def del: json_ok.simps)

interpretation access_token: cached_value access_token_json cachedAccessTokenSchema
  "\<lambda>v. access_snapshot_ok v \<and> textual v"
proof (unfold_locales, goal_cases)
  case (1 v)
  show ?case
  proof (cases v)
    case None
    then show ?thesis by (simp add: access_token_json_def cachedAccessTokenSchema_def nullable_def)
  next
    case (Some t)
    then have e: "\<forall>d. ts_expiresAt t \<noteq> Some (EDate d)" using 1 by (simp add: textual_def)
    show ?thesis
      using 1 Some nullable_expiry [OF e]
      by (cases "ts_maximumUsageCount t")
        (simp_all add: access_token_json_def cachedAccessTokenSchema_def access_snapshot_ok_def
          nullable_def [of _ "JObj _"] nullable_def [of _ JNull] required_def int_field_def
          string_field_def array_field_def field_def nonnegative_int_of_def accept_int_jsons nullable_int_json)
  qed
next
  case (2 v)
  then show ?case
    by (cases v) (auto simp: access_token_json_def access_snapshot_ok_def int_json_ok expiry_json_def
        split: option.splits expiry.splits)
qed

section \<open>Withdrawal\<close>

context services
begin

lemma revoke_access_run:
  assumes "healthy (view w)" "r \<in> set (contents (rows (view w)) accessTokens)"
  defines "w' \<equiv> snd (revoke_access_token E (act_id r) w)"
  shows "contents (rows (view w')) accessTokens =
      map (\<lambda>x. if x = r then r\<lparr>act_status := ''revoked''\<rparr> else x) (contents (rows (view w)) accessTokens)"
    and "healthy (view w')" "strs (view w') (accessTokenCacheKey E (act_token r)) = None"
    and "\<not> isl (fst (revoke_access_token E (act_id r) w))"
proof -
  let ?f = "\<lambda>r. r\<lparr>act_status := ''revoked''\<rparr>" and ?P = "\<lambda>x. act_id x = act_id r"
  have "\<And>x. ?P x \<Longrightarrow> act_id x = act_id r" .
  note run = access_token_update [where f = ?f and P = ?P, OF assms(1,2) refl this keeps_identity_simps(6)]
  show "contents (rows (view w')) accessTokens =
      map (\<lambda>x. if x = r then r\<lparr>act_status := ''revoked''\<rparr> else x) (contents (rows (view w)) accessTokens)"
    "healthy (view w')" "strs (view w') (accessTokenCacheKey E (act_token r)) = None"
    "\<not> isl (fst (revoke_access_token E (act_id r) w))"
    using run unfolding w'_def
    by (simp_all add: revoke_access_token_def writeAndInvalidate_eq the_first_or_def io_simps access_key_def)
qed

lemma delete_access_run:
  assumes "healthy (view w)" "r \<in> set (contents (rows (view w)) accessTokens)" "act_deletedAt r = None"
  defines "w' \<equiv> snd (delete_access_token E (act_id r) w)"
  shows "contents (rows (view w')) accessTokens =
      map (\<lambda>x. if x = r then r\<lparr>act_deletedAt := Some (now_ms E w)\<rparr> else x)
        (contents (rows (view w)) accessTokens)"
    and "healthy (view w')" "strs (view w') (accessTokenCacheKey E (act_token r)) = None"
    and "\<not> isl (fst (delete_access_token E (act_id r) w))"
proof -
  let ?f = "set_access_token_deleted (Some (now_ms E w))"
    and ?P = "alive act_deletedAt [\<lambda>x. act_id x = act_id r]"
  have "?P r" "\<And>x. ?P x \<Longrightarrow> act_id x = act_id r" using assms(3) by (simp_all add: alive_def)
  note run = access_token_update [where f = ?f and P = ?P, OF assms(1,2) this keeps_identity_simps(4)]
  show "contents (rows (view w')) accessTokens =
      map (\<lambda>x. if x = r then r\<lparr>act_deletedAt := Some (now_ms E w)\<rparr> else x)
        (contents (rows (view w)) accessTokens)"
    "healthy (view w')" "strs (view w') (accessTokenCacheKey E (act_token r)) = None"
    "\<not> isl (fst (delete_access_token E (act_id r) w))"
    using run unfolding w'_def
    by (simp_all add: delete_access_token_def softDelete_def writeAndInvalidate_eq the_first_or_def
        io_simps access_key_def set_access_token_deleted_def)
qed

end

section \<open>Properties\<close>

lemma guard_decision_granted:
  "\<not> isl (guard_decision n c i) \<longleftrightarrow>
     (\<exists>d j. c = Some d \<and> \<not> expired n (ts_expiresAt d) \<and> ts_status d = ''active'' \<and>
        (\<forall>m. ts_maximumUsageCount d = Some m \<longrightarrow> ts_usageCount d < m) \<and>
        i = Some j \<and> j \<noteq> 0 \<and> int j \<in> set (ts_projectIds d))"
  by (cases c; cases i)
    (auto simp: guard_decision_def assertTokenIsUsable_def not_le split: option.splits)

lemma cached_form_sel:
  "ts_status (cached_form d) = ts_status d" "ts_usageCount (cached_form d) = ts_usageCount d"
  "ts_maximumUsageCount (cached_form d) = ts_maximumUsageCount d" "ts_id (cached_form d) = ts_id d"
  "ts_name (cached_form d) = ts_name d" "ts_projectIds (cached_form d) = ts_projectIds d"
  by (simp_all add: cached_form_def)

text \<open>
  whom the access-token guard lets through.  With the cache empty for the token, the request
  passes exactly when there is a live row with this token, active, not expired, with quota left,
  and the request names a live function group in the token's scope.
\<close>

theorem guard_admits_iff:
  assumes "services E view" "healthy (view w)" "t \<noteq> []"
    and "strs (view w) (accessTokenCacheKey E t) = None" "\<forall>w'. now_ms E w' = n"
  shows "(\<not> isl (fst (access_token_guard E (Some (''Bearer '' @ t)) project w))) \<longleftrightarrow>
    (\<exists>r \<in> set (contents (rows (view w)) accessTokens).
       act_token r = t \<and> act_deletedAt r = None \<and> act_status r = ''active'' \<and>
       (\<forall>x. act_expiresAt r = Some x \<longrightarrow> n \<le> x) \<and>
       (\<forall>m. act_maximumUsageCount r = Some m \<longrightarrow> act_usageCount r < m) \<and>
       (\<exists>j \<noteq> 0. project_id_of (rows (view w)) project = Some j \<and>
          (\<exists>tp \<in> set (contents (rows (view w)) accessTokenProjects).
             tp_tokenId tp = act_id r \<and> tp_projectId tp = j)))"
    (is "_ \<longleftrightarrow> (\<exists>r \<in> _. ?ok r)")
proof -
  obtain c where c: "token_lookup (view w) t c"
    and g: "fst (access_token_guard E (Some (''Bearer '' @ t)) project w) =
      guard_decision n c (project_id_of (rows (view w)) project)"
    using services.guard_uncached [OF assms] by blast
  have cf: "conflict_free (rows (view w))"
    using services.indexes [OF assms(1), of w] assms(2) by simp
  have snap: "expired n (ts_expiresAt (access_snapshot_of r ids)) \<longleftrightarrow>
      \<not> (\<forall>x. act_expiresAt r = Some x \<longrightarrow> n \<le> x)" for r ids
    by (auto simp: expired_def access_snapshot_of_def expiry_instant_def split: option.splits)
  have snap_sel: "ts_status (access_snapshot_of r ids) = act_status r"
    "(\<forall>m. ts_maximumUsageCount (access_snapshot_of r ids) = Some m \<longrightarrow>
        ts_usageCount (access_snapshot_of r ids) < m) \<longleftrightarrow>
      (\<forall>m. act_maximumUsageCount r = Some m \<longrightarrow> act_usageCount r < m)" for r ids
    by (auto simp: access_snapshot_of_def)
  have scope: "int j \<in> set (ts_projectIds (access_snapshot_of r ids)) \<longleftrightarrow>
      (\<exists>tp \<in> set (contents (rows (view w)) accessTokenProjects). tp_tokenId tp = act_id r \<and> tp_projectId tp = j)"
    if "mset ids = image_mset tp_projectId
      (filter_mset (\<lambda>tp. tp_tokenId tp = act_id r) (mset (contents (rows (view w)) accessTokenProjects)))"
    for r ids j
    using arg_cong [OF that, of set_mset] by (auto simp: access_snapshot_of_def)
  show ?thesis
  proof (cases c)
    case None
    then show ?thesis unfolding g guard_decision_granted using c by (auto simp: token_lookup_def)
  next
    case (Some d)
    then obtain r ids where r: "r \<in> set (contents (rows (view w)) accessTokens)" "act_token r = t"
      "act_deletedAt r = None" "d = access_snapshot_of r ids"
      and m: "mset ids = image_mset tp_projectId
        (filter_mset (\<lambda>tp. tp_tokenId tp = act_id r) (mset (contents (rows (view w)) accessTokenProjects)))"
      using c by (auto simp: token_lookup_def)
    have one: "(\<exists>x \<in> set (contents (rows (view w)) accessTokens). ?ok x) \<longleftrightarrow> ?ok r"
    proof
      assume "\<exists>x \<in> set (contents (rows (view w)) accessTokens). ?ok x"
      then obtain x where x: "x \<in> set (contents (rows (view w)) accessTokens)" "?ok x" ..
      then have "x = r" using live_tokens_unique [OF cf r(1) x(1) _ r(3)] x(2) r(2) by simp
      then show "?ok r" using x(2) by simp
    qed (use r(1) in blast)
    have "\<not> isl (guard_decision n c (project_id_of (rows (view w)) project)) \<longleftrightarrow> ?ok r"
      unfolding guard_decision_granted Some option.inject ex_simps simp_thms
      using r(2,3) unfolding r(4) snap scope [OF m] snap_sel by auto
    then show ?thesis unfolding g one .
  qed
qed

definition frozen_env :: "sim env" where
  "frozen_env = sim_env\<lparr>now_ms := (\<lambda>_. 1000), pg_now := (\<lambda>_. 1000)\<rparr>"

lemma frozen_services: "services frozen_env sim_view"
  unfolding frozen_env_def services_clocks by (rule sim_services)

definition example_guarded :: sim where
  "example_guarded = sim_start\<lparr>sim_store := empty_store\<lparr>rows :=
     [AccessToken example_token, Project example_project, AccessTokenProject (token_project 7 3)]\<rparr>\<rparr>"

lemma example_guarded_view [simp]:
  "sim_view example_guarded = empty_store\<lparr>rows :=
     [AccessToken example_token, Project example_project, AccessTokenProject (token_project 7 3)]\<rparr>"
  by (simp add: sim_view_def example_guarded_def sim_start_def conflicts_def)

lemma example_guarded_facts:
  "healthy (sim_view example_guarded)" "strs (sim_view example_guarded) k = None"
  "\<forall>w'. now_ms frozen_env w' = 1000" "\<forall>w'. pg_now frozen_env w' = 1000" "''rk_a'' \<noteq> []"
  by (simp_all add: frozen_env_def empty_store_def healthy_def typed_keys_def)

theorem guard_admits_iff_witness:
  "\<not> isl (fst (access_token_guard frozen_env (Some (''Bearer '' @ ''rk_a'')) (Some ''sms'') example_guarded))"
proof -
  have "project_id_of (rows (sim_view example_guarded)) (Some ''sms'') = Some 3"
    by (simp add: project_id_of_def example_project_def)
  then show ?thesis
    unfolding guard_admits_iff [OF frozen_services example_guarded_facts(1,5,2,3)]
    by (simp add: example_token_def token_project_def)
qed

text \<open>
  the cached copy decides like the row.  When a request found nothing in the cache, the next
  one with the same token, served from the copy the first left there, gets the same answer to
  every question of scope, whether the first was let through or not (for rows whose numbers are
  exactly representable and whose expiry lies in the years 0 to 9999).
\<close>

theorem cached_copy_decides_alike:
  fixes project :: "string option"
  assumes "services E view" "healthy (view w)" "t \<noteq> []"
    and "strs (view w) (accessTokenCacheKey E t) = None" "\<forall>w'. now_ms E w' = n"
    and "\<And>c. token_lookup (view w) t c \<Longrightarrow> access_snapshot_ok c"
    and "\<And>r x. r \<in> set (contents (rows (view w)) accessTokens) \<Longrightarrow> act_expiresAt r = Some x \<Longrightarrow>
      fst (civil_of_day (x div DAY_MS)) \<in> {0..9999}"
  defines "w1 \<equiv> snd (access_token_guard E (Some (''Bearer '' @ t)) project w)"
  shows "fst (access_token_guard E (Some (''Bearer '' @ t)) project w1) =
      fst (access_token_guard E (Some (''Bearer '' @ t)) project w) \<and>
    strs (view w1) (accessTokenCacheKey E t) \<noteq> None"
proof -
  let ?k = "accessTokenCacheKey E t"
  obtain c where c: "token_lookup (view w) t c"
    and g: "fst (access_token_guard E (Some (''Bearer '' @ t)) project w) =
      guard_decision n c (project_id_of (rows (view w)) project)"
    and v: "view w1 = put_str ?k (stringify (access_token_json c))
      (Some (seconds (nat (access_token_ttl c)))) (view w)"
    using services.guard_uncached [OF assms(1-5), of project] by (auto simp: w1_def)
  let ?c = "map_option cached_form c"
  have h1: "healthy (view w1)" using assms(2) by (simp add: v)
  have ok: "access_snapshot_ok ?c \<and> textual ?c" using assms(6) [OF c] by simp
  have hit: "cached (view w1) ?k cachedAccessTokenSchema = Some ?c"
    using access_token.cached_after_put [OF ok, of ?k "Some (seconds (nat (access_token_ttl c)))" "view w"]
    by (simp add: v)
  let ?load = "getOrLoad E ?k cachedAccessTokenSchema access_token_json (findByToken E t)
    (\<lambda>v _. access_token_ttl v) w1"
  have load: "fst ?load = Inr ?c" "view (snd ?load) = view w1"
    using services.cache_get_run(1,5) [OF assms(1) h1, of ?k cachedAccessTokenSchema] hit
    by (simp_all add: getOrLoad_eq)
  have "healthy (view (snd ?load))" using h1 by (simp add: load(2))
  note run = services.guard_run(1) [OF assms(1,3) load(1) this, of project]
  have exp: "expired n (ts_expiresAt (cached_form d)) = expired n (ts_expiresAt d)" if cd: "c = Some d" for d
  proof -
    obtain r ids where r: "r \<in> set (contents (rows (view w)) accessTokens)" "d = access_snapshot_of r ids"
      using c unfolding cd token_lookup_def option.case by blast
    show ?thesis
    proof (cases "act_expiresAt r")
      case None
      then show ?thesis by (simp add: r(2) cached_form_def access_snapshot_of_def)
    next
      case (Some x)
      obtain y m e where y: "civil_of_day (x div DAY_MS) = (y, m, e)" by (cases "civil_of_day (x div DAY_MS)")
      then have "0 \<le> y" "y \<le> 9999" using assms(7) [OF r(1) Some] by simp_all
      then have "parse_instant (iso_instant x) = Some x" by (rule parse_instant_iso [OF y])
      moreover have "iso_instant x \<noteq> []" by (simp add: iso_instant_def Let_def y)
      ultimately show ?thesis
        using Some by (simp add: r(2) cached_form_def access_snapshot_of_def expired_def expiry_instant_def)
    qed
  qed
  have "guard_decision n ?c i = guard_decision n c i" for i
  proof (cases c)
    case (Some d)
    show ?thesis
      unfolding Some option.map guard_decision_def assertTokenIsUsable_def option.case option.sel
        cached_form_sel exp [OF Some] ..
  qed (simp add: guard_decision_def)
  then show ?thesis using run assms(5) g by (simp add: load(2) v)
qed

lemma example_lookup:
  "token_lookup (sim_view example_guarded) ''rk_a'' c \<Longrightarrow> access_snapshot_ok c"
  by (auto simp: token_lookup_def access_snapshot_ok_def access_snapshot_of_def example_token_def
      token_project_def small_int_def split: option.splits)

theorem cached_copy_decides_alike_witness:
  "fst (access_token_guard frozen_env (Some (''Bearer '' @ ''rk_a'')) (Some ''sms'')
     (snd (access_token_guard frozen_env (Some (''Bearer '' @ ''rk_a'')) (Some ''sms'') example_guarded))) =
   fst (access_token_guard frozen_env (Some (''Bearer '' @ ''rk_a'')) (Some ''sms'') example_guarded)"
proof -
  have "act_expiresAt r = None" if "r \<in> set (contents (rows (sim_view example_guarded)) accessTokens)" for r
    using that by (simp add: example_token_def)
  then show ?thesis
    using cached_copy_decides_alike [OF frozen_services example_guarded_facts(1,5,2,3) example_lookup,
        of "Some ''sms''"] by auto
qed

text \<open>
  withdrawal of an access token is immediate.  Once a live token was revoked or deleted, every
  request with it is refused, whatever group it names and whatever the cache held before.
\<close>

theorem withdrawn_access_token_refused:
  assumes "services E view" "healthy (view w)" "r \<in> set (contents (rows (view w)) accessTokens)"
    and "act_deletedAt r = None" "act_token r \<noteq> []" "\<forall>w'. now_ms E w' = n"
  shows "isl (fst (access_token_guard E (Some (''Bearer '' @ act_token r)) project
      (snd (revoke_access_token E (act_id r) w)))) \<and>
    isl (fst (access_token_guard E (Some (''Bearer '' @ act_token r)) project
      (snd (delete_access_token E (act_id r) w))))"
proof -
  note rev = services.revoke_access_run [OF assms(1-3)]
  note del = services.delete_access_run [OF assms(1-4)]
  have cf: "conflict_free (rows (view w))"
    using services.indexes [OF assms(1), of w] assms(2) by simp
  note one = live_tokens_unique [OF cf assms(3) _ _ assms(4)]
  have r: "\<forall>x \<in> set (contents (rows (view (snd (revoke_access_token E (act_id r) w)))) accessTokens).
      act_token x = act_token r \<longrightarrow> act_deletedAt x = None \<longrightarrow> act_status x \<noteq> ''active''"
    unfolding rev(1) using one by auto
  have d: "\<forall>x \<in> set (contents (rows (view (snd (delete_access_token E (act_id r) w)))) accessTokens).
      act_token x = act_token r \<longrightarrow> act_deletedAt x \<noteq> None"
    unfolding del(1) using one by auto
  obtain c where c: "token_lookup (view (snd (revoke_access_token E (act_id r) w))) (act_token r) c"
    and gc: "fst (access_token_guard E (Some (''Bearer '' @ act_token r)) project
        (snd (revoke_access_token E (act_id r) w))) =
      guard_decision n c (project_id_of (rows (view (snd (revoke_access_token E (act_id r) w)))) project)"
    using services.guard_uncached [OF assms(1) rev(2) assms(5) rev(3) assms(6)] by blast
  obtain e where e: "token_lookup (view (snd (delete_access_token E (act_id r) w))) (act_token r) e"
    and ge: "fst (access_token_guard E (Some (''Bearer '' @ act_token r)) project
        (snd (delete_access_token E (act_id r) w))) =
      guard_decision n e (project_id_of (rows (view (snd (delete_access_token E (act_id r) w)))) project)"
    using services.guard_uncached [OF assms(1) del(2) assms(5) del(3) assms(6)] by blast
  have "isl (guard_decision n c i)" for i
  proof (rule ccontr)
    assume "\<not> isl (guard_decision n c i)"
    then obtain x where "c = Some x" "ts_status x = ''active''" unfolding guard_decision_granted by blast
    then show False using c r by (auto simp: token_lookup_def access_snapshot_of_def)
  qed
  moreover have "isl (guard_decision n e i)" for i
  proof (rule ccontr)
    assume "\<not> isl (guard_decision n e i)"
    then obtain x where "e = Some x" unfolding guard_decision_granted by blast
    then show False using e d by (auto simp: token_lookup_def)
  qed
  ultimately show ?thesis unfolding gc ge by blast
qed

theorem withdrawn_access_token_refused_witness:
  "isl (fst (access_token_guard frozen_env (Some (''Bearer '' @ ''rk_a'')) (Some ''sms'')
     (snd (revoke_access_token frozen_env 7 example_guarded))))"
proof -
  have "example_token \<in> set (contents (rows (sim_view example_guarded)) accessTokens)" by simp
  moreover have "act_deletedAt example_token = None" "act_token example_token = ''rk_a''" "act_id example_token = 7"
    by (simp_all add: example_token_def)
  ultimately show ?thesis
    using withdrawn_access_token_refused [OF frozen_services example_guarded_facts(1), of example_token 1000
        "Some ''sms''"] example_guarded_facts(3) by simp
qed

end
