(* ===== verification/Frames.thy ===== *)
theory Frames
  imports Db_Util Metrics
begin

text \<open>
  What an operation leaves alone.  \<open>relates view R m\<close>: run in a healthy world, \<open>m\<close> leaves the
  world healthy and its store related to the old one, whether it returns or throws.  When \<open>R\<close> is
  reflexive and transitive the rules follow the structure of a method (locale \<open>store_preorder\<close>), so that a
  frame lemma is one \<open>intro\<close>.  The usual case is \<open>keeps\<close>: what \<open>obs\<close> shows of the store is
  unchanged.
\<close>

definition relates :: "('w \<Rightarrow> store) \<Rightarrow> (store \<Rightarrow> store \<Rightarrow> bool) \<Rightarrow> ('w, 'a) io \<Rightarrow> bool" where
  "relates view R m \<longleftrightarrow>
     (\<forall>w. healthy (view w) \<longrightarrow> healthy (view (snd (m w))) \<and> R (view w) (view (snd (m w))))"

definition keeps :: "('w \<Rightarrow> store) \<Rightarrow> (store \<Rightarrow> 'b) \<Rightarrow> ('w, 'a) io \<Rightarrow> bool" where
  "keeps view obs = relates view (\<lambda>s t. obs t = obs s)"

lemma relatesD:
  assumes "relates view R m" "healthy (view w)"
  shows "healthy (view (snd (m w)))" "R (view w) (view (snd (m w)))"
  using assms by (auto simp: relates_def)

locale store_preorder =
  fixes R :: "store \<Rightarrow> store \<Rightarrow> bool"
  assumes R_refl: "R s s" and R_trans: "R s t \<Longrightarrow> R t u \<Longrightarrow> R s u"
begin

lemma return: "relates view R (returnM a)"
  and throw: "relates view R (throwM e)"
  by (simp_all add: relates_def R_refl)

lemma bind:
  "relates view R m \<Longrightarrow> (\<And>w a. fst (m w) = Inr a \<Longrightarrow> relates view R (f a)) \<Longrightarrow> relates view R (bindM m f)"
  by (simp add: relates_def bindM_def split: sum.splits) (meson R_trans)

lemma sequence: "relates view R m \<Longrightarrow> relates view R n \<Longrightarrow> relates view R (thenM m n)"
  by (simp add: relates_def thenM_def split: sum.splits) (meson R_trans)

lemma catch: "relates view R m \<Longrightarrow> (\<And>e. relates view R (h e)) \<Longrightarrow> relates view R (catchM m h)"
  by (simp add: relates_def catchM_def split: sum.splits) (meson R_trans)

lemma finally_run: "relates view R m \<Longrightarrow> relates view R n \<Longrightarrow> relates view R (finallyM m n)"
  by (simp add: relates_def finallyM_def split: sum.splits) (meson R_trans)

lemma ignored: "relates view R m \<Longrightarrow> relates view R (ignoreM m)"
  by (simp add: relates_def)

lemma loop: "(\<And>x. x \<in> set xs \<Longrightarrow> relates view R (f x)) \<Longrightarrow> relates view R (forM xs f)"
  by (induction xs) (simp_all add: return sequence)

lemma branch: "(b \<Longrightarrow> relates view R m) \<Longrightarrow> (\<not> b \<Longrightarrow> relates view R n) \<Longrightarrow> relates view R (if b then m else n)"
  by simp

lemma option_branch:
  "(v = None \<Longrightarrow> relates view R m) \<Longrightarrow> (\<And>x. v = Some x \<Longrightarrow> relates view R (f x)) \<Longrightarrow>
     relates view R (case v of None \<Rightarrow> m | Some x \<Rightarrow> f x)"
  by (cases v) simp_all

text \<open>A method that reads a clock, so that its text mentions the world it starts in.\<close>

lemma bind_at:
  "(\<And>w. relates view R (m w)) \<Longrightarrow> (\<And>w a. relates view R (f w a)) \<Longrightarrow>
     relates view R (\<lambda>w. bindM (m w) (f w) w)"
  by (simp add: relates_def bindM_def split: sum.splits) (meson R_trans)

lemma sequence_at:
  "(\<And>w. relates view R (m w)) \<Longrightarrow> (\<And>w. relates view R (n w)) \<Longrightarrow>
     relates view R (\<lambda>w. thenM (m w) (n w) w)"
  by (simp add: relates_def thenM_def split: sum.splits) (meson R_trans)

end

lemma run_at: "(\<And>w. relates view R (m w)) \<Longrightarrow> relates view R (\<lambda>w. m w w)"
  by (simp add: relates_def)

interpretation same: store_preorder "\<lambda>s t. obs t = obs s" for obs :: "store \<Rightarrow> 'b"
  by unfold_locales simp_all

text \<open>The rows of one table.\<close>

definition table_of :: "'a table \<Rightarrow> store \<Rightarrow> 'a list" where
  "table_of T s = contents (rows s) T"

lemma table_of_simps [simp]:
  "table_of T (put_str k v t s) = table_of T s" "table_of T (del_keys ks s) = table_of T s"
  "table_of T (expire_key k t' s) = table_of T s" "table_of T (add_counter k d s) = table_of T s"
  by (simp_all add: table_of_def)

lemma keeps_unfold:
  "keeps view obs m \<longleftrightarrow>
     (\<forall>w. healthy (view w) \<longrightarrow> healthy (view (snd (m w))) \<and> obs (view (snd (m w))) = obs (view w))"
  by (simp add: keeps_def relates_def)

lemma keepsD:
  assumes "keeps view obs m" "healthy (view w)"
  shows "healthy (view (snd (m w)))" "obs (view (snd (m w))) = obs (view w)"
  using assms by (auto simp: keeps_unfold)

lemmas keeps_return = same.return [folded keeps_def]
lemmas keeps_throw = same.throw [folded keeps_def]
lemmas keeps_catch = same.catch [folded keeps_def]
lemmas keeps_finally = same.finally_run [folded keeps_def]
lemmas keeps_ignore = same.ignored [folded keeps_def]
lemmas keeps_then = same.sequence [folded keeps_def]

lemma keeps_bind: "keeps view obs m \<Longrightarrow> (\<And>a. keeps view obs (f a)) \<Longrightarrow> keeps view obs (bindM m f)"
  unfolding keeps_def by (rule same.bind)

lemma keeps_ignore_rows: "keeps view obs m \<Longrightarrow> keeps view obs (ignore_rows m)"
  unfolding ignore_rows_def by (intro keeps_then keeps_return)

lemma keeps_forM: "(\<And>x. keeps view obs (f x)) \<Longrightarrow> keeps view obs (forM xs f)"
  unfolding keeps_def by (rule same.loop)

lemma keeps_if: "keeps view obs m \<Longrightarrow> keeps view obs n \<Longrightarrow> keeps view obs (if b then m else n)"
  by simp

lemma keeps_option:
  "keeps view obs m \<Longrightarrow> (\<And>x. keeps view obs (f x)) \<Longrightarrow>
     keeps view obs (case v of None \<Rightarrow> m | Some x \<Rightarrow> f x)"
  by (cases v) simp_all

lemma keeps_list:
  "keeps view obs m \<Longrightarrow> (\<And>x xs. keeps view obs (f x xs)) \<Longrightarrow>
     keeps view obs (case v of [] \<Rightarrow> m | x # xs \<Rightarrow> f x xs)"
  by (cases v) simp_all

lemma keeps_pair: "(\<And>x y. keeps view obs (f x y)) \<Longrightarrow> keeps view obs (case v of (x, y) \<Rightarrow> f x y)"
  by (cases v) simp

lemmas keeps_at = same.bind_at [folded keeps_def] same.sequence_at [folded keeps_def]

lemma keeps_run_at: "(\<And>w. keeps view obs (m w)) \<Longrightarrow> keeps view obs (\<lambda>w. m w w)"
  unfolding keeps_def by (rule run_at)

text \<open>What two observations see together.\<close>

lemma keeps_both: "keeps view f m \<Longrightarrow> keeps view g m \<Longrightarrow> keeps view (\<lambda>s. (f s, g s)) m"
  by (simp add: keeps_unfold)

lemma keeps_through: "keeps view f m \<Longrightarrow> keeps view (\<lambda>s. g (f s)) m"
  by (simp add: keeps_unfold)

lemma keeps_relates: "keeps view obs m \<Longrightarrow> (\<And>s t. obs t = obs s \<Longrightarrow> R s t) \<Longrightarrow> relates view R m"
  by (simp add: keeps_unfold relates_def)

lemma keeps_all: "keeps view (\<lambda>s. s) m \<Longrightarrow> keeps view obs m"
  by (simp add: keeps_unfold)

lemma contents_append_other:
  "disjoint_tables T U \<Longrightarrow> contents (rs @ [emb T x]) U = contents rs U"
  by (simp add: disjoint_tables_def)

context services
begin

lemma keeps_select: "keeps view obs (select_from E T P)"
  by (simp add: keeps_unfold)

lemma keeps_db_select: "keeps view obs (db_select E P)"
  unfolding keeps_unfold using select by (metis healthy_def)

lemma keeps_db_query: "keeps view obs (db_query E f)"
  unfolding db_query_def by (intro keeps_bind keeps_return keeps_db_select)

lemma keeps_random:
  "keeps view obs (random_uuid E)" "keeps view obs (random_token E)" "keeps view obs (http_fetch E u b)"
  "keeps view obs (queue_repeat E q nm t)"
  by (simp_all add: keeps_unfold fetch)

lemma keeps_redis_read:
  "\<not> is_set_key k \<Longrightarrow> keeps view obs (redis_get E k)" "is_set_key k \<Longrightarrow> keeps view obs (redis_smembers E k)"
  "\<not> is_set_key k \<Longrightarrow> keeps view obs (redis_exists E k)"
  by (simp_all add: keeps_unfold)

text \<open>The rows of a table, under the commands that do not write to it.\<close>

lemma keeps_redis_write:
  "keeps view (table_of T) (redis_del E ks)" "keeps view (table_of T) (redis_publish E c m)"
  "keeps view (table_of T) (queue_add E q j)" "keeps view (table_of T) (redis_expire E k t)"
  "\<not> is_set_key k \<Longrightarrow> keeps view (table_of T) (redis_set_ttl E k v t)"
  "\<not> is_set_key k \<Longrightarrow> keeps view (table_of T) (redis_set E k v)"
  "\<not> is_set_key k \<Longrightarrow> keeps view (table_of T) (redis_set_nx E k v t)"
  by (simp_all add: keeps_unfold table_of_def)

lemma keeps_update:
  assumes "table_ok U" "disjoint_tables U T"
  shows "keeps view (table_of T) (update_table E U P f)"
  unfolding keeps_unfold
proof (intro allI impI conjI)
  fix w assume h: "healthy (view w)"
  let ?rs = "update_rows (on_table U P) (map_table U f) (rows (view w))"
  have "view (snd (update_table E U P f w)) = (view w)\<lparr>rows := ?rs\<rparr> \<or>
      view (snd (update_table E U P f w)) = view w"
    using run_update(2) [OF h assms(1)] run_update_conflict(2) [OF h] by blast
  moreover have "contents ?rs T = contents (rows (view w)) T"
    unfolding update_rows_def by (rule contents_update_other [OF assms])
  ultimately show "healthy (view (snd (update_table E U P f w)))"
    "table_of T (view (snd (update_table E U P f w))) = table_of T (view w)"
    using h by (auto simp: table_of_def)
qed

lemma keeps_delete:
  assumes "table_ok U" "disjoint_tables U T"
  shows "keeps view (table_of T) (delete_from E U P)"
  using contents_delete_other [OF assms] by (simp add: keeps_unfold table_of_def)

lemma keeps_insert:
  assumes "table_ok U" "disjoint_tables U T"
  shows "keeps view (table_of T) (insert_into E U mk)" "keeps view (table_of T) (insert_or_ignore E U mk)"
  unfolding keeps_unfold
proof (safe, goal_cases)
  case (1 w)
  then show ?case using run_insert [OF 1 assms(1), of mk] by (auto split: if_splits)
next
  case (2 w)
  then show ?case
    using run_insert [OF 2 assms(1), of mk] contents_append_other [OF assms(2)]
    by (auto simp: table_of_def split: if_splits)
next
  case (3 w)
  then show ?case using run_insert_or_ignore [OF 3 assms(1), of mk] by (auto split: if_splits)
next
  case (4 w)
  then show ?case
    using run_insert_or_ignore [OF 4 assms(1), of mk] contents_append_other [OF assms(2)]
    by (auto simp: table_of_def split: if_splits)
qed

text \<open>A rollback restores all rows.\<close>

lemma keeps_transaction:
  assumes "keeps view (table_of T) m"
  shows "keeps view (table_of T) (transaction E m)"
  unfolding keeps_unfold
proof (intro allI impI)
  fix w assume h: "healthy (view w)"
  note k = keepsD [OF assms h]
  have "view (db_rollback E w (snd (m w))) = (view (snd (m w)))\<lparr>rows := rows (view w)\<rparr>"
    using rollback [of w "snd (m w)"] h k(1) by simp
  then show "healthy (view (snd (transaction E m w))) \<and>
      table_of T (view (snd (transaction E m w))) = table_of T (view w)"
    using k by (simp add: transaction_def table_of_def split: sum.splits)
qed

lemma keeps_recordCompletion:
  assumes "disjoint_tables rpcDailyMetrics T" "disjoint_tables deviceDailyMetrics T"
  shows "keeps view (table_of T) (recordCompletion E j)"
proof -
  have c: "contents (upsert_rows (RpcMetric n) (map_table rpcDailyMetrics f) rs) T = contents rs T" for n f rs
    by (rule contents_upsert_other [of rpcDailyMetrics _ n, unfolded emb_simps])
      (simp, rule assms, rule rpc_conflicts)
  have d: "contents (upsert_rows (DeviceMetric n) (map_table deviceDailyMetrics f) rs) T = contents rs T" for n f rs
    by (rule contents_upsert_other [of deviceDailyMetrics _ n, unfolded emb_simps])
      (simp, rule assms, rule device_conflicts_other)
  have rpc: "keeps view (table_of T) (upsert_into E rpcDailyMetrics (rpc_metric_new j t) (rpc_metric_bump j u))" for t u
    unfolding keeps_unfold by (simp add: upsert_rpc_run table_of_def c)
  have device: "keeps view (table_of T)
      (upsert_into E deviceDailyMetrics (device_metric_new j d t) (device_metric_bump j u))" for d t u
    unfolding keeps_unfold by (simp add: upsert_device_run table_of_def d)
  show ?thesis
    unfolding recordCompletion_def
    by (intro keeps_transaction keeps_at(2) keeps_option keeps_if keeps_return rpc keeps_run_at [OF device])
qed

end

lemmas keeps_intros =
  keeps_return keeps_throw keeps_bind keeps_then keeps_catch keeps_finally keeps_ignore
  keeps_ignore_rows keeps_forM keeps_if keeps_option keeps_list keeps_pair

end
