(* ===== verification/Search.thy ===== *)
theory Search
  imports Frames Calendar Json_Text
begin

text \<open>
  \<^verbatim>\<open>infrastructure/search/search.service.ts\<close>, the client of the Manticore index that holds the
  payloads of the calls, and \<^verbatim>\<open>application/request-logs/request-log.doc.ts\<close>, the document it
  stores.  The service keeps one flag, \<^verbatim>\<open>ready\<close>, so its methods run on the world paired with
  that flag.
\<close>

section \<open>Methods of an object with a state of its own\<close>

definition with_world :: "('w, 'a) io \<Rightarrow> ('w \<times> 's, 'a) io" where
  "with_world m p = (fst (m (fst p)), (snd (m (fst p)), snd p))"

definition set_own :: "'s \<Rightarrow> ('w \<times> 's, unit) io" where
  "set_own s p = (Inr (), (fst p, s))"

lemma with_world_sel [simp]:
  "fst (with_world m p) = fst (m (fst p))" "fst (snd (with_world m p)) = snd (m (fst p))"
  "snd (snd (with_world m p)) = snd p"
  by (simp_all add: with_world_def)

lemma set_own_sel [simp]: "fst (set_own s p) = Inr ()" "snd (set_own s p) = (fst p, s)"
  by (simp_all add: set_own_def)

section \<open>The document\<close>

record manticore_doc =
  md_request_id :: string
  md_project_name :: string
  md_action_name :: string
  md_client_id :: string
  md_status :: string
  md_http_code :: int
  md_latency_ms :: int
  md_created_at :: string
  md_finished_at :: string
  md_request_payload_json :: string
  md_response_payload_json :: string
  md_app_audit_json :: string
  md_error_message :: string

text \<open>\<open>txt\<close> gives the text of an exception message.\<close>

definition buildManticoreDoc :: "(message \<Rightarrow> string) \<Rightarrow> request_log_job \<Rightarrow> manticore_doc" where
  "buildManticoreDoc txt j =
     \<lparr>md_request_id = rlj_requestId j, md_project_name = rlj_project j, md_action_name = rlj_action j,
      md_client_id = or_default [] (rlj_clientId j), md_status = rlj_status j,
      md_http_code = rlj_httpCode j, md_latency_ms = rlj_latencyMs j,
      md_created_at = iso_instant (rlj_createdAt j), md_finished_at = iso_instant (rlj_finishedAt j),
      md_request_payload_json = stringify (rlj_requestPayload j),
      md_response_payload_json = stringify (or_default JNull (rlj_responsePayload j)),
      md_app_audit_json = stringify (or_default JNull (rlj_appAudit j)),
      md_error_message = (case rlj_error j of None \<Rightarrow> [] | Some m \<Rightarrow> txt m)\<rparr>"

definition manticore_json :: "manticore_doc \<Rightarrow> json" where
  "manticore_json d = JObj
     [(''request_id'', JStr (md_request_id d)), (''project_name'', JStr (md_project_name d)),
      (''action_name'', JStr (md_action_name d)), (''client_id'', JStr (md_client_id d)),
      (''status'', JStr (md_status d)), (''http_code'', JNum (of_int (md_http_code d))),
      (''latency_ms'', JNum (of_int (md_latency_ms d))), (''created_at'', JStr (md_created_at d)),
      (''finished_at'', JStr (md_finished_at d)),
      (''request_payload_json'', JStr (md_request_payload_json d)),
      (''response_payload_json'', JStr (md_response_payload_json d)),
      (''app_audit_json'', JStr (md_app_audit_json d)), (''error_message'', JStr (md_error_message d))]"

section \<open>Operations\<close>

definition TABLE :: string where
  "TABLE = ''request_logs''"

definition rawSql :: "'w env \<Rightarrow> string \<Rightarrow> string \<Rightarrow> ('w, string) io" where
  "rawSql E base query =
     bindM (http_fetch E (base @ ''/cli'') (JStr query))
       (\<lambda>r. if hr_ok r then returnM (hr_text r) else throwM Infra)"

text \<open>\<^verbatim>\<open>/\bword\b/i\<close>; the flag says whether the character before is a word character.\<close>

definition is_word_char :: "char \<Rightarrow> bool" where
  "is_word_char c \<longleftrightarrow>
     is_digit c \<or> c = CHR ''_'' \<or> (let n = (of_char (lower_char c) :: nat) in 97 \<le> n \<and> n \<le> 122)"

fun has_word :: "string \<Rightarrow> bool \<Rightarrow> string \<Rightarrow> bool" where
  "has_word word inside [] = False"
| "has_word word inside (c # cs) =
     (\<not> inside \<and> prefix word (map lower_char (c # cs)) \<and>
        (case drop (length word) (c # cs) of [] \<Rightarrow> True | d # _ \<Rightarrow> \<not> is_word_char d) \<or>
      has_word word (is_word_char c) cs)"

definition hasColumn :: "'w env \<Rightarrow> string \<Rightarrow> ('w, bool) io" where
  "hasColumn E base =
     bindM (rawSql E base (''DESC '' @ TABLE)) (\<lambda>t. returnM (has_word ''app_audit_json'' False t))"

definition ensureAppAuditColumn :: "'w env \<Rightarrow> string \<Rightarrow> ('w, unit) io" where
  "ensureAppAuditColumn E base =
     bindM (hasColumn E base) (\<lambda>present.
       if present then returnM ()
       else catchM
         (thenM (rawSql E base (''ALTER TABLE '' @ TABLE @ '' ADD COLUMN app_audit_json text'')) (returnM ()))
         (\<lambda>e. bindM (hasColumn E base) (\<lambda>now_present. if \<not> now_present then throwM e else returnM ())))"

definition create_table_text :: string where
  "create_table_text = ''CREATE TABLE IF NOT EXISTS '' @ TABLE @
     '' (request_id string, project_name string, action_name string, client_id string, '' @
     ''status string, http_code int, latency_ms int, created_at string, finished_at string, '' @
     ''request_payload_json text, response_payload_json text, app_audit_json text, error_message text)''"

definition ensureTable :: "'w env \<Rightarrow> string \<Rightarrow> ('w \<times> bool, unit) io" where
  "ensureTable E base =
     thenM (with_world (thenM (rawSql E base create_table_text) (ensureAppAuditColumn E base)))
       (set_own True)"

definition search_onModuleInit :: "'w env \<Rightarrow> string \<Rightarrow> ('w \<times> bool, unit) io" where
  "search_onModuleInit E base = ignoreM (ensureTable E base)"

text \<open>
  \<^verbatim>\<open>Number.parseInt(s, 16)\<close>, \<open>None\<close> for \<^verbatim>\<open>NaN\<close>; the argument of \<^verbatim>\<open>docId\<close> has no minus sign
  and at most 13 digits, which a double holds exactly.
\<close>

definition hex_value :: "char \<Rightarrow> nat option" where
  "hex_value c =
     (let n = (of_char c :: nat) in
      if 48 \<le> n \<and> n \<le> 57 then Some (n - 48)
      else if 97 \<le> n \<and> n \<le> 102 then Some (n - 87)
      else if 65 \<le> n \<and> n \<le> 70 then Some (n - 55)
      else None)"

definition hex_digits_of :: "string \<Rightarrow> string" where
  "hex_digits_of s =
     (let t = dropWhile is_js_space s;
          u = (if t \<noteq> [] \<and> hd t = CHR ''+'' then tl t else t);
          v = (if take 2 u = ''0x'' \<or> take 2 u = ''0X'' then drop 2 u else u) in
      takeWhile (\<lambda>c. hex_value c \<noteq> None) v)"

definition parseInt16 :: "string \<Rightarrow> nat option" where
  "parseInt16 s =
     (let ds = hex_digits_of s in
      if ds = [] then None else Some (foldl (\<lambda>n c. 16 * n + the (hex_value c)) 0 ds))"

definition docId :: "string \<Rightarrow> nat" where
  "docId requestId =
     (let hex = take 13 (filter (\<lambda>c. c \<noteq> CHR ''-'') requestId) in
      case parseInt16 hex of None \<Rightarrow> 1 | Some n \<Rightarrow> if n = 0 then 1 else n)"

definition indexPayload :: "'w env \<Rightarrow> string \<Rightarrow> manticore_doc \<Rightarrow> ('w \<times> bool, unit) io" where
  "indexPayload E base d p =
     thenM (if \<not> snd p then ensureTable E base else returnM ())
       (bindM (with_world (http_fetch E (base @ ''/replace'')
                 (JObj [(''index'', JStr TABLE), (''id'', JNum (of_nat (docId (md_request_id d)))),
                        (''doc'', manticore_json d)])))
          (\<lambda>r. if hr_ok r then returnM () else throwM Infra)) p"

text \<open>\<^verbatim>\<open>v?.k\<close> and \<^verbatim>\<open>v?.[0]\<close>: nothing for the values that have no such property.\<close>

definition member_of :: "string \<Rightarrow> json option \<Rightarrow> json option" where
  "member_of k v = Option.bind v (field k)"

definition element0 :: "json option \<Rightarrow> json option" where
  "element0 v =
     Option.bind v (\<lambda>x. case x of JArr ys \<Rightarrow> first ys | _ \<Rightarrow> field ''0'' x)"

definition search_query :: "string \<Rightarrow> json" where
  "search_query requestId =
     JObj [(''index'', JStr TABLE),
           (''query'', JObj [(''equals'', JObj [(''request_id'', JStr requestId)])]),
           (''limit'', JNum 1)]"

definition source_of_hits :: "json option \<Rightarrow> json option" where
  "source_of_hits searchResult =
     (case member_of ''_source'' (element0 (member_of ''hits'' (member_of ''hits'' searchResult))) of
        Some JNull \<Rightarrow> None
      | s \<Rightarrow> s)"

definition getByRequestId :: "'w env \<Rightarrow> string \<Rightarrow> string \<Rightarrow> ('w, json option) io" where
  "getByRequestId E base requestId =
     catchM
       (bindM (http_fetch E (base @ ''/search'') (search_query requestId)) (\<lambda>r.
          if \<not> hr_ok r then returnM None
          else case hr_json r of None \<Rightarrow> throwM Infra | Some j \<Rightarrow> returnM (source_of_hits (Some j))))
       (\<lambda>_. returnM None)"

section \<open>The index never touches the store\<close>

abbreviation world_view :: "('w \<Rightarrow> store) \<Rightarrow> 'w \<times> 's \<Rightarrow> store" where
  "world_view view p \<equiv> view (fst p)"

lemma keeps_with_world: "keeps view obs m \<Longrightarrow> keeps (world_view view) obs (with_world m)"
  by (simp add: keeps_unfold with_world_def)

lemma keeps_set_own: "keeps (world_view view) obs (set_own s)"
  by (simp add: keeps_unfold)

context services
begin

lemma rawSql_keeps: "keeps view obs (rawSql E base q)"
  unfolding rawSql_def by (intro keeps_intros keeps_random)

lemma hasColumn_keeps: "keeps view obs (hasColumn E base)"
  unfolding hasColumn_def by (intro keeps_intros rawSql_keeps)

lemma ensureAppAuditColumn_keeps: "keeps view obs (ensureAppAuditColumn E base)"
  unfolding ensureAppAuditColumn_def by (intro keeps_intros hasColumn_keeps rawSql_keeps)

lemma ensureTable_keeps: "keeps (world_view view) obs (ensureTable E base)"
  unfolding ensureTable_def
  by (intro keeps_intros keeps_with_world keeps_set_own ensureAppAuditColumn_keeps rawSql_keeps)

lemma indexPayload_keeps: "keeps (world_view view) obs (indexPayload E base d)"
  unfolding indexPayload_def
  by (rule keeps_at(2)) (intro keeps_intros keeps_with_world ensureTable_keeps keeps_random)+

lemma getByRequestId_keeps: "keeps view obs (getByRequestId E base i)"
  unfolding getByRequestId_def by (intro keeps_intros keeps_random)

end

section \<open>Document ids\<close>

lemma hex_value_bound: "hex_value c = Some n \<Longrightarrow> n < 16"
  by (auto simp: hex_value_def Let_def split: if_splits)

lemma hex_fold_bound:
  "\<forall>c \<in> set cs. hex_value c \<noteq> None \<Longrightarrow>
     foldl (\<lambda>n c. 16 * n + the (hex_value c)) k cs < (k + 1) * 16 ^ length cs"
proof (induction cs arbitrary: k)
  case (Cons c cs)
  obtain n where n: "hex_value c = Some n" using Cons.prems by auto
  have "foldl (\<lambda>n c. 16 * n + the (hex_value c)) (16 * k + n) cs < (16 * k + n + 1) * 16 ^ length cs"
    using Cons by simp
  also have "\<dots> \<le> (16 * (k + 1)) * 16 ^ length cs"
    using hex_value_bound [OF n] by (intro mult_right_mono) simp_all
  finally show ?case by (simp add: n algebra_simps)
qed simp

lemma hex_digits_of_length: "length (hex_digits_of s) \<le> length s"
proof -
  have w: "length (takeWhile P v) \<le> n" if "length v \<le> n" for P n and v :: string
    using length_takeWhile_le [of P v] that by simp
  have d: "length (tl v) \<le> n" "length (drop k v) \<le> n" if "length v \<le> n" for n k and v :: string
    using that by simp_all
  have c: "length (if b then u else v) \<le> n" if "length u \<le> n" "length v \<le> n" for b n and u v :: string
    using that by simp
  show ?thesis
    unfolding hex_digits_of_def Let_def by (intro w d c length_dropWhile_le)
qed

lemma parseInt16_bound:
  assumes "parseInt16 s = Some n" "length s \<le> k"
  shows "n < 16 ^ k"
proof -
  have n: "n = foldl (\<lambda>n c. 16 * n + the (hex_value c)) 0 (hex_digits_of s)"
    using assms(1) by (simp add: parseInt16_def Let_def split: if_splits)
  have "n < (0 + 1) * 16 ^ length (hex_digits_of s)"
    unfolding n by (rule hex_fold_bound) (auto simp: hex_digits_of_def Let_def dest: set_takeWhileD)
  also have "\<dots> \<le> 16 ^ k"
    using hex_digits_of_length [of s] assms(2) by (simp only: add_0 mult_1) (intro power_increasing, simp_all)
  finally show ?thesis .
qed

text \<open>
  the id of a document is always positive and below \<open>2 ^ 52\<close>, so that the number written
  to the index is exact, whatever the request id is.
\<close>

theorem doc_id_bounds: "1 \<le> docId requestId \<and> docId requestId < 2 ^ 52"
proof -
  have "n < 2 ^ 52" if "parseInt16 (take 13 (filter (\<lambda>c. c \<noteq> CHR ''-'') requestId)) = Some n" for n
    using parseInt16_bound [OF that, of 13] by simp
  then show ?thesis by (auto simp: docId_def Let_def split: option.splits)
qed

end
