(* ===== verification/Request_Logs.thy ===== *)
theory Request_Logs
  imports Search Access_Token Devices
begin

text \<open>
  \<^verbatim>\<open>application/request-logs/request-logs.service.ts\<close>, the rows that witness every call
  (one per request id; the payloads are in the search index), and
  \<^verbatim>\<open>application/monitor/monitor.service.ts\<close>, which shows them.
\<close>

section \<open>Writing\<close>

definition new_request_log :: "request_log_job \<Rightarrow> string \<Rightarrow> nat \<Rightarrow> request_log_row" where
  "new_request_log j state i =
     \<lparr>rql_id = i, rql_requestId = rlj_requestId j, rql_projectName = rlj_project j,
      rql_actionName = rlj_action j, rql_clientId = rlj_clientId j,
      rql_clientRequestId = rlj_clientRequestId j, rql_requesterUserId = rlj_requesterUserId j,
      rql_accessTokenId = rlj_accessTokenId j, rql_status = rlj_status j,
      rql_httpCode = Some (rlj_httpCode j), rql_latencyMs = Some (rlj_latencyMs j),
      rql_errorMessage = rlj_error j, rql_payloadState = state,
      rql_createdAt = rlj_createdAt j, rql_finishedAt = Some (rlj_finishedAt j)\<rparr>"

text \<open>
  The columns of \<^verbatim>\<open>request_logs\<close> are bounded (\<^verbatim>\<open>varchar(n)\<close>, 32-bit integers); the database refuses
  a value that does not fit (SQLSTATE class 22) before it looks at the unique index.  The text of
  the server's own messages is short.
\<close>

definition int4_fits :: "int \<Rightarrow> bool" where
  "int4_fits i \<longleftrightarrow> - (2 ^ 31) \<le> i \<and> i < 2 ^ 31"

definition text_fits :: "nat \<Rightarrow> string option \<Rightarrow> bool" where
  "text_fits n v = (case v of None \<Rightarrow> True | Some s \<Rightarrow> length s \<le> n)"

definition message_fits :: "nat \<Rightarrow> message option \<Rightarrow> bool" where
  "message_fits n v = (case v of Some (MText s) \<Rightarrow> length s \<le> n | _ \<Rightarrow> True)"

definition request_log_fits :: "request_log_job \<Rightarrow> bool" where
  "request_log_fits j \<longleftrightarrow>
     text_fits 64 (Some (rlj_requestId j)) \<and> text_fits 128 (Some (rlj_project j)) \<and>
     text_fits 128 (Some (rlj_action j)) \<and> text_fits 128 (rlj_clientId j) \<and>
     text_fits 128 (rlj_clientRequestId j) \<and> text_fits 32 (Some (rlj_status j)) \<and>
     message_fits 1024 (rlj_error j) \<and> int4_fits (rlj_httpCode j) \<and> int4_fits (rlj_latencyMs j)"

definition writeSpine :: "'w env \<Rightarrow> request_log_job \<Rightarrow> string \<Rightarrow> ('w, bool) io" where
  "writeSpine E j state =
     (if \<not> request_log_fits j then throwM (PgError ''22001'')
      else bindM (insert_or_ignore E requestLogs (new_request_log j state))
       (\<lambda>inserted. returnM (0 < length inserted)))"

definition set_payload_state :: "string \<Rightarrow> request_log_row \<Rightarrow> request_log_row" where
  "set_payload_state state r = r\<lparr>rql_payloadState := state\<rparr>"

definition markState :: "'w env \<Rightarrow> string \<Rightarrow> string \<Rightarrow> ('w, unit) io" where
  "markState E requestId state =
     ignore_rows (update_table E requestLogs (\<lambda>r. rql_requestId r = requestId) (set_payload_state state))"

section \<open>Reading\<close>

record list_filter =
  lf_project :: "string option"
  lf_action :: "string option"
  lf_clientId :: "string option"
  lf_clientRequestId :: "string option"
  lf_accessTokenId :: "nat option"
  lf_status :: "string option"
  lf_payloadState :: "string option"
  lf_minimumLatencyMs :: "int option"
  lf_maximumLatencyMs :: "int option"
  lf_from :: "int option"
  lf_to :: "int option"
  lf_page :: "int option"
  lf_pageSize :: "int option"

definition accessTokenIdConditions :: "nat option \<Rightarrow> (request_log_row \<Rightarrow> bool) option list" where
  "accessTokenIdConditions v =
     (case v of None \<Rightarrow> [] | Some i \<Rightarrow> [Some (\<lambda>r. rql_accessTokenId r = Some i)])"

definition request_log_conditions :: "list_filter \<Rightarrow> (request_log_row \<Rightarrow> bool) list" where
  "request_log_conditions q =
     compactConditions
       ([eqIf blank_string (\<lambda>r. Some (rql_projectName r)) (lf_project q),
         eqIf blank_string (\<lambda>r. Some (rql_actionName r)) (lf_action q),
         eqIf blank_string rql_clientId (lf_clientId q),
         eqIf blank_string rql_clientRequestId (lf_clientRequestId q)] @
        accessTokenIdConditions (lf_accessTokenId q) @
        [eqIf blank_string (\<lambda>r. Some (rql_status r)) (lf_status q),
         eqIf blank_string (\<lambda>r. Some (rql_payloadState r)) (lf_payloadState q),
         gteIf rql_latencyMs (lf_minimumLatencyMs q),
         lteIf rql_latencyMs (lf_maximumLatencyMs q),
         gteIf (\<lambda>r. Some (rql_createdAt r)) (lf_from q),
         lteIf (\<lambda>r. Some (rql_createdAt r)) (lf_to q)])"

definition list_request_logs :: "'w env \<Rightarrow> list_filter \<Rightarrow> ('w, request_log_row paginated) io" where
  "list_request_logs E q =
     (let P = (\<lambda>r. list_all (\<lambda>c. c r) (request_log_conditions q)) in
      paginate E requestLogs P (lf_page q) (lf_pageSize q)
        (select_page E requestLogs P (\<lambda>r. - rql_createdAt r)))"

record option_filter =
  of_project :: "string option"
  of_action :: "string option"
  of_clientId :: "string option"

record filter_options =
  fo_projects :: "string list"
  fo_actions :: "string list"
  fo_clientIds :: "string list"

text \<open>\<^verbatim>\<open>if (filter.x) conditions.push(eq(column, filter.x))\<close>.\<close>

definition chosen :: "('a \<Rightarrow> string option) \<Rightarrow> string option \<Rightarrow> 'a \<Rightarrow> bool" where
  "chosen column v r = (case v of None \<Rightarrow> True | Some x \<Rightarrow> x = [] \<or> column r = Some x)"

text \<open>\<^verbatim>\<open>SELECT DISTINCT ... ORDER BY ... LIMIT\<close>; the order is that of the characters' codes.\<close>

definition distinct_sorted :: "nat \<Rightarrow> string list \<Rightarrow> string list" where
  "distinct_sorted limit xs = take limit (sort (remdups xs))"

definition maximumOptions :: nat where
  "maximumOptions = 200"

definition project_options :: "option_filter \<Rightarrow> row list \<Rightarrow> string list" where
  "project_options q rs =
     distinct_sorted maximumOptions (map rql_projectName (filter
       (\<lambda>l. chosen (\<lambda>r. Some (rql_actionName r)) (of_action q) l \<and> chosen rql_clientId (of_clientId q) l \<and>
            list_ex (alive prj_deletedAt [\<lambda>p. prj_name p = rql_projectName l]) (contents rs projects))
       (contents rs requestLogs)))"

definition action_options :: "option_filter \<Rightarrow> row list \<Rightarrow> string list" where
  "action_options q rs =
     distinct_sorted maximumOptions (map rql_actionName (filter
       (\<lambda>l. chosen (\<lambda>r. Some (rql_projectName r)) (of_project q) l \<and> chosen rql_clientId (of_clientId q) l)
       (contents rs requestLogs)))"

definition client_options :: "option_filter \<Rightarrow> row list \<Rightarrow> string list" where
  "client_options q rs =
     distinct_sorted maximumOptions (List.map_filter rql_clientId (filter
       (\<lambda>l. rql_clientId l \<noteq> None \<and> chosen (\<lambda>r. Some (rql_projectName r)) (of_project q) l \<and>
            chosen (\<lambda>r. Some (rql_actionName r)) (of_action q) l \<and>
            list_ex (alive dev_deletedAt [\<lambda>d. Some (dev_clientId d) = rql_clientId l]) (contents rs devices))
       (contents rs requestLogs)))"

definition filterOptions :: "'w env \<Rightarrow> option_filter \<Rightarrow> ('w, filter_options) io" where
  "filterOptions E q =
     bindM (db_query E (project_options q)) (\<lambda>projectRows.
     bindM (db_query E (action_options q)) (\<lambda>actionRows.
     bindM (db_query E (client_options q)) (\<lambda>clientRows.
       returnM \<lparr>fo_projects = projectRows, fo_actions = actionRows,
                fo_clientIds = filter (\<lambda>c. c \<noteq> []) clientRows\<rparr>)))"

definition detailSpine :: "'w env \<Rightarrow> string \<Rightarrow> ('w, request_log_row option) io" where
  "detailSpine E requestId =
     bindM (select_from E requestLogs (\<lambda>r. rql_requestId r = requestId)) (\<lambda>rs. returnM (first rs))"

section \<open>Upkeep\<close>

definition stale_pending :: "int \<Rightarrow> request_log_row \<Rightarrow> bool" where
  "stale_pending cutoffTime r \<longleftrightarrow> rql_payloadState r = ''pending'' \<and> rql_createdAt r < cutoffTime"

definition findStalePending :: "'w env \<Rightarrow> int \<Rightarrow> nat \<Rightarrow> ('w, string list) io" where
  "findStalePending E minimumAge limit w =
     (let cutoffTime = now_ms E w - minimumAge in
      bindM (select_from E requestLogs (stale_pending cutoffTime))
        (\<lambda>rs. returnM (map rql_requestId (take limit rs))) w)"

definition cleanupOldRequests :: "'w env \<Rightarrow> int \<Rightarrow> ('w, nat) io" where
  "cleanupOldRequests E retentionDays w =
     (let cutoffTime = now_ms E w - retentionDays * 86400000 in
      bindM (delete_from E requestLogs (\<lambda>r. rql_createdAt r < cutoffTime))
        (\<lambda>ds. returnM (length ds)) w)"

text \<open>
  \<^verbatim>\<open>ROW_NUMBER() OVER (PARTITION BY project, action, client ORDER BY created_at DESC, id DESC)\<close>:
  one more than the number of rows of the partition that come before.  NULL clients form one
  partition.  The statement's sub-select and its delete see the same rows.
\<close>

definition scope_of :: "request_log_row \<Rightarrow> string \<times> string \<times> string option" where
  "scope_of r = (rql_projectName r, rql_actionName r, rql_clientId r)"

definition recency :: "request_log_row \<Rightarrow> int list" where
  "recency r = [- rql_createdAt r, - int (rql_id r)]"

definition row_number :: "request_log_row list \<Rightarrow> request_log_row \<Rightarrow> nat" where
  "row_number ls r = Suc (length (filter (\<lambda>x. scope_of x = scope_of r \<and> recency x < recency r) ls))"

definition trimScopes :: "'w env \<Rightarrow> int \<Rightarrow> ('w, nat) io" where
  "trimScopes E keep =
     bindM (select_from E requestLogs (\<lambda>_. True)) (\<lambda>ls.
     bindM (delete_from E requestLogs
              (\<lambda>r. rql_id r \<in> set (map rql_id (filter (\<lambda>x. keep < int (row_number ls x)) ls))))
       (\<lambda>ds. returnM (length ds)))"

section \<open>The monitor\<close>

definition safeParse :: "json option \<Rightarrow> json" where
  "safeParse v =
     (case v of
        None \<Rightarrow> JNull
      | Some (JStr s) \<Rightarrow> or_default (JStr s) (parse_json s)
      | Some x \<Rightarrow> x)"

definition safeParseNullable :: "json option \<Rightarrow> json" where
  "safeParseNullable v =
     (if v = None \<or> v = Some JNull \<or> v = Some (JStr []) then JNull else safeParse v)"

text \<open>A falsy JSON value.\<close>

definition json_falsy :: "json \<Rightarrow> bool" where
  "json_falsy j \<longleftrightarrow> j = JNull \<or> j = JBool False \<or> j = JNum 0 \<or> j = JStr []"

record request_detail =
  rd_spine :: request_log_row
  rd_payloadUnavailable :: bool
  rd_requestPayload :: json
  rd_responsePayload :: json
  rd_appAudit :: json

definition monitor_detail :: "'w env \<Rightarrow> string \<Rightarrow> string \<Rightarrow> ('w, request_detail option) io" where
  "monitor_detail E base requestId =
     bindM (detailSpine E requestId) (\<lambda>logSpine.
       case logSpine of
         None \<Rightarrow> returnM None
       | Some r \<Rightarrow>
           bindM (getByRequestId E base requestId) (\<lambda>searchDocument.
             returnM (Some
               (if searchDocument = None \<or> json_falsy (the searchDocument)
                then \<lparr>rd_spine = r, rd_payloadUnavailable = True, rd_requestPayload = JNull,
                      rd_responsePayload = JNull, rd_appAudit = JNull\<rparr>
                else let d = the searchDocument in
                  \<lparr>rd_spine = r, rd_payloadUnavailable = False,
                   rd_requestPayload = safeParse (field ''request_payload_json'' d),
                   rd_responsePayload = safeParse (field ''response_payload_json'' d),
                   rd_appAudit = safeParseNullable (field ''app_audit_json'' d)\<rparr>))))"

definition monitor_list :: "'w env \<Rightarrow> list_filter \<Rightarrow> ('w, request_log_row paginated) io" where
  "monitor_list E q = list_request_logs E q"

definition requestOptions :: "'w env \<Rightarrow> option_filter \<Rightarrow> ('w, filter_options) io" where
  "requestOptions E q = filterOptions E q"

section \<open>One row per request\<close>

lemma request_ids_unique:
  assumes "conflict_free rs" "r \<in> set (contents rs requestLogs)" "x \<in> set (contents rs requestLogs)"
    and "rql_requestId x = rql_requestId r \<or> rql_id x = rql_id r"
  shows "x = r"
proof -
  have "RequestLog x = RequestLog r"
    using assms by (intro conflict_free_pair [OF assms(1)])
      (auto simp: in_contents conflicts_def request_log_conflict_def)
  then show ?thesis by simp
qed

lemma new_log_conflict:
  assumes "fresh_id rs (RequestLog (new_request_log j state i)) i"
  shows "list_ex (conflicts (RequestLog (new_request_log j state i))) rs \<longleftrightarrow>
    (\<exists>x \<in> set (contents rs requestLogs). rql_requestId x = rlj_requestId j)"
proof -
  have "conflicts (RequestLog (new_request_log j state i)) r \<longleftrightarrow>
      (\<exists>x. r = RequestLog x \<and> rql_requestId x = rlj_requestId j)" if "r \<in> set rs" for r
    using assms that
    by (auto simp: conflicts_def request_log_conflict_def new_request_log_def fresh_id_def row_id_def
        table_no_def split: row.splits)
  then show ?thesis by (auto simp: list_ex_iff in_contents)
qed

lemma set_state_conflict_free:
  assumes "conflict_free rs"
  shows "conflict_free (update_rows (on_table requestLogs P) (map_table requestLogs (set_payload_state s)) rs)"
proof (rule conflict_free_update [OF assms])
  fix r t
  assume "conflicts (if on_table requestLogs P r then map_table requestLogs (set_payload_state s) r else r)
    (if on_table requestLogs P t then map_table requestLogs (set_payload_state s) t else t)"
  then show "conflicts r t"
    by (cases r; cases t)
      (auto simp: on_table_def map_table_def conflicts_def request_log_conflict_def set_payload_state_def
        split: if_splits)
qed

lemma writeSpine_misfit: "\<not> request_log_fits j \<Longrightarrow> writeSpine E j s w = (Inl (PgError ''22001''), w)"
  by (simp add: writeSpine_def throwM_def)

context services
begin

text \<open>The spine is written once per request id.\<close>

lemma writeSpine_run:
  assumes "healthy (view w)" "request_log_fits j"
  shows "fst (writeSpine E j state w) =
      Inr (\<forall>x \<in> set (contents (rows (view w)) requestLogs). rql_requestId x \<noteq> rlj_requestId j)" (is ?reply)
    and "\<exists>i. view (snd (writeSpine E j state w)) =
      (if \<exists>x \<in> set (contents (rows (view w)) requestLogs). rql_requestId x = rlj_requestId j then view w
       else (view w)\<lparr>rows := rows (view w) @ [RequestLog (new_request_log j state i)]\<rparr>)" (is ?effect)
    and "healthy (view (snd (writeSpine E j state w)))" (is ?healthy)
proof -
  obtain i where i: "fresh_id (rows (view w)) (RequestLog (new_request_log j state i)) i"
    "if list_ex (conflicts (RequestLog (new_request_log j state i))) (rows (view w))
     then fst (insert_or_ignore E requestLogs (new_request_log j state) w) = Inr [] \<and>
          view (snd (insert_or_ignore E requestLogs (new_request_log j state) w)) = view w
     else fst (insert_or_ignore E requestLogs (new_request_log j state) w) = Inr [new_request_log j state i] \<and>
          view (snd (insert_or_ignore E requestLogs (new_request_log j state) w)) =
            (view w)\<lparr>rows := rows (view w) @ [RequestLog (new_request_log j state i)]\<rparr>"
    using run_insert_or_ignore [OF assms(1) tables_ok(12), of "new_request_log j state"] by auto
  note dup = new_log_conflict [OF i(1)]
  show ?reply
    using i(2) unfolding dup by (auto simp: writeSpine_def assms(2) io_simps split: if_splits)
  show effect: ?effect
    using i(2) unfolding dup
    by (intro exI [of _ i]) (auto simp: writeSpine_def assms(2) io_simps split: if_splits)
  then show ?healthy using assms(1) by (auto split: if_splits)
qed

lemma markState_run:
  assumes "healthy (view w)"
  shows "fst (markState E i state w) = Inr ()"
    and "view (snd (markState E i state w)) = (view w)\<lparr>rows :=
      update_rows (on_table requestLogs (\<lambda>r. rql_requestId r = i))
        (map_table requestLogs (set_payload_state state)) (rows (view w))\<rparr>"
    and "contents (rows (view (snd (markState E i state w)))) requestLogs =
      map (\<lambda>r. if rql_requestId r = i then set_payload_state state r else r)
        (contents (rows (view w)) requestLogs)"
proof -
  have "conflict_free (rows (view w))" using indexes [of w] assms by simp
  note run = run_update [OF assms tables_ok(12) set_state_conflict_free [OF this],
      of "\<lambda>r. rql_requestId r = i" state]
  show "fst (markState E i state w) = Inr ()"
    using run(1) by (simp add: markState_def ignore_rows_def io_simps)
  show rows: "view (snd (markState E i state w)) = (view w)\<lparr>rows :=
      update_rows (on_table requestLogs (\<lambda>r. rql_requestId r = i))
        (map_table requestLogs (set_payload_state state)) (rows (view w))\<rparr>"
    using run(1,2) by (simp add: markState_def ignore_rows_def io_simps)
  show "contents (rows (view (snd (markState E i state w)))) requestLogs =
      map (\<lambda>r. if rql_requestId r = i then set_payload_state state r else r)
        (contents (rows (view w)) requestLogs)"
    by (simp add: rows update_rows_def contents_update)
qed

end

section \<open>Trimming\<close>

lemma rank_of_sorted:
  assumes "sorted_wrt (<) (map k xs)"
  shows "filter (\<lambda>x. length (filter (\<lambda>y. k y < (k x :: 'b :: linorder)) xs) < n) xs = take n xs"
  using assms
proof (induction xs arbitrary: n)
  case (Cons x xs)
  have x: "\<forall>y \<in> set xs. k x < k y" and IH: "sorted_wrt (<) (map k xs)" using Cons.prems by auto
  then have 0: "filter (\<lambda>y. k y < k x) (x # xs) = []"
    by (auto simp: filter_empty_conv dest: less_asym)
  have "length (filter (\<lambda>z. k z < k y) (x # xs)) = Suc (length (filter (\<lambda>z. k z < k y) xs))" if "y \<in> set xs" for y
    using x that by simp
  then have "filter (\<lambda>y. length (filter (\<lambda>z. k z < k y) (x # xs)) < n) xs =
      filter (\<lambda>y. length (filter (\<lambda>z. k z < k y) xs) < n - 1) xs"
    by (intro filter_cong) auto
  then show ?case
    using Cons.IH [OF IH, of "n - 1"] 0 by (cases n) simp_all
qed simp

text \<open>The rows of a scope, newest first.\<close>

definition scope_rows :: "string \<times> string \<times> string option \<Rightarrow> request_log_row list \<Rightarrow> request_log_row list" where
  "scope_rows s ls = sort_key recency (filter (\<lambda>r. scope_of r = s) ls)"

lemma sorted_strict: "sorted (map k xs) \<Longrightarrow> distinct (map k xs) \<Longrightarrow> sorted_wrt (<) (map k xs)"
  by (simp add: strict_sorted_iff)

lemma scope_rows_trimmed:
  assumes "distinct (map rql_id ls)"
  shows "scope_rows s (filter (\<lambda>r. row_number ls r \<le> n) ls) = take n (scope_rows s ls)"
proof -
  let ?xs = "scope_rows s ls"
  have "distinct (map rql_id ?xs)"
    unfolding scope_rows_def distinct_map distinct_sort set_sort
    using assms distinct_map_filter [of rql_id ls "\<lambda>r. scope_of r = s"] by (simp add: distinct_map)
  then have "distinct (map recency ?xs)"
    by (auto simp: distinct_map inj_on_def recency_def)
  then have strict: "sorted_wrt (<) (map recency ?xs)"
    by (intro sorted_strict) (simp_all add: scope_rows_def)
  have num: "row_number ls r \<le> n \<longleftrightarrow> length (filter (\<lambda>y. recency y < recency r) ?xs) < n" if "scope_of r = s" for r
  proof -
    have "mset (filter (\<lambda>y. recency y < recency r) ?xs) =
        mset (filter (\<lambda>x. scope_of x = scope_of r \<and> recency x < recency r) ls)"
      using that by (simp add: scope_rows_def filter_filter_mset conj_commute)
    from arg_cong [OF this, of size]
    have "length (filter (\<lambda>y. recency y < recency r) ?xs) =
        length (filter (\<lambda>x. scope_of x = scope_of r \<and> recency x < recency r) ls)"
      by (simp only: size_mset)
    then show ?thesis by (simp add: row_number_def Suc_le_eq)
  qed
  have "scope_rows s (filter (\<lambda>r. row_number ls r \<le> n) ls) = filter (\<lambda>r. row_number ls r \<le> n) ?xs"
    by (simp add: scope_rows_def filter_sort conj_commute)
  also have "\<dots> = filter (\<lambda>r. length (filter (\<lambda>y. recency y < recency r) ?xs) < n) ?xs"
    by (rule filter_cong [OF refl], rule num) (simp add: scope_rows_def)
  also have "\<dots> = take n ?xs" by (rule rank_of_sorted [OF strict])
  finally show ?thesis .
qed

lemma row_number_mset: "mset ls = mset ms \<Longrightarrow> row_number ls r = row_number ms r"
proof -
  assume "mset ls = mset ms"
  then have "mset (filter P ls) = mset (filter P ms)" for P by simp
  from arg_cong [OF this, of size] show ?thesis by (simp only: row_number_def size_mset)
qed

lemma log_ids_distinct: "conflict_free rs \<Longrightarrow> distinct (map rql_id (contents rs requestLogs))"
  using contents_distinct [OF tables_ok(12) conflict_free_distinct]
  by (auto simp: distinct_map intro!: inj_onI intro: request_ids_unique)

context services
begin

lemma trimScopes_run:
  assumes "healthy (view w)"
  shows "contents (rows (view (snd (trimScopes E keep w)))) requestLogs =
      filter (\<lambda>r. int (row_number (contents (rows (view w)) requestLogs) r) \<le> keep)
        (contents (rows (view w)) requestLogs)"
    and "fst (trimScopes E keep w) =
      Inr (length (filter (\<lambda>r. keep < int (row_number (contents (rows (view w)) requestLogs) r))
        (contents (rows (view w)) requestLogs)))"
proof -
  let ?ls = "contents (rows (view w)) requestLogs"
  define sel where "sel = select_from E requestLogs (\<lambda>_. True) w"
  define xs where "xs = projr (fst sel)"
  define P where "P r \<longleftrightarrow> rql_id r \<in> set (map rql_id (filter (\<lambda>x. keep < int (row_number xs x)) xs))" for r :: request_log_row
  have v: "view (snd sel) = view w" and m: "mset xs = mset ?ls" and ok: "\<not> isl (fst sel)"
    using run_select [OF assms, of requestLogs "\<lambda>_. True"] by (simp_all add: sel_def xs_def)
  have step: "trimScopes E keep w = bindM (delete_from E requestLogs P) (\<lambda>ds. returnM (length ds)) (snd sel)"
    using ok by (simp add: trimScopes_def bindM_eq sel_def xs_def P_def [abs_def])
  have cf: "conflict_free (rows (view w))" using indexes [of w] assms by simp
  have P: "P r \<longleftrightarrow> keep < int (row_number ?ls r)" if "r \<in> set ?ls" for r
  proof -
    have "x = r" if "x \<in> set ?ls" "rql_id x = rql_id r" for x
      using request_ids_unique [OF cf \<open>r \<in> set ?ls\<close>] that by simp
    then show ?thesis
      using \<open>r \<in> set ?ls\<close> set_mset_mset [of xs] set_mset_mset [of ?ls]
      unfolding P_def row_number_mset [OF m] m by auto
  qed
  have h: "healthy (view (snd sel))" using assms by (simp add: v)
  note del = run_delete [OF h, of requestLogs P]
  have "contents (rows (view (snd (trimScopes E keep w)))) requestLogs = filter (\<lambda>r. \<not> P r) ?ls"
    using del(1,2) by (simp add: step io_simps v contents_delete)
  then show "contents (rows (view (snd (trimScopes E keep w)))) requestLogs =
      filter (\<lambda>r. int (row_number ?ls r) \<le> keep) ?ls"
    using P by (simp add: not_less cong: filter_cong)
  have "size (mset (projr (fst (delete_from E requestLogs P (snd sel))))) = length (filter P ?ls)"
    unfolding del(3) v by (metis mset_filter size_mset)
  moreover have "filter P ?ls = filter (\<lambda>r. keep < int (row_number ?ls r)) ?ls"
    by (rule filter_cong [OF refl P])
  ultimately show "fst (trimScopes E keep w) =
      Inr (length (filter (\<lambda>r. keep < int (row_number ?ls r)) ?ls))"
    using del(1) by (simp add: step io_simps)
qed

text \<open>What the detail of a request shows, with the search index as it answers.\<close>

lemma detailSpine_run:
  assumes "healthy (view w)" "r \<in> set (contents (rows (view w)) requestLogs)"
  shows "fst (detailSpine E (rql_requestId r) w) = Inr (Some r)"
    and "view (snd (detailSpine E (rql_requestId r) w)) = view w"
proof -
  have cf: "conflict_free (rows (view w))" using indexes [of w] assms(1) by simp
  have "\<forall>x \<in> set (contents (rows (view w)) requestLogs). rql_requestId x = rql_requestId r \<longrightarrow> x = r"
    using request_ids_unique [OF cf assms(2)] by blast
  note sel = select_single_row [OF assms(1) tables_ok(12) assms(2), of "\<lambda>x. rql_requestId x = rql_requestId r",
      OF refl this]
  show "fst (detailSpine E (rql_requestId r) w) = Inr (Some r)"
    "view (snd (detailSpine E (rql_requestId r) w)) = view w"
    using sel by (simp_all add: detailSpine_def io_simps)
qed

end

lemma manticore_fields:
  "field ''request_payload_json'' (manticore_json d) = Some (JStr (md_request_payload_json d))"
  "field ''response_payload_json'' (manticore_json d) = Some (JStr (md_response_payload_json d))"
  "field ''app_audit_json'' (manticore_json d) = Some (JStr (md_app_audit_json d))"
  by (simp_all add: manticore_json_def field_def)

text \<open>The reply of the index that has one hit.\<close>

definition one_hit :: "json \<Rightarrow> json" where
  "one_hit source = JObj [(''hits'', JObj [(''hits'', JArr [JObj [(''_source'', source)]])])]"

lemma source_of_one_hit: "source \<noteq> JNull \<Longrightarrow> source_of_hits (Some (one_hit source)) = Some source"
  by (cases source) (simp_all add: source_of_hits_def member_of_def element0_def one_hit_def field_def)

lemma safeParse_stringify: "json_ok j \<Longrightarrow> safeParse (Some (JStr (stringify j))) = j"
  by (simp add: safeParse_def parse_stringify or_default_def)

lemma stringify_nonempty: "json_ok j \<Longrightarrow> stringify j \<noteq> []"
  using stringify_Cons [of j] by auto

section \<open>Properties\<close>

text \<open>
  trimming keeps, of every group, action and device, exactly the newest \<open>keep\<close> requests
  (ties broken by the row id), and reports how many rows it removed.
\<close>

theorem trim_keeps_newest:
  assumes "services E view" "healthy (view w)"
  shows "scope_rows s (contents (rows (view (snd (trimScopes E keep w)))) requestLogs) =
      take (nat keep) (scope_rows s (contents (rows (view w)) requestLogs)) \<and>
    fst (trimScopes E keep w) =
      Inr (length (contents (rows (view w)) requestLogs) -
           length (contents (rows (view (snd (trimScopes E keep w)))) requestLogs))"
proof -
  let ?ls = "contents (rows (view w)) requestLogs"
  note run = services.trimScopes_run [OF assms, of keep]
  have "conflict_free (rows (view w))" using services.indexes [OF assms(1), of w] assms(2) by simp
  note ids = log_ids_distinct [OF this]
  have num: "int (row_number ?ls r) \<le> keep \<longleftrightarrow> row_number ?ls r \<le> nat keep" for r
    by (simp add: row_number_def) linarith
  have "length (filter (\<lambda>r. int (row_number ?ls r) \<le> keep) ?ls) +
      length (filter (\<lambda>r. keep < int (row_number ?ls r)) ?ls) = length ?ls"
    using sum_length_filter_compl [of "\<lambda>r. int (row_number ?ls r) \<le> keep" ?ls] by (simp add: not_le)
  then show ?thesis
    unfolding run using scope_rows_trimmed [OF ids, of s "nat keep"] by (simp add: num)
qed

definition example_job :: request_log_job where
  "example_job = \<lparr>rlj_requestId = ''q1'', rlj_project = ''sms'', rlj_action = ''send'',
     rlj_clientId = Some ''d1'', rlj_clientRequestId = None, rlj_requesterUserId = None,
     rlj_accessTokenId = Some 7, rlj_status = ''ok'', rlj_httpCode = 200, rlj_latencyMs = 5,
     rlj_error = None, rlj_requestPayload = JObj [(''to'', JStr ''x'')],
     rlj_responsePayload = Some (JArr [JNum 1]), rlj_appAudit = None, rlj_createdAt = 100,
     rlj_finishedAt = 105\<rparr>"

definition example_log :: "nat \<Rightarrow> int \<Rightarrow> request_log_row" where
  "example_log i t = (new_request_log example_job ''pending'' i)\<lparr>rql_requestId := ''q'' @ show_nat i,
     rql_createdAt := t\<rparr>"

definition example_logs :: sim where
  "example_logs = sim_start\<lparr>sim_store := empty_store\<lparr>rows :=
     [RequestLog (example_log 1 100), RequestLog (example_log 2 300), RequestLog (example_log 3 200)]\<rparr>\<rparr>"

lemma example_logs_view [simp]:
  "sim_view example_logs = empty_store\<lparr>rows :=
     [RequestLog (example_log 1 100), RequestLog (example_log 2 300), RequestLog (example_log 3 200)]\<rparr>"
  by (simp add: sim_view_def example_logs_def sim_start_def conflicts_def request_log_conflict_def
      example_log_def new_request_log_def)

theorem trim_keeps_newest_witness:
  "map rql_id (scope_rows (''sms'', ''send'', Some ''d1'')
     (contents (rows (sim_view (snd (trimScopes sim_env 2 example_logs)))) requestLogs)) = [2, 3]"
  using conjunct1 [OF trim_keeps_newest [OF sim_services, of example_logs "(''sms'', ''send'', Some ''d1'')" 2]]
  by (simp add: empty_store_def healthy_def typed_keys_def scope_rows_def scope_of_def recency_def
      example_log_def new_request_log_def example_job_def)

text \<open>
  the monitor shows the payloads that were logged.  When the index answers with the document
  that was stored for the job, the detail of the request is its row with exactly the logged
  request, response and audit, whatever JSON they are (numbers within the exact integers); when
  the index fails, the row is shown with the payload marked unavailable.
\<close>

theorem monitor_shows_logged_payload:
  assumes "services E view" "healthy (view w)"
    and "r \<in> set (contents (rows (view w)) requestLogs)"
    and "json_ok (rlj_requestPayload j)" "json_ok (or_default JNull (rlj_responsePayload j))"
    and "json_ok (or_default JNull (rlj_appAudit j))"
    and "\<And>w'. view w' = view w \<Longrightarrow>
      fst (http_fetch E (base @ ''/search'') (search_query (rql_requestId r)) w') =
        (if index_up then Inr \<lparr>hr_ok = True, hr_status = 200, hr_text = [],
           hr_json = Some (one_hit (manticore_json (buildManticoreDoc txt j)))\<rparr> else Inl Infra)"
  shows "fst (monitor_detail E base (rql_requestId r) w) = Inr (Some
    (if index_up then
       \<lparr>rd_spine = r, rd_payloadUnavailable = False, rd_requestPayload = rlj_requestPayload j,
        rd_responsePayload = or_default JNull (rlj_responsePayload j),
        rd_appAudit = or_default JNull (rlj_appAudit j)\<rparr>
     else \<lparr>rd_spine = r, rd_payloadUnavailable = True, rd_requestPayload = JNull,
        rd_responsePayload = JNull, rd_appAudit = JNull\<rparr>))"
proof -
  let ?d = "manticore_json (buildManticoreDoc txt j)"
  note spine = services.detailSpine_run [OF assms(1-3)]
  have nn: "?d \<noteq> JNull" "\<not> json_falsy ?d" by (simp_all add: manticore_json_def json_falsy_def)
  have audit: "safeParseNullable (Some (JStr (stringify (or_default JNull (rlj_appAudit j))))) =
      or_default JNull (rlj_appAudit j)"
    using stringify_nonempty [OF assms(6)] safeParse_stringify [OF assms(6)] by (simp add: safeParseNullable_def)
  have "fst (getByRequestId E base (rql_requestId r) (snd (detailSpine E (rql_requestId r) w))) =
      Inr (if index_up then Some ?d else None)"
    using assms(7) [OF spine(2)] source_of_one_hit [OF nn(1)]
    by (simp add: getByRequestId_def io_simps)
  then show ?thesis
    using spine(1) nn audit safeParse_stringify [OF assms(4)] safeParse_stringify [OF assms(5)]
    by (simp add: monitor_detail_def io_simps manticore_fields) (simp add: buildManticoreDoc_def)
qed

definition example_index :: "string \<Rightarrow> json \<Rightarrow> exn + http_response" where
  "example_index u b =
     (if u = ''m/search'' then Inr \<lparr>hr_ok = True, hr_status = 200, hr_text = [],
        hr_json = Some (one_hit (manticore_json (buildManticoreDoc (\<lambda>_. []) example_job)))\<rparr>
      else Inl Infra)"

text \<open>The services with this index in the place of the network.\<close>

definition indexed_env :: "sim env" where
  "indexed_env = sim_env\<lparr>http_fetch := (\<lambda>u b w. (example_index u b, w))\<rparr>"

lemma services_fetch:
  assumes "services E view" "\<forall>u b w. view (snd (h u b w)) = view w"
  shows "services (E\<lparr>http_fetch := h\<rparr>) view"
  using assms unfolding services_def
  by (simp (no_asm_use) cong: if_cong split del: if_split) (elim conjE, intro conjI, assumption+)

lemma indexed_services: "services indexed_env sim_view"
  unfolding indexed_env_def by (rule services_fetch [OF sim_services]) simp

theorem monitor_shows_logged_payload_witness:
  "\<exists>d. fst (monitor_detail indexed_env ''m'' ''q1'' example_logs) = Inr (Some d) \<and>
     rd_requestPayload d = JObj [(''to'', JStr ''x'')] \<and> rd_responsePayload d = JArr [JNum 1] \<and>
     rd_appAudit d = JNull"
proof -
  have h: "healthy (sim_view example_logs)"
    and r: "example_log 1 100 \<in> set (contents (rows (sim_view example_logs)) requestLogs)"
    by (simp_all add: empty_store_def healthy_def typed_keys_def)
  have ok: "json_ok (rlj_requestPayload example_job)" "json_ok (or_default JNull (rlj_responsePayload example_job))"
    "json_ok (or_default JNull (rlj_appAudit example_job))"
    by (simp_all add: example_job_def or_default_def)
  have f: "fst (http_fetch indexed_env (''m'' @ ''/search'') q w') = (if True then
      Inr \<lparr>hr_ok = True, hr_status = 200, hr_text = [],
        hr_json = Some (one_hit (manticore_json (buildManticoreDoc (\<lambda>_. []) example_job)))\<rparr> else Inl Infra)" for q w'
    by (simp add: indexed_env_def example_index_def)
  have "rql_requestId (example_log 1 100) = ''q1''"
    by (simp add: example_log_def) (code_simp)
  then show ?thesis
    using monitor_shows_logged_payload [OF indexed_services h r ok f] by (simp add: example_job_def or_default_def)
qed

end
