(* ===== verification/Worker.thy ===== *)
theory Worker
  imports Request_Logs
begin

text \<open>
  The worker process: the consumers of the request-log and dead-letter queues, the maintenance
  jobs and their schedule (\<^verbatim>\<open>application/request-logs/*.processor.ts\<close>, \<^verbatim>\<open>worker.bootstrap.ts\<close>),
  the entry of the queue (\<^verbatim>\<open>infrastructure/queue/queue.service.ts\<close>) and the dashboard.  The
  world is paired with the \<^verbatim>\<open>ready\<close> flag of the search client.
\<close>

section \<open>Queues\<close>

definition QUEUE_REQUEST_LOG :: string where "QUEUE_REQUEST_LOG = ''request-log''"
definition QUEUE_MAINTENANCE :: string where "QUEUE_MAINTENANCE = ''maintenance''"
definition QUEUE_DEAD_LETTER :: string where "QUEUE_DEAD_LETTER = ''dead-letter''"

definition enqueueRequestLog :: "'w env \<Rightarrow> request_log_job \<Rightarrow> ('w, unit) io" where
  "enqueueRequestLog E j = queue_add E QUEUE_REQUEST_LOG j"

section \<open>The consumers\<close>

definition count_first :: "'w env \<Rightarrow> request_log_job \<Rightarrow> ('w, unit) io" where
  "count_first E j =
     thenM (recordCompletion E j)
       (case rlj_accessTokenId j of None \<Rightarrow> returnM () | Some t \<Rightarrow> recordMonthlyUsage E t)"

definition process_request_log ::
  "'w env \<Rightarrow> string \<Rightarrow> (message \<Rightarrow> string) \<Rightarrow> request_log_job \<Rightarrow> ('w \<times> bool, unit) io" where
  "process_request_log E base txt j =
     bindM (with_world (writeSpine E j ''pending'')) (\<lambda>newlyInserted.
     thenM (if newlyInserted then with_world (count_first E j) else returnM ())
     (thenM (indexPayload E base (buildManticoreDoc txt j))
       (with_world (markState E (rlj_requestId j) ''indexed''))))"

definition onFailed :: "'w env \<Rightarrow> request_log_job \<Rightarrow> nat option \<Rightarrow> nat \<Rightarrow> ('w, unit) io" where
  "onFailed E j attempts attemptsMade =
     (if attemptsMade < or_default 1 attempts then returnM ()
      else thenM (ignoreM (markState E (rlj_requestId j) ''failed'')) (queue_add E QUEUE_DEAD_LETTER j))"

definition process_dead_letter ::
  "'w env \<Rightarrow> string \<Rightarrow> (message \<Rightarrow> string) \<Rightarrow> request_log_job \<Rightarrow> ('w \<times> bool, unit) io" where
  "process_dead_letter E base txt j =
     thenM (with_world (writeSpine E j ''failed''))
     (thenM (indexPayload E base (buildManticoreDoc txt j))
       (with_world (markState E (rlj_requestId j) ''indexed'')))"

section \<open>Maintenance\<close>

record retention =
  rt_rawRetentionDays :: int
  rt_keepLatestPerScope :: int
  rt_aggregateRetentionDays :: int
  rt_deviceIdleDeleteDays :: int

datatype maintenance_result =
    Marked nat
  | Swept nat nat
  | Stale nat
  | Deleted nat
  | Metrics nat nat

definition STALE_PENDING_MILLISECONDS :: int where
  "STALE_PENDING_MILLISECONDS = 10 * 60 * 1000"

definition repairStalePending :: "'w env \<Rightarrow> ('w, maintenance_result) io" where
  "repairStalePending E =
     bindM (findStalePending E STALE_PENDING_MILLISECONDS 500) (\<lambda>staleLogs.
       thenM (forM staleLogs (\<lambda>i. markState E i ''unavailable''))
         (returnM (Marked (length staleLogs))))"

definition retentionSweep :: "'w env \<Rightarrow> retention \<Rightarrow> ('w, maintenance_result) io" where
  "retentionSweep E c =
     bindM (cleanupOldRequests E (rt_rawRetentionDays c)) (\<lambda>cleaned.
     bindM (trimScopes E (rt_keepLatestPerScope c)) (\<lambda>trimmed. returnM (Swept cleaned trimmed)))"

definition markDevicesStale :: "'w env \<Rightarrow> ('w, maintenance_result) io" where
  "markDevicesStale E = bindM (markStaleOffline E) (\<lambda>n. returnM (Stale n))"

definition sweepIdleDevices :: "'w env \<Rightarrow> retention \<Rightarrow> ('w, maintenance_result) io" where
  "sweepIdleDevices E c =
     bindM (softDeleteIdle E (rt_deviceIdleDeleteDays c)) (\<lambda>n. returnM (Deleted n))"

definition metricsCleanup :: "'w env \<Rightarrow> retention \<Rightarrow> ('w, maintenance_result) io" where
  "metricsCleanup E c =
     bindM (cleanupOldMetrics E (rt_aggregateRetentionDays c)) (\<lambda>(r, d). returnM (Metrics r d))"

definition process_maintenance ::
  "'w env \<Rightarrow> retention \<Rightarrow> string \<Rightarrow> ('w, maintenance_result option) io" where
  "process_maintenance E c name =
     (if name = ''repair-stale-pending'' then bindM (repairStalePending E) (\<lambda>r. returnM (Some r))
      else if name = ''retention-sweep'' then bindM (retentionSweep E c) (\<lambda>r. returnM (Some r))
      else if name = ''mark-devices-stale'' then bindM (markDevicesStale E) (\<lambda>r. returnM (Some r))
      else if name = ''metrics-cleanup'' then bindM (metricsCleanup E c) (\<lambda>r. returnM (Some r))
      else if name = ''sweep-idle-devices'' then bindM (sweepIdleDevices E c) (\<lambda>r. returnM (Some r))
      else returnM None)"

definition maintenance_schedule :: "(string \<times> nat) list" where
  "maintenance_schedule =
     [(''repair-stale-pending'', 5 * 60 * 1000), (''retention-sweep'', 5 * 60 * 1000),
      (''mark-devices-stale'', 60 * 1000), (''metrics-cleanup'', 5 * 60 * 1000),
      (''sweep-idle-devices'', 30 * 60 * 1000)]"

definition worker_onModuleInit :: "'w env \<Rightarrow> retention \<Rightarrow> ('w, unit) io" where
  "worker_onModuleInit E c =
     thenM (ignoreM (rebuildRecent E (rt_rawRetentionDays c)))
       (forM maintenance_schedule (\<lambda>(name, every). queue_repeat E QUEUE_MAINTENANCE name every))"

section \<open>The dashboard\<close>

definition TREND_DAYS :: int where
  "TREND_DAYS = 7"

record dashboard =
  db_projects :: "int \<times> int"
  db_devices :: "int \<times> int"
  db_requests :: "overview_totals \<times> (string \<times> int) list \<times> (string \<times> int) list"
  db_trend :: "trend_point list"

definition dashboard_overview :: "'w env \<Rightarrow> ('w, dashboard) io" where
  "dashboard_overview E =
     bindM (project_summary E) (\<lambda>p.
     bindM (device_summary_counts E) (\<lambda>d.
     bindM (overview E) (\<lambda>o'.
     bindM (trend E TREND_DAYS None) (\<lambda>t.
       returnM \<lparr>db_projects = p, db_devices = d, db_requests = o', db_trend = t\<rparr>))))"

section \<open>What the worker may do to the logs\<close>

text \<open>One event of the worker; the search index may answer anything.\<close>

inductive worker_step ::
  "'w env \<Rightarrow> string \<Rightarrow> (message \<Rightarrow> string) \<Rightarrow> retention \<Rightarrow> 'w \<times> bool \<Rightarrow> 'w \<times> bool \<Rightarrow> bool"
  for E :: "'w env" and base :: string and render :: "message \<Rightarrow> string" and c :: retention where
  consume: "worker_step E base render c p (snd (process_request_log E base render j p))"
| exhausted: "worker_step E base render c p (snd (with_world (onFailed E j attempts made) p))"
| dead_letter: "worker_step E base render c p (snd (process_dead_letter E base render j p))"
| maintain: "worker_step E base render c p (snd (with_world (process_maintenance E c name) p))"
| start: "worker_step E base render c p (snd (with_world (worker_onModuleInit E c) p))"

text \<open>
  The relation a log table has to an earlier one: rows may go, and of a row that stays nothing
  changes except the state of its payload, which is one of the four.  \<open>evidence_kept\<close> allows new
  requests too.
\<close>

definition PAYLOAD_STATES :: "string list" where
  "PAYLOAD_STATES = [''pending'', ''indexed'', ''failed'', ''unavailable'']"

definition revises :: "request_log_row list \<Rightarrow> request_log_row list \<Rightarrow> bool" where
  "revises before after \<longleftrightarrow>
     (\<forall>r' \<in> set after. \<exists>r \<in> set before. r' = r \<or> (\<exists>s \<in> set PAYLOAD_STATES. r' = set_payload_state s r))"

definition evidence_kept :: "request_log_row list \<Rightarrow> request_log_row list \<Rightarrow> bool" where
  "evidence_kept before after \<longleftrightarrow>
     (\<forall>r \<in> set before. \<forall>r' \<in> set after. rql_requestId r' = rql_requestId r \<longrightarrow>
        r' = set_payload_state (rql_payloadState r') r)"

definition states_valid :: "request_log_row list \<Rightarrow> bool" where
  "states_valid ls \<longleftrightarrow> (\<forall>r \<in> set ls. rql_payloadState r \<in> set PAYLOAD_STATES)"

lemma set_payload_state_simps [simp]:
  "set_payload_state s (set_payload_state t r) = set_payload_state s r"
  "rql_payloadState (set_payload_state s r) = s" "rql_requestId (set_payload_state s r) = rql_requestId r"
  "set_payload_state (rql_payloadState r) r = r"
  by (simp_all add: set_payload_state_def)

interpretation revising: store_preorder "\<lambda>s t. revises (table_of requestLogs s) (table_of requestLogs t)"
proof
  fix s t u
  show "revises (table_of requestLogs s) (table_of requestLogs s)" by (auto simp: revises_def)
  assume 1: "revises (table_of requestLogs s) (table_of requestLogs t)"
    and 2: "revises (table_of requestLogs t) (table_of requestLogs u)"
  show "revises (table_of requestLogs s) (table_of requestLogs u)"
    unfolding revises_def
  proof
    fix r' assume "r' \<in> set (table_of requestLogs u)"
    then obtain r where r: "r \<in> set (table_of requestLogs t)"
      "r' = r \<or> (\<exists>s \<in> set PAYLOAD_STATES. r' = set_payload_state s r)"
      using 2 unfolding revises_def by blast
    obtain q where "q \<in> set (table_of requestLogs s)"
      "r = q \<or> (\<exists>s \<in> set PAYLOAD_STATES. r = set_payload_state s q)"
      using 1 r(1) unfolding revises_def by blast
    then show "\<exists>q \<in> set (table_of requestLogs s). r' = q \<or> (\<exists>s \<in> set PAYLOAD_STATES. r' = set_payload_state s q)"
      using r(2) by (elim disjE bexE) (auto intro!: bexI [of _ q])
  qed
qed

text \<open>A log table after the spine of a job was written with the state \<open>s\<close>.\<close>

definition logged :: "request_log_job \<Rightarrow> string \<Rightarrow> request_log_row list \<Rightarrow> request_log_row list \<Rightarrow> bool" where
  "logged j s before after \<longleftrightarrow>
     after = before \<and> rlj_requestId j \<in> rql_requestId ` set before \<or>
     (\<exists>i. after = before @ [new_request_log j s i]) \<and> rlj_requestId j \<notin> rql_requestId ` set before"

lemma contents_none: "\<forall>n \<in> set ns. prj T n = None \<Longrightarrow> contents ns T = []"
  by (induction ns) simp_all

abbreviation log_safe :: "('w \<Rightarrow> store) \<Rightarrow> ('w, 'a) io \<Rightarrow> bool" where
  "log_safe view m \<equiv>
     relates view (\<lambda>s t. revises (table_of requestLogs s) (table_of requestLogs t)) m"

lemma log_safe_keeps: "keeps view (table_of requestLogs) m \<Longrightarrow> log_safe view m"
  by (erule keeps_relates) (auto simp: revises_def)

lemma log_safe_with_world: "log_safe view m \<Longrightarrow> log_safe (world_view view) (with_world m)"
  by (simp add: relates_def with_world_def)

context services
begin

lemma markState_safe: "s \<in> set PAYLOAD_STATES \<Longrightarrow> log_safe view (markState E i s)"
  unfolding relates_def
proof (intro allI impI conjI)
  fix w assume s: "s \<in> set PAYLOAD_STATES" and h: "healthy (view w)"
  note run = markState_run [OF h, of i s]
  show "healthy (view (snd (markState E i s w)))" using h by (simp add: run(2))
  show "revises (table_of requestLogs (view w)) (table_of requestLogs (view (snd (markState E i s w))))"
    using s by (auto simp: table_of_def run(3) revises_def)
qed

lemma delete_logs_safe: "log_safe view (delete_from E requestLogs P)"
  by (auto simp: relates_def table_of_def contents_delete revises_def)

lemma findStalePending_keeps: "keeps view obs (findStalePending E m n)"
  unfolding findStalePending_def [abs_def] Let_def
  by (rule keeps_run_at) (intro keeps_intros keeps_select)

lemma repairStalePending_safe: "log_safe view (repairStalePending E)"
  unfolding repairStalePending_def
  by (intro revising.bind revising.sequence revising.loop revising.return markState_safe
      log_safe_keeps [OF findStalePending_keeps]) (simp add: PAYLOAD_STATES_def)

lemma cleanupOldRequests_safe: "log_safe view (cleanupOldRequests E d)"
  unfolding cleanupOldRequests_def [abs_def] Let_def
  by (rule run_at) (intro revising.bind revising.return delete_logs_safe)

lemma retentionSweep_safe: "log_safe view (retentionSweep E c)"
  unfolding retentionSweep_def trimScopes_def
  by (intro revising.bind revising.return delete_logs_safe cleanupOldRequests_safe
      log_safe_keeps [OF keeps_select])

lemma device_tables [simp]:
  "disjoint_tables devices requestLogs" "disjoint_tables rpcDailyMetrics requestLogs"
  "disjoint_tables deviceDailyMetrics requestLogs" "disjoint_tables accessTokens requestLogs"
  by (simp_all add: disjoint_tables_def)

lemma stale_loop_keeps: "keeps view (table_of requestLogs) (stale_loop E n ps ds)"
proof (induction ds arbitrary: n ps)
  case Nil
  show ?case by (simp add: keeps_return)
next
  case (Cons d ds)
  have "\<not> is_set_key (presence_key (snd d))" unfolding presence_key_def by (rule is_set_key_simps)
  then show ?case
    unfolding stale_loop.simps
    by (intro keeps_intros keeps_redis_read keeps_update Cons.IH) simp_all
qed

lemma refreshLastSeen_keeps: "keeps view (table_of requestLogs) (refreshLastSeen E ids)"
proof (cases "ids = []")
  case True
  then show ?thesis by (simp add: refreshLastSeen_def [abs_def] keeps_return)
next
  case False
  have "keeps view (table_of requestLogs) (\<lambda>w0. ignore_rows (update_table E devices
      (alive dev_deletedAt [\<lambda>d. dev_id d \<in> set ids]) (\<lambda>d. d\<lparr>dev_lastSeenAt := Some (now_ms E w0)\<rparr>)) w0)"
    by (rule keeps_run_at) (intro keeps_ignore_rows keeps_update, simp_all)
  with False show ?thesis by (simp add: refreshLastSeen_def [abs_def])
qed

lemma markDevicesStale_keeps: "keeps view (table_of requestLogs) (markDevicesStale E)"
  unfolding markDevicesStale_def markStaleOffline_def
  by (intro keeps_intros keeps_select stale_loop_keeps refreshLastSeen_keeps)

lemma sweepIdleDevices_keeps: "keeps view (table_of requestLogs) (sweepIdleDevices E c)"
proof -
  have "keeps view (table_of requestLogs) (softDeleteIdle E d)" for d
    unfolding softDeleteIdle_def [abs_def]
    by (rule keeps_run_at) (intro keeps_bind keeps_return keeps_update, simp_all)
  then show ?thesis unfolding sweepIdleDevices_def by (intro keeps_bind keeps_return)
qed

lemma metricsCleanup_keeps: "keeps view (table_of requestLogs) (metricsCleanup E c)"
proof -
  have "keeps view (table_of requestLogs) (cleanupOldMetrics E d)" for d
    unfolding cleanupOldMetrics_def [abs_def] Let_def
    by (rule keeps_run_at) (intro keeps_bind keeps_return keeps_delete, simp_all)
  then show ?thesis unfolding metricsCleanup_def by (intro keeps_bind keeps_pair keeps_return)
qed

lemma process_maintenance_safe: "log_safe view (process_maintenance E c name)"
  unfolding process_maintenance_def
  by (intro revising.branch revising.bind revising.return repairStalePending_safe retentionSweep_safe
      log_safe_keeps [OF markDevicesStale_keeps] log_safe_keeps [OF metricsCleanup_keeps]
      log_safe_keeps [OF sweepIdleDevices_keeps])

lemma recordMonthlyUsage_keeps: "keeps view (table_of requestLogs) (recordMonthlyUsage E t)"
  unfolding recordMonthlyUsage_def [abs_def]
  by (rule keeps_run_at) (intro keeps_then keeps_return keeps_update, simp_all)

lemma count_first_keeps: "keeps view (table_of requestLogs) (count_first E j)"
  unfolding count_first_def
  by (intro keeps_intros keeps_recordCompletion recordMonthlyUsage_keeps) simp_all

lemma onFailed_safe: "log_safe view (onFailed E j attempts made)"
  unfolding onFailed_def
  by (intro revising.branch revising.sequence revising.ignored revising.return markState_safe
      log_safe_keeps [OF keeps_redis_write(3)]) (simp add: PAYLOAD_STATES_def)

lemma keeps_insert_all:
  assumes "\<forall>n \<in> set ns. prj T n = None"
  shows "keeps view (table_of T) (db_insert_all E ns)"
  unfolding keeps_unfold
proof (intro allI impI)
  fix w assume h: "healthy (view w)"
  have "view (snd (db_insert_all E ns w)) = (view w)\<lparr>rows := rows (view w) @ ns\<rparr> \<or>
      view (snd (db_insert_all E ns w)) = view w"
    using insert_all [of w ns] insert_all_conflict [of w ns] h by fastforce
  then show "healthy (view (snd (db_insert_all E ns w))) \<and>
      table_of T (view (snd (db_insert_all E ns w))) = table_of T (view w)"
    using h contents_none [OF assms] by (auto simp: table_of_def)
qed

lemma rebuildRecent_keeps: "keeps view (table_of requestLogs) (rebuildRecent E d)"
proof -
  have rpc: "keeps view (table_of requestLogs) (\<lambda>w. db_insert_all E (map RpcMetric (f w)) w)" for f
    by (rule keeps_run_at) (rule keeps_insert_all, simp)
  have device: "keeps view (table_of requestLogs) (\<lambda>w. db_insert_all E (map DeviceMetric (f w)) w)" for f
    by (rule keeps_run_at) (rule keeps_insert_all, simp)
  show ?thesis
    unfolding rebuildRecent_def [abs_def] Let_def
    by (rule keeps_run_at, rule keeps_transaction)
      (intro keeps_then keeps_bind keeps_return keeps_delete keeps_select rpc device, simp_all)
qed

lemma worker_onModuleInit_keeps: "keeps view (table_of requestLogs) (worker_onModuleInit E c)"
  unfolding worker_onModuleInit_def
  by (intro keeps_then keeps_ignore keeps_forM keeps_pair rebuildRecent_keeps keeps_random)

text \<open>The spine is written, then only its state changes.\<close>

lemma tail_safe:
  assumes "keeps view (table_of requestLogs) m"
  shows "log_safe (world_view view)
    (thenM (if b then with_world m else returnM ())
      (thenM (indexPayload E base d) (with_world (markState E i ''indexed''))))"
  by (intro revising.sequence revising.branch revising.return log_safe_with_world
      log_safe_keeps [OF assms] markState_safe
      keeps_relates [OF indexPayload_keeps [of "table_of requestLogs"]])
    (auto simp: revises_def PAYLOAD_STATES_def)

lemma writeSpine_logged:
  assumes "healthy (view w)" "request_log_fits j"
  shows "logged j s (table_of requestLogs (view w)) (table_of requestLogs (view (snd (writeSpine E j s w))))"
proof -
  obtain i where i: "view (snd (writeSpine E j s w)) =
      (if \<exists>x \<in> set (contents (rows (view w)) requestLogs). rql_requestId x = rlj_requestId j then view w
       else (view w)\<lparr>rows := rows (view w) @ [RequestLog (new_request_log j s i)]\<rparr>)"
    using writeSpine_run(2) [OF assms, of s] by blast
  show ?thesis
  proof (cases "\<exists>x \<in> set (contents (rows (view w)) requestLogs). rql_requestId x = rlj_requestId j")
    case True
    then have "rlj_requestId j \<in> rql_requestId ` set (table_of requestLogs (view w))"
      unfolding table_of_def by (metis imageI)
    then show ?thesis using i True by (simp add: logged_def)
  next
    case False
    then have "rlj_requestId j \<notin> rql_requestId ` set (table_of requestLogs (view w))"
      unfolding table_of_def by auto
    moreover have "table_of requestLogs (view (snd (writeSpine E j s w))) =
        table_of requestLogs (view w) @ [new_request_log j s i]"
      using i False by (simp add: table_of_def)
    ultimately show ?thesis unfolding logged_def by blast
  qed
qed

end

lemma new_log_fields [simp]:
  "rql_requestId (new_request_log j s i) = rlj_requestId j" "rql_payloadState (new_request_log j s i) = s"
  by (simp_all add: new_request_log_def)

text \<open>Between the two tables a step leads from, with the new row a job may have added.\<close>

definition log_step :: "request_log_row list \<Rightarrow> request_log_row list \<Rightarrow> bool" where
  "log_step before after \<longleftrightarrow>
     revises before after \<or>
     (\<exists>j s middle. logged j s before middle \<and> s \<in> set PAYLOAD_STATES \<and> revises middle after)"

lemma log_step_valid: "log_step before after \<Longrightarrow> states_valid before \<Longrightarrow> states_valid after"
  unfolding log_step_def logged_def revises_def states_valid_def by fastforce

lemma log_step_evidence:
  assumes "log_step before after" "distinct (map rql_requestId before)"
  shows "evidence_kept before after"
  unfolding evidence_kept_def
proof (intro ballI impI)
  fix r r' assume r: "r \<in> set before" "r' \<in> set after" "rql_requestId r' = rql_requestId r"
  have inj: "q = r" if "q \<in> set before" "rql_requestId q = rql_requestId r" for q
    using assms(2) r(1) that by (auto simp: distinct_map inj_on_def)
  obtain middle where m: "revises middle after"
    and new: "\<And>q. q \<in> set middle \<Longrightarrow> q \<in> set before \<or> rql_requestId q \<notin> rql_requestId ` set before"
  proof (cases "revises before after")
    case False
    then obtain j s middle where "logged j s before middle" "revises middle after"
      using assms(1) unfolding log_step_def by blast
    moreover have "q \<in> set before \<or> rql_requestId q \<notin> rql_requestId ` set before" if "q \<in> set middle" for q
      using \<open>logged j s before middle\<close> that by (auto simp: logged_def)
    ultimately show thesis by (intro that [of middle])
  qed (use that in blast)
  obtain q where q: "q \<in> set middle" "r' = q \<or> (\<exists>s \<in> set PAYLOAD_STATES. r' = set_payload_state s q)"
    using m r(2) unfolding revises_def by blast
  then have id: "rql_requestId q = rql_requestId r" using r(3) by auto
  then have "q \<in> set before" using new [OF q(1)] r(1) by (metis imageI)
  then have "q = r" using inj id by blast
  then show "r' = set_payload_state (rql_payloadState r') r" using q(2) by auto
qed

lemma request_ids_distinct: "conflict_free rs \<Longrightarrow> distinct (map rql_requestId (contents rs requestLogs))"
  using contents_distinct [OF tables_ok(12) conflict_free_distinct]
  by (auto simp: distinct_map intro!: inj_onI intro: request_ids_unique)

context services
begin

lemma processors_step_fits:
  assumes "healthy (view (fst p))" "request_log_fits j"
  shows "healthy (view (fst (snd (process_request_log E base render j p)))) \<and>
      log_step (table_of requestLogs (view (fst p)))
        (table_of requestLogs (view (fst (snd (process_request_log E base render j p)))))" (is ?consume)
    and "healthy (view (fst (snd (process_dead_letter E base render j p)))) \<and>
      log_step (table_of requestLogs (view (fst p)))
        (table_of requestLogs (view (fst (snd (process_dead_letter E base render j p)))))" (is ?dead)
proof -
  have s: "''pending'' \<in> set PAYLOAD_STATES" "''failed'' \<in> set PAYLOAD_STATES"
    by (simp_all add: PAYLOAD_STATES_def)
  define q where "q s = (snd (writeSpine E j s (fst p)), snd p)" for s
  have hq: "healthy (view (fst (q s)))" for s
    using writeSpine_run(3) [OF assms, of s] by (simp add: q_def)
  have lq: "logged j s (table_of requestLogs (view (fst p))) (table_of requestLogs (view (fst (q s))))" for s
    using writeSpine_logged [OF assms, of s] by (simp add: q_def)
  have step: "healthy (view (fst (snd (m (q s))))) \<and>
      log_step (table_of requestLogs (view (fst p))) (table_of requestLogs (view (fst (snd (m (q s))))))"
    if "log_safe (world_view view) m" "s \<in> set PAYLOAD_STATES" for m :: "('w \<times> bool, unit) io" and s
    using relatesD [OF that(1), of "q s"] hq lq that(2) unfolding log_step_def by blast
  have 1: "snd (process_request_log E base render j p) =
      snd (thenM (if projr (fst (writeSpine E j ''pending'' (fst p))) then with_world (count_first E j) else returnM ())
        (thenM (indexPayload E base (buildManticoreDoc render j))
          (with_world (markState E (rlj_requestId j) ''indexed''))) (q ''pending''))"
    using writeSpine_run(1) [OF assms, of "''pending''"]
    by (simp add: process_request_log_def bindM_eq with_world_def q_def)
  show ?consume unfolding 1 by (rule step [OF tail_safe [OF count_first_keeps] s(1)])
  have 2: "snd (process_dead_letter E base render j p) =
      snd (thenM (if False then with_world (returnM ()) else returnM ())
        (thenM (indexPayload E base (buildManticoreDoc render j))
          (with_world (markState E (rlj_requestId j) ''indexed''))) (q ''failed''))"
    using writeSpine_run(1) [OF assms, of "''failed''"]
    by (simp add: process_dead_letter_def thenM_eq with_world_def q_def io_simps)
  show ?dead unfolding 2 by (rule step [OF tail_safe [OF keeps_return] s(2)])
qed

lemma processors_step:
  assumes "healthy (view (fst p))"
  shows "healthy (view (fst (snd (process_request_log E base render j p)))) \<and>
      log_step (table_of requestLogs (view (fst p)))
        (table_of requestLogs (view (fst (snd (process_request_log E base render j p)))))" (is ?consume)
    and "healthy (view (fst (snd (process_dead_letter E base render j p)))) \<and>
      log_step (table_of requestLogs (view (fst p)))
        (table_of requestLogs (view (fst (snd (process_dead_letter E base render j p)))))" (is ?dead)
proof -
  let ?T = "table_of requestLogs (view (fst p))"
  have refl: "log_step ?T ?T" by (auto simp: log_step_def revises_def)
  show ?consume
  proof (cases "request_log_fits j")
    case True
    then show ?thesis by (rule processors_step_fits(1) [OF assms])
  next
    case False
    then show ?thesis
      using refl assms by (simp add: process_request_log_def bindM_eq with_world_def writeSpine_misfit)
  qed
  show ?dead
  proof (cases "request_log_fits j")
    case True
    then show ?thesis by (rule processors_step_fits(2) [OF assms])
  next
    case False
    then show ?thesis
      using refl assms by (simp add: process_dead_letter_def thenM_eq with_world_def writeSpine_misfit)
  qed
qed

lemma worker_step_logs:
  assumes "worker_step E base render c p p'" "healthy (view (fst p))"
  shows "healthy (view (fst p')) \<and>
    log_step (table_of requestLogs (view (fst p))) (table_of requestLogs (view (fst p')))"
  using assms
proof cases
  case (consume j)
  then show ?thesis using processors_step(1) [OF assms(2)] by simp
next
  case (exhausted j attempts made)
  then show ?thesis
    using relatesD [OF log_safe_with_world [OF onFailed_safe], of p] assms(2) by (auto simp: log_step_def)
next
  case (dead_letter j)
  then show ?thesis using processors_step(2) [OF assms(2)] by simp
next
  case (maintain name)
  then show ?thesis
    using relatesD [OF log_safe_with_world [OF process_maintenance_safe], of p] assms(2)
    by (auto simp: log_step_def)
next
  case start
  then show ?thesis
    using relatesD [OF log_safe_with_world [OF log_safe_keeps [OF worker_onModuleInit_keeps]], of p] assms(2)
    by (auto simp: log_step_def)
qed

end

section \<open>One delivery\<close>

context services
begin

lemma month_total:
  assumes "healthy (view w)"
  shows "\<not> isl (fst (recordMonthlyUsage E t w))"
proof -
  have "conflict_free (rows (view w))" using indexes [of w] assms by simp
  note cf = access_token_update_conflict_free [OF this, of "count_month m" for m]
  have "\<not> isl (fst (update_table E accessTokens P (count_month m) w))" for P m
    by (rule run_update(1) [OF assms tables_ok(3)]) (rule cf, simp add: count_month_def)
  then show ?thesis by (simp add: recordMonthlyUsage_def thenM_eq)
qed

end

lemma aggregates_cong:
  "table_of rpcDailyMetrics s = table_of rpcDailyMetrics t \<Longrightarrow> aggregates_of s js = aggregates_of t js"
  by (simp add: aggregates_of_def table_of_def)

definition indexed_row :: "string \<Rightarrow> request_log_row \<Rightarrow> request_log_row" where
  "indexed_row i r = (if rql_requestId r = i then set_payload_state ''indexed'' r else r)"

context services
begin

lemma metrics_tables [simp]:
  "disjoint_tables requestLogs rpcDailyMetrics" "disjoint_tables accessTokens rpcDailyMetrics"
  by (simp_all add: disjoint_tables_def)

lemma markState_keeps_metrics: "keeps view (table_of rpcDailyMetrics) (markState E i s)"
  unfolding markState_def by (intro keeps_ignore_rows keeps_update) simp_all

lemma index_and_mark:
  fixes base i :: string and d :: manticore_doc
  assumes "healthy (view (fst p))"
  defines "q \<equiv> snd (thenM (indexPayload E base d) (with_world (markState E i ''indexed'')) p)"
  shows "healthy (view (fst q))"
    and "table_of rpcDailyMetrics (view (fst q)) = table_of rpcDailyMetrics (view (fst p))"
    and "table_of requestLogs (view (fst q)) = table_of requestLogs (view (fst p)) \<or>
      table_of requestLogs (view (fst q)) = map (indexed_row i) (table_of requestLogs (view (fst p)))"
proof -
  define m where "m = snd (indexPayload E base d p)"
  have m: "healthy (view (fst m))" "view (fst m) = view (fst p)"
    using keepsD [OF indexPayload_keeps [of "\<lambda>s. s" base d], of p] assms(1) by (simp_all add: m_def)
  have q: "q = m \<or> q = (snd (markState E i ''indexed'' (fst m)), snd m)"
    by (auto simp: q_def thenM_eq with_world_def m_def)
  note mark = markState_run(2,3) [OF m(1), of i "''indexed''"]
  note metrics = keepsD [OF markState_keeps_metrics m(1), of i "''indexed''"]
  show "healthy (view (fst q))" using q m metrics(1) by auto
  show "table_of rpcDailyMetrics (view (fst q)) = table_of rpcDailyMetrics (view (fst p))"
    using q m metrics(2) by auto
  show "table_of requestLogs (view (fst q)) = table_of requestLogs (view (fst p)) \<or>
      table_of requestLogs (view (fst q)) = map (indexed_row i) (table_of requestLogs (view (fst p)))"
    using q m mark(2) by (auto simp: table_of_def indexed_row_def [abs_def])
qed

lemma count_first_run:
  assumes "healthy (view w)" "aggregates_of (view w) js"
  shows "\<not> isl (fst (recordCompletion E j w))" "healthy (view (snd (count_first E j w)))"
    and "aggregates_of (view (snd (count_first E j w))) (js @ [j])"
    and "table_of requestLogs (view (snd (count_first E j w))) = table_of requestLogs (view w)"
proof -
  note rec = recordCompletion_run(1,4) [OF assms(1), of j]
  have month: "keeps view (table_of rpcDailyMetrics) (recordMonthlyUsage E t)" for t
    unfolding recordMonthlyUsage_def [abs_def]
    by (rule keeps_run_at) (intro keeps_then keeps_return keeps_update, simp_all)
  have "keeps view (table_of rpcDailyMetrics)
      (case rlj_accessTokenId j of None \<Rightarrow> returnM () | Some t \<Rightarrow> recordMonthlyUsage E t)"
    by (intro keeps_option keeps_return month)
  note tail = keepsD [OF this rec(2)]
  show "\<not> isl (fst (recordCompletion E j w))" using rec(1) by simp
  show "healthy (view (snd (count_first E j w)))"
    using tail(1) rec(1) by (simp add: count_first_def thenM_eq)
  show "aggregates_of (view (snd (count_first E j w))) (js @ [j])"
    using tail(2) rec(1) recordCompletion_aggregates [OF assms, of j]
    by (simp add: count_first_def thenM_eq aggregates_of_def table_of_def)
  show "table_of requestLogs (view (snd (count_first E j w))) = table_of requestLogs (view w)"
    by (rule keepsD(2) [OF count_first_keeps assms(1)])
qed

text \<open>A delivery counts the call when its request is new, and not otherwise.\<close>

lemma delivery:
  fixes base :: string and render :: "message \<Rightarrow> string" and j :: request_log_job
  assumes "healthy (view (fst p))" "aggregates_of (view (fst p)) js" "request_log_fits j"
  defines "T \<equiv> table_of requestLogs (view (fst p))"
    and "q \<equiv> snd (process_request_log E base render j p)"
  shows "healthy (view (fst q))"
    and "aggregates_of (view (fst q)) (if rlj_requestId j \<in> rql_requestId ` set T then js else js @ [j])"
    and "\<exists>T'. logged j ''pending'' T T' \<and> (table_of requestLogs (view (fst q)) = T' \<or>
      table_of requestLogs (view (fst q)) = map (indexed_row (rlj_requestId j)) T')"
proof -
  let ?new = "rlj_requestId j \<notin> rql_requestId ` set T"
  define w1 where "w1 = snd (writeSpine E j ''pending'' (fst p))"
  have reply: "fst (writeSpine E j ''pending'' (fst p)) = Inr ?new"
    using writeSpine_run(1) [OF assms(1,3), of "''pending''"] by (auto simp: T_def table_of_def image_iff)
  have h1: "healthy (view w1)" using writeSpine_run(3) [OF assms(1,3)] by (simp add: w1_def)
  have l1: "logged j ''pending'' T (table_of requestLogs (view w1))"
    unfolding w1_def T_def by (rule writeSpine_logged [OF assms(1,3)])
  have "keeps view (table_of rpcDailyMetrics) (writeSpine E j ''pending'')"
    unfolding writeSpine_def by (intro keeps_if keeps_throw keeps_bind keeps_return keeps_insert) simp_all
  from keepsD(2) [OF this assms(1)] have a1: "aggregates_of (view w1) js"
    unfolding w1_def by (rule aggregates_cong [THEN iffD2, OF _ assms(2)])
  define w2 where "w2 = (if ?new then snd (count_first E j w1) else w1)"
  note count = count_first_run [OF h1 a1, of j]
  have ok: "\<not> isl (fst (count_first E j w1))"
  proof -
    have "healthy (view (snd (recordCompletion E j w1)))" by (rule recordCompletion_run(4) [OF h1])
    then have "\<not> isl (fst (recordMonthlyUsage E t (snd (recordCompletion E j w1))))" for t
      using month_total by simp
    then show ?thesis using count(1) by (simp add: count_first_def thenM_eq split: option.splits)
  qed
  have q: "q = snd (thenM (indexPayload E base (buildManticoreDoc render j))
      (with_world (markState E (rlj_requestId j) ''indexed'')) (w2, snd p))"
    using reply ok
    by (simp add: q_def process_request_log_def bindM_eq thenM_eq with_world_def w1_def w2_def io_simps)
  have w2: "healthy (view w2)" "aggregates_of (view w2) (if ?new then js @ [j] else js)"
    "table_of requestLogs (view w2) = table_of requestLogs (view w1)"
    using h1 a1 count by (simp_all add: w2_def)
  note tail = index_and_mark [of "(w2, snd p)" base "buildManticoreDoc render j" "rlj_requestId j",
      unfolded fst_conv, OF w2(1), folded q]
  show "healthy (view (fst q))" by (fact tail(1))
  show "aggregates_of (view (fst q)) (if rlj_requestId j \<in> rql_requestId ` set T then js else js @ [j])"
    using tail(2) w2(2) by (simp add: aggregates_of_def table_of_def split: if_splits)
  show "\<exists>T'. logged j ''pending'' T T' \<and> (table_of requestLogs (view (fst q)) = T' \<or>
      table_of requestLogs (view (fst q)) = map (indexed_row (rlj_requestId j)) T')"
    using l1 tail(3) w2(3) by auto
qed

end

section \<open>Properties\<close>

text \<open>
  C38: the request log is evidence.  In every run of the worker (deliveries and redeliveries of any
  jobs, exhausted retries, dead letters, maintenance, restarts, with a search index that answers
  or fails as it likes) every row's payload state stays one of the four, and no later step ever
  alters a row of a request in any other column or adds a second row for it.
\<close>

theorem logs_are_evidence:
  assumes "services E view" "(worker_step E base render c)\<^sup>*\<^sup>* p p'"
    and "healthy (view (fst p))" "states_valid (table_of requestLogs (view (fst p)))"
  shows "states_valid (table_of requestLogs (view (fst p'))) \<and>
    distinct (map rql_requestId (table_of requestLogs (view (fst p')))) \<and>
    (\<forall>p''. worker_step E base render c p' p'' \<longrightarrow>
       evidence_kept (table_of requestLogs (view (fst p'))) (table_of requestLogs (view (fst p''))))"
proof -
  note step = services.worker_step_logs [OF assms(1)]
  have run: "healthy (view (fst p')) \<and> states_valid (table_of requestLogs (view (fst p')))"
    using assms(2)
  proof (induction rule: rtranclp_induct)
    case base
    then show ?case using assms(3,4) by simp
  next
    case (step y z)
    then show ?case using services.worker_step_logs [OF assms(1) step.hyps(2)] log_step_valid by blast
  qed
  have ids: "distinct (map rql_requestId (table_of requestLogs (view (fst p'))))"
    unfolding table_of_def
    using services.indexes [OF assms(1), of "fst p'"] run by (intro request_ids_distinct) simp
  show ?thesis using run ids step log_step_evidence by blast
qed

definition example_retention :: retention where
  "example_retention = \<lparr>rt_rawRetentionDays = 3, rt_keepLatestPerScope = 100,
     rt_aggregateRetentionDays = 30, rt_deviceIdleDeleteDays = 3\<rparr>"

theorem logs_are_evidence_witness:
  "evidence_kept (table_of requestLogs (sim_view example_logs))
     (table_of requestLogs (sim_view (fst (snd
       (process_request_log sim_env ''m'' (\<lambda>_. []) example_job (example_logs, False))))))"
proof -
  have "healthy (sim_view (fst (example_logs, False)))"
    and "states_valid (table_of requestLogs (sim_view (fst (example_logs, False))))"
    by (simp_all add: empty_store_def healthy_def typed_keys_def table_of_def states_valid_def
        PAYLOAD_STATES_def example_log_def)
  from logs_are_evidence [OF sim_services rtranclp.rtrancl_refl this] show ?thesis
    using worker_step.consume [of sim_env "''m''" "\<lambda>_. []" undefined "(example_logs, False)" example_job]
    by (simp only: fst_conv)
qed

text \<open>Deliveries of one job, whatever the outcome of each.\<close>

definition deliveries ::
  "'w env \<Rightarrow> string \<Rightarrow> (message \<Rightarrow> string) \<Rightarrow> request_log_job \<Rightarrow> nat \<Rightarrow> 'w \<times> bool \<Rightarrow> 'w \<times> bool" where
  "deliveries E base render j n = (\<lambda>p. snd (process_request_log E base render j p)) ^^ n"

lemma indexed_row_id [simp]: "rql_requestId (indexed_row i r) = rql_requestId r"
  by (simp add: indexed_row_def)



definition give_up :: "string set \<Rightarrow> request_log_row \<Rightarrow> request_log_row" where
  "give_up M r = (if rql_requestId r \<in> M then set_payload_state ''unavailable'' r else r)"

context services
begin

lemma mark_all_run:
  assumes "healthy (view w)"
  shows "fst (forM is (\<lambda>i. markState E i ''unavailable'') w) = Inr ()"
    and "table_of requestLogs (view (snd (forM is (\<lambda>i. markState E i ''unavailable'') w))) =
      map (give_up (set is)) (table_of requestLogs (view w))"
  using assms
proof (induction "is" arbitrary: w)
  case Nil
  {
    case 1 then show ?case by simp
  next
    case 2
    have "map (give_up {}) xs = xs" for xs by (induction xs) (simp_all add: give_up_def)
    then show ?case by simp
  }
next
  case (Cons i "is")
  have h: "healthy (view (snd (markState E i ''unavailable'' w)))" if "healthy (view w)" for w
    using that by (simp add: markState_run(2) [OF that])
  {
    case 1 then show ?case using Cons.IH(1) [OF h [OF 1]] by (simp add: thenM_eq markState_run(1))
  next
    case 2
    have "give_up (set is) (if rql_requestId r = i then set_payload_state ''unavailable'' r else r) =
        give_up (set (i # is)) r" for r
      by (simp add: give_up_def)
    then show ?case
      using Cons.IH(2) [OF h [OF 2]] markState_run(1,3) [OF 2, of i "''unavailable''"]
      by (simp add: thenM_eq table_of_def)
  }
qed

end

text \<open>
  the repair gives up on abandoned payloads, 500 at a time, and on nothing else.  A run marks
  \<open>min 500 n\<close> of the \<open>n\<close> rows that have been pending for more than ten minutes as unavailable,
  says how many, and leaves every other row as it was; so rows left over shrink by 500 a run.
\<close>

theorem repair_marks_stale:
  assumes "services E view" "healthy (view w)"
  defines "stale \<equiv> stale_pending (now_ms E w - 600000)"
    and "T \<equiv> table_of requestLogs (view w)"
  shows "\<exists>M. M \<subseteq> rql_requestId ` {r \<in> set T. stale r} \<and> card M = min 500 (length (filter stale T)) \<and>
    fst (repairStalePending E w) = Inr (Marked (card M)) \<and>
    table_of requestLogs (view (snd (repairStalePending E w))) = map (give_up M) T \<and>
    length (filter stale (map (give_up M) T)) = length (filter stale T) - 500"
proof -
  define sel where "sel = select_from E requestLogs stale w"
  define xs where "xs = projr (fst sel)"
  define ids where "ids = map rql_requestId (take 500 xs)"
  note run = services.run_select [OF assms(1,2), of requestLogs stale, folded sel_def xs_def]
  have T: "distinct (map rql_requestId T)"
    unfolding T_def table_of_def
    by (rule request_ids_distinct, rule services.indexes [OF assms(1)]) (use assms(2) in simp)
  have m: "mset xs = mset (filter stale T)" using run(3) by (simp add: T_def table_of_def)
  then have len: "length xs = length (filter stale T)" by (rule mset_eq_length)
  have "mset (map rql_requestId xs) = mset (map rql_requestId (filter stale T))" using m by simp
  then have "distinct (map rql_requestId xs)"
    using distinct_map_filter [OF T, of stale] mset_eq_imp_distinct_iff by blast
  then have d: "distinct ids" unfolding ids_def by (metis distinct_take take_map)
  have sub: "set (take 500 xs) \<subseteq> {r \<in> set T. stale r}"
    using set_take_subset [of 500 xs] mset_eq_setD [OF m] by auto
  have card: "card (set ids) = min 500 (length (filter stale T))"
    using distinct_card [OF d] by (simp add: ids_def len)
  have find: "findStalePending E STALE_PENDING_MILLISECONDS 500 w = (Inr ids, snd sel)"
    using run(1) by (simp add: findStalePending_def STALE_PENDING_MILLISECONDS_def bindM_eq ids_def sel_def
        xs_def stale_def returnM_def Let_def)
  have h: "healthy (view (snd sel))" using run(2) assms(2) by simp
  note mark = services.mark_all_run [OF assms(1) h, of ids]
  have reply: "fst (repairStalePending E w) = Inr (Marked (card (set ids)))"
    using mark(1) distinct_card [OF d] by (simp add: repairStalePending_def bindM_eq thenM_eq find)
  have after: "table_of requestLogs (view (snd (repairStalePending E w))) = map (give_up (set ids)) T"
    using mark run(2) by (simp add: repairStalePending_def bindM_eq thenM_eq find T_def)
  have hit: "rql_requestId r \<in> set ids \<longleftrightarrow> r \<in> set (take 500 xs)" if "r \<in> set T" for r
    using that sub T by (auto simp: ids_def distinct_map dest: inj_onD)
  have "stale (give_up (set ids) r) \<longleftrightarrow> stale r \<and> r \<notin> set (take 500 xs)" if "r \<in> set T" for r
    using hit [OF that] by (auto simp: give_up_def stale_def stale_pending_def set_payload_state_def)
  then have "filter (\<lambda>r. stale (give_up (set ids) r)) T = filter (\<lambda>r. r \<notin> set (take 500 xs)) (filter stale T)"
    by (auto intro: filter_cong)
  then have "length (filter stale (map (give_up (set ids)) T)) =
      size (filter_mset (\<lambda>r. r \<notin> set (take 500 xs)) (mset (filter stale T)))"
    by (simp add: filter_map o_def flip: size_mset mset_filter)
  also have "\<dots> = length (filter (\<lambda>r. r \<notin> set (take 500 xs)) (take 500 xs @ drop 500 xs))"
    by (simp add: size_mset flip: m mset_filter)
  also have "\<dots> = length (drop 500 xs)"
  proof -
    have "distinct (take 500 xs @ drop 500 xs)"
      using \<open>distinct (map rql_requestId xs)\<close> unfolding append_take_drop_id distinct_map by blast
    then have "filter (\<lambda>r. r \<notin> set (take 500 xs)) (drop 500 xs) = drop 500 xs"
      unfolding distinct_append by (intro filter_True) blast
    moreover have "filter (\<lambda>r. r \<notin> set (take 500 xs)) (take 500 xs) = []" by (simp add: filter_empty_conv)
    ultimately show ?thesis unfolding filter_append by simp
  qed
  finally have "length (filter stale (map (give_up (set ids)) T)) = length (filter stale T) - 500"
    by (simp add: len)
  moreover have "set ids \<subseteq> rql_requestId ` {r \<in> set T. stale r}" using sub by (auto simp: ids_def)
  ultimately show ?thesis using card reply after by blast
qed

theorem repair_marks_stale_witness:
  "fst (repairStalePending sim_env (example_logs\<lparr>sim_now := 600250\<rparr>)) = Inr (Marked 2)"
proof -
  have v: "sim_view (example_logs\<lparr>sim_now := t\<rparr>) = sim_view example_logs" for t by (simp add: sim_view_def)
  have "length (filter (stale_pending 250) (table_of requestLogs (sim_view example_logs))) = 2"
    by (simp add: table_of_def stale_pending_def example_log_def)
  moreover have "healthy (sim_view (example_logs\<lparr>sim_now := 600250\<rparr>))"
    unfolding v by (simp add: empty_store_def healthy_def typed_keys_def)
  moreover have "now_ms sim_env (example_logs\<lparr>sim_now := 600250\<rparr>) = 600250" by (simp add: sim_env_def)
  ultimately show ?thesis
    using repair_marks_stale [OF sim_services, of "example_logs\<lparr>sim_now := 600250\<rparr>"]
    by (auto simp del: example_logs_view simp: v)
qed

lemma misfit_processors:
  assumes "\<not> request_log_fits j"
  shows "process_request_log E base render j p = (Inl (PgError ''22001''), p)"
    and "process_dead_letter E base render j p = (Inl (PgError ''22001''), p)"
  using writeSpine_misfit [OF assms, of E]
  by (simp_all add: process_request_log_def process_dead_letter_def bindM_eq thenM_eq with_world_def)

text \<open>
  a call with an over-long action name leaves no trace.  The route takes an action of any
  length, the column of the log takes 128 characters: every delivery of such a job throws and
  changes nothing, and so does its dead letter, so the call is neither logged nor counted.
\<close>

theorem overlong_action_escapes_log:
  assumes "128 < length (rlj_action j)"
  shows "deliveries E base render j n p = p \<and>
    process_request_log E base render j p = (Inl (PgError ''22001''), p) \<and>
    process_dead_letter E base render j p = (Inl (PgError ''22001''), p)"
proof -
  have "\<not> request_log_fits j" using assms by (simp add: request_log_fits_def text_fits_def)
  note run = misfit_processors [OF this, of E base render]
  have "deliveries E base render j n p = p" by (induction n) (simp_all add: deliveries_def run)
  then show ?thesis using run by blast
qed

theorem overlong_action_escapes_log_witness:
  "deliveries sim_env ''m'' (\<lambda>_. []) (example_job\<lparr>rlj_action := replicate 129 (CHR ''a'')\<rparr>) 3
     (sim_start, True) = (sim_start, True)"
  using overlong_action_escapes_log [of "example_job\<lparr>rlj_action := replicate 129 (CHR ''a'')\<rparr>" sim_env
      "''m''" "\<lambda>_. []" 3 "(sim_start, True)"] by simp

end
