(* ===== verification/App_Audit.thy ===== *)
theory App_Audit
  imports Json_Text
begin

text \<open>
  \<^verbatim>\<open>common/app-audit/app-audit.schema.ts\<close>: the V1 contract for the execution trace a device may
  attach to its result.  A zod schema is a function from a JSON value to the value it accepts, with
  the keys of an object in the order of the schema; \<open>datetime_ok\<close> is zod's test of an ISO date with
  an offset.  A string is a sequence of characters, those from 128 on take two bytes in UTF-8.
\<close>

section \<open>Schema combinators\<close>

type_synonym schema = "json \<Rightarrow> json option"

definition z_unknown :: schema where
  "z_unknown j = Some j"

definition z_string :: "nat \<Rightarrow> nat \<Rightarrow> schema" where
  "z_string least most j =
     (case j of JStr s \<Rightarrow> if least \<le> length s \<and> length s \<le> most then Some j else None | _ \<Rightarrow> None)"

definition z_int :: "int \<Rightarrow> int \<Rightarrow> schema" where
  "z_int least most j =
     (case j of
        JNum q \<Rightarrow> if of_int \<lfloor>q\<rfloor> = q \<and> least \<le> \<lfloor>q\<rfloor> \<and> \<lfloor>q\<rfloor> \<le> most then Some j else None
      | _ \<Rightarrow> None)"

definition z_number :: schema where
  "z_number j = (case j of JNum q \<Rightarrow> Some j | _ \<Rightarrow> None)"

definition z_nonnegative :: schema where
  "z_nonnegative j = (case j of JNum q \<Rightarrow> if 0 \<le> q then Some j else None | _ \<Rightarrow> None)"

definition z_enum :: "string list \<Rightarrow> schema" where
  "z_enum vs j = (case j of JStr s \<Rightarrow> if s \<in> set vs then Some j else None | _ \<Rightarrow> None)"

definition z_or :: "schema \<Rightarrow> schema \<Rightarrow> schema" where
  "z_or f g j = (case f j of Some x \<Rightarrow> Some x | None \<Rightarrow> g j)"

fun all_some :: "'a option list \<Rightarrow> 'a list option" where
  "all_some [] = Some []"
| "all_some (None # xs) = None"
| "all_some (Some x # xs) = map_option ((#) x) (all_some xs)"

definition z_array :: "nat \<Rightarrow> schema \<Rightarrow> schema" where
  "z_array most f j =
     (case j of
        JArr xs \<Rightarrow> if length xs \<le> most then map_option JArr (all_some (map f xs)) else None
      | _ \<Rightarrow> None)"

text \<open>\<^verbatim>\<open>z.object({...}).strict()\<close>: the flag says whether the key may be missing.\<close>

definition z_member :: "json \<Rightarrow> string \<times> bool \<times> schema \<Rightarrow> (string \<times> json) list option" where
  "z_member j e =
     (case e of (k, may_miss, f) \<Rightarrow>
        (case field k j of
           None \<Rightarrow> if may_miss then Some [] else None
         | Some v \<Rightarrow> map_option (\<lambda>x. [(k, x)]) (f v)))"

definition z_strict :: "(string \<times> bool \<times> schema) list \<Rightarrow> schema" where
  "z_strict shape j =
     (case j of
        JObj ps \<Rightarrow>
          if list_all (\<lambda>p. fst p \<in> fst ` set shape) ps
          then map_option (\<lambda>ms. JObj (concat ms)) (all_some (map (z_member j) shape))
          else None
      | _ \<Rightarrow> None)"

section \<open>The contract\<close>

definition APP_AUDIT_MAX_BYTES :: nat where
  "APP_AUDIT_MAX_BYTES = 512 * 1024"

definition APP_AUDIT_MAX_METADATA :: nat where
  "APP_AUDIT_MAX_METADATA = 64"

definition APP_AUDIT_MAX_STEPS :: nat where
  "APP_AUDIT_MAX_STEPS = 128"

text \<open>\<^verbatim>\<open>z.unknown()\<close> accepts a missing key too.\<close>

definition metadataSchema :: schema where
  "metadataSchema = z_strict [(''key'', False, z_string 1 100), (''value'', True, z_unknown)]"

definition requestSchema :: schema where
  "requestSchema = z_strict
     [(''method'', True, z_string 1 32), (''url'', True, z_string 0 4096),
      (''headers'', True, z_unknown), (''body'', True, z_unknown)]"

definition responseSchema :: schema where
  "responseSchema = z_strict
     [(''statusCode'', True, z_int 0 999), (''headers'', True, z_unknown),
      (''bodyFormat'', True, z_enum [''json'', ''text'', ''empty'']), (''body'', True, z_unknown)]"

definition errorSchema :: schema where
  "errorSchema = z_strict
     [(''type'', True, z_string 0 100), (''code'', True, z_string 0 100),
      (''message'', True, z_string 0 4096)]"

definition z_datetime :: "(string \<Rightarrow> bool) \<Rightarrow> schema" where
  "z_datetime datetime_ok j = (case j of JStr s \<Rightarrow> if datetime_ok s then Some j else None | _ \<Rightarrow> None)"

definition stepSchema :: "(string \<Rightarrow> bool) \<Rightarrow> schema" where
  "stepSchema datetime_ok = z_strict
     [(''sequence'', False, z_int 1 (int APP_AUDIT_MAX_STEPS)), (''code'', True, z_string 0 100),
      (''name'', False, z_string 1 200), (''startedAt'', False, z_datetime datetime_ok),
      (''durationMs'', False, z_nonnegative), (''status'', True, z_or z_number (z_string 0 100)),
      (''request'', True, requestSchema), (''response'', True, responseSchema),
      (''error'', True, errorSchema)]"

definition appAuditSchema :: "(string \<Rightarrow> bool) \<Rightarrow> schema" where
  "appAuditSchema datetime_ok = z_strict
     [(''schemaVersion'', False, z_int 1 1), (''title'', False, z_string 1 200),
      (''metadata'', False, z_array APP_AUDIT_MAX_METADATA metadataSchema),
      (''steps'', False, z_array APP_AUDIT_MAX_STEPS (stepSchema datetime_ok))]"

section \<open>Validation\<close>

datatype audit_validation = AuditOk json | AuditTooLarge | AuditMalformed | AuditWrongSequence nat

definition utf8_length :: "string \<Rightarrow> nat" where
  "utf8_length s = length s + length (filter (\<lambda>c. 128 \<le> (of_char c :: nat)) s)"

definition array_of :: "json option \<Rightarrow> json list" where
  "array_of v = (case v of Some (JArr xs) \<Rightarrow> xs | _ \<Rightarrow> [])"

text \<open>\<^verbatim>\<open>steps.findIndex((step, index) => step.sequence !== index + 1)\<close>.\<close>

fun wrong_sequence :: "nat \<Rightarrow> json list \<Rightarrow> nat option" where
  "wrong_sequence i [] = None"
| "wrong_sequence i (x # xs) =
     (if field ''sequence'' x \<noteq> Some (JNum (of_nat (i + 1))) then Some i else wrong_sequence (i + 1) xs)"

definition validateDeviceAppAudit :: "(string \<Rightarrow> bool) \<Rightarrow> json \<Rightarrow> audit_validation" where
  "validateDeviceAppAudit datetime_ok input =
     (if APP_AUDIT_MAX_BYTES < utf8_length (stringify input) then AuditTooLarge
      else case appAuditSchema datetime_ok input of
             None \<Rightarrow> AuditMalformed
           | Some d \<Rightarrow>
               (case wrong_sequence 0 (array_of (field ''steps'' d)) of
                  Some i \<Rightarrow> AuditWrongSequence i
                | None \<Rightarrow> AuditOk d))"

section \<open>What an accepted audit is\<close>

lemma all_some_Some: "all_some xs = Some ys \<longleftrightarrow> xs = map Some ys"
  by (induction xs arbitrary: ys rule: all_some.induct) (auto simp: map_eq_Cons_conv Cons_eq_map_conv)

lemma wrong_sequence_None:
  "wrong_sequence i xs = None \<longleftrightarrow>
     map (field ''sequence'') xs = map (\<lambda>k. Some (JNum (of_nat (i + k + 1)))) [0..<length xs]"
proof (induction i xs rule: wrong_sequence.induct)
  case (2 i x xs)
  have "[0..<length (x # xs)] = 0 # map Suc [0..<length xs]" by (simp add: map_Suc_upt upt_conv_Cons del: upt_Suc)
  then show ?case using 2 by (auto simp del: upt_Suc)
qed simp

lemma z_member_required:
  "z_member j (k, False, f) = Some m \<longleftrightarrow> (\<exists>v x. field k j = Some v \<and> f v = Some x \<and> m = [(k, x)])"
  by (auto simp: z_member_def split: option.splits)

lemma z_strict_Some:
  "z_strict shape j = Some d \<longleftrightarrow>
     (\<exists>ps ms. j = JObj ps \<and> list_all (\<lambda>p. fst p \<in> fst ` set shape) ps \<and>
        map (z_member j) shape = map Some ms \<and> d = JObj (concat ms))"
  by (auto simp: z_strict_def all_some_Some split: json.splits)

lemma z_array_Some:
  "z_array n f j = Some d \<longleftrightarrow>
     (\<exists>xs ys. j = JArr xs \<and> length xs \<le> n \<and> map f xs = map Some ys \<and> d = JArr ys)"
  by (auto simp: z_array_def all_some_Some split: json.splits)

lemma accepted_fields:
  assumes "appAuditSchema dt j = Some d"
  obtains v t m s where "field ''schemaVersion'' d = Some v" "z_int 1 1 v = Some v"
    and "field ''metadata'' d = Some (JArr m)" "length m \<le> 64"
    and "field ''steps'' d = Some (JArr s)" "length s \<le> 128"
proof -
  obtain v0 v t0 t m0 m s0 s where
    v: "z_int 1 1 v0 = Some v" and m: "z_array 64 metadataSchema m0 = Some m"
    and s: "z_array 128 (stepSchema dt) s0 = Some s"
    and d: "d = JObj [(''schemaVersion'', v), (''title'', t), (''metadata'', m), (''steps'', s)]"
    using assms
    by (auto simp: appAuditSchema_def z_strict_Some Cons_eq_map_conv z_member_required
        APP_AUDIT_MAX_METADATA_def APP_AUDIT_MAX_STEPS_def)
  have "v0 = v" using v by (auto simp: z_int_def split: json.splits if_splits)
  moreover obtain xs where "m = JArr xs" "length xs \<le> 64"
    using m unfolding z_array_Some by (metis map_eq_imp_length_eq)
  moreover obtain ys where "s = JArr ys" "length ys \<le> 128"
    using s unfolding z_array_Some by (metis map_eq_imp_length_eq)
  ultimately show thesis using v by (intro that) (simp_all add: d field_def)
qed

text \<open>
  what the server stores of a device's trace is well formed.  An accepted audit is of version 1,
  has at most 64 metadata entries and at most 128 steps, its steps are numbered 1, 2, 3, ... without
  a gap, and it came from a value of at most 512 KiB.
\<close>

theorem accepted_audit_is_bounded:
  assumes "validateDeviceAppAudit datetime_ok j = AuditOk d"
  shows "\<exists>m s. field ''schemaVersion'' d = Some (JNum 1) \<and>
    field ''metadata'' d = Some (JArr m) \<and> length m \<le> 64 \<and>
    field ''steps'' d = Some (JArr s) \<and> length s \<le> 128 \<and>
    (\<forall>k < length s. field ''sequence'' (s ! k) = Some (JNum (of_nat (k + 1)))) \<and>
    utf8_length (stringify j) \<le> 524288"
proof -
  have d: "appAuditSchema datetime_ok j = Some d" "wrong_sequence 0 (array_of (field ''steps'' d)) = None"
    "utf8_length (stringify j) \<le> 524288"
    using assms by (auto simp: validateDeviceAppAudit_def APP_AUDIT_MAX_BYTES_def split: if_splits option.splits)
  obtain v m s where f: "field ''schemaVersion'' d = Some v" "z_int 1 1 v = Some v"
    "field ''metadata'' d = Some (JArr m)" "length m \<le> 64"
    "field ''steps'' d = Some (JArr s)" "length s \<le> 128"
    using accepted_fields [OF d(1)] by blast
  have "v = JNum 1"
    using f(2) by (auto simp: z_int_def split: json.splits if_splits)
  have "map (field ''sequence'') s ! k = Some (JNum (of_nat (k + 1)))" if "k < length s" for k
    using d(2) that by (simp add: f(5) array_of_def wrong_sequence_None)
  then show ?thesis using f d(3) \<open>v = JNum 1\<close> by auto
qed

definition example_audit :: json where
  "example_audit = JObj
     [(''schemaVersion'', JNum 1), (''title'', JStr ''t''), (''metadata'', JArr []),
      (''steps'', JArr [JObj [(''sequence'', JNum 1), (''name'', JStr ''n''),
         (''startedAt'', JStr ''x''), (''durationMs'', JNum 3)]])]"

theorem accepted_audit_is_bounded_witness:
  "\<exists>m s. field ''steps'' example_audit = Some (JArr s) \<and> length s \<le> 128 \<and>
     field ''metadata'' example_audit = Some (JArr m)"
proof -
  have size: "utf8_length (stringify example_audit) \<le> 524288"
    by (simp add: example_audit_def utf8_length_def quote_def escape_char_def show_number_def show_int_def
        show_nat.simps digit_char_def Let_def)
  have schema: "appAuditSchema (\<lambda>s. s = ''x'') example_audit = Some example_audit"
    by (simp add: example_audit_def appAuditSchema_def z_strict_def z_member_def z_array_def z_int_def
        z_string_def z_nonnegative_def z_datetime_def stepSchema_def field_def APP_AUDIT_MAX_METADATA_def
        APP_AUDIT_MAX_STEPS_def)
  have "validateDeviceAppAudit (\<lambda>s. s = ''x'') example_audit = AuditOk example_audit"
    using size by (simp add: validateDeviceAppAudit_def APP_AUDIT_MAX_BYTES_def schema)
      (simp add: example_audit_def field_def array_of_def)
  from accepted_audit_is_bounded [OF this] show ?thesis by blast
qed

end
