(* ===== verification/Rpc_Service.thy ===== *)
theory Rpc_Service
  imports Worker App_Audit Guards
begin

text \<open>
  \<^verbatim>\<open>application/rpc/rpc.service.ts\<close>, the hot path of an invocation, and the handlers of
  \<^verbatim>\<open>rpc.controller.ts\<close>.  An invocation runs on one instance (\<open>inst\<close>).  While it waits for the
  device the instance handles other events; they are the argument \<open>events\<close>, the handlers of
  \<open>Connection_Registry\<close> in any order and number, and when none of them settled the call its timer
  does.  The log of a call is written in the background; here it is written where it is started.
\<close>

section \<open>Requests and responses\<close>

record invoke_params =
  iv_project :: string
  iv_action :: string
  iv_payload :: json
  iv_timeoutSeconds :: "int option"
  iv_clientId :: "string option"
  iv_clientRequestId :: "string option"
  iv_accessTokenId :: "nat option"
  iv_requesterUserId :: "nat option"

record device_result =
  dr_status :: "string option"
  dr_is_ok :: "bool option"
  dr_httpCode :: "int option"
  dr_payload :: "json option"
  dr_error :: "string option"
  dr_appAudit :: "json option"

record invoke_response =
  ir_requestId :: string
  ir_clientId :: "string option"
  ir_is_ok :: bool
  ir_status :: string
  ir_httpCode :: int
  ir_latencyMs :: int
  ir_payload :: "json option"
  ir_error :: "message option"

text \<open>
  The fields of a result as \<^verbatim>\<open>DeviceResult\<close> declares them; the code does not check that a device
  sends these types, and what it makes of a result that has others is the argument \<open>untyped\<close>.
  For \<^verbatim>\<open>??\<close>, null counts as absent.
\<close>

definition typed_field :: "(json \<Rightarrow> 'a option) \<Rightarrow> json option \<Rightarrow> 'a option option" where
  "typed_field f v =
     (case v of None \<Rightarrow> Some None | Some JNull \<Rightarrow> Some None | Some x \<Rightarrow> map_option Some (f x))"

definition bool_of_json :: "json \<Rightarrow> bool option" where
  "bool_of_json j = (case j of JBool b \<Rightarrow> Some b | _ \<Rightarrow> None)"

definition device_result_of :: "(json \<Rightarrow> device_result) \<Rightarrow> json \<Rightarrow> device_result" where
  "device_result_of untyped j =
     (case (typed_field text_of_json (field ''status'' j), typed_field bool_of_json (field ''is_ok'' j),
            typed_field int_of_json (field ''httpCode'' j), typed_field text_of_json (field ''error'' j)) of
        (Some s, Some b, Some h, Some e) \<Rightarrow>
          \<lparr>dr_status = s, dr_is_ok = b, dr_httpCode = h, dr_payload = field ''payload'' j,
           dr_error = e, dr_appAudit = field ''appAudit'' j\<rparr>
      | _ \<Rightarrow> untyped j)"

text \<open>
  What an invocation gives: a response, \<^verbatim>\<open>undefined\<close> (a selected device without a name would do
  that), or a promise that nothing settles.  The theorems exclude the last two.
\<close>

datatype invoke_outcome = Answered invoke_response | AnsweredUndefined | NeverSettled

datatype 'a resolution = Proceed 'a | Done invoke_outcome

section \<open>Logging\<close>

definition log_job ::
  "invoke_params \<Rightarrow> invoke_response \<Rightarrow> int \<Rightarrow> json option \<Rightarrow> json option \<Rightarrow> int \<Rightarrow> request_log_job" where
  "log_job input r startedAt responsePayload appAudit now =
     \<lparr>rlj_requestId = ir_requestId r, rlj_project = iv_project input, rlj_action = iv_action input,
      rlj_clientId = ir_clientId r, rlj_clientRequestId = iv_clientRequestId input,
      rlj_requesterUserId = iv_requesterUserId input, rlj_accessTokenId = iv_accessTokenId input,
      rlj_status = ir_status r, rlj_httpCode = ir_httpCode r, rlj_latencyMs = ir_latencyMs r,
      rlj_error = ir_error r, rlj_requestPayload = iv_payload input,
      rlj_responsePayload = responsePayload, rlj_appAudit = appAudit,
      rlj_createdAt = startedAt, rlj_finishedAt = now\<rparr>"

text \<open>
  An addition to the queue that takes more than three seconds counts as failed; it may still take
  effect, as a command that throws may.
\<close>

definition rpc_enqueueRequestLog ::
  "'w env \<Rightarrow> invoke_params \<Rightarrow> invoke_response \<Rightarrow> int \<Rightarrow> json option \<Rightarrow> json option \<Rightarrow> ('w inst, unit) io" where
  "rpc_enqueueRequestLog E input r startedAt responsePayload appAudit W =
     (let j = log_job input r startedAt responsePayload appAudit (now_ms E (ext W)) in
      catchM (lift (enqueueRequestLog E j)) (\<lambda>_. ignoreM (lift (writeSpine E j ''unavailable''))) W)"

definition fail ::
  "'w env \<Rightarrow> invoke_params \<Rightarrow> string \<Rightarrow> string option \<Rightarrow> int \<Rightarrow> string \<Rightarrow> int \<Rightarrow> message \<Rightarrow>
   ('w inst, invoke_response) io" where
  "fail E input requestId clientId startedAt status httpCode err W =
     (let r = \<lparr>ir_requestId = requestId, ir_clientId = clientId, ir_is_ok = False, ir_status = status,
               ir_httpCode = httpCode, ir_latencyMs = now_ms E (ext W) - startedAt,
               ir_payload = None, ir_error = Some err\<rparr> in
      thenM (rpc_enqueueRequestLog E input r startedAt (Some JNull) None) (returnM r) W)"

definition fail_done ::
  "'w env \<Rightarrow> invoke_params \<Rightarrow> string \<Rightarrow> string option \<Rightarrow> int \<Rightarrow> string \<Rightarrow> int \<Rightarrow> message \<Rightarrow>
   ('w inst, 'a resolution) io" where
  "fail_done E input requestId clientId startedAt status httpCode err =
     bindM (fail E input requestId clientId startedAt status httpCode err) (\<lambda>r. returnM (Done (Answered r)))"

section \<open>Choosing the device\<close>

definition resolveProject :: "'w env \<Rightarrow> invoke_params \<Rightarrow> string \<Rightarrow> int \<Rightarrow> ('w inst, nat resolution) io" where
  "resolveProject E input requestId startedAt =
     bindM (catchM (bindM (lift (findEnabledIdByName E (iv_project input))) (\<lambda>p. returnM (Some p)))
             (\<lambda>_. returnM None))
       (\<lambda>found. case found of
          None \<Rightarrow> fail_done E input requestId None startedAt ''error'' 503 MInfraUnavailable
        | Some None \<Rightarrow> fail_done E input requestId None startedAt ''no_project'' 404 MProjectMissing
        | Some (Some (i, enabled)) \<Rightarrow>
            if \<not> enabled then fail_done E input requestId None startedAt ''disabled'' 403 MProjectDisabled
            else returnM (Proceed i))"

definition acquireRequestedDevice ::
  "'w env \<Rightarrow> invoke_params \<Rightarrow> string \<Rightarrow> string \<Rightarrow> int \<Rightarrow> ('w inst, string resolution) io" where
  "acquireRequestedDevice E input requestId clientId startedAt =
     bindM (lift (isOnline E clientId)) (\<lambda>is_online.
       if \<not> is_online
       then fail_done E input requestId (Some clientId) startedAt ''offline'' 503 MDeviceOffline
       else bindM (lift (getMaxInFlight E clientId)) (\<lambda>maximum.
            bindM (lift (tryAcquireSlot E clientId maximum)) (\<lambda>acquired.
              if \<not> acquired
              then fail_done E input requestId (Some clientId) startedAt ''rejected'' 429 MDeviceFull
              else returnM (Proceed clientId))))"

definition acquireAvailableDevice ::
  "'w env \<Rightarrow> invoke_params \<Rightarrow> string \<Rightarrow> nat \<Rightarrow> int \<Rightarrow> ('w inst, string resolution) io" where
  "acquireAvailableDevice E input requestId projectId startedAt =
     bindM (lift (pickOnlineAcquire E projectId)) (\<lambda>selection.
       case selection of
         NoDevice \<Rightarrow> fail_done E input requestId None startedAt ''no_device'' 503 MNoDevice
       | Saturated \<Rightarrow> fail_done E input requestId None startedAt ''rejected'' 429 MGroupFull
       | Acquired (Some c) \<Rightarrow> returnM (Proceed c)
       | Acquired None \<Rightarrow> returnM (Done AnsweredUndefined))"

definition selectDevice ::
  "'w env \<Rightarrow> invoke_params \<Rightarrow> string \<Rightarrow> nat \<Rightarrow> int \<Rightarrow> ('w inst, string resolution) io" where
  "selectDevice E input requestId projectId startedAt =
     catchM
       (case iv_clientId input of
          None \<Rightarrow> acquireAvailableDevice E input requestId projectId startedAt
        | Some c \<Rightarrow>
            if c = [] then acquireAvailableDevice E input requestId projectId startedAt
            else acquireRequestedDevice E input requestId c startedAt)
       (\<lambda>_. fail_done E input requestId (iv_clientId input) startedAt ''error'' 503 MInfraUnavailable)"

section \<open>Dispatching and waiting\<close>

definition rpc_dispatchJob ::
  "'w env \<Rightarrow> invoke_params \<Rightarrow> job_message \<Rightarrow> string \<Rightarrow> string \<Rightarrow> int \<Rightarrow> int \<Rightarrow>
   ('w inst, invoke_response option) io" where
  "rpc_dispatchJob E input j requestId clientId startedAt timeoutMs =
     bindM (catchM (thenM (markWaiting E requestId timeoutMs)
                      (bindM (dispatchJob E clientId j) (\<lambda>b. returnM (Some b))))
              (\<lambda>_. returnM None))
       (\<lambda>dispatched. case dispatched of
          None \<Rightarrow>
            thenM (modify (cancelWaiter requestId ''dispatch_error''))
              (bindM (fail E input requestId (Some clientId) startedAt ''error'' 503 MInfraUnavailable)
                (\<lambda>r. returnM (Some r)))
        | Some True \<Rightarrow> returnM None
        | Some False \<Rightarrow>
            thenM (modify (cancelWaiter requestId ''unavailable''))
              (bindM (fail E input requestId (Some clientId) startedAt ''unavailable'' 503 MDeviceGone)
                (\<lambda>r. returnM (Some r))))"

definition resultStatus :: "string option \<Rightarrow> bool \<Rightarrow> string" where
  "resultStatus reported isSuccessful =
     (case reported of
        None \<Rightarrow> if isSuccessful then ''ok'' else ''error''
      | Some s \<Rightarrow> if s \<noteq> [] then s else if isSuccessful then ''ok'' else ''error'')"

definition validAppAudit :: "(string \<Rightarrow> bool) \<Rightarrow> json option \<Rightarrow> json option" where
  "validAppAudit datetime_ok reported =
     (case reported of
        None \<Rightarrow> None
      | Some a \<Rightarrow> (case validateDeviceAppAudit datetime_ok a of AuditOk d \<Rightarrow> Some d | _ \<Rightarrow> None))"

definition success ::
  "'w env \<Rightarrow> (string \<Rightarrow> bool) \<Rightarrow> invoke_params \<Rightarrow> string \<Rightarrow> string \<Rightarrow> int \<Rightarrow> device_result \<Rightarrow>
   ('w inst, invoke_response) io" where
  "success E datetime_ok input requestId clientId startedAt res W =
     (let isSuccessful = (case dr_is_ok res of Some b \<Rightarrow> b | None \<Rightarrow> dr_status res = Some ''ok'');
          r = \<lparr>ir_requestId = requestId, ir_clientId = Some clientId, ir_is_ok = isSuccessful,
               ir_status = resultStatus (dr_status res) isSuccessful,
               ir_httpCode = or_default 200 (dr_httpCode res),
               ir_latencyMs = now_ms E (ext W) - startedAt, ir_payload = dr_payload res,
               ir_error = map_option MText (dr_error res)\<rparr> in
      thenM (rpc_enqueueRequestLog E input r startedAt (dr_payload res) (validAppAudit datetime_ok (dr_appAudit res)))
        (returnM r) W)"

text \<open>The events an instance handles while a call waits.\<close>

datatype event =
    DeviceSaid string string json
  | BusSaid string json string
  | TimerFired string
  | JobArrived string job_message
  | ScopeChanged nat

definition run_event :: "'w env \<Rightarrow> event \<Rightarrow> 'w inst \<Rightarrow> 'w inst" where
  "run_event E e W =
     (case e of
        DeviceSaid requestId from res \<Rightarrow> snd (handleResult E requestId from res W)
      | BusSaid requestId res from \<Rightarrow> snd (on_rpc_result E requestId res from W)
      | TimerFired requestId \<Rightarrow> waiter_timeout requestId W
      | JobArrived clientId j \<Rightarrow> snd (on_ws_send E clientId j W)
      | ScopeChanged tokenId \<Rightarrow> snd (on_scope_changed tokenId W))"

definition await_result :: "'w env \<Rightarrow> string \<Rightarrow> event list \<Rightarrow> ('w inst, settlement option) io" where
  "await_result E requestId events W =
     (let W' = waiter_timeout requestId (fold (run_event E) events W) in
      (Inr (map_of (rev (settled W')) requestId), W'))"

definition dispatchAndAwaitResult ::
  "'w env \<Rightarrow> (string \<Rightarrow> bool) \<Rightarrow> (json \<Rightarrow> device_result) \<Rightarrow> event list \<Rightarrow> invoke_params \<Rightarrow> string \<Rightarrow> string \<Rightarrow>
   int \<Rightarrow> int \<Rightarrow> int \<Rightarrow> ('w inst, invoke_outcome) io" where
  "dispatchAndAwaitResult E datetime_ok untyped events input requestId clientId startedAt timeoutSeconds timeoutMs =
     (let j = \<lparr>job_requestId = requestId, job_project = iv_project input, job_action = iv_action input,
               job_payload = iv_payload input, job_timeoutSeconds = timeoutSeconds,
               job_deadlineAt = Some (startedAt + timeoutMs)\<rparr> in
      thenM (modify (registerWaiter requestId clientId timeoutMs))
        (bindM (rpc_dispatchJob E input j requestId clientId startedAt timeoutMs) (\<lambda>dispatchFailure.
           case dispatchFailure of
             Some r \<Rightarrow> returnM (Answered r)
           | None \<Rightarrow>
               bindM (await_result E requestId events) (\<lambda>s.
                 case s of
                   None \<Rightarrow> returnM NeverSettled
                 | Some (Resolved res) \<Rightarrow>
                     if res = JNull
                     then bindM (fail E input requestId (Some clientId) startedAt ''timeout'' 504
                            (MTimedOut timeoutSeconds)) (\<lambda>r. returnM (Answered r))
                     else bindM (success E datetime_ok input requestId clientId startedAt
                            (device_result_of untyped res)) (\<lambda>r. returnM (Answered r))
                 | Some (Rejected _) \<Rightarrow>
                     bindM (fail E input requestId (Some clientId) startedAt ''timeout'' 504
                       (MTimedOut timeoutSeconds)) (\<lambda>r. returnM (Answered r))))))"

definition invoke ::
  "'w env \<Rightarrow> (string \<Rightarrow> bool) \<Rightarrow> (json \<Rightarrow> device_result) \<Rightarrow> event list \<Rightarrow> invoke_params \<Rightarrow>
   ('w inst, invoke_outcome) io" where
  "invoke E datetime_ok untyped events input =
     bindM (lift (random_uuid E)) (\<lambda>requestId W.
       (let timeoutSeconds = or_default 20 (iv_timeoutSeconds input);
            timeoutMs = timeoutSeconds * 1000; startedAt = now_ms E (ext W) in
        bindM (resolveProject E input requestId startedAt) (\<lambda>projectResolution.
          case projectResolution of
            Done o' \<Rightarrow> returnM o'
          | Proceed projectId \<Rightarrow>
              bindM (selectDevice E input requestId projectId startedAt) (\<lambda>deviceSelection.
                case deviceSelection of
                  Done o' \<Rightarrow> returnM o'
                | Proceed c \<Rightarrow>
                    finallyM
                      (dispatchAndAwaitResult E datetime_ok untyped events input requestId c startedAt
                         timeoutSeconds timeoutMs)
                      (ignoreM (lift (releaseSlot E c)))))) W)"

end
