(* ===== verification/Invocation.thy ===== *)
theory Invocation
  imports Rpc_Service
begin

text \<open>
  What an invocation guarantees.  The first part holds whatever the services do: every command may
  throw.  The second part, on what an invocation leaves behind, is for services that are up.
\<close>

section \<open>Nothing leaves a call unsettled\<close>

text \<open>A handler settles at most one pending call, and no other touches the maps.\<close>

definition settles :: "'w inst \<Rightarrow> 'w inst \<Rightarrow> bool" where
  "settles W V \<longleftrightarrow>
     waiters V = waiters W \<and> settled V = settled W \<or>
     (\<exists>r s. map_of (waiters W) r \<noteq> None \<and> waiters V = AList.delete r (waiters W) \<and>
        settled V = settled W @ [(r, s)])"

definition tracked :: "string \<Rightarrow> 'w inst \<Rightarrow> bool" where
  "tracked r W \<longleftrightarrow> map_of (waiters W) r \<noteq> None \<or> r \<in> fst ` set (settled W)"

lemma tracked_settles: "settles W V \<Longrightarrow> tracked r W \<Longrightarrow> tracked r V"
  by (auto simp: settles_def tracked_def delete_conv')

lemma settles_same: "waiters V = waiters W \<Longrightarrow> settled V = settled W \<Longrightarrow> settles W V"
  by (simp add: settles_def)

lemma settles_settle: "map_of (waiters W) r \<noteq> None \<Longrightarrow> settles W (settle r s W)"
  by (auto simp: settles_def settle_def)

lemma waiter_timeout_settles: "settles W (waiter_timeout r W)"
  by (auto simp: waiter_timeout_def settles_same settles_settle split: option.splits)

lemma resolve_settles: "settles W (snd (resolveLocalWaiter r res c W))"
  by (auto simp: resolveLocalWaiter_def settles_same settles_settle split: option.splits)

lemma settles_after_lift: "settles (snd (lift m W)) V \<longleftrightarrow> settles W V"
  by (simp add: settles_def)

lemma settles_bind_lift:
  "(\<And>a V. settles V (snd (f a V))) \<Longrightarrow> settles W (snd (bindM (lift m) f W))"
  by (simp add: bindM_def settles_same split: sum.splits) (metis settles_after_lift)

lemma settles_bind_gets: "(\<And>a. settles W (snd (f a W))) \<Longrightarrow> settles W (snd (bindM (gets g) f W))"
  by (simp add: bindM_def)

lemma settles_bind_resolve:
  assumes "\<And>b V. waiters (snd (f b V)) = waiters V" "\<And>b V. settled (snd (f b V)) = settled V"
  shows "settles W (snd (bindM (resolveLocalWaiter r res c) f W))"
  using resolve_settles [of W r res c] by (simp add: bindM_def settles_def assms split: sum.splits)

lemma settles_then_lift: "settles W (snd (thenM (lift m) (returnM a) W))"
  by (simp add: thenM_def settles_same split: sum.splits)

lemma handleResult_settles: "settles W (snd (handleResult E r c res W))"
  unfolding handleResult_def bus_publish_def
  by (intro settles_bind_lift)
    (auto intro!: settles_bind_lift settles_bind_gets settles_bind_resolve settles_then_lift
      simp: settles_same thenM_def split: option.splits sum.splits)

lemma fold_close_maps:
  "waiters (fold (close_if_token t) ns W) = waiters W \<and> settled (fold (close_if_token t) ns W) = settled W"
  by (induction ns arbitrary: W) (simp_all add: close_if_token_def close_socket_def)

lemma run_event_settles: "settles W (run_event E e W)"
proof (cases e)
  case (DeviceSaid r c res)
  then show ?thesis by (simp add: run_event_def handleResult_settles)
next
  case (BusSaid r res c)
  then show ?thesis
    by (simp add: run_event_def on_rpc_result_def) (rule settles_bind_resolve; simp)
next
  case (JobArrived c j)
  then show ?thesis
    by (auto simp: run_event_def on_ws_send_def deliverLocalJob_def send_socket_def settles_same
        split: option.splits)
qed (auto simp: run_event_def waiter_timeout_settles on_scope_changed_def settles_same
    disconnectLocalDeviceTokenSessions_def fold_close_maps)

lemma run_events_tracked: "tracked r W \<Longrightarrow> tracked r (fold (run_event E) events W)"
  by (induction events arbitrary: W) (simp_all add: tracked_settles [OF run_event_settles])

text \<open>The stages of an invocation, in any environment.\<close>

definition failure ::
  "string \<Rightarrow> string option \<Rightarrow> int \<Rightarrow> string \<Rightarrow> int \<Rightarrow> message \<Rightarrow> invoke_response" where
  "failure requestId clientId latency status httpCode err =
     \<lparr>ir_requestId = requestId, ir_clientId = clientId, ir_is_ok = False, ir_status = status,
      ir_httpCode = httpCode, ir_latencyMs = latency, ir_payload = None, ir_error = Some err\<rparr>"

lemma enqueue_log_returns [simp]: "fst (rpc_enqueueRequestLog E input r t p a W) = Inr ()"
  by (cases "fst (enqueueRequestLog E (log_job input r t p a (now_ms E (ext W))) (ext W))")
    (simp_all add: rpc_enqueueRequestLog_def Let_def io_simps)

lemma fail_returns [simp]:
  "fst (fail E input i c t status code err W) = Inr (failure i c (now_ms E (ext W) - t) status code err)"
  by (simp add: fail_def failure_def Let_def io_simps)

lemma fail_done_returns [simp]:
  "fst (fail_done E input i c t status code err W) =
     Inr (Done (Answered (failure i c (now_ms E (ext W) - t) status code err)))"
  by (simp add: fail_done_def io_simps)

text \<open>What a stage may give: the next stage, or an answer to this request.\<close>

definition stage_result :: "string \<Rightarrow> 'a resolution \<Rightarrow> bool" where
  "stage_result i x \<longleftrightarrow> (\<forall>o'. x = Done o' \<longrightarrow> (\<exists>r. o' = Answered r \<and> ir_requestId r = i))"

lemma stage_result_simps [simp]:
  "stage_result i (Proceed a)" "stage_result i (Done (Answered r)) \<longleftrightarrow> ir_requestId r = i"
  "ir_requestId (failure i c l s h m) = i"
  by (simp_all add: stage_result_def failure_def)

lemma resolveProject_returns: "\<exists>x. fst (resolveProject E input i t W) = Inr x \<and> stage_result i x"
  by (auto simp: resolveProject_def io_simps split: option.splits)

lemma pick_loop_defined:
  assumes "0 \<le> start" "\<forall>k \<in> set offsets. 0 \<le> k" "cs \<noteq> []"
  shows "fst (pick_loop E cs start offsets w) \<noteq> Inr (Acquired None)"
  using assms
proof (induction offsets arbitrary: w)
  case (Cons k ks)
  have "0 \<le> js_rem (start + k) (int (length cs))" "js_rem (start + k) (int (length cs)) < int (length cs)"
    using Cons.prems by (simp_all add: js_rem_def)
  then have "js_index cs (js_rem (start + k) (int (length cs))) \<noteq> None"
    by (simp add: js_index_def nat_less_iff)
  then show ?case using Cons by (auto simp: Let_def bindM_def split: sum.splits)
qed simp

lemma pick_defined:
  fixes E :: "'w env"
  assumes "\<And>k w n. fst (redis_incr E k w) = Inr n \<Longrightarrow> 0 \<le> n"
  shows "fst (pickOnlineAcquire E p w) \<noteq> Inr (Acquired None)"
proof -
  have "fst (pick_loop E (sort cs) (js_rem n (int (length cs))) (map int [0..<length cs]) v) \<noteq>
      Inr (Acquired None)" if "0 \<le> n" "cs \<noteq> []" for cs n v
    using that by (intro pick_loop_defined) (auto simp: js_rem_def simp flip: set_empty)
  then show ?thesis
    using assms by (auto simp: pickOnlineAcquire_def bindM_def split: sum.splits)
qed

lemma selectDevice_returns:
  assumes "\<And>k w n. fst (redis_incr E k w) = Inr n \<Longrightarrow> 0 \<le> n"
  shows "\<exists>x. fst (selectDevice E input i p t W) = Inr x \<and> stage_result i x"
proof -
  have "stage_result i x" if "fst (acquireRequestedDevice E input i c t V) = Inr x" for c x V
    using that by (auto simp: acquireRequestedDevice_def bindM_def split: sum.splits if_splits)
  moreover have "stage_result i x" if "fst (acquireAvailableDevice E input i p t V) = Inr x" for x V
    using that pick_defined [of E p "ext V"] assms
    by (auto simp: acquireAvailableDevice_def bindM_def split: sum.splits pick.splits option.splits)
  ultimately show ?thesis
    by (auto simp: selectDevice_def catchM_def split: sum.splits option.splits)
qed

text \<open>No stage before the dispatch touches the pending calls.\<close>

lemma enqueue_log_waiters [simp]:
  "waiters (snd (rpc_enqueueRequestLog E input r t p a W)) = waiters W"
  by (simp add: rpc_enqueueRequestLog_def Let_def io_simps)

lemma fail_waiters [simp]:
  "waiters (snd (fail E input i c t status code err W)) = waiters W"
  "waiters (snd (fail_done E input i c t status code err W)) = waiters W"
  by (simp_all add: fail_done_def fail_def Let_def io_simps)

lemma stages_waiters [simp]:
  "waiters (snd (resolveProject E input i t W)) = waiters W"
  "waiters (snd (acquireRequestedDevice E input i c t W)) = waiters W"
  "waiters (snd (acquireAvailableDevice E input i p t W)) = waiters W"
  "waiters (snd (selectDevice E input i p t W)) = waiters W"
proof -
  show r: "waiters (snd (acquireRequestedDevice E input i c t W)) = waiters W" for c W
    by (simp add: acquireRequestedDevice_def bindM_def split: sum.splits)
  show a: "waiters (snd (acquireAvailableDevice E input i p t W)) = waiters W" for W
    by (simp add: acquireAvailableDevice_def bindM_def split: sum.splits pick.splits option.splits)
  show "waiters (snd (resolveProject E input i t W)) = waiters W"
    by (auto simp: resolveProject_def bindM_def catchM_def split: sum.splits option.splits)
  show "waiters (snd (selectDevice E input i p t W)) = waiters W"
    by (auto simp: selectDevice_def catchM_def r a split: sum.splits option.splits)
qed

definition answer :: "string \<Rightarrow> string \<Rightarrow> int \<Rightarrow> device_result \<Rightarrow> invoke_response" where
  "answer requestId clientId latency d =
     (let good = (case dr_is_ok d of Some b \<Rightarrow> b | None \<Rightarrow> dr_status d = Some ''ok'') in
      \<lparr>ir_requestId = requestId, ir_clientId = Some clientId, ir_is_ok = good,
       ir_status = resultStatus (dr_status d) good, ir_httpCode = or_default 200 (dr_httpCode d),
       ir_latencyMs = latency, ir_payload = dr_payload d, ir_error = map_option MText (dr_error d)\<rparr>)"

lemma success_returns [simp]:
  "fst (success E ok input i c t d W) = Inr (answer i c (now_ms E (ext W) - t) d)"
  "waiters (snd (success E ok input i c t d W)) = waiters W"
  "ir_requestId (answer i c l d) = i"
  by (simp_all add: success_def answer_def Let_def io_simps)

lemma cancelWaiter_forgets: "map_of (waiters (cancelWaiter i s W)) i = None"
  by (simp add: cancelWaiter_def split: option.splits)

lemma dispatchJob_still: "waiters (snd (dispatchJob E c j W)) = waiters W"
  "settled (snd (dispatchJob E c j W)) = settled W"
  by (auto simp: dispatchJob_def deliverLocalJob_def send_socket_def bus_publish_def bindM_def thenM_def
      split: sum.splits option.splits)

lemma rpc_dispatchJob_cases:
  obtains (Sent) "fst (rpc_dispatchJob E input j i c t ms W) = Inr None"
      "waiters (snd (rpc_dispatchJob E input j i c t ms W)) = waiters W"
  | (Failed) r where "fst (rpc_dispatchJob E input j i c t ms W) = Inr (Some r)" "ir_requestId r = i"
      "map_of (waiters (snd (rpc_dispatchJob E input j i c t ms W))) i = None"
  by (atomize_elim)
    (auto simp: rpc_dispatchJob_def markWaiting_def bindM_def thenM_def catchM_def dispatchJob_still
      cancelWaiter_forgets split: sum.splits option.splits bool.splits)

text \<open>Once its timer has run, a call that was registered is settled and forgotten.\<close>

lemma await_result_settles:
  assumes "tracked i W"
  shows "\<exists>s. fst (await_result E i events W) = Inr (Some s)"
    and "map_of (waiters (snd (await_result E i events W))) i = None"
proof -
  define V where "V = waiter_timeout i (fold (run_event E) events W)"
  have "tracked i V" unfolding V_def
    by (rule tracked_settles [OF waiter_timeout_settles]) (rule run_events_tracked [OF assms])
  moreover have none: "map_of (waiters V) i = None"
    by (simp add: V_def waiter_timeout_def split: option.splits)
  ultimately have "i \<in> fst ` set (rev (settled V))" by (simp add: tracked_def)
  then obtain s where "map_of (rev (settled V)) i = Some s"
    by (metis domIff dom_map_of_conv_image_fst not_None_eq)
  then show "\<exists>s. fst (await_result E i events W) = Inr (Some s)"
    "map_of (waiters (snd (await_result E i events W))) i = None"
    using none by (simp_all add: await_result_def Let_def flip: V_def)
qed

lemma dispatchAndAwait_returns:
  "\<exists>r. fst (dispatchAndAwaitResult E ok u events input i c t secs ms W) = Inr (Answered r) \<and>
     ir_requestId r = i \<and>
     map_of (waiters (snd (dispatchAndAwaitResult E ok u events input i c t secs ms W))) i = None"
proof -
  define W1 where "W1 = registerWaiter i c ms W"
  define j where "j = \<lparr>job_requestId = i, job_project = iv_project input, job_action = iv_action input,
      job_payload = iv_payload input, job_timeoutSeconds = secs, job_deadlineAt = Some (t + ms)\<rparr>"
  define W2 where "W2 = snd (rpc_dispatchJob E input j i c t ms W1)"
  show ?thesis
  proof (cases rule: rpc_dispatchJob_cases [of E input j i c t ms W1])
    case Sent
    have "tracked i W2" using Sent(2) by (simp add: tracked_def W2_def W1_def registerWaiter_def update_conv')
    note a = await_result_settles [OF this, of E events]
    obtain s where s: "fst (await_result E i events W2) = Inr (Some s)" using a(1) by blast
    show ?thesis
      unfolding dispatchAndAwaitResult_def
      using Sent(1) s a(2)
      by (auto simp: Let_def thenM_def bindM_def split: settlement.splits
          simp flip: W1_def j_def W2_def)
  next
    case (Failed r)
    then show ?thesis
      unfolding dispatchAndAwaitResult_def
      by (simp add: Let_def thenM_def bindM_def flip: W1_def j_def)
  qed
qed


text \<open>Redis without its counters, and a call for a project that does not exist.\<close>

definition no_counters_env :: "sim env" where
  "no_counters_env = sim_env\<lparr>redis_incr := \<lambda>k w. (Inl Infra, w)\<rparr>"

definition example_call :: invoke_params where
  "example_call = \<lparr>iv_project = ''p'', iv_action = ''ping'', iv_payload = JNull,
     iv_timeoutSeconds = None, iv_clientId = None, iv_clientRequestId = None,
     iv_accessTokenId = None, iv_requesterUserId = None\<rparr>"


end
