(* ===== verification/Invocation_Effects.thy ===== *)
theory Invocation_Effects
  imports Invocation
begin

section \<open>What an invocation leaves behind\<close>

text \<open>
  The books of an invocation: the queued logs and the in-flight counts.  A step that neither logs
  nor takes a slot balances them.
\<close>

definition balances :: "store \<Rightarrow> store \<Rightarrow> bool" where
  "balances s t \<longleftrightarrow> (counters_ok s \<longrightarrow>
     counters_ok t \<and> jobs t = jobs s \<and> rows t = rows s \<and> inflight_of t = inflight_of s)"

interpretation balancing: store_preorder balances
  by unfold_locales (auto simp: balances_def)

lemma relates_lift: "relates view R m \<Longrightarrow> relates (\<lambda>W. view (ext W)) R (lift m)"
  by (simp add: relates_def)

lemma relates_state:
  "(\<And>W. ext (f W) = ext W) \<Longrightarrow> R = balances \<Longrightarrow> relates (\<lambda>W. view (ext W)) R (modify f)"
  "R = balances \<Longrightarrow> relates (\<lambda>W. view (ext W)) R (gets g)"
  by (simp_all add: relates_def balancing.R_refl)

lemma balances_strs:
  assumes "\<And>c. strs t (inflight_key c) = strs s (inflight_key c)"
    "\<And>p. strs t (cursor_key p) = strs s (cursor_key p)" "jobs t = jobs s" "rows t = rows s"
  shows "balances s t"
  using assms by (simp add: balances_def counters_ok_def inflight_of_def fun_eq_iff)

lemma registry_presence_keys [simp]:
  "inflight_key c \<noteq> waiter_key r" "inflight_key c \<noteq> completed_key r"
  "cursor_key p \<noteq> waiter_key r" "cursor_key p \<noteq> completed_key r"
  by (simp_all add: presence_keys waiter_key_def completed_key_def)

context services
begin

lemma balances_commands:
  "relates view balances (redis_get E (session_key c))"
  "relates view balances (redis_set_ttl E (waiter_key r) v t)"
  "relates view balances (redis_publish E ch m)"
  "relates view balances (redis_del E [completed_key r])"
  "relates view balances (isOnline E c)" "relates view balances (getMaxInFlight E c)"
  "relates view balances (findEnabledIdByName E name)"
  by (auto simp: relates_def findEnabledIdByName_run balancing.R_refl intro!: balances_strs)

lemma balances_dispatchJob: "relates (\<lambda>W. view (ext W)) balances (dispatchJob E c j)"
proof -
  have "relates (\<lambda>W. view (ext W)) balances (deliverLocalJob E c j)"
    by (simp add: relates_def deliverLocalJob_def balancing.R_refl send_socket_def split: option.splits)
  then show ?thesis
    unfolding dispatchJob_def bus_publish_def
    by (intro balancing.bind balancing.option_branch balancing.branch balancing.return balancing.sequence
        relates_lift balances_commands relates_state refl)
qed

lemma balances_markWaiting: "relates (\<lambda>W. view (ext W)) balances (markWaiting E r t)"
  unfolding markWaiting_def
  by (intro balancing.bind relates_lift balances_commands relates_state refl)

text \<open>The handlers of the other events.\<close>

lemma ext_local_events:
  "ext (waiter_timeout r W) = ext W" "ext (cancelWaiter r x W) = ext W"
  "ext (snd (on_ws_send E c j W)) = ext W" "ext (snd (resolveLocalWaiter r res c W)) = ext W"
  "ext (snd (on_scope_changed t W)) = ext W"
proof -
  show "ext (snd (on_scope_changed t W)) = ext W"
    unfolding on_scope_changed_def gets_modify disconnectLocalDeviceTokenSessions_def
    by (rule fold_invariant [where Q = "\<lambda>_. True" and P = "\<lambda>V. ext V = ext W"])
      (simp_all add: close_if_token_def close_socket_def)
qed (simp_all add: waiter_timeout_def cancelWaiter_def on_ws_send_def deliverLocalJob_def
    send_socket_def resolveLocalWaiter_def split: option.splits)

lemma run_event_balances:
  assumes "healthy (view (ext W))"
  shows "healthy (view (ext (run_event E e W))) \<and> balances (view (ext W)) (view (ext (run_event E e W)))"
proof (cases e)
  case (DeviceSaid r c res)
  then show ?thesis
    using assms handleResult_run(2) [OF assms, of r c res]
    by (auto simp: run_event_def intro!: balances_strs split: outcome.splits)
next
  case (BusSaid r res c)
  have "relates (\<lambda>W. view (ext W)) balances (on_rpc_result E r res c)"
    unfolding on_rpc_result_def
    by (intro balancing.ignored balancing.bind balancing.branch balancing.return relates_lift balances_commands)
      (simp add: relates_def ext_local_events balancing.R_refl)
  then show ?thesis using assms BusSaid relatesD by (fastforce simp: run_event_def)
qed (use assms in \<open>simp_all add: run_event_def ext_local_events balancing.R_refl\<close>)

lemma run_events_balance:
  assumes "healthy (view (ext W))"
  shows "healthy (view (ext (fold (run_event E) es W))) \<and>
    balances (view (ext W)) (view (ext (fold (run_event E) es W)))"
  using assms
proof (induction es arbitrary: W)
  case (Cons e es)
  then show ?case using run_event_balances [OF Cons.prems, of e] balancing.R_trans by fastforce
qed (simp add: balancing.R_refl)

end

text \<open>
  The verdict on a call, from the stored state alone: the first reason to refuse it in the order
  of the code, or the device that serves it.
\<close>

datatype verdict = Refuse string int | Serve string

definition group_named :: "store \<Rightarrow> string \<Rightarrow> project_row option" where
  "group_named s name =
     find (\<lambda>p. prj_deletedAt p = None \<and> prj_name p = name) (contents (rows s) projects)"

definition device_verdict :: "store \<Rightarrow> invoke_params \<Rightarrow> nat \<Rightarrow> verdict" where
  "device_verdict s input p =
     (case iv_clientId input of
        Some (x # xs) \<Rightarrow>
          if \<not> online_in s (x # xs) then Refuse ''offline'' 503
          else if free_slot s (x # xs) then Serve (x # xs) else Refuse ''rejected'' 429
      | _ \<Rightarrow>
          if candidates s p = [] then Refuse ''no_device'' 503
          else case Presence.chosen s p of None \<Rightarrow> Refuse ''rejected'' 429 | Some c \<Rightarrow> Serve c)"

definition verdict_on :: "store \<Rightarrow> invoke_params \<Rightarrow> verdict" where
  "verdict_on s input =
     (case group_named s (iv_project input) of
        None \<Rightarrow> Refuse ''no_project'' 404
      | Some p \<Rightarrow> if \<not> prj_enabled p then Refuse ''disabled'' 403 else device_verdict s input (prj_id p))"

text \<open>The log entry of an answer.\<close>

definition describes :: "invoke_params \<Rightarrow> invoke_response \<Rightarrow> request_log_job \<Rightarrow> bool" where
  "describes input r j \<longleftrightarrow>
     rlj_requestId j = ir_requestId r \<and> rlj_project j = iv_project input \<and>
     rlj_action j = iv_action input \<and> rlj_clientId j = ir_clientId r \<and>
     rlj_clientRequestId j = iv_clientRequestId input \<and>
     rlj_requesterUserId j = iv_requesterUserId input \<and>
     rlj_accessTokenId j = iv_accessTokenId input \<and> rlj_status j = ir_status r \<and>
     rlj_httpCode j = ir_httpCode r \<and> rlj_latencyMs j = ir_latencyMs r \<and>
     rlj_error j = ir_error r \<and> rlj_requestPayload j = iv_payload input \<and>
     (ir_payload r \<noteq> None \<longrightarrow> rlj_responsePayload j = ir_payload r)"

definition enters_log :: "invoke_params \<Rightarrow> invoke_response \<Rightarrow> store \<Rightarrow> store \<Rightarrow> bool" where
  "enters_log input r s t \<longleftrightarrow>
     (\<exists>j. jobs t = jobs s @ [(QUEUE_REQUEST_LOG, j)] \<and> describes input r j)"

context services
begin

lemma fail_run:
  assumes "healthy (view (ext W))"
  shows "\<exists>l. fst (fail E input i c t status code err W) = Inr (failure i c l status code err) \<and>
    enters_log input (failure i c l status code err) (view (ext W))
      (view (ext (snd (fail E input i c t status code err W))))"
    and "healthy (view (ext (snd (fail E input i c t status code err W))))"
    and "strs (view (ext (snd (fail E input i c t status code err W)))) = strs (view (ext W))"
    and "rows (view (ext (snd (fail E input i c t status code err W)))) = rows (view (ext W))"
  using assms
  by (simp_all add: fail_def rpc_enqueueRequestLog_def enqueueRequestLog_def Let_def io_simps
      enters_log_def describes_def log_job_def failure_def)

lemma success_run:
  assumes "healthy (view (ext W))"
  shows "\<exists>l. fst (success E ok input i c t d W) = Inr (answer i c l d) \<and>
    enters_log input (answer i c l d) (view (ext W)) (view (ext (snd (success E ok input i c t d W))))"
    and "healthy (view (ext (snd (success E ok input i c t d W))))"
    and "strs (view (ext (snd (success E ok input i c t d W)))) = strs (view (ext W))"
    and "rows (view (ext (snd (success E ok input i c t d W)))) = rows (view (ext W))"
  using assms
  by (simp_all add: success_def rpc_enqueueRequestLog_def enqueueRequestLog_def Let_def io_simps
      enters_log_def describes_def log_job_def answer_def)

end

text \<open>A stage is done with a logged answer and the counts as they were, or it goes on.\<close>

definition closes ::
  "invoke_params \<Rightarrow> store \<Rightarrow> (invoke_response \<Rightarrow> bool) \<Rightarrow> exn + 'a resolution \<Rightarrow> store \<Rightarrow> bool" where
  "closes input s P x t \<longleftrightarrow> (\<exists>r. x = Inr (Done (Answered r)) \<and> P r \<and> enters_log input r s t \<and>
     counters_ok t \<and> rows t = rows s \<and> inflight_of t = inflight_of s)"

definition refusal :: "string \<Rightarrow> int \<Rightarrow> invoke_response \<Rightarrow> bool" where
  "refusal status code r \<longleftrightarrow> ir_status r = status \<and> ir_httpCode r = code \<and> \<not> ir_is_ok r"

context services
begin

lemma fail_done_closes:
  assumes "healthy (view (ext W))" "counters_ok s" "balances s (view (ext W))"
  shows "closes input s (refusal status code) (fst (fail_done E input i c t status code err W))
      (view (ext (snd (fail_done E input i c t status code err W))))"
    and "healthy (view (ext (snd (fail_done E input i c t status code err W))))"
proof -
  note run = fail_run [OF assms(1), of input i c t status code err]
  have s: "snd (fail_done E input i c t status code err W) = snd (fail E input i c t status code err W)"
    by (simp add: fail_done_def io_simps)
  have b: "counters_ok (view (ext W))" "jobs (view (ext W)) = jobs s" "rows (view (ext W)) = rows s"
    "inflight_of (view (ext W)) = inflight_of s"
    using assms by (simp_all add: balances_def)
  have "counters_ok t \<and> inflight_of t = inflight_of s" if "strs t = strs (view (ext W))" for t
    using b that by (auto simp: counters_ok_def inflight_of_def fun_eq_iff)
  note c = this [OF run(3)]
  show "healthy (view (ext (snd (fail_done E input i c t status code err W))))"
    using run(2) by (simp add: s)
  obtain l where l: "fst (fail E input i c t status code err W) = Inr (failure i c l status code err)"
    "enters_log input (failure i c l status code err) s (view (ext (snd (fail E input i c t status code err W))))"
    using run(1) by (auto simp: enters_log_def b(2))
  then show "closes input s (refusal status code) (fst (fail_done E input i c t status code err W))
      (view (ext (snd (fail_done E input i c t status code err W))))"
    using c run(4) b(3) by (simp add: closes_def s fail_done_def io_simps refusal_def) (simp add: failure_def)
qed

lemma find_project_run:
  assumes "healthy (view w)"
  shows "fst (findEnabledIdByName E name w) =
    Inr (map_option (\<lambda>p. (prj_id p, prj_enabled p)) (group_named (view w) name))"
proof -
  have "first (projr (fst (select_from E projects (alive_project (\<lambda>p. prj_name p = name)) w))) =
      group_named (view w) name"
  proof (cases "group_named (view w) name")
    case None
    then have "\<forall>p. live_project (rows (view w)) p \<longrightarrow> prj_name p \<noteq> name"
      by (auto simp: group_named_def find_None_iff live_project_def)
    then show ?thesis using select_project_by_name(2) [OF assms, of name] None by simp
  next
    case (Some p)
    then have "live_project (rows (view w)) p \<and> prj_name p = name"
      by (auto simp: group_named_def find_Some_iff live_project_def)
    then show ?thesis using select_project_by_name(1) [OF assms, of name p] Some by simp
  qed
  then show ?thesis using assms by (simp add: findEnabledIdByName_def io_simps)
qed

lemma resolveProject_run:
  fixes W :: "'w inst" and input i t
  assumes h: "healthy (view (ext W))" and k: "counters_ok (view (ext W))"
  defines "s \<equiv> view (ext W)" and "out \<equiv> fst (resolveProject E input i t W)"
    and "v \<equiv> view (ext (snd (resolveProject E input i t W)))"
  shows "healthy v"
    and "case group_named s (iv_project input) of
      None \<Rightarrow> closes input s (refusal ''no_project'' 404) out v
    | Some p \<Rightarrow> if prj_enabled p then out = Inr (Proceed (prj_id p)) \<and> v = s
        else closes input s (refusal ''disabled'' 403) out v"
proof -
  define W1 where "W1 = W\<lparr>ext := snd (findEnabledIdByName E (iv_project input) (ext W))\<rparr>"
  have v1: "view (ext W1) = s" using findEnabledIdByName_run(2) [OF h] by (simp add: W1_def s_def)
  have step: "resolveProject E input i t W =
      (case group_named s (iv_project input) of
         None \<Rightarrow> fail_done E input i None t ''no_project'' 404 MProjectMissing W1
       | Some p \<Rightarrow> if prj_enabled p then (Inr (Proceed (prj_id p)), W1)
           else fail_done E input i None t ''disabled'' 403 MProjectDisabled W1)"
    using find_project_run [OF h, of "iv_project input"]
    by (simp add: resolveProject_def io_simps lift_def W1_def s_def split: option.splits)
  have f: "healthy (view (ext W1))" "counters_ok s" "balances s (view (ext W1))"
    using h k by (simp_all add: v1) (simp_all add: s_def balancing.R_refl)
  show "healthy v"
    using fail_done_closes(2) [OF f] f(1) unfolding v_def step by (auto split: option.splits)
  show "case group_named s (iv_project input) of
      None \<Rightarrow> closes input s (refusal ''no_project'' 404) out v
    | Some p \<Rightarrow> if prj_enabled p then out = Inr (Proceed (prj_id p)) \<and> v = s
        else closes input s (refusal ''disabled'' 403) out v"
    using fail_done_closes(1) [OF f] v1 unfolding v_def out_def step by (auto split: option.splits)
qed

end

definition takes_slot :: "string \<Rightarrow> store \<Rightarrow> store \<Rightarrow> bool" where
  "takes_slot c s t \<longleftrightarrow> counters_ok t \<and> jobs t = jobs s \<and> rows t = rows s \<and>
     inflight_of t = (inflight_of s)(c := inflight_of s c + 1)"

lemma slots_changed_takes:
  assumes "slots_changed s (\<lambda>x. if x = c then 1 else 0) t" "counters_ok s"
  shows "takes_slot c s t"
  using slots_changed_counters [OF assms] slots_changed_fields(3,5) [OF assms(1)]
    slots_changed_inflight [OF assms]
  by (auto simp: takes_slot_def)

definition selection_of ::
  "invoke_params \<Rightarrow> store \<Rightarrow> verdict \<Rightarrow> exn + string resolution \<Rightarrow> store \<Rightarrow> bool" where
  "selection_of input s d out t \<longleftrightarrow>
     (case d of
        Refuse status code \<Rightarrow> closes input s (refusal status code) out t
      | Serve c \<Rightarrow> out = Inr (Proceed c) \<and> takes_slot c s t)"

context services
begin

lemma acquireRequestedDevice_run:
  fixes W :: "'w inst" and input i t
  assumes h: "healthy (view (ext W))" and k: "counters_ok (view (ext W))"
  shows "healthy (view (ext (snd (acquireRequestedDevice E input i c t W))))"
    and "selection_of input (view (ext W))
      (if \<not> online_in (view (ext W)) c then Refuse ''offline'' 503
       else if free_slot (view (ext W)) c then Serve c else Refuse ''rejected'' 429)
      (fst (acquireRequestedDevice E input i c t W))
      (view (ext (snd (acquireRequestedDevice E input i c t W))))"
proof -
  let ?s = "view (ext W)" and ?m = "maximum_of (view (ext W)) c"
  define W1 where "W1 = W\<lparr>ext := snd (isOnline E c (ext W))\<rparr>"
  define W2 where "W2 = W1\<lparr>ext := snd (getMaxInFlight E c (ext W1))\<rparr>"
  define W3 where "W3 = W2\<lparr>ext := snd (tryAcquireSlot E c ?m (ext W2))\<rparr>"
  have v1: "view (ext W1) = ?s" using h by (simp add: W1_def)
  have v2: "view (ext W2) = ?s" using h v1 by (simp add: W2_def)
  have h2: "healthy (view (ext W2))" "counters_ok (view (ext W2))" using h k v2 by simp_all
  have f3: "fst (tryAcquireSlot E c ?m (ext W2)) = Inr (free_slot ?s c)"
    and ch: "slots_changed ?s (\<lambda>x. if x = c \<and> free_slot ?s c then 1 else 0) (view (ext W3))"
    using try_acquire_run [OF h2, of c ?m] by (simp_all add: v2 free_slot_def W3_def)
  have h3: "healthy (view (ext W3))" using slots_changed_healthy [OF ch h] .
  have b3: "balances ?s (view (ext W3))" if "\<not> free_slot ?s c"
    using that slots_changed_counters [OF ch] slots_changed_fields(3,5) [OF ch] slots_changed_inflight [OF ch]
    by (auto simp: balances_def)
  have t3: "takes_slot c ?s (view (ext W3))" if "free_slot ?s c"
    using slots_changed_takes [of ?s c] ch k that by simp
  have step: "acquireRequestedDevice E input i c t W =
      (if \<not> online_in ?s c then fail_done E input i (Some c) t ''offline'' 503 MDeviceOffline W1
       else if free_slot ?s c then (Inr (Proceed c), W3)
       else fail_done E input i (Some c) t ''rejected'' 429 MDeviceFull W3)"
    using h v1 f3
    by (simp add: acquireRequestedDevice_def io_simps lift_def flip: W1_def)
      (simp add: W2_def W3_def)
  have f1: "healthy (view (ext W1))" "counters_ok ?s" "balances ?s (view (ext W1))"
    using h k by (simp_all add: v1 balancing.R_refl)
  show "healthy (view (ext (snd (acquireRequestedDevice E input i c t W))))"
    unfolding step using h3 by (simp add: fail_done_closes(2) [OF f1] fail_done_closes(2) [OF h3 k b3])
  show "selection_of input ?s
      (if \<not> online_in ?s c then Refuse ''offline'' 503
       else if free_slot ?s c then Serve c else Refuse ''rejected'' 429)
      (fst (acquireRequestedDevice E input i c t W))
      (view (ext (snd (acquireRequestedDevice E input i c t W))))"
    unfolding step selection_of_def
    using t3
    by (simp add: fail_done_closes(1) [OF f1] fail_done_closes(1) [OF h3 k b3]
        del: fail_done_returns)
qed

lemma acquireAvailableDevice_run:
  fixes W :: "'w inst" and input i t
  assumes h: "healthy (view (ext W))" and k: "counters_ok (view (ext W))"
  shows "healthy (view (ext (snd (acquireAvailableDevice E input i p t W))))"
    and "selection_of input (view (ext W))
      (if candidates (view (ext W)) p = [] then Refuse ''no_device'' 503
       else case Presence.chosen (view (ext W)) p of None \<Rightarrow> Refuse ''rejected'' 429 | Some c \<Rightarrow> Serve c)
      (fst (acquireAvailableDevice E input i p t W))
      (view (ext (snd (acquireAvailableDevice E input i p t W))))"
proof -
  let ?s = "view (ext W)" and ?c = "Presence.chosen (view (ext W)) p"
  define W1 where "W1 = W\<lparr>ext := snd (pickOnlineAcquire E p (ext W))\<rparr>"
  note run = pick_run [OF h k, of p]
  obtain u where u: "healthy u" "counters_ok u" "jobs u = jobs ?s" "rows u = rows ?s" "inflight_of u = inflight_of ?s"
    and ch: "slots_changed u (\<lambda>x. if ?c = Some x then 1 else 0) (view (ext W1))"
    using run(2) by (auto simp: W1_def)
  have h1: "healthy (view (ext W1))" using slots_changed_healthy [OF ch u(1)] .
  have none: "balances ?s (view (ext W1))" if "?c = None"
    using that slots_changed_counters [OF ch u(2)] slots_changed_fields(3,5) [OF ch] u
      slots_changed_inflight [OF ch u(2)] by (auto simp: balances_def)
  have some: "takes_slot c ?s (view (ext W1))" if "?c = Some c" for c
    using slots_changed_takes [of u c "view (ext W1)"] ch u that
    by (simp add: takes_slot_def eq_commute [of c])
  have empty: "?c = None" if "candidates ?s p = []" using that by (simp add: Presence.chosen_def turn_def)
  have step: "acquireAvailableDevice E input i p t W =
      (if candidates ?s p = [] then fail_done E input i None t ''no_device'' 503 MNoDevice W1
       else case ?c of None \<Rightarrow> fail_done E input i None t ''rejected'' 429 MGroupFull W1
         | Some c \<Rightarrow> (Inr (Proceed c), W1))"
    using run(1) by (simp add: acquireAvailableDevice_def io_simps lift_def W1_def split: option.splits)
  show "healthy (view (ext (snd (acquireAvailableDevice E input i p t W))))"
    unfolding step using h1 empty by (simp add: fail_done_closes(2) [OF h1 k none] split: option.splits)
  show "selection_of input ?s
      (if candidates ?s p = [] then Refuse ''no_device'' 503
       else case ?c of None \<Rightarrow> Refuse ''rejected'' 429 | Some c \<Rightarrow> Serve c)
      (fst (acquireAvailableDevice E input i p t W))
      (view (ext (snd (acquireAvailableDevice E input i p t W))))"
    unfolding step selection_of_def
    using some empty by (simp add: fail_done_closes(1) [OF h1 k none] del: fail_done_returns split: option.splits)
qed

lemma selectDevice_run:
  fixes W :: "'w inst" and input i t
  assumes h: "healthy (view (ext W))" and k: "counters_ok (view (ext W))"
  shows "healthy (view (ext (snd (selectDevice E input i p t W))))"
    and "selection_of input (view (ext W)) (device_verdict (view (ext W)) input p)
      (fst (selectDevice E input i p t W)) (view (ext (snd (selectDevice E input i p t W))))"
proof -
  have returns: "\<not> isl out" if "selection_of input s d out v" for s d out v
    using that by (auto simp: selection_of_def closes_def split: verdict.splits)
  note a = acquireAvailableDevice_run [OF h k, where p = p and input = input and i = i and t = t]
  note r = acquireRequestedDevice_run [OF h k, where input = input and i = i and t = t]
  have step: "selectDevice E input i p t W =
      (case iv_clientId input of
         Some (x # xs) \<Rightarrow> acquireRequestedDevice E input i (x # xs) t W
       | _ \<Rightarrow> acquireAvailableDevice E input i p t W)"
    using returns [OF a(2)] returns [OF r(2)]
    by (auto simp: selectDevice_def catchM_eq split: option.splits list.splits)
  show "healthy (view (ext (snd (selectDevice E input i p t W))))"
    unfolding step using a(1) r(1) by (simp split: option.splits list.splits)
  show "selection_of input (view (ext W)) (device_verdict (view (ext W)) input p)
      (fst (selectDevice E input i p t W)) (view (ext (snd (selectDevice E input i p t W))))"
  proof (cases "iv_clientId input")
    case None
    then show ?thesis unfolding step device_verdict_def using a(2) by simp
  next
    case (Some c)
    then show ?thesis unfolding step device_verdict_def using a(2) r(2) by (cases c) simp_all
  qed
qed

end

lemma balanced_then:
  assumes "balances s u" "counters_ok s" "strs t = strs u" "rows t = rows u" "enters_log input r u t"
  shows "enters_log input r s t" "counters_ok t" "rows t = rows s" "inflight_of t = inflight_of s"
proof -
  have u: "counters_ok u" "jobs u = jobs s" "rows u = rows s" "inflight_of u = inflight_of s"
    using assms by (simp_all add: balances_def)
  show "rows t = rows s" using u(3) assms(4) by simp
  show "enters_log input r s t" using assms(5) u(2) by (simp add: enters_log_def)
  show "counters_ok t" "inflight_of t = inflight_of s"
    using u assms(3) by (simp_all add: counters_ok_def inflight_of_def fun_eq_iff)
qed

text \<open>An answer of the dispatch stage: of this device, logged, with the counts as they were.\<close>

definition settled_with ::
  "invoke_params \<Rightarrow> string \<Rightarrow> store \<Rightarrow> invoke_response \<Rightarrow> store \<Rightarrow> bool" where
  "settled_with input c s r t \<longleftrightarrow> ir_clientId r = Some c \<and> enters_log input r s t \<and> healthy t \<and>
     counters_ok t \<and> rows t = rows s \<and> inflight_of t = inflight_of s"

context services
begin

lemma fail_settles:
  assumes "healthy (view (ext W))" "balances s (view (ext W))" "counters_ok s"
  shows "\<exists>r. fst (fail E input i (Some c) t status code err W) = Inr r \<and>
    settled_with input c s r (view (ext (snd (fail E input i (Some c) t status code err W))))"
  using fail_run(1,2) [OF assms(1), of input i "Some c" t status code err]
    balanced_then [OF assms(2,3) fail_run(3,4) [OF assms(1)], of input _ input i "Some c" t status code err]
  by (auto simp: settled_with_def failure_def simp del: fail_returns)

lemma success_settles:
  assumes "healthy (view (ext W))" "balances s (view (ext W))" "counters_ok s"
  shows "\<exists>r. fst (success E ok input i c t d W) = Inr r \<and>
    settled_with input c s r (view (ext (snd (success E ok input i c t d W))))"
  using success_run(1,2) [OF assms(1), of ok input i c t d]
    balanced_then [OF assms(2,3) success_run(3,4) [OF assms(1)], of input _ ok input i c t d]
  by (auto simp: settled_with_def answer_def Let_def simp del: success_returns)

lemma answered:
  assumes "\<exists>r. fst (m W) = Inr r \<and> settled_with input c s r (view (ext (snd (m W))))"
  shows "\<exists>r. fst (bindM m (\<lambda>r. returnM (Answered r)) W) = Inr (Answered r) \<and>
    settled_with input c s r (view (ext (snd (bindM m (\<lambda>r. returnM (Answered r)) W))))"
  using assms by (auto simp: bindM_def)

lemma rpc_dispatchJob_run:
  fixes W :: "'w inst"
  assumes h: "healthy (view (ext W))" and k: "counters_ok (view (ext W))"
  obtains (Sent) "fst (rpc_dispatchJob E input j i c t ms W) = Inr None"
      "healthy (view (ext (snd (rpc_dispatchJob E input j i c t ms W))))"
      "balances (view (ext W)) (view (ext (snd (rpc_dispatchJob E input j i c t ms W))))"
  | (Failed) r where "fst (rpc_dispatchJob E input j i c t ms W) = Inr (Some r)"
      "settled_with input c (view (ext W)) r (view (ext (snd (rpc_dispatchJob E input j i c t ms W))))"
proof -
  define m where "m = catchM (thenM (markWaiting E i ms) (bindM (dispatchJob E c j) (\<lambda>b. returnM (Some b))))
    (\<lambda>_. returnM None)"
  have m: "relates (\<lambda>W. view (ext W)) balances m"
    unfolding m_def by (intro balancing.catch balancing.sequence balancing.bind balancing.return
        balances_markWaiting balances_dispatchJob)
  have v: "fst (m W) \<noteq> Inl e" for e by (simp add: m_def catchM_def split: sum.splits)
  define W1 where "W1 = snd (m W)"
  have r1: "healthy (view (ext W1))" "balances (view (ext W)) (view (ext W1))"
    using relatesD [OF m] h by (simp_all add: W1_def)
  have r2: "healthy (view (ext (cancelWaiter i x W1)))"
    "balances (view (ext W)) (view (ext (cancelWaiter i x W1)))" for x
    using r1 by (simp_all add: ext_local_events)
  obtain out where out: "fst (m W) = Inr out" using v by (cases "fst (m W)") auto
  consider "out = Some True" | "out = None" | "out = Some False" by auto
  then show thesis
  proof cases
    case 1
    then show thesis
      using Sent out r1
      by (simp add: rpc_dispatchJob_def bindM_def flip: m_def W1_def)
  next
    case 2
    then show thesis
      using Failed out fail_settles [OF r2 k, of input i c t "''error''" 503 MInfraUnavailable "''dispatch_error''"]
      by (auto simp: rpc_dispatchJob_def bindM_def thenM_def simp del: fail_returns simp flip: m_def W1_def)
  next
    case 3
    then show thesis
      using Failed out fail_settles [OF r2 k, of input i c t "''unavailable''" 503 MDeviceGone "''unavailable''"]
      by (auto simp: rpc_dispatchJob_def bindM_def thenM_def simp del: fail_returns simp flip: m_def W1_def)
  qed
qed

lemma dispatchAndAwait_run:
  fixes W :: "'w inst"
  assumes h: "healthy (view (ext W))" and k: "counters_ok (view (ext W))"
  shows "\<exists>r. fst (dispatchAndAwaitResult E ok u events input i c t secs ms W) = Inr (Answered r) \<and>
    settled_with input c (view (ext W)) r
      (view (ext (snd (dispatchAndAwaitResult E ok u events input i c t secs ms W))))"
proof -
  define W1 where "W1 = registerWaiter i c ms W"
  have v1: "ext W1 = ext W" by (simp add: W1_def registerWaiter_def)
  define j where "j = \<lparr>job_requestId = i, job_project = iv_project input, job_action = iv_action input,
      job_payload = iv_payload input, job_timeoutSeconds = secs, job_deadlineAt = Some (t + ms)\<rparr>"
  define W2 where "W2 = snd (rpc_dispatchJob E input j i c t ms W1)"
  have hk: "healthy (view (ext W1))" "counters_ok (view (ext W1))" using h k by (simp_all add: v1)
  from hk show ?thesis
  proof (cases rule: rpc_dispatchJob_run [of W1 input j i c t ms])
    case Sent
    have "waiters W2 = waiters W1"
      by (rule rpc_dispatchJob_cases [of E input j i c t ms W1]) (use Sent(1) in \<open>simp_all add: W2_def\<close>)
    then have "tracked i W2" by (simp add: tracked_def W1_def registerWaiter_def update_conv')
    note a = await_result_settles(1) [OF this, of E events]
    define W3 where "W3 = snd (await_result E i events W2)"
    obtain s where s: "fst (await_result E i events W2) = Inr (Some s)" using a by blast
    have "ext W3 = ext (fold (run_event E) events W2)"
      by (simp add: W3_def await_result_def Let_def ext_local_events)
    then have w3: "healthy (view (ext W3))" "balances (view (ext W)) (view (ext W3))"
      using run_events_balance [OF Sent(2) [folded W2_def], of events] Sent(3) balancing.R_trans
      by (auto simp: v1 W2_def)
    have run: "dispatchAndAwaitResult E ok u events input i c t secs ms W =
        (case s of
           Resolved res \<Rightarrow>
             if res = JNull then bindM (fail E input i (Some c) t ''timeout'' 504 (MTimedOut secs)) (\<lambda>r. returnM (Answered r)) W3
             else bindM (success E ok input i c t (device_result_of u res)) (\<lambda>r. returnM (Answered r)) W3
         | Rejected _ \<Rightarrow>
             bindM (fail E input i (Some c) t ''timeout'' 504 (MTimedOut secs)) (\<lambda>r. returnM (Answered r)) W3)"
      using Sent(1) s
      by (auto simp: dispatchAndAwaitResult_def Let_def thenM_def bindM_Inr W3_def split: settlement.splits
          simp flip: W1_def j_def W2_def)
    show ?thesis
      unfolding run
      using answered [of "fail E input i (Some c) t ''timeout'' 504 (MTimedOut secs)" W3, OF fail_settles [OF w3 k]]
        answered [of "success E ok input i c t _" W3, OF success_settles [OF w3 k]]
      by (cases s) simp_all
  next
    case (Failed r)
    then show ?thesis
      by (simp add: dispatchAndAwaitResult_def Let_def thenM_def bindM_def v1 flip: W1_def j_def)
  qed
qed

lemma invoke_run:
  fixes W :: "'w inst" and input :: invoke_params and ok u events
  assumes h: "healthy (view (ext W))" and k: "counters_ok (view (ext W))"
  defines "v \<equiv> view (ext (snd (invoke E ok u events input W)))"
  shows "\<exists>r. fst (invoke E ok u events input W) = Inr (Answered r) \<and>
    (case verdict_on (view (ext W)) input of
       Refuse status code \<Rightarrow> refusal status code r \<and> inflight_of v = inflight_of (view (ext W))
     | Serve c \<Rightarrow> ir_clientId r = Some c \<and>
         inflight_of v = (inflight_of (view (ext W)))(c := max 0 (inflight_of (view (ext W)) c))) \<and>
    enters_log input r (view (ext W)) v \<and> rows v = rows (view (ext W)) \<and> healthy v \<and> counters_ok v"
proof -
  let ?s = "view (ext W)"
  obtain i where i: "fst (random_uuid E (ext W)) = Inr i" by (metis run_random(1) sum.collapse(2))
  define W1 where "W1 = snd (lift (random_uuid E) W)"
  define t where "t = now_ms E (ext W1)"
  define secs where "secs = or_default 20 (iv_timeoutSeconds input)"
  define dispatch where "dispatch c =
    finallyM (dispatchAndAwaitResult E ok u events input i c t secs (secs * 1000))
      (ignoreM (lift (releaseSlot E c)))" for c
  define select where "select p = bindM (selectDevice E input i p t)
    (\<lambda>x. case x of Done o' \<Rightarrow> returnM o' | Proceed c \<Rightarrow> dispatch c)" for p
  have start: "invoke E ok u events input W =
      bindM (resolveProject E input i t) (\<lambda>x. case x of Done o' \<Rightarrow> returnM o' | Proceed p \<Rightarrow> select p) W1"
    unfolding invoke_def select_def dispatch_def
    by (simp add: bindM_Inr [of "lift (random_uuid E)" _ i] i Let_def flip: W1_def t_def secs_def)
  have hk1: "healthy (view (ext W1))" "counters_ok (view (ext W1))" and v1: "view (ext W1) = ?s"
    using h k by (simp_all add: W1_def)
  define W2 where "W2 = snd (resolveProject E input i t W1)"
  note r1 = resolveProject_run [OF hk1, of input i t, folded W2_def, unfolded v1]
  show ?thesis
  proof (cases "\<exists>p. group_named ?s (iv_project input) = Some p \<and> prj_enabled p")
    case False
    then show ?thesis
      using r1 unfolding v_def start
      by (auto simp: closes_def verdict_on_def bindM_def W2_def split: option.splits if_splits)
  next
    case True
    then obtain p where p: "group_named ?s (iv_project input) = Some p" "prj_enabled p" by blast
    then have r2: "fst (resolveProject E input i t W1) = Inr (Proceed (prj_id p))"
      and v2: "view (ext W2) = ?s" using r1(2) by simp_all
    then have start2: "invoke E ok u events input W = select (prj_id p) W2"
      unfolding start by (simp add: bindM_def W2_def)
    have hk2: "healthy (view (ext W2))" "counters_ok (view (ext W2))" using h k by (simp_all add: v2)
    define W3 where "W3 = snd (selectDevice E input i (prj_id p) t W2)"
    note r3 = selectDevice_run [OF hk2, where input = input and i = i and p = "prj_id p" and t = t, folded W3_def, unfolded v2]
    have vd: "verdict_on ?s input = device_verdict ?s input (prj_id p)" using p by (simp add: verdict_on_def)
    show ?thesis
    proof (cases "device_verdict ?s input (prj_id p)")
      case (Refuse st code)
      then show ?thesis
        using r3 unfolding v_def start2 select_def
        by (auto simp: selection_of_def closes_def vd bindM_def W3_def)
    next
      case (Serve c)
      then have sel: "fst (selectDevice E input i (prj_id p) t W2) = Inr (Proceed c)"
        and slot: "takes_slot c ?s (view (ext W3))"
        using r3(2) by (simp_all add: selection_of_def)
      have k3: "counters_ok (view (ext W3))" using slot by (simp add: takes_slot_def)
      obtain r where r: "fst (dispatchAndAwaitResult E ok u events input i c t secs (secs * 1000) W3) = Inr (Answered r)"
        and after: "settled_with input c (view (ext W3)) r
          (view (ext (snd (dispatchAndAwaitResult E ok u events input i c t secs (secs * 1000) W3))))"
        using dispatchAndAwait_run [OF r3(1) k3] by blast
      define W4 where "W4 = snd (dispatchAndAwaitResult E ok u events input i c t secs (secs * 1000) W3)"
      have s4: "healthy (view (ext W4))" "counters_ok (view (ext W4))"
        using after by (simp_all add: settled_with_def W4_def)
      have last: "invoke E ok u events input W =
          (Inr (Answered r), snd (ignoreM (lift (releaseSlot E c)) W4))"
        unfolding start2 select_def dispatch_def by (simp add: bindM_Inr sel finallyM_def r W4_def flip: W3_def)
      have ends: "v = view (snd (releaseSlot E c (ext W4)))" by (simp add: v_def last)
      note rel = release_run [OF s4, of c]
      have same: "jobs v = jobs (view (ext W4))" "rows v = rows (view (ext W4))" "healthy v" "counters_ok v"
        unfolding ends using rel(5) frame_sel(3,5) rel(2,3) by metis+
      have "inflight_of v d = ((inflight_of ?s)(c := max 0 (inflight_of ?s c))) d" for d
        unfolding ends rel(4) using slot after by (simp add: takes_slot_def settled_with_def W4_def)
      then show ?thesis
        using slot after same
        by (auto simp: vd Serve last settled_with_def enters_log_def takes_slot_def W4_def)
    qed
  qed
qed

end

text \<open>
  C5: how a call is decided.  In the order of the code: an unknown project is 404, a disabled one
  403, a requested device that is offline 503 or full 429, a project without online devices 503,
  one whose devices are all full 429; in every other case the call is served by the requested
  device, or by the first device of the turn with a free slot, and the answer names it.
\<close>

theorem invoke_follows_verdict:
  assumes "services E view" "healthy (view (ext W))" "counters_ok (view (ext W))"
  shows "\<exists>r. fst (invoke E ok u events input W) = Inr (Answered r) \<and>
    (case verdict_on (view (ext W)) input of
       Refuse status code \<Rightarrow> ir_status r = status \<and> ir_httpCode r = code \<and> \<not> ir_is_ok r
     | Serve c \<Rightarrow> ir_clientId r = Some c)"
proof -
  obtain r where "fst (invoke E ok u events input W) = Inr (Answered r)"
    "case verdict_on (view (ext W)) input of
       Refuse status code \<Rightarrow> refusal status code r | Serve c \<Rightarrow> ir_clientId r = Some c"
    using services.invoke_run [OF assms, of ok u events input]
    by (cases "verdict_on (view (ext W)) input") auto
  then show ?thesis by (cases "verdict_on (view (ext W)) input") (auto simp: refusal_def)
qed

text \<open>
  C3: the books balance.  Whatever becomes of a call, exactly one log entry is queued for it, with
  the request, project, action, device, status and error of the response the caller got, and after
  it every device serves as many calls as before: the slot that was taken is given back.
\<close>

theorem invoke_balances_books:
  assumes "services E view" "healthy (view (ext W))" "counters_ok (view (ext W))"
    and "\<forall>c. 0 \<le> inflight_of (view (ext W)) c"
  shows "\<exists>r j. fst (invoke E ok u events input W) = Inr (Answered r) \<and>
    jobs (view (ext (snd (invoke E ok u events input W)))) =
      jobs (view (ext W)) @ [(QUEUE_REQUEST_LOG, j)] \<and>
    describes input r j \<and>
    inflight_of (view (ext (snd (invoke E ok u events input W)))) = inflight_of (view (ext W))"
proof -
  obtain r where r: "fst (invoke E ok u events input W) = Inr (Answered r)"
    "case verdict_on (view (ext W)) input of
       Refuse status code \<Rightarrow> refusal status code r \<and>
         inflight_of (view (ext (snd (invoke E ok u events input W)))) = inflight_of (view (ext W))
     | Serve c \<Rightarrow> ir_clientId r = Some c \<and>
         inflight_of (view (ext (snd (invoke E ok u events input W)))) =
           (inflight_of (view (ext W)))(c := max 0 (inflight_of (view (ext W)) c))"
    "enters_log input r (view (ext W)) (view (ext (snd (invoke E ok u events input W))))"
    using services.invoke_run [OF assms(1-3), of ok u events input] by blast
  have "inflight_of (view (ext (snd (invoke E ok u events input W)))) = inflight_of (view (ext W))"
    using r(2) assms(4) by (cases "verdict_on (view (ext W)) input") (simp_all add: max_absorb2)
  with r(1,3) show ?thesis by (auto simp: enters_log_def)
qed

text \<open>The project \<open>p\<close> with the devices of \<open>example_presence\<close>.\<close>

definition example_instance :: "sim inst" where
  "example_instance = example_registry\<lparr>ext := sim_start\<lparr>sim_store :=
     (sim_view example_presence)\<lparr>rows := [Project \<lparr>prj_id = 2, prj_name = ''p'', prj_description = None,
       prj_enabled = True, prj_createdAt = 0, prj_deletedAt = None\<rparr>]\<rparr>\<rparr>\<rparr>"

lemma example_instance_view:
  "sim_view (ext example_instance) = (sim_view example_presence)\<lparr>rows :=
     [Project \<lparr>prj_id = 2, prj_name = ''p'', prj_description = None,
       prj_enabled = True, prj_createdAt = 0, prj_deletedAt = None\<rparr>]\<rparr>"
  by (simp add: sim_view_def example_instance_def sim_start_def)

lemma example_instance_ok:
  "healthy (sim_view (ext example_instance))" "counters_ok (sim_view (ext example_instance))"
  "\<forall>c. 0 \<le> inflight_of (sim_view (ext example_instance)) c"
  using example_presence_ok
  by (simp_all add: example_instance_view counters_ok_def)
    (auto simp: inflight_of_def example_instance_view example_presence_strs parse_small)

lemma example_verdict: "verdict_on (sim_view (ext example_instance)) example_call = Serve ''b''"
proof -
  have "candidates (sim_view (ext example_instance)) 2 = [''a'', ''b'']"
    using example_presence_reads(1) by (simp add: candidates_def example_instance_view online_in_def)
  moreover have "Presence.chosen (sim_view (ext example_instance)) 2 = Some ''b''"
    using example_presence_reads
    by (simp add: Presence.chosen_def turn_def candidates_def example_instance_view online_in_def
        cursor_of_def free_slot_def maximum_of_def inflight_of_def)
  ultimately have "device_verdict (sim_view (ext example_instance)) example_call 2 = Serve ''b''"
    by (simp add: device_verdict_def example_call_def)
  moreover have "group_named (sim_view (ext example_instance)) ''p'' = Some \<lparr>prj_id = 2, prj_name = ''p'',
      prj_description = None, prj_enabled = True, prj_createdAt = 0, prj_deletedAt = None\<rparr>"
    by (simp add: group_named_def example_instance_view)
  ultimately show ?thesis by (simp add: verdict_on_def) (simp add: example_call_def)
qed

theorem invoke_follows_verdict_witness:
  "\<exists>r. fst (invoke sim_env (\<lambda>_. True) (\<lambda>_. undefined) [] example_call example_instance) = Inr (Answered r) \<and>
     ir_clientId r = Some ''b''"
  using invoke_follows_verdict [OF sim_services example_instance_ok(1,2), of "\<lambda>_. True" "\<lambda>_. undefined" "[]" example_call]
  by (simp add: example_verdict)

theorem invoke_balances_books_witness:
  "inflight_of (sim_view (ext (snd (invoke sim_env (\<lambda>_. True) (\<lambda>_. undefined) [] example_call example_instance)))) ''b'' = 0"
proof -
  have "inflight_of (sim_view (ext example_instance)) ''b'' = 0"
    by (simp add: example_instance_view inflight_of_def example_presence_strs)
  then show ?thesis
    using invoke_balances_books [OF sim_services example_instance_ok, of "\<lambda>_. True" "\<lambda>_. undefined" "[]" example_call]
    by auto
qed

end
