(* ===== verification/Rpc_Controller.thy ===== *)
theory Rpc_Controller
  imports Invocation_Effects
begin

text \<open>
  \<^verbatim>\<open>application/rpc/rpc.controller.ts\<close>: the four handlers, after their guards and DTO checks.  The
  handlers run on an instance, like the service they call.
\<close>

section \<open>The handlers\<close>

record invoke_dto =
  dto_timeoutSeconds :: "int option"
  dto_clientRequestId :: "string option"
  dto_payload :: json

record debug_options =
  do_projects :: "project_row list"
  do_actions :: "string list"
  do_clientIds :: "string list"

text \<open>\<open>locale_sort\<close> is \<^verbatim>\<open>sort\<close> with \<^verbatim>\<open>localeCompare\<close>: its order is the engine's locale.\<close>

definition debugOptions ::
  "'w env \<Rightarrow> (string list \<Rightarrow> string list) \<Rightarrow> string option \<Rightarrow> ('w, debug_options) io" where
  "debugOptions E locale_sort project =
     bindM (list_projects E) (\<lambda>projectRecords.
       case find (\<lambda>p. Some (prj_name p) = project) projectRecords of
         None \<Rightarrow> returnM \<lparr>do_projects = projectRecords, do_actions = [], do_clientIds = []\<rparr>
       | Some selected \<Rightarrow>
           bindM (listOnline E (prj_id selected)) (\<lambda>onlineClientIds.
           bindM (filterOptions E \<lparr>of_project = Some (prj_name selected), of_action = None, of_clientId = None\<rparr>) (\<lambda>options.
             returnM \<lparr>do_projects = projectRecords, do_actions = fo_actions options,
                      do_clientIds = locale_sort onlineClientIds\<rparr>)))"

definition debugInvoke ::
  "'w env \<Rightarrow> (string \<Rightarrow> bool) \<Rightarrow> (json \<Rightarrow> device_result) \<Rightarrow> event list \<Rightarrow> string \<Rightarrow> string \<Rightarrow>
   invoke_dto \<Rightarrow> string option \<Rightarrow> nat \<Rightarrow> ('w inst, invoke_outcome) io" where
  "debugInvoke E datetime_ok untyped events project action input clientId userId =
     invoke E datetime_ok untyped events
       \<lparr>iv_project = project, iv_action = action, iv_payload = dto_payload input,
        iv_timeoutSeconds = dto_timeoutSeconds input, iv_clientId = clientId,
        iv_clientRequestId = dto_clientRequestId input, iv_accessTokenId = None,
        iv_requesterUserId = Some userId\<rparr>"

definition rpc_invoke ::
  "'w env \<Rightarrow> (string \<Rightarrow> bool) \<Rightarrow> (json \<Rightarrow> device_result) \<Rightarrow> event list \<Rightarrow> string \<Rightarrow> string \<Rightarrow>
   invoke_dto \<Rightarrow> string option \<Rightarrow> granted_token \<Rightarrow> ('w inst, invoke_outcome) io" where
  "rpc_invoke E datetime_ok untyped events project action input clientId accessToken =
     bindM (if gt_maximumUsageCount accessToken \<noteq> None
            then lift (consumeInvocation E (nat (gt_id accessToken))) else returnM None)
       (\<lambda>_. invoke E datetime_ok untyped events
         \<lparr>iv_project = project, iv_action = action, iv_payload = dto_payload input,
          iv_timeoutSeconds = dto_timeoutSeconds input, iv_clientId = clientId,
          iv_clientRequestId = dto_clientRequestId input,
          iv_accessTokenId = Some (nat (gt_id accessToken)), iv_requesterUserId = None\<rparr>)"

datatype client_queue = DeviceQueue string bool | ProjectQueue string "string list"

definition clientQueue :: "'w env \<Rightarrow> string \<Rightarrow> string option \<Rightarrow> ('w, client_queue) io" where
  "clientQueue E project clientId =
     (case clientId of
        Some (x # xs) \<Rightarrow> bindM (isOnline E (x # xs)) (\<lambda>b. returnM (DeviceQueue (x # xs) b))
      | _ \<Rightarrow>
          bindM (idByName E project) (\<lambda>projectId.
            case projectId of
              None \<Rightarrow> returnM (ProjectQueue project [])
            | Some i \<Rightarrow>
                if i = 0 then returnM (ProjectQueue project [])
                else bindM (listOnline E i) (\<lambda>cs. returnM (ProjectQueue project cs))))"

section \<open>A limited token\<close>

text \<open>What the consumption of a call leaves alone: the queue and every key but its cache entry.\<close>

lemma counted_rows_only:
  fixes view :: "'w \<Rightarrow> store"
  assumes "services E view" "table_ok U" "\<And>s rs. obs (s\<lparr>rows := rs\<rparr>) = obs s"
  shows "keeps view obs (update_table E U P f)"
  unfolding keeps_unfold
proof (intro allI impI)
  fix w assume h: "healthy (view w)"
  let ?rs = "update_rows (on_table U P) (map_table U f) (rows (view w))"
  have "view (snd (update_table E U P f w)) = (view w)\<lparr>rows := ?rs\<rparr> \<or>
      view (snd (update_table E U P f w)) = view w"
    using services.run_update(2) [OF assms(1) h assms(2)] services.run_update_conflict(2) [OF assms(1) h]
    by blast
  then show "healthy (view (snd (update_table E U P f w))) \<and>
      obs (view (snd (update_table E U P f w))) = obs (view w)"
    using h assms(3) by auto
qed

definition presence_books :: "store \<Rightarrow> (string \<times> request_log_job) list \<times> (string \<Rightarrow> string option) \<times> (nat \<Rightarrow> string option)" where
  "presence_books s = (jobs s, \<lambda>c. strs s (inflight_key c), \<lambda>p. strs s (cursor_key p))"

lemma presence_books_counters:
  assumes "presence_books t = presence_books s"
  shows "jobs t = jobs s" "counters_ok s \<Longrightarrow> counters_ok t" "inflight_of t = inflight_of s"
proof -
  have k: "strs t (inflight_key c) = strs s (inflight_key c)" "strs t (cursor_key p) = strs s (cursor_key p)"
    "jobs t = jobs s" for c p
    using assms by (auto simp: presence_books_def fun_eq_iff)
  then show "jobs t = jobs s" "counters_ok s \<Longrightarrow> counters_ok t" "inflight_of t = inflight_of s"
    by (simp_all add: counters_ok_def inflight_of_def fun_eq_iff)
qed

context services
begin

lemma consume_keeps_books: "keeps view presence_books (consumeInvocation E i)"
proof -
  have rows: "presence_books (s\<lparr>rows := rs\<rparr>) = presence_books s" for s rs
    by (simp add: presence_books_def)
  have del: "keeps view presence_books (redis_del E (unique (access_key E r)))" for r
    by (simp add: keeps_unfold presence_books_def access_key_def unique_def accessTokenCacheKey_def presence_keys)
  have reads: "keeps view presence_books (resolveUnconsumedToken E i)"
    by (auto simp: keeps_unfold resolveUnconsumedToken_def io_simps split: option.splits)
  have writes: "keeps view presence_books (consume_write E i)"
    unfolding consume_write_def [abs_def]
    by (rule keeps_run_at)
      (intro keeps_bind keeps_option keeps_return reads counted_rows_only [OF services_axioms] tables_ok rows)
  show ?thesis
    unfolding consumeInvocation_def writeAndInvalidate_def invalidate_def
    by (intro keeps_bind keeps_then keeps_catch keeps_if keeps_return writes del)
qed

end

text \<open>Requests that come one after the other with the same token.\<close>

record rpc_request =
  rq_project :: string
  rq_action :: string
  rq_input :: invoke_dto
  rq_clientId :: "string option"
  rq_events :: "event list"

primrec serve_all ::
  "'w env \<Rightarrow> (string \<Rightarrow> bool) \<Rightarrow> (json \<Rightarrow> device_result) \<Rightarrow> granted_token \<Rightarrow> rpc_request list \<Rightarrow>
   'w inst \<Rightarrow> (exn + invoke_outcome) list \<times> 'w inst" where
  "serve_all E ok u token [] W = ([], W)"
| "serve_all E ok u token (x # xs) W =
     (let c = rpc_invoke E ok u (rq_events x) (rq_project x) (rq_action x) (rq_input x) (rq_clientId x) token W;
          rest = serve_all E ok u token xs (snd c) in
      (fst c # fst rest, snd rest))"

lemma rpc_invoke_exhausted:
  assumes "services E view" "healthy (view (ext W))" "r \<in> set (contents (rows (view (ext W))) accessTokens)"
    and "act_deletedAt r = None" "act_status r = ''active''" "unexpired E r"
    and "act_maximumUsageCount r = Some m" "m \<le> act_usageCount r"
    and "gt_id token = int (act_id r)" "gt_maximumUsageCount token \<noteq> None"
  shows "fst (rpc_invoke E ok u es p a d c token W) = Inl (Http 429 MTokenExhausted)"
    and "view (ext (snd (rpc_invoke E ok u es p a d c token W))) = view (ext W)"
  using services.consume_exhausted [OF assms(1-8)] assms(9,10)
  by (simp_all add: rpc_invoke_def bindM_def)

lemma serve_all_exhausted:
  assumes "services E view" "healthy (view (ext W))" "r \<in> set (contents (rows (view (ext W))) accessTokens)"
    and "act_deletedAt r = None" "act_status r = ''active''" "unexpired E r"
    and "act_maximumUsageCount r = Some m" "m \<le> act_usageCount r"
    and "gt_id token = int (act_id r)" "gt_maximumUsageCount token \<noteq> None"
  shows "fst (serve_all E ok u token xs W) = replicate (length xs) (Inl (Http 429 MTokenExhausted)) \<and>
    view (ext (snd (serve_all E ok u token xs W))) = view (ext W)"
  using assms(2,3)
proof (induction xs arbitrary: W)
  case (Cons x xs)
  note one = rpc_invoke_exhausted [OF assms(1) Cons.prems assms(4-10), of ok u "rq_events x" "rq_project x"
      "rq_action x" "rq_input x" "rq_clientId x"]
  show ?case
    using Cons.IH [of "snd (rpc_invoke E ok u (rq_events x) (rq_project x) (rq_action x) (rq_input x) (rq_clientId x) token W)"]
      Cons.prems one by (simp add: Let_def)
qed simp

text \<open>One call with quota left.\<close>

lemma rpc_invoke_counted:
  fixes ok u es p a d c and W :: "'w inst"
  assumes "services E view" "healthy (view (ext W))" "counters_ok (view (ext W))"
    and "r \<in> set (contents (rows (view (ext W))) accessTokens)" "consumable (pg_now E (ext W)) (act_id r) r"
    and "gt_id token = int (act_id r)" "gt_maximumUsageCount token \<noteq> None"
  defines "V \<equiv> snd (rpc_invoke E ok u es p a d c token W)"
  shows "\<exists>x j. fst (rpc_invoke E ok u es p a d c token W) = Inr (Answered x) \<and>
      jobs (view (ext V)) = jobs (view (ext W)) @ [(QUEUE_REQUEST_LOG, j)] \<and>
      rlj_requestId j = ir_requestId x \<and> rlj_accessTokenId j = Some (act_id r)"
    and "count_use r \<in> set (contents (rows (view (ext V))) accessTokens)"
    and "healthy (view (ext V))" "counters_ok (view (ext V))"
proof -
  define W1 where "W1 = W\<lparr>ext := snd (consumeInvocation E (act_id r) (ext W))\<rparr>"
  note one = services.consume_counts [OF assms(1,2,4,5)]
  have "presence_books (view (ext W1)) = presence_books (view (ext W))"
    using keepsD(2) [OF services.consume_keeps_books [OF assms(1)] assms(2)] by (simp add: W1_def)
  note books = presence_books_counters [OF this]
  have h1: "healthy (view (ext W1))" "counters_ok (view (ext W1))"
    using one(3) books(2) assms(3) by (simp_all add: W1_def)
  define input where "input = \<lparr>iv_project = p, iv_action = a, iv_payload = dto_payload d,
    iv_timeoutSeconds = dto_timeoutSeconds d, iv_clientId = c, iv_clientRequestId = dto_clientRequestId d,
    iv_accessTokenId = Some (act_id r), iv_requesterUserId = None\<rparr>"
  have step: "rpc_invoke E ok u es p a d c token W = invoke E ok u es input W1"
    using one(1) assms(6,7)
    by (simp add: rpc_invoke_def input_def bindM_def lift_def W1_def)
  note run = services.invoke_run [OF assms(1) h1, of ok u es input, folded step, folded V_def]
  show "\<exists>x j. fst (rpc_invoke E ok u es p a d c token W) = Inr (Answered x) \<and>
      jobs (view (ext V)) = jobs (view (ext W)) @ [(QUEUE_REQUEST_LOG, j)] \<and>
      rlj_requestId j = ir_requestId x \<and> rlj_accessTokenId j = Some (act_id r)"
    using run books(1) by (auto simp: enters_log_def describes_def input_def)
  show "healthy (view (ext V))" "counters_ok (view (ext V))" using run by auto
  have "count_use r \<in> set (contents (rows (view (ext W1))) accessTokens)"
    using assms(4) by (auto simp: W1_def one(2))
  then show "count_use r \<in> set (contents (rows (view (ext V))) accessTokens)" using run by auto
qed

text \<open>
  C4: a limited token buys exactly its remaining calls.  Of the calls that come with a token used
  \<open>k\<close> of at most \<open>m\<close> times, the first \<open>m - k\<close> are answered by the service, whatever the answer, and
  each is logged under the token; every later one is refused with 429 before anything is
  dispatched or logged.
\<close>

theorem metered_calls:
  assumes "services E view" "healthy (view (ext W))" "counters_ok (view (ext W))"
    and "r \<in> set (contents (rows (view (ext W))) accessTokens)"
    and "act_deletedAt r = None" "act_status r = ''active''" "unexpired E r"
    and "act_maximumUsageCount r = Some m"
    and "gt_id token = int (act_id r)" "gt_maximumUsageCount token = Some (int m)"
  shows "\<exists>as js. fst (serve_all E ok u token xs W) =
      map (\<lambda>a. Inr (Answered a)) as @
      replicate (length xs - (m - act_usageCount r)) (Inl (Http 429 MTokenExhausted)) \<and>
    length as = min (length xs) (m - act_usageCount r) \<and>
    jobs (view (ext (snd (serve_all E ok u token xs W)))) =
      jobs (view (ext W)) @ map (Pair QUEUE_REQUEST_LOG) js \<and>
    map rlj_requestId js = map ir_requestId as \<and> (\<forall>j \<in> set js. rlj_accessTokenId j = Some (act_id r))"
  using assms(2-9)
proof (induction xs arbitrary: W r)
  case Nil
  show ?case by (intro exI [of _ "[]"]) simp
next
  case (Cons x xs)
  have limited: "gt_maximumUsageCount token \<noteq> None" using assms(10) by simp
  show ?case
  proof (cases "act_usageCount r < m")
    case False
    then have "m \<le> act_usageCount r" by simp
    note refused = serve_all_exhausted [OF assms(1) Cons.prems(1,3-7) this Cons.prems(8) limited, of ok u "x # xs"]
    show ?thesis using refused False by (intro exI [of _ "[]"]) simp
  next
    case True
    then have "consumable (pg_now E (ext W)) (act_id r) r"
      using Cons.prems by (auto simp: consumable_def alive_def unexpired_def split: option.splits)
    note one = rpc_invoke_counted [OF assms(1) Cons.prems(1-3) this Cons.prems(8) limited,
        of ok u "rq_events x" "rq_project x" "rq_action x" "rq_input x" "rq_clientId x"]
    let ?r = "count_use r"
    define V where "V = snd (rpc_invoke E ok u (rq_events x) (rq_project x) (rq_action x) (rq_input x) (rq_clientId x) token W)"
    have r: "act_id ?r = act_id r" "act_deletedAt ?r = None" "act_status ?r = ''active''"
      "unexpired E ?r" "act_maximumUsageCount ?r = Some m" "act_usageCount ?r = Suc (act_usageCount r)"
      "gt_id token = int (act_id ?r)"
      using Cons.prems by (simp_all add: count_use_def unexpired_def)
    obtain as js where rest: "fst (serve_all E ok u token xs V) =
        map (\<lambda>a. Inr (Answered a)) as @
        replicate (length xs - (m - act_usageCount ?r)) (Inl (Http 429 MTokenExhausted))"
      "length as = min (length xs) (m - act_usageCount ?r)"
      "jobs (view (ext (snd (serve_all E ok u token xs V)))) =
        jobs (view (ext V)) @ map (Pair QUEUE_REQUEST_LOG) js"
      "map rlj_requestId js = map ir_requestId as" "\<forall>j \<in> set js. rlj_accessTokenId j = Some (act_id ?r)"
      using Cons.IH [OF one(3,4,2) r(2-5,7)] unfolding V_def [symmetric] by blast
    obtain a j where first: "fst (rpc_invoke E ok u (rq_events x) (rq_project x) (rq_action x) (rq_input x)
          (rq_clientId x) token W) = Inr (Answered a)"
      "jobs (view (ext V)) = jobs (view (ext W)) @ [(QUEUE_REQUEST_LOG, j)]"
      "rlj_requestId j = ir_requestId a" "rlj_accessTokenId j = Some (act_id r)"
      using one(1) unfolding V_def [symmetric] by blast
    have count: "min (Suc (length xs)) (m - act_usageCount r) = Suc (min (length xs) (m - Suc (act_usageCount r)))"
      "Suc (length xs) - (m - act_usageCount r) = length xs - (m - Suc (act_usageCount r))"
      using True by arith+
    show ?thesis
      using rest first by (intro exI [of _ "a # as"] exI [of _ "j # js"])
        (simp add: Let_def count r(1,6) flip: V_def)
  qed
qed

text \<open>One call is left to the token, two are made.\<close>

definition example_request :: rpc_request where
  "example_request = \<lparr>rq_project = ''p'', rq_action = ''ping'',
     rq_input = \<lparr>dto_timeoutSeconds = None, dto_clientRequestId = None, dto_payload = JObj []\<rparr>,
     rq_clientId = None, rq_events = []\<rparr>"

theorem metered_calls_witness:
  "\<exists>a. fst (serve_all sim_env (\<lambda>_. True) (\<lambda>_. undefined) \<lparr>gt_id = 7, gt_name = ''ci'', gt_projectIds = [2],
       gt_maximumUsageCount = Some 3\<rparr> [example_request, example_request]
       (example_registry\<lparr>ext := example_tokens\<rparr>)) = [Inr (Answered a), Inl (Http 429 MTokenExhausted)]"
proof -
  let ?W = "example_registry\<lparr>ext := example_tokens\<rparr>"
  let ?t = "\<lparr>gt_id = 7, gt_name = ''ci'', gt_projectIds = [2], gt_maximumUsageCount = Some 3\<rparr>"
  have "healthy (sim_view (ext ?W))" "counters_ok (sim_view (ext ?W))"
    by (simp_all add: healthy_def typed_keys_def counters_ok_def empty_store_def)
  from metered_calls [OF sim_services this, of example_token 3 ?t "\<lambda>_. True" "\<lambda>_. undefined"
      "[example_request, example_request]"]
  obtain as where "fst (serve_all sim_env (\<lambda>_. True) (\<lambda>_. undefined) ?t [example_request, example_request] ?W) =
      map (\<lambda>a. Inr (Answered a)) as @ [Inl (Http 429 MTokenExhausted)]" "length as = 1"
    by (auto simp: unexpired_def example_token_def simp del: serve_all.simps)
  then show ?thesis by (auto simp: length_Suc_conv simp del: serve_all.simps)
qed

end
