(* ===== verification/Users.thy ===== *)
theory Users
  imports Frames Json_Text Cache_Aside Access_Token
begin

text \<open>
  The accounts of the console: \<^verbatim>\<open>common/utils/password.ts\<close>, \<^verbatim>\<open>administrator-account-policy.service.ts\<close>
  and \<^verbatim>\<open>users.service.ts\<close>.  \<^verbatim>\<open>scryptSync\<close> is the argument \<open>scrypt\<close> (password, salt, length), and the
  sixteen random bytes of a salt are an argument of the operations that hash.
\<close>

section \<open>Passwords\<close>

text \<open>\<^verbatim>\<open>toString('hex')\<close> and \<^verbatim>\<open>Buffer.from(_, 'hex')\<close>, which stops at the first pair that is not hex.\<close>

definition hex_of_bytes :: "nat list \<Rightarrow> string" where
  "hex_of_bytes bs = concat (map (\<lambda>b. [hex_char (b div 16), hex_char (b mod 16)]) bs)"

fun bytes_of_hex :: "string \<Rightarrow> nat list" where
  "bytes_of_hex (a # b # cs) =
     (case (hex_digit_value a, hex_digit_value b) of
        (Some x, Some y) \<Rightarrow> (16 * x + y) # bytes_of_hex cs
      | _ \<Rightarrow> [])"
| "bytes_of_hex _ = []"

fun split_dollar :: "string \<Rightarrow> string list" where
  "split_dollar [] = [[]]"
| "split_dollar (c # cs) =
     (if c = CHR ''$'' then [] # split_dollar cs
      else case split_dollar cs of [] \<Rightarrow> [[c]] | x # xs \<Rightarrow> (c # x) # xs)"

type_synonym scrypt = "string \<Rightarrow> nat list \<Rightarrow> nat \<Rightarrow> nat list"

definition hashPassword :: "scrypt \<Rightarrow> nat list \<Rightarrow> string \<Rightarrow> string" where
  "hashPassword scrypt salt password =
     ''scrypt$'' @ hex_of_bytes salt @ ''$'' @ hex_of_bytes (scrypt password salt 64)"

definition verifyPassword :: "scrypt \<Rightarrow> string \<Rightarrow> string \<Rightarrow> bool" where
  "verifyPassword scrypt password stored =
     (let parts = split_dollar stored in
      case (js_index parts 0, js_index parts 1, js_index parts 2) of
        (Some scheme, Some saltHex, Some hashHex) \<Rightarrow>
          if scheme \<noteq> ''scrypt'' \<or> saltHex = [] \<or> hashHex = [] then False
          else (let hash = scrypt password (bytes_of_hex saltHex) 64;
                    expected = bytes_of_hex hashHex in
                length hash = length expected \<and> hash = expected)
      | _ \<Rightarrow> False)"

section \<open>The account policy\<close>

definition assertAdministratorMutationAllowed :: "nat \<Rightarrow> nat \<times> bool \<Rightarrow> exn option" where
  "assertAdministratorMutationAllowed requesterUserId targetUser =
     (case targetUser of (i, isRoot) \<Rightarrow>
        if isRoot \<and> i \<noteq> requesterUserId then Some (Http 403 MRootOnlySelf) else None)"

definition alive_user :: "(user_row \<Rightarrow> bool) \<Rightarrow> user_row \<Rightarrow> bool" where
  "alive_user P = alive usr_deletedAt [P]"

definition assertCanMutateUser :: "'w env \<Rightarrow> nat \<Rightarrow> nat \<Rightarrow> ('w, unit) io" where
  "assertCanMutateUser E requesterUserId targetUserId =
     bindM (select_from E users (alive_user (\<lambda>u. usr_id u = targetUserId))) (\<lambda>rs.
       case first rs of
         None \<Rightarrow> throwM (Http 404 MUserMissing)
       | Some u \<Rightarrow>
           (case assertAdministratorMutationAllowed requesterUserId (usr_id u, usr_isRoot u) of
              Some e \<Rightarrow> throwM e
            | None \<Rightarrow> returnM ()))"

section \<open>The service\<close>

record public_user =
  pu_id :: nat
  pu_username :: string
  pu_role :: string
  pu_isRoot :: bool
  pu_enabled :: bool
  pu_description :: "string option"
  pu_lastLoginAt :: "int option"
  pu_createdAt :: int

definition publicUserSelection :: "user_row \<Rightarrow> public_user" where
  "publicUserSelection u =
     \<lparr>pu_id = usr_id u, pu_username = usr_username u, pu_role = usr_role u, pu_isRoot = usr_isRoot u,
      pu_enabled = usr_enabled u, pu_description = usr_description u,
      pu_lastLoginAt = usr_lastLoginAt u, pu_createdAt = usr_createdAt u\<rparr>"

definition findByUsername :: "'w env \<Rightarrow> string \<Rightarrow> ('w, user_row option) io" where
  "findByUsername E username =
     bindM (select_from E users (alive_user (\<lambda>u. usr_username u = username))) (\<lambda>rs. returnM (first rs))"

record user_query =
  uq_username :: "string option"
  uq_role :: "string option"
  uq_enabled :: "string option"
  uq_page :: "int option"
  uq_pageSize :: "int option"

definition user_conditions :: "user_query \<Rightarrow> (user_row \<Rightarrow> bool) list" where
  "user_conditions q =
     compactConditions
       [likeIf (\<lambda>u. Some (usr_username u)) (uq_username q),
        likeIf (\<lambda>u. Some (usr_role u)) (uq_role q),
        (case uq_enabled q of
           None \<Rightarrow> None
         | Some e \<Rightarrow> if e = [] then None else Some (\<lambda>u. usr_enabled u = (e = ''enabled'')))]"

definition list_users :: "'w env \<Rightarrow> user_query \<Rightarrow> ('w, public_user paginated) io" where
  "list_users E q =
     (let whereClause = alive usr_deletedAt (user_conditions q) in
      paginate E users whereClause (uq_page q) (uq_pageSize q)
        (\<lambda>limit offset.
          bindM (select_page E users whereClause (\<lambda>u. - int (usr_id u)) limit offset)
            (\<lambda>us. returnM (map publicUserSelection us))))"

definition user_by_id :: "'w env \<Rightarrow> nat \<Rightarrow> ('w, public_user) io" where
  "user_by_id E userId =
     bindM (select_from E users (alive_user (\<lambda>u. usr_id u = userId))) (\<lambda>rs.
       case first rs of
         None \<Rightarrow> throwM (Http 404 MUserMissing)
       | Some u \<Rightarrow> returnM (publicUserSelection u))"

definition new_user :: "string \<Rightarrow> string \<Rightarrow> string option \<Rightarrow> string option \<Rightarrow> int \<Rightarrow> nat \<Rightarrow> user_row" where
  "new_user username hash role description now i =
     \<lparr>usr_id = i, usr_username = username, usr_passwordHash = hash, usr_role = or_default ''admin'' role,
      usr_isRoot = False, usr_enabled = True, usr_lastLoginAt = None, usr_description = description,
      usr_createdAt = now, usr_deletedAt = None\<rparr>"

definition create_user ::
  "'w env \<Rightarrow> scrypt \<Rightarrow> nat list \<Rightarrow> string \<Rightarrow> string \<Rightarrow> string option \<Rightarrow> string option \<Rightarrow>
   ('w, public_user option) io" where
  "create_user E scrypt salt username password role description =
     bindM (findByUsername E username) (\<lambda>existing.
       if existing \<noteq> None then throwM (Http 409 MUserExists)
       else (\<lambda>w. bindM (insert_into E users
                    (new_user username (hashPassword scrypt salt password) role description (pg_now E w)))
                  (\<lambda>rs. returnM (map_option publicUserSelection (first rs))) w))"

text \<open>An update of one live account, and what it returns.\<close>

definition patch_user :: "'w env \<Rightarrow> nat \<Rightarrow> (user_row \<Rightarrow> user_row) \<Rightarrow> ('w, user_row) io" where
  "patch_user E targetUserId f =
     bindM (update_table E users (alive_user (\<lambda>u. usr_id u = targetUserId)) f)
       (the_first_or (Http 404 MUserMissing))"

definition update_user :: "'w env \<Rightarrow> nat \<Rightarrow> nat \<Rightarrow> string \<Rightarrow> ('w, public_user) io" where
  "update_user E requesterUserId targetUserId description =
     thenM (assertCanMutateUser E requesterUserId targetUserId)
       (bindM (patch_user E targetUserId (\<lambda>u. u\<lparr>usr_description := Some description\<rparr>))
         (\<lambda>u. returnM (publicUserSelection u)))"

definition setPassword :: "'w env \<Rightarrow> scrypt \<Rightarrow> nat list \<Rightarrow> nat \<Rightarrow> nat \<Rightarrow> string \<Rightarrow> ('w, public_user) io" where
  "setPassword E scrypt salt requesterUserId targetUserId password =
     thenM (assertCanMutateUser E requesterUserId targetUserId)
       (bindM (patch_user E targetUserId (\<lambda>u. u\<lparr>usr_passwordHash := hashPassword scrypt salt password\<rparr>))
         (\<lambda>u. returnM (publicUserSelection u)))"

definition set_user_deleted :: "int option \<Rightarrow> user_row \<Rightarrow> user_row" where
  "set_user_deleted t u = u\<lparr>usr_deletedAt := t\<rparr>"

definition remove_user :: "'w env \<Rightarrow> nat \<Rightarrow> nat \<Rightarrow> ('w, bool) io" where
  "remove_user E requesterUserId targetUserId =
     thenM (assertCanMutateUser E requesterUserId targetUserId)
       (authorization_writeAndInvalidate E
         (bindM (softDelete E users usr_deletedAt set_user_deleted (\<lambda>u. usr_id u = targetUserId))
           (\<lambda>rs. if rs = [] then throwM (Http 404 MUserMissing) else returnM True))
         [targetUserId])"

definition updateLastLogin :: "'w env \<Rightarrow> nat \<Rightarrow> ('w, unit) io" where
  "updateLastLogin E userId w =
     ignore_rows (update_table E users (\<lambda>u. usr_id u = userId)
       (\<lambda>u. u\<lparr>usr_lastLoginAt := Some (now_ms E w)\<rparr>)) w"

definition user_setEnabled :: "'w env \<Rightarrow> nat \<Rightarrow> nat \<Rightarrow> bool \<Rightarrow> ('w, nat \<times> string \<times> bool) io" where
  "user_setEnabled E requesterUserId targetUserId enabled =
     thenM (assertCanMutateUser E requesterUserId targetUserId)
       (authorization_writeAndInvalidate E
         (bindM (patch_user E targetUserId (\<lambda>u. u\<lparr>usr_enabled := enabled\<rparr>))
           (\<lambda>u. returnM (usr_id u, usr_username u, usr_enabled u)))
         [targetUserId])"

section \<open>Passwords are recognised\<close>

lemma bytes_of_hex_of_bytes: "\<forall>b \<in> set bs. b < 256 \<Longrightarrow> bytes_of_hex (hex_of_bytes bs) = bs"
  by (induction bs) (simp_all add: hex_of_bytes_def hex_digit_value_hex_char less_mult_imp_div_less)

lemma hex_char_no_dollar: "d < 16 \<Longrightarrow> hex_char d \<noteq> CHR ''$''"
proof -
  have "hex_digit_value (CHR ''$'') = None" by code_simp
  then show "d < 16 \<Longrightarrow> hex_char d \<noteq> CHR ''$''"
    using hex_digit_value_hex_char [of d] by auto
qed

lemma hex_of_bytes_no_dollar: "\<forall>b \<in> set bs. b < 256 \<Longrightarrow> CHR ''$'' \<notin> set (hex_of_bytes bs)"
  using hex_char_no_dollar [symmetric]
  by (auto simp: hex_of_bytes_def less_mult_imp_div_less)

lemma hex_of_bytes_empty [simp]: "hex_of_bytes bs = [] \<longleftrightarrow> bs = []"
  by (cases bs) (simp_all add: hex_of_bytes_def)

lemma split_dollar_none: "CHR ''$'' \<notin> set s \<Longrightarrow> split_dollar s = [s]"
  by (induction s) auto

lemma split_dollar_first: "CHR ''$'' \<notin> set s \<Longrightarrow> split_dollar (s @ CHR ''$'' # t) = s # split_dollar t"
  by (induction s) auto

text \<open>
  a stored password recognises exactly the passwords that hash alike.  What \<^verbatim>\<open>verifyPassword\<close>
  says of a stored hash and a password is whether the password hashes, with the stored salt, to
  the stored bytes; so the right password is always accepted.
\<close>

theorem password_round_trip:
  assumes "\<forall>b \<in> set salt. b < 256" "salt \<noteq> []"
    and "\<forall>b \<in> set (scrypt p salt 64). b < 256" "length (scrypt p salt 64) = 64"
  shows "verifyPassword scrypt q (hashPassword scrypt salt p) \<longleftrightarrow> scrypt q salt 64 = scrypt p salt 64"
proof -
  have "scrypt p salt 64 \<noteq> []" using assms(4) by auto
  moreover have "split_dollar (hashPassword scrypt salt p) =
      [''scrypt'', hex_of_bytes salt, hex_of_bytes (scrypt p salt 64)]"
    using split_dollar_first [of "''scrypt''"] assms(1,3)
    by (simp add: hashPassword_def split_dollar_first split_dollar_none hex_of_bytes_no_dollar)
  ultimately show ?thesis
    using assms by (auto simp: verifyPassword_def js_index_def bytes_of_hex_of_bytes Let_def)
qed

definition example_scrypt :: scrypt where
  "example_scrypt p salt n = replicate n (length p + length salt)"

theorem password_round_trip_witness:
  "verifyPassword example_scrypt ''secret'' (hashPassword example_scrypt [1, 2] ''secret'') \<and>
   \<not> verifyPassword example_scrypt ''secrets'' (hashPassword example_scrypt [1, 2] ''secret'')"
  using password_round_trip [of "[1, 2]" example_scrypt "''secret''" "''secret''"]
    password_round_trip [of "[1, 2]" example_scrypt "''secret''" "''secrets''"]
  by (simp add: example_scrypt_def)

end
