(* ===== verification/Rbac.thy ===== *)
theory Rbac
  imports Users
begin

text \<open>
  \<^verbatim>\<open>application/rbac/rbac.service.ts\<close>: permission groups (roles), permissions, the relations
  between them and users, and the queries the authentication uses.  Whether an exception of a
  query carries a database code is up to the driver: the argument \<open>code_of\<close>.
\<close>

section \<open>Queries of the authentication\<close>

text \<open>The joins of \<^verbatim>\<open>getUserPermissions\<close>; \<^verbatim>\<open>selectDistinct\<close> drops duplicates.\<close>

definition alive_role :: "nat \<Rightarrow> role_row \<Rightarrow> bool" where
  "alive_role i = alive rol_deletedAt [\<lambda>r. rol_id r = i]"

definition alive_permission :: "nat \<Rightarrow> permission_row \<Rightarrow> bool" where
  "alive_permission i = alive prm_deletedAt [\<lambda>p. prm_id p = i]"

definition user_permissions :: "nat \<Rightarrow> row list \<Rightarrow> (string \<times> string) list" where
  "user_permissions userId rs =
     remdups [(prm_action p, prm_subject p).
       ur \<leftarrow> filter (\<lambda>ur. ur_userId ur = userId) (contents rs userRoles),
       r \<leftarrow> filter (alive_role (ur_roleId ur)) (contents rs roles),
       rp \<leftarrow> filter (\<lambda>rp. rp_roleId rp = ur_roleId ur) (contents rs rolePermissions),
       p \<leftarrow> filter (alive_permission (rp_permissionId rp)) (contents rs permissions)]"

definition getUserPermissions :: "'w env \<Rightarrow> nat \<Rightarrow> ('w, (string \<times> string) list) io" where
  "getUserPermissions E userId = db_query E (user_permissions userId)"

definition findAuthUser :: "'w env \<Rightarrow> nat \<Rightarrow> ('w, (nat \<times> bool \<times> bool) option) io" where
  "findAuthUser E userId =
     bindM (select_from E users (alive_user (\<lambda>u. usr_id u = userId)))
       (\<lambda>rs. returnM (map_option (\<lambda>u. (usr_id u, usr_isRoot u, usr_enabled u)) (first rs)))"

section \<open>Existence\<close>

definition assertRoleExists :: "'w env \<Rightarrow> nat \<Rightarrow> ('w, unit) io" where
  "assertRoleExists E roleId =
     bindM (select_from E roles (alive_role roleId))
       (\<lambda>rs. if first rs = None then throwM (Http 404 MRoleMissing) else returnM ())"

definition assertPermissionExists :: "'w env \<Rightarrow> nat \<Rightarrow> ('w, unit) io" where
  "assertPermissionExists E permissionId =
     bindM (select_from E permissions (alive_permission permissionId))
       (\<lambda>rs. if first rs = None then throwM (Http 404 MPermissionMissing) else returnM ())"

definition assertUserExists :: "'w env \<Rightarrow> nat \<Rightarrow> ('w, unit) io" where
  "assertUserExists E userId =
     bindM (select_from E users (alive_user (\<lambda>u. usr_id u = userId)))
       (\<lambda>rs. if first rs = None then throwM (Http 404 MUserMissing) else returnM ())"

section \<open>Members\<close>

definition role_members :: "nat \<Rightarrow> row list \<Rightarrow> nat list" where
  "role_members roleId rs =
     remdups (map ur_userId (filter (\<lambda>ur. ur_roleId ur = roleId) (contents rs userRoles)))"

definition listRoleMemberUserIds :: "'w env \<Rightarrow> nat \<Rightarrow> ('w, nat list) io" where
  "listRoleMemberUserIds E roleId = db_query E (role_members roleId)"

definition permission_holders :: "nat \<Rightarrow> row list \<Rightarrow> nat list" where
  "permission_holders permissionId rs =
     remdups [ur_userId ur. ur \<leftarrow> contents rs userRoles,
       rp \<leftarrow> filter (\<lambda>rp. ur_roleId ur = rp_roleId rp) (contents rs rolePermissions),
       rp_permissionId rp = permissionId]"

definition listPermissionHolderUserIds :: "'w env \<Rightarrow> nat \<Rightarrow> ('w, nat list) io" where
  "listPermissionHolderUserIds E permissionId = db_query E (permission_holders permissionId)"

section \<open>Permission groups\<close>

record permission_group =
  pgr_id :: nat
  pgr_name :: string
  pgr_description :: "string option"
  pgr_createdAt :: int
  pgr_permissions :: "permission_row list"

definition role_permission_records :: "nat list \<Rightarrow> row list \<Rightarrow> (nat \<times> permission_row) list" where
  "role_permission_records roleIds rs =
     sort_key fst (sort_key (\<lambda>x. prm_id (snd x))
       [(rp_roleId rp, p). rp \<leftarrow> filter (\<lambda>rp. rp_roleId rp \<in> set roleIds) (contents rs rolePermissions),
          p \<leftarrow> filter (alive_permission (rp_permissionId rp)) (contents rs permissions)])"

definition listRolePermissionRecords :: "'w env \<Rightarrow> nat list \<Rightarrow> ('w, (nat \<times> permission_row) list) io" where
  "listRolePermissionRecords E roleIds =
     (if roleIds = [] then returnM [] else db_query E (role_permission_records roleIds))"

definition append_permission ::
  "nat \<times> permission_row \<Rightarrow> (nat \<times> permission_row list) list \<Rightarrow> (nat \<times> permission_row list) list" where
  "append_permission x m =
     AList.update (fst x) (or_default [] (map_of m (fst x)) @ [snd x]) m"

definition with_permissions :: "(nat \<times> permission_row list) list \<Rightarrow> role_row \<Rightarrow> permission_group" where
  "with_permissions m r =
     \<lparr>pgr_id = rol_id r, pgr_name = rol_name r, pgr_description = rol_description r,
      pgr_createdAt = rol_createdAt r, pgr_permissions = or_default [] (map_of m (rol_id r))\<rparr>"

definition includePermissions :: "'w env \<Rightarrow> role_row list \<Rightarrow> ('w, permission_group list) io" where
  "includePermissions E roleRecords =
     bindM (listRolePermissionRecords E (map rol_id roleRecords)) (\<lambda>permissionRecords.
       returnM (map (with_permissions (fold append_permission permissionRecords [])) roleRecords))"

definition new_role :: "string \<Rightarrow> string option \<Rightarrow> int \<Rightarrow> nat \<Rightarrow> role_row" where
  "new_role name description now i =
     \<lparr>rol_id = i, rol_name = name, rol_description = description, rol_createdAt = now, rol_deletedAt = None\<rparr>"

definition createRole :: "'w env \<Rightarrow> string \<Rightarrow> string option \<Rightarrow> ('w, permission_group) io" where
  "createRole E name description w =
     bindM (insert_or_ignore E roles (new_role name description (pg_now E w))) (\<lambda>rs.
       case first rs of
         None \<Rightarrow> throwM (Http 409 MRoleExists)
       | Some r \<Rightarrow> returnM (with_permissions [] r)) w"

definition listRoleOptions :: "'w env \<Rightarrow> ('w, permission_group list) io" where
  "listRoleOptions E =
     bindM (select_from E roles (alive rol_deletedAt []))
       (\<lambda>rs. includePermissions E (sort_key rol_id rs))"

record role_query =
  rlq_name :: "string option"
  rlq_permission :: "string option"
  rlq_page :: "int option"
  rlq_pageSize :: "int option"

text \<open>\<^verbatim>\<open>action || '/' || subject ILIKE pattern\<close> on some live permission of the group.\<close>

definition holds_permission_like :: "row list \<Rightarrow> string \<Rightarrow> role_row \<Rightarrow> bool" where
  "holds_permission_like rs text r \<longleftrightarrow>
     list_ex (\<lambda>rp. rp_roleId rp = rol_id r \<and>
       list_ex (\<lambda>p. alive_permission (rp_permissionId rp) p \<and>
           ilike (prm_action p @ ''/'' @ prm_subject p) (containsPattern text)) (contents rs permissions))
       (contents rs rolePermissions)"

definition buildRoleConditions :: "role_query \<Rightarrow> row list \<Rightarrow> (role_row \<Rightarrow> bool) list" where
  "buildRoleConditions q rs =
     compactConditions
       [likeIf (\<lambda>r. Some (rol_name r)) (rlq_name q),
        (case rlq_permission q of
           None \<Rightarrow> None
         | Some t \<Rightarrow> if t = [] then None else Some (holds_permission_like rs t))]"

definition selected_roles :: "role_query \<Rightarrow> row list \<Rightarrow> role_row list" where
  "selected_roles q rs = filter (alive rol_deletedAt (buildRoleConditions q rs)) (contents rs roles)"

definition listRoles :: "'w env \<Rightarrow> role_query \<Rightarrow> ('w, permission_group paginated) io" where
  "listRoles E q =
     paginate_joined E (selected_roles q) (rlq_page q) (rlq_pageSize q)
       (\<lambda>limit offset.
          bindM (db_query E (\<lambda>rs. limit_offset limit offset (sort_key rol_id (selected_roles q rs))))
            (includePermissions E))"

text \<open>The values of an update: \<^verbatim>\<open>undefined\<close> leaves a column alone.\<close>

definition buildRoleUpdateValues ::
  "string option \<Rightarrow> string option \<Rightarrow> exn + (role_row \<Rightarrow> role_row)" where
  "buildRoleUpdateValues name description =
     (if name = None \<and> description = None then Inl (Http 400 MRoleNothingToUpdate)
      else Inr (\<lambda>r. r\<lparr>rol_name := or_default (rol_name r) name,
        rol_description := (if description = None then rol_description r else description)\<rparr>))"

definition hasDatabaseErrorCode :: "(exn \<Rightarrow> string option) \<Rightarrow> exn \<Rightarrow> string \<Rightarrow> bool" where
  "hasDatabaseErrorCode code_of e expected \<longleftrightarrow> code_of e = Some expected"

definition rethrowRoleUpdateError :: "(exn \<Rightarrow> string option) \<Rightarrow> exn \<Rightarrow> ('w, 'a) io" where
  "rethrowRoleUpdateError code_of e =
     (if hasDatabaseErrorCode code_of e ''23505'' then throwM (Http 409 MRoleExists) else throwM e)"

definition updateRole ::
  "'w env \<Rightarrow> (exn \<Rightarrow> string option) \<Rightarrow> nat \<Rightarrow> string option \<Rightarrow> string option \<Rightarrow> ('w, permission_group) io" where
  "updateRole E code_of roleId name description =
     (case buildRoleUpdateValues name description of
        Inl e \<Rightarrow> throwM e
      | Inr f \<Rightarrow>
          bindM (catchM (update_table E roles (alive_role roleId) f) (rethrowRoleUpdateError code_of)) (\<lambda>rs.
            case first rs of
              None \<Rightarrow> throwM (Http 404 MRoleMissing)
            | Some r \<Rightarrow> bindM (includePermissions E [r]) (\<lambda>gs. returnM (hd gs))))"

definition set_role_deleted :: "int option \<Rightarrow> role_row \<Rightarrow> role_row" where
  "set_role_deleted t r = r\<lparr>rol_deletedAt := t\<rparr>"

definition deleteRole :: "'w env \<Rightarrow> nat \<Rightarrow> ('w, bool) io" where
  "deleteRole E roleId =
     bindM (listRoleMemberUserIds E roleId) (\<lambda>affectedUserIds.
       authorization_writeAndInvalidate E
         (bindM (softDelete E roles rol_deletedAt set_role_deleted (\<lambda>r. rol_id r = roleId))
           (\<lambda>rs. if rs = [] then throwM (Http 404 MRoleMissing) else returnM True))
         affectedUserIds)"

section \<open>Permissions\<close>

definition new_permission :: "string \<Rightarrow> string \<Rightarrow> string option \<Rightarrow> nat \<Rightarrow> permission_row" where
  "new_permission action subject description i =
     \<lparr>prm_id = i, prm_action = action, prm_subject = subject, prm_description = description,
      prm_deletedAt = None\<rparr>"

definition createPermission ::
  "'w env \<Rightarrow> string \<Rightarrow> string \<Rightarrow> string option \<Rightarrow> ('w, permission_row) io" where
  "createPermission E action subject description =
     bindM (insert_or_ignore E permissions (new_permission action subject description))
       (the_first_or (Http 409 MPermissionExists))"

definition listPermissionOptions :: "'w env \<Rightarrow> ('w, permission_row list) io" where
  "listPermissionOptions E =
     bindM (select_from E permissions (alive prm_deletedAt [])) (\<lambda>rs. returnM (sort_key prm_id rs))"

record permission_query =
  pmq_action :: "string option"
  pmq_subject :: "string option"
  pmq_page :: "int option"
  pmq_pageSize :: "int option"

definition listPermissions :: "'w env \<Rightarrow> permission_query \<Rightarrow> ('w, permission_row paginated) io" where
  "listPermissions E q =
     (let whereClause = alive prm_deletedAt (compactConditions
            [likeIf (\<lambda>p. Some (prm_action p)) (pmq_action q),
             likeIf (\<lambda>p. Some (prm_subject p)) (pmq_subject q)]) in
      paginate E permissions whereClause (pmq_page q) (pmq_pageSize q)
        (select_page E permissions whereClause prm_id))"

definition set_permission_deleted :: "int option \<Rightarrow> permission_row \<Rightarrow> permission_row" where
  "set_permission_deleted t p = p\<lparr>prm_deletedAt := t\<rparr>"

definition deletePermission :: "'w env \<Rightarrow> nat \<Rightarrow> ('w, bool) io" where
  "deletePermission E permissionId =
     bindM (listPermissionHolderUserIds E permissionId) (\<lambda>affectedUserIds.
       authorization_writeAndInvalidate E
         (bindM (softDelete E permissions prm_deletedAt set_permission_deleted (\<lambda>p. prm_id p = permissionId))
           (\<lambda>rs. if rs = [] then throwM (Http 404 MPermissionMissing) else returnM True))
         affectedUserIds)"

section \<open>Relations\<close>

definition attachPermission :: "'w env \<Rightarrow> nat \<Rightarrow> nat \<Rightarrow> ('w, bool) io" where
  "attachPermission E roleId permissionId =
     thenM (assertRoleExists E roleId)
       (thenM (assertPermissionExists E permissionId)
         (bindM (listRoleMemberUserIds E roleId) (\<lambda>affectedUserIds.
           authorization_writeAndInvalidate E
             (bindM (insert_or_ignore E rolePermissions
                       (\<lambda>_. \<lparr>rp_roleId = roleId, rp_permissionId = permissionId, rp_description = None\<rparr>))
               (\<lambda>rs. if first rs = None then throwM (Http 409 MRoleHasPermission) else returnM True))
             affectedUserIds)))"

definition detachPermission :: "'w env \<Rightarrow> nat \<Rightarrow> nat \<Rightarrow> ('w, bool) io" where
  "detachPermission E roleId permissionId =
     bindM (listRoleMemberUserIds E roleId) (\<lambda>affectedUserIds.
       authorization_writeAndInvalidate E
         (bindM (delete_from E rolePermissions (\<lambda>x. rp_roleId x = roleId \<and> rp_permissionId x = permissionId))
           (\<lambda>rs. if first rs = None then throwM (Http 404 MRoleLacksPermission) else returnM True))
         affectedUserIds)"

definition listUserRoles :: "'w env \<Rightarrow> nat \<Rightarrow> ('w, permission_group list) io" where
  "listUserRoles E userId =
     thenM (assertUserExists E userId)
       (bindM (db_query E (\<lambda>rs. sort_key rol_id
                [r. ur \<leftarrow> filter (\<lambda>ur. ur_userId ur = userId) (contents rs userRoles),
                    r \<leftarrow> filter (alive_role (ur_roleId ur)) (contents rs roles)]))
         (includePermissions E))"

definition assignRole :: "'w env \<Rightarrow> nat \<Rightarrow> nat \<Rightarrow> nat \<Rightarrow> ('w, bool) io" where
  "assignRole E requesterUserId targetUserId roleId =
     thenM (assertCanMutateUser E requesterUserId targetUserId)
       (thenM (assertRoleExists E roleId)
         (authorization_writeAndInvalidate E
           (bindM (insert_or_ignore E userRoles
                     (\<lambda>_. \<lparr>ur_userId = targetUserId, ur_roleId = roleId, ur_description = None\<rparr>))
             (\<lambda>rs. if first rs = None then throwM (Http 409 MUserHasRole) else returnM True))
           [targetUserId]))"

definition unassignRole :: "'w env \<Rightarrow> nat \<Rightarrow> nat \<Rightarrow> nat \<Rightarrow> ('w, bool) io" where
  "unassignRole E requesterUserId targetUserId roleId =
     thenM (assertCanMutateUser E requesterUserId targetUserId)
       (authorization_writeAndInvalidate E
         (bindM (delete_from E userRoles (\<lambda>x. ur_userId x = targetUserId \<and> ur_roleId x = roleId))
           (\<lambda>rs. if first rs = None then throwM (Http 404 MUserLacksRole) else returnM True))
         [targetUserId])"

end
