(* ===== verification/Authentication.thy ===== *)
theory Authentication
  imports Rbac
begin

text \<open>
  Who may call a console handler: \<^verbatim>\<open>auth.service.ts\<close> (login), \<^verbatim>\<open>jwt.strategy.ts\<close> (from a verified
  token to the user of the request), \<^verbatim>\<open>permission.guard.ts\<close>, \<^verbatim>\<open>root.guard.ts\<close> and
  \<^verbatim>\<open>jwt-auth.guard.ts\<close>.  Signing and verifying tokens, and the ability check of CASL, are
  arguments.
\<close>

section \<open>Login\<close>

definition login ::
  "'w env \<Rightarrow> scrypt \<Rightarrow> (nat \<Rightarrow> string \<Rightarrow> ('w, string) io) \<Rightarrow> string \<Rightarrow> string \<Rightarrow>
   ('w, string \<times> nat \<times> string \<times> string) io" where
  "login E scrypt signAsync username password =
     bindM (findByUsername E username) (\<lambda>found.
       case found of
         None \<Rightarrow> throwM (Http 401 MBadCredentials)
       | Some u \<Rightarrow>
           if \<not> verifyPassword scrypt password (usr_passwordHash u) then throwM (Http 401 MBadCredentials)
           else if \<not> usr_enabled u then throwM (Http 403 MAccountDisabled)
           else bindM (signAsync (usr_id u) (usr_username u)) (\<lambda>t.
                thenM (ignoreM (updateLastLogin E (usr_id u)))
                  (returnM (t, usr_id u, usr_username u, usr_role u))))"

section \<open>From the token to the user\<close>

text \<open>The payload of a verified token; a missing claim is \<open>None\<close>.\<close>

record jwt_payload =
  jp_sub :: "json option"
  jp_username :: "json option"

record authenticated_user =
  au_id :: nat
  au_sub :: "json option"
  au_username :: "json option"
  au_permissions :: "(string \<times> string) list"
  au_isRoot :: bool

definition sub_number :: "jwt_payload \<Rightarrow> int option" where
  "sub_number payload = (case jp_sub payload of None \<Rightarrow> None | Some j \<Rightarrow> integer_of (to_number j))"

definition load_authorization :: "'w env \<Rightarrow> nat \<Rightarrow> ('w, authorization_snapshot) io" where
  "load_authorization E userId =
     bindM (findAuthUser E userId) (\<lambda>found.
       case found of
         None \<Rightarrow> throwM (Http 401 MAccountGone)
       | Some (i, isRoot, enabled) \<Rightarrow>
           if \<not> enabled then throwM (Http 403 MAccountDisabled)
           else bindM (getUserPermissions E userId) (\<lambda>ps.
             returnM \<lparr>as_isRoot = isRoot, as_enabled = enabled, as_permissions = ps\<rparr>))"

definition buildAuthenticatedUser ::
  "jwt_payload \<Rightarrow> nat \<Rightarrow> authorization_snapshot \<Rightarrow> ('w, authenticated_user) io" where
  "buildAuthenticatedUser payload userId authorization =
     (if \<not> as_enabled authorization then throwM (Http 403 MAccountDisabled)
      else returnM \<lparr>au_id = userId, au_sub = jp_sub payload, au_username = jp_username payload,
             au_permissions = as_permissions authorization, au_isRoot = as_isRoot authorization\<rparr>)"

definition jwt_validate :: "'w env \<Rightarrow> int \<Rightarrow> jwt_payload \<Rightarrow> ('w, authenticated_user) io" where
  "jwt_validate E ttl payload =
     (case sub_number payload of
        None \<Rightarrow> throwM (Http 401 MCredentialInvalid)
      | Some i \<Rightarrow>
          if i < 1 then throwM (Http 401 MCredentialInvalid)
          else bindM (authorization_getOrLoad E ttl (nat i) (load_authorization E (nat i)))
                 (buildAuthenticatedUser payload (nat i)))"

section \<open>The guards\<close>

text \<open>What a handler is marked with.\<close>

datatype requirement = IsPublic | AuthenticatedOnly | RequirePermission string string | Unmarked

definition permission_guard ::
  "((string \<times> string) list \<Rightarrow> string \<Rightarrow> string \<Rightarrow> bool) \<Rightarrow> requirement \<Rightarrow> authenticated_user option \<Rightarrow>
   exn + bool" where
  "permission_guard can required user =
     (case required of
        IsPublic \<Rightarrow> Inr True
      | AuthenticatedOnly \<Rightarrow> Inr (user \<noteq> None)
      | Unmarked \<Rightarrow> Inl (Http 403 MPermissionUndeclared)
      | RequirePermission action subject \<Rightarrow>
          if (case user of None \<Rightarrow> False | Some u \<Rightarrow> au_isRoot u) then Inr True
          else if \<not> can (case user of None \<Rightarrow> [] | Some u \<Rightarrow> au_permissions u) action subject
          then Inl (Http 403 (MPermissionDenied action subject))
          else Inr True)"

definition root_guard :: "authenticated_user option \<Rightarrow> exn + bool" where
  "root_guard user =
     (if \<not> (case user of None \<Rightarrow> False | Some u \<Rightarrow> au_isRoot u) then Inl (Http 403 MRootRequired) else Inr True)"

text \<open>
  The first global guard: \<open>verified\<close> is what the passport strategy makes of the request, the payload
  of a token with a good signature or nothing.  The user goes on the request.
\<close>

definition jwt_guard ::
  "'w env \<Rightarrow> int \<Rightarrow> requirement \<Rightarrow> jwt_payload option \<Rightarrow> ('w, authenticated_user option) io" where
  "jwt_guard E ttl required verified =
     (if required = IsPublic then returnM None
      else case verified of
             None \<Rightarrow> throwM (Http 401 (MText ''Unauthorized''))
           | Some payload \<Rightarrow> bindM (jwt_validate E ttl payload) (\<lambda>u. returnM (Some u)))"

end
