(* ===== verification/System_Audit.thy ===== *)
theory System_Audit
  imports Authentication Request_Logs
begin

text \<open>
  The audit of the console: \<^verbatim>\<open>system-audit-definition.ts\<close> (what a request that declares nothing is
  recorded as), \<^verbatim>\<open>system-audit-entry.ts\<close> (the entry), \<^verbatim>\<open>system-logs.service.ts\<close> (the table),
  \<^verbatim>\<open>system-audit.interceptor.ts\<close> around a handler and \<^verbatim>\<open>all-exceptions.filter.ts\<close> behind everything.
  Characters are 8 bits wide here, so the Chinese literals of the entries are the constructors of
  \<open>zh\<close>, and their texts an argument; so is the \<^verbatim>\<open>message\<close> of an exception.
\<close>

section \<open>The request\<close>

datatype header = OneValue string | ManyValues "string list"

record audited_user =
  adu_id :: nat
  adu_username :: "string option"

record http_request =
  rq_body :: "json option"
  rq_forwardedFor :: "header option"
  rq_userAgent :: "header option"
  rq_ip :: "string option"
  rq_method :: string
  rq_originalUrl :: string
  rq_params :: "(string \<times> string option) list"
  rq_query :: "(string \<times> json) list"
  rq_remoteAddress :: "string option"

text \<open>The texts of the sources: prefixes and labels of the inferred names, and the marker of a failure.\<close>

datatype zh =
    ZhRead | ZhExecute | ZhUpdate | ZhDelete
  | ZhAuth | ZhUsers | ZhProjects | ZhDevices | ZhRbac | ZhMonitor | ZhMetrics | ZhSystemLogs
  | ZhFailed | ZhLogin | ZhCreateUser | ZhUpdateUser | ZhSetPassword | ZhRemoveUser | ZhSetEnabled
  | ZhCreateRole | ZhUpdateRole | ZhDeleteRole | ZhCreatePermission | ZhDeletePermission
  | ZhAttach | ZhDetach | ZhAssign | ZhUnassign
  | ZhCreateAccessToken | ZhUpdateAccessToken | ZhUpdateAccessScope | ZhRevokeAccessToken
  | ZhResetUsage | ZhDeleteAccessToken
  | ZhCreateDeviceToken | ZhUpdateDeviceScope | ZhRevokeDeviceToken | ZhDeleteDeviceToken
  | ZhCreateProject | ZhDeleteProject | ZhSetProjectEnabled
  | ZhNamed string

record audit_definition =
  adf_name :: "zh list"
  adf_action :: string
  adf_subject :: string
  adf_targetType :: string
  adf_actorUsernameBodyField :: "string option"
  adf_actorUserIdResponsePath :: "string option"
  adf_actorUsernameResponsePath :: "string option"
  adf_targetParameter :: "string option"
  adf_targetNameField :: "string option"
  adf_targetResponseField :: "string option"
  adf_metadataParameters :: "string list"
  adf_metadataBodyFields :: "string list"
  adf_metadataQueryFields :: "string list"

definition zh_text :: "(zh \<Rightarrow> string) \<Rightarrow> zh list \<Rightarrow> string" where
  "zh_text zh zs = concat (map (\<lambda>z. case z of ZhNamed s \<Rightarrow> s | _ \<Rightarrow> zh z) zs)"

section \<open>The inferred definition\<close>

record audited_resource =
  ars_label :: zh
  ars_subject :: string
  ars_targetType :: string
  ars_safeQueryFields :: "string list"

definition PAGINATION_QUERY_FIELDS :: "string list" where
  "PAGINATION_QUERY_FIELDS = [''page'', ''pageSize'']"

definition resource :: "zh \<Rightarrow> string \<Rightarrow> string \<Rightarrow> string list \<Rightarrow> audited_resource" where
  "resource label subject targetType safeFields =
     \<lparr>ars_label = label, ars_subject = subject, ars_targetType = targetType, ars_safeQueryFields = safeFields\<rparr>"

text \<open>The own keys of the object; the names every object inherits (\<^verbatim>\<open>constructor\<close>, ...) are left out.\<close>

definition AUDITED_RESOURCES :: "(string \<times> audited_resource) list" where
  "AUDITED_RESOURCES =
     [(''auth'', resource ZhAuth ''auth'' ''authentication'' []),
      (''users'', resource ZhUsers ''user'' ''user'' []),
      (''projects'', resource ZhProjects ''project'' ''project'' []),
      (''devices'', resource ZhDevices ''device'' ''device'' []),
      (''access-tokens'', resource (ZhNamed ''Access Token'') ''access-token'' ''access-token'' []),
      (''device-tokens'', resource (ZhNamed ''Device Token'') ''device-token'' ''device-token'' []),
      (''rbac'', resource ZhRbac ''rbac'' ''rbac'' []),
      (''monitor'', resource ZhMonitor ''monitor'' ''request-log''
         [''project'', ''action'', ''clientId'', ''status'', ''payloadState'', ''minimumLatencyMs'',
          ''maximumLatencyMs'', ''from'', ''to'']),
      (''metrics'', resource ZhMetrics ''metrics'' ''metrics'' [''project'', ''days'']),
      (''system-logs'', resource ZhSystemLogs ''system-log'' ''system-log''
         [''name'', ''actorUsername'', ''action'', ''subject'', ''targetType'', ''targetName'', ''status'',
          ''from'', ''to''])]"

definition ACTION_BY_METHOD :: "(string \<times> string \<times> zh) list" where
  "ACTION_BY_METHOD =
     [(''GET'', ''read'', ZhRead), (''POST'', ''execute'', ZhExecute), (''PATCH'', ''update'', ZhUpdate),
      (''PUT'', ''update'', ZhUpdate), (''DELETE'', ''delete'', ZhDelete)]"

text \<open>\<^verbatim>\<open>s.split(c)\<close>.\<close>

fun split_on :: "char \<Rightarrow> string \<Rightarrow> string list" where
  "split_on d [] = [[]]"
| "split_on d (c # cs) =
     (if c = d then [] # split_on d cs
      else case split_on d cs of [] \<Rightarrow> [[c]] | x # xs \<Rightarrow> (c # x) # xs)"

definition path_of :: "string \<Rightarrow> string" where
  "path_of url = takeWhile (\<lambda>c. c \<noteq> CHR ''?'') url"

definition routeSegments :: "http_request \<Rightarrow> string list" where
  "routeSegments request = filter (\<lambda>s. 0 < length s) (split_on (CHR ''/'') (path_of (rq_originalUrl request)))"

definition auditedResourceOf :: "http_request \<Rightarrow> audited_resource option" where
  "auditedResourceOf request = first (List.map_filter (map_of AUDITED_RESOURCES) (routeSegments request))"

definition targetParameterOf :: "http_request \<Rightarrow> string option" where
  "targetParameterOf request = map_option fst (find (\<lambda>(k, v). v \<noteq> None) (rq_params request))"

definition upper_char :: "char \<Rightarrow> char" where
  "upper_char c = (let n = (of_char c :: nat) in if 97 \<le> n \<and> n \<le> 122 then char_of (n - 32) else c)"

definition inferSystemAuditDefinition :: "http_request \<Rightarrow> audit_definition option" where
  "inferSystemAuditDefinition request =
     (case (auditedResourceOf request, map_of ACTION_BY_METHOD (map upper_char (rq_method request))) of
        (Some r, Some (action, namePrefix)) \<Rightarrow>
          Some \<lparr>adf_name = [namePrefix, ars_label r], adf_action = action, adf_subject = ars_subject r,
            adf_targetType = ars_targetType r, adf_actorUsernameBodyField = None,
            adf_actorUserIdResponsePath = None, adf_actorUsernameResponsePath = None,
            adf_targetParameter = targetParameterOf request, adf_targetNameField = None,
            adf_targetResponseField = None, adf_metadataParameters = [], adf_metadataBodyFields = [],
            adf_metadataQueryFields =
              filter (\<lambda>f. f \<notin> set PAGINATION_QUERY_FIELDS \<and> map_of (rq_query request) f \<noteq> None)
                (ars_safeQueryFields r)\<rparr>
      | _ \<Rightarrow> None)"

section \<open>The entry\<close>

text \<open>\<^verbatim>\<open>readObjectField\<close>; the field names of the definitions are no names that objects inherit.\<close>

definition readObjectField :: "json option \<Rightarrow> string option \<Rightarrow> json option" where
  "readObjectField input fieldName =
     (case fieldName of
        None \<Rightarrow> None
      | Some f \<Rightarrow> if f = [] then None else (case input of None \<Rightarrow> None | Some j \<Rightarrow> field f j))"

fun readFields :: "json option \<Rightarrow> string list \<Rightarrow> json option" where
  "readFields current [] = current"
| "readFields current (f # fs) =
     (case readObjectField current (Some f) of None \<Rightarrow> None | Some v \<Rightarrow> readFields (Some v) fs)"

definition readObjectPath :: "json option \<Rightarrow> string option \<Rightarrow> json option" where
  "readObjectPath input fieldPath =
     (case fieldPath of
        None \<Rightarrow> None
      | Some p \<Rightarrow> if p = [] then None else readFields input (split_on (CHR ''.'') p))"

definition toIdentifier :: "json option \<Rightarrow> string option" where
  "toIdentifier input =
     (case input of
        Some (JStr s) \<Rightarrow> if 0 < length s then Some (take 128 s) else None
      | Some (JNum q) \<Rightarrow> Some (show_number q)
      | _ \<Rightarrow> None)"

fun safeMetadataValue :: "json \<Rightarrow> json option" where
  "safeMetadataValue (JStr s) = Some (JStr (take 512 s))"
| "safeMetadataValue (JNum q) = Some (JNum q)"
| "safeMetadataValue (JBool b) = Some (JBool b)"
| "safeMetadataValue JNull = Some JNull"
| "safeMetadataValue (JArr xs) =
     (let safeValues = filter (\<lambda>v. v \<noteq> None) (map safeMetadataValue xs) in
      if length safeValues = length xs then Some (JArr (map the safeValues)) else None)"
| "safeMetadataValue (JObj ps) = None"

text \<open>One loop of \<^verbatim>\<open>collectMetadata\<close>: the fields of one part of the request.\<close>

definition collect_fields :: "json option \<Rightarrow> string list \<Rightarrow> (string \<times> json) list \<Rightarrow> (string \<times> json) list" where
  "collect_fields input names metadata =
     fold (\<lambda>f m. case Option.bind (readObjectField input (Some f)) safeMetadataValue of
             None \<Rightarrow> m | Some v \<Rightarrow> AList.update f v m) names metadata"

definition params_object :: "http_request \<Rightarrow> json option" where
  "params_object request =
     Some (JObj (List.map_filter (\<lambda>(k, v). map_option (\<lambda>s. (k, JStr s)) v) (rq_params request)))"

definition query_object :: "http_request \<Rightarrow> json option" where
  "query_object request = Some (JObj (rq_query request))"

definition collectMetadata :: "audit_definition \<Rightarrow> http_request \<Rightarrow> (string \<times> json) list" where
  "collectMetadata definition request =
     collect_fields (query_object request) (adf_metadataQueryFields definition)
       (collect_fields (rq_body request) (adf_metadataBodyFields definition)
         (collect_fields (params_object request) (adf_metadataParameters definition) []))"

primrec joined :: "string \<Rightarrow> string list \<Rightarrow> string" where
  "joined sep [] = []"
| "joined sep (x # xs) = (if xs = [] then x else x @ sep @ joined sep xs)"

definition formatMetadata :: "(string \<times> json) list \<Rightarrow> string" where
  "formatMetadata metadata =
     (if metadata = [] then []
      else '' ('' @ joined '', '' (map (\<lambda>(k, v). k @ ''='' @ stringify v) metadata) @ '')'')"

definition buildDescription ::
  "(zh \<Rightarrow> string) \<Rightarrow> string \<Rightarrow> audit_definition \<Rightarrow> string option \<Rightarrow> string option \<Rightarrow>
   (string \<times> json) list \<Rightarrow> bool \<Rightarrow> string" where
  "buildDescription zh actorUsername definition targetId targetName metadata succeeded =
     (let target = (case targetName of None \<Rightarrow> targetId | Some n \<Rightarrow> Some n);
          targetText = (case target of None \<Rightarrow> [] | Some t \<Rightarrow> if t = [] then [] else '' '' @ t);
          statusText = (if succeeded then [] else '' ['' @ zh ZhFailed @ '']'') in
      take 1024 (actorUsername @ '' '' @ zh_text zh (adf_name definition) @ targetText @
        formatMetadata metadata @ statusText))"

text \<open>\<^verbatim>\<open>a ?? b\<close>.\<close>

definition or_else :: "'a option \<Rightarrow> 'a option \<Rightarrow> 'a option" where
  "or_else a b = (case a of None \<Rightarrow> b | Some x \<Rightarrow> Some x)"

definition forwardedAddress :: "http_request \<Rightarrow> string option" where
  "forwardedAddress request =
     (let forwardedValue = (case rq_forwardedFor request of
            None \<Rightarrow> None
          | Some (OneValue v) \<Rightarrow> Some v
          | Some (ManyValues vs) \<Rightarrow> first vs) in
      or_else (map_option (\<lambda>v. js_trim (takeWhile (\<lambda>c. c \<noteq> CHR '','') v)) forwardedValue)
        (or_else (rq_ip request) (rq_remoteAddress request)))"

definition resolveTargetId :: "audit_definition \<Rightarrow> http_request \<Rightarrow> json option \<Rightarrow> string option" where
  "resolveTargetId definition request responseBody =
     (let parameterValue = readObjectField (params_object request) (adf_targetParameter definition) in
      or_else (toIdentifier parameterValue)
        (toIdentifier (readObjectField responseBody (adf_targetResponseField definition))))"

definition resolveTargetName :: "audit_definition \<Rightarrow> http_request \<Rightarrow> json option \<Rightarrow> string option" where
  "resolveTargetName definition request responseBody =
     (let bodyValue = readObjectField (rq_body request) (adf_targetNameField definition) in
      or_else (toIdentifier bodyValue)
        (toIdentifier (readObjectField responseBody (adf_targetNameField definition))))"

definition userAgentOf :: "http_request \<Rightarrow> string option" where
  "userAgentOf request =
     (case rq_userAgent request of Some (OneValue s) \<Rightarrow> Some (take 512 s) | _ \<Rightarrow> None)"

definition actorIdentity ::
  "audit_definition \<Rightarrow> http_request \<Rightarrow> audited_user option \<Rightarrow> json option \<Rightarrow> nat \<times> string" where
  "actorIdentity definition request user responseBody =
     (let responseUserId = readObjectPath responseBody (adf_actorUserIdResponsePath definition);
          responseUsername = toIdentifier (readObjectPath responseBody (adf_actorUsernameResponsePath definition));
          bodyUsername = toIdentifier (readObjectField (rq_body request) (adf_actorUsernameBodyField definition)) in
      (case user of
         Some u \<Rightarrow> adu_id u
       | None \<Rightarrow>
           (case responseUserId of
              Some (JNum q) \<Rightarrow> (case integer_of (Finite q) of Some i \<Rightarrow> if 0 < i then nat i else 0 | None \<Rightarrow> 0)
            | _ \<Rightarrow> 0),
       or_default ''anonymous'' (or_else (Option.bind user adu_username) (or_else responseUsername bodyUsername))))"

text \<open>\<^verbatim>\<open>CreateSystemLogInput\<close>: the row without its key and time.\<close>

definition buildSystemAuditEntry ::
  "(zh \<Rightarrow> string) \<Rightarrow> audit_definition \<Rightarrow> http_request \<Rightarrow> audited_user option \<Rightarrow> json option \<Rightarrow> bool \<Rightarrow>
   nat \<Rightarrow> string option \<Rightarrow> int \<Rightarrow> nat \<Rightarrow> system_log_row" where
  "buildSystemAuditEntry zh definition request user responseBody succeeded statusCode errorMessage now i =
     (let targetId = resolveTargetId definition request responseBody;
          targetName = resolveTargetName definition request responseBody;
          metadata = collectMetadata definition request;
          actor = actorIdentity definition request user responseBody in
      \<lparr>sl_id = i, sl_name = zh_text zh (adf_name definition),
       sl_description = buildDescription zh (snd actor) definition targetId targetName metadata succeeded,
       sl_actorUserId = fst actor, sl_actorUsername = snd actor, sl_action = adf_action definition,
       sl_subject = adf_subject definition, sl_targetType = adf_targetType definition,
       sl_targetId = targetId, sl_targetName = targetName, sl_metadata = metadata,
       sl_method = rq_method request, sl_route = path_of (rq_originalUrl request),
       sl_status = (if succeeded then ''succeeded'' else ''failed''), sl_statusCode = statusCode,
       sl_errorMessage = map_option (take 1024) errorMessage, sl_ipAddress = forwardedAddress request,
       sl_userAgent = userAgentOf request, sl_createdAt = now\<rparr>)"

section \<open>The table of the audit\<close>

text \<open>The columns are bounded: the database refuses a value that does not fit.\<close>

definition system_log_fits :: "system_log_row \<Rightarrow> bool" where
  "system_log_fits x \<longleftrightarrow>
     text_fits 128 (Some (sl_name x)) \<and> text_fits 1024 (Some (sl_description x)) \<and>
     text_fits 64 (Some (sl_actorUsername x)) \<and> text_fits 64 (Some (sl_action x)) \<and>
     text_fits 64 (Some (sl_subject x)) \<and> text_fits 64 (Some (sl_targetType x)) \<and>
     text_fits 128 (sl_targetId x) \<and> text_fits 128 (sl_targetName x) \<and>
     text_fits 16 (Some (sl_method x)) \<and> text_fits 255 (Some (sl_route x)) \<and>
     text_fits 16 (Some (sl_status x)) \<and> text_fits 1024 (sl_errorMessage x) \<and>
     text_fits 64 (sl_ipAddress x) \<and> text_fits 512 (sl_userAgent x)"

text \<open>\<open>entry\<close> takes the time of the database and the key.\<close>

definition create_system_log :: "'w env \<Rightarrow> (int \<Rightarrow> nat \<Rightarrow> system_log_row) \<Rightarrow> ('w, unit) io" where
  "create_system_log E entry w =
     (if \<not> system_log_fits (entry 0 0) then throwM (PgError ''22001'') w
      else ignore_rows (insert_into E systemLogs (entry (pg_now E w))) w)"

record system_log_query =
  slq_name :: "string option"
  slq_actorUsername :: "string option"
  slq_action :: "string option"
  slq_subject :: "string option"
  slq_targetType :: "string option"
  slq_targetName :: "string option"
  slq_status :: "string option"
  slq_from :: "int option"
  slq_to :: "int option"
  slq_page :: "int option"
  slq_pageSize :: "int option"

definition system_log_conditions :: "system_log_query \<Rightarrow> (system_log_row \<Rightarrow> bool) list" where
  "system_log_conditions q =
     compactConditions
       [eqIf blank_string (\<lambda>x. Some (sl_name x)) (slq_name q),
        eqIf blank_string (\<lambda>x. Some (sl_actorUsername x)) (slq_actorUsername q),
        eqIf blank_string (\<lambda>x. Some (sl_action x)) (slq_action q),
        eqIf blank_string (\<lambda>x. Some (sl_subject x)) (slq_subject q),
        eqIf blank_string (\<lambda>x. Some (sl_targetType x)) (slq_targetType q),
        eqIf blank_string sl_targetName (slq_targetName q),
        eqIf blank_string (\<lambda>x. Some (sl_status x)) (slq_status q),
        gteIf (\<lambda>x. Some (sl_createdAt x)) (slq_from q),
        lteIf (\<lambda>x. Some (sl_createdAt x)) (slq_to q)]"

definition list_system_logs :: "'w env \<Rightarrow> system_log_query \<Rightarrow> ('w, system_log_row paginated) io" where
  "list_system_logs E q =
     (let whereClause = (\<lambda>x. list_all (\<lambda>c. c x) (system_log_conditions q)) in
      paginate E systemLogs whereClause (slq_page q) (slq_pageSize q)
        (select_page E systemLogs whereClause (\<lambda>x. (- sl_createdAt x, - int (sl_id x)))))"

section \<open>The interceptor and the filter\<close>

definition recordSafely :: "'w env \<Rightarrow> (int \<Rightarrow> nat \<Rightarrow> system_log_row) \<Rightarrow> ('w, unit) io" where
  "recordSafely E entry = catchM (create_system_log E entry) (\<lambda>_. returnM ())"

definition statusCodeOf :: "exn \<Rightarrow> nat" where
  "statusCodeOf e = (case e of Http n _ \<Rightarrow> n | _ \<Rightarrow> 500)"

text \<open>The texts of the program that entries quote: literals and exception messages.\<close>

record texts =
  tx_zh :: "zh \<Rightarrow> string"
  tx_error :: "exn \<Rightarrow> string"

text \<open>The definition a request is audited by.\<close>

definition audit_definition_of :: "audit_definition option \<Rightarrow> http_request \<Rightarrow> audit_definition option" where
  "audit_definition_of explicitDefinition request =
     or_else explicitDefinition (inferSystemAuditDefinition request)"

definition intercept ::
  "'w env \<Rightarrow> texts \<Rightarrow> audit_definition option \<Rightarrow> http_request \<Rightarrow> audited_user option \<Rightarrow> nat \<Rightarrow>
   ('w, json) io \<Rightarrow> ('w, json) io" where
  "intercept E tx explicitDefinition request user statusCode handle =
     (case audit_definition_of explicitDefinition request of
        None \<Rightarrow> handle
      | Some definition \<Rightarrow>
          (\<lambda>w. case handle w of
             (Inr responseBody, w1) \<Rightarrow>
               thenM (recordSafely E (buildSystemAuditEntry (tx_zh tx) definition request user
                       (Some responseBody) True statusCode None))
                 (returnM responseBody) w1
           | (Inl handlerError, w1) \<Rightarrow>
               thenM (recordSafely E (buildSystemAuditEntry (tx_zh tx) definition request user None False
                       (statusCodeOf handlerError) (Some (tx_error tx handlerError))))
                 (throwM handlerError) w1))"

text \<open>The reply the client sees: a body, or the exception the filter turned into a status.\<close>

datatype reply = Replied nat json | Refused nat exn

text \<open>\<open>recorded\<close> is the mark \<^verbatim>\<open>systemAuditRecorded\<close> on the request.\<close>

definition recordGuardOrRoutingFailure ::
  "'w env \<Rightarrow> texts \<Rightarrow> http_request \<Rightarrow> audited_user option \<Rightarrow> bool \<Rightarrow> exn \<Rightarrow> ('w, unit) io" where
  "recordGuardOrRoutingFailure E tx request user recorded e =
     (if recorded then returnM ()
      else case inferSystemAuditDefinition request of
             None \<Rightarrow> returnM ()
           | Some definition \<Rightarrow>
               recordSafely E (buildSystemAuditEntry (tx_zh tx) definition request user None False
                 (statusCodeOf e) (Some (tx_error tx e))))"

definition exceptions_filter ::
  "'w env \<Rightarrow> texts \<Rightarrow> http_request \<Rightarrow> audited_user option \<Rightarrow> bool \<Rightarrow> exn \<Rightarrow> ('w, reply) io" where
  "exceptions_filter E tx request user recorded e =
     thenM (recordGuardOrRoutingFailure E tx request user recorded e) (returnM (Refused (statusCodeOf e) e))"

end
