(* ===== verification/Console.thy ===== *)
theory Console
  imports System_Audit
begin

text \<open>
  The console's handlers for accounts and permission groups, from the request to the reply:
  \<^verbatim>\<open>auth.controller.ts\<close>, \<^verbatim>\<open>users.controller.ts\<close>, \<^verbatim>\<open>rbac.controller.ts\<close> with the bounds of their DTOs, behind
  the guards of \<^verbatim>\<open>app.module.ts\<close>, inside the audit interceptor and in front of the exceptions filter.
  A route is a constructor with its decoded parameters; the raw request is beside it, because the
  audit reads it.
\<close>

section \<open>Routes\<close>

datatype auth_route = Login string string | Me

datatype users_route =
    ListUsers user_query
  | FindUser nat
  | CreateUser string string "string option" "string option"
  | UpdateUser nat string
  | SetUserPassword nat string
  | RemoveUser nat
  | SetUserEnabled nat bool

datatype roles_route =
    CreateRole string "string option"
  | UpdateRole nat "string option" "string option"
  | ListRoles role_query
  | ListRoleOptions
  | DeleteRole nat

datatype permissions_route =
    CreatePermission string string "string option"
  | ListPermissions permission_query
  | ListPermissionOptions
  | DeletePermission nat

text \<open>The second argument of a relation can be given in the body or in the URL.\<close>

datatype argument_form = InBody | InUrl

datatype relations_route =
    AttachPermission argument_form nat nat
  | DetachPermission nat nat
  | ListUserRoles nat
  | AssignRole argument_form nat nat
  | UnassignRole nat nat

text \<open>
  What a controller says of a route: its permission, whether the root guard stands before it, what
  it is audited as, whether its body passes the DTO, and the handler, which gets the user's id.
\<close>

record 'w endpoint =
  ep_requirement :: requirement
  ep_rootOnly :: bool
  ep_audit :: "audit_definition option"
  ep_valid :: bool
  ep_handle :: "authenticated_user option \<Rightarrow> ('w, json) io"

definition audit_as :: "zh \<Rightarrow> string \<Rightarrow> string \<Rightarrow> string \<Rightarrow> audit_definition" where
  "audit_as name action subject targetType =
     \<lparr>adf_name = [name], adf_action = action, adf_subject = subject, adf_targetType = targetType,
      adf_actorUsernameBodyField = None, adf_actorUserIdResponsePath = None,
      adf_actorUsernameResponsePath = None, adf_targetParameter = None, adf_targetNameField = None,
      adf_targetResponseField = None, adf_metadataParameters = [], adf_metadataBodyFields = [],
      adf_metadataQueryFields = []\<rparr>"

text \<open>\<^verbatim>\<open>request.user!.id\<close>.\<close>

definition with_user :: "authenticated_user option \<Rightarrow> (nat \<Rightarrow> ('w, 'a) io) \<Rightarrow> ('w, 'a) io" where
  "with_user user f = (case user of None \<Rightarrow> throwM (TypeErr (MText ''undefined'')) | Some u \<Rightarrow> f (au_id u))"

section \<open>The bounds of the DTOs\<close>

definition length_between :: "nat \<Rightarrow> nat \<Rightarrow> string \<Rightarrow> bool" where
  "length_between lo hi s \<longleftrightarrow> lo \<le> length s \<and> length s \<le> hi"

definition optionally :: "('a \<Rightarrow> bool) \<Rightarrow> 'a option \<Rightarrow> bool" where
  "optionally P v = (case v of None \<Rightarrow> True | Some x \<Rightarrow> P x)"

definition login_dto :: "string \<Rightarrow> string \<Rightarrow> bool" where
  "login_dto username password \<longleftrightarrow> length username \<le> 64 \<and> length_between 6 128 password"

definition create_user_dto :: "string \<Rightarrow> string \<Rightarrow> string option \<Rightarrow> string option \<Rightarrow> bool" where
  "create_user_dto username password role description \<longleftrightarrow>
     length username \<le> 64 \<and> length_between 6 128 password \<and>
     optionally (\<lambda>r. r \<in> {''admin'', ''operator''}) role \<and> optionally (\<lambda>d. length d \<le> 255) description"

text \<open>\<^verbatim>\<open>PaginationQueryDto\<close>: the page is bounded too, so that the offset stays in range.\<close>

definition int_between :: "int \<Rightarrow> int \<Rightarrow> int \<Rightarrow> bool" where
  "int_between lo hi n \<longleftrightarrow> lo \<le> n \<and> n \<le> hi"

definition pagination_dto :: "int option \<Rightarrow> int option \<Rightarrow> bool" where
  "pagination_dto page pageSize \<longleftrightarrow>
     optionally (int_between 1 1000000) page \<and> optionally (int_between 1 100) pageSize"

definition query_users_dto :: "user_query \<Rightarrow> bool" where
  "query_users_dto q \<longleftrightarrow>
     pagination_dto (uq_page q) (uq_pageSize q) \<and>
     optionally (\<lambda>e. e \<in> {''enabled'', ''disabled''}) (uq_enabled q)"

definition update_user_dto :: "string \<Rightarrow> bool" where
  "update_user_dto description \<longleftrightarrow> length description \<le> 255"

definition update_password_dto :: "string \<Rightarrow> bool" where
  "update_password_dto password = length_between 6 128 password"

definition create_role_dto :: "string \<Rightarrow> string option \<Rightarrow> bool" where
  "create_role_dto name description \<longleftrightarrow>
     length_between 1 64 name \<and> optionally (\<lambda>d. length d \<le> 255) description"

definition update_role_dto :: "string option \<Rightarrow> string option \<Rightarrow> bool" where
  "update_role_dto name description \<longleftrightarrow>
     optionally (length_between 1 64) name \<and> optionally (\<lambda>d. length d \<le> 255) description"

definition create_permission_dto :: "string \<Rightarrow> string \<Rightarrow> string option \<Rightarrow> bool" where
  "create_permission_dto action subject description \<longleftrightarrow>
     length_between 1 64 action \<and> length_between 1 64 subject \<and>
     optionally (\<lambda>d. length d \<le> 255) description"

definition query_roles_dto :: "role_query \<Rightarrow> bool" where
  "query_roles_dto q = pagination_dto (rlq_page q) (rlq_pageSize q)"

definition query_permissions_dto :: "permission_query \<Rightarrow> bool" where
  "query_permissions_dto q = pagination_dto (pmq_page q) (pmq_pageSize q)"

definition positive_id_dto :: "nat \<Rightarrow> bool" where
  "positive_id_dto i \<longleftrightarrow> 1 \<le> i"

section \<open>Response bodies\<close>

text \<open>A \<^verbatim>\<open>Date\<close> is an object without fields of its own; its time stands for it.\<close>

definition date_json :: "int \<Rightarrow> json" where
  "date_json t = JObj [(''time'', JNum (of_int t))]"

definition null_or :: "('a \<Rightarrow> json) \<Rightarrow> 'a option \<Rightarrow> json" where
  "null_or f v = (case v of None \<Rightarrow> JNull | Some x \<Rightarrow> f x)"

definition public_user_json :: "public_user \<Rightarrow> json" where
  "public_user_json u = JObj
     [(''id'', JNum (of_nat (pu_id u))), (''username'', JStr (pu_username u)), (''role'', JStr (pu_role u)),
      (''isRoot'', JBool (pu_isRoot u)), (''enabled'', JBool (pu_enabled u)),
      (''description'', null_or JStr (pu_description u)), (''lastLoginAt'', null_or date_json (pu_lastLoginAt u)),
      (''createdAt'', date_json (pu_createdAt u))]"

definition permission_json :: "permission_row \<Rightarrow> json" where
  "permission_json p = JObj
     [(''id'', JNum (of_nat (prm_id p))), (''action'', JStr (prm_action p)), (''subject'', JStr (prm_subject p)),
      (''description'', null_or JStr (prm_description p))]"

definition permission_row_json :: "permission_row \<Rightarrow> json" where
  "permission_row_json p = JObj
     [(''id'', JNum (of_nat (prm_id p))), (''action'', JStr (prm_action p)), (''subject'', JStr (prm_subject p)),
      (''description'', null_or JStr (prm_description p)), (''deletedAt'', null_or date_json (prm_deletedAt p))]"

definition group_json :: "permission_group \<Rightarrow> json" where
  "group_json g = JObj
     [(''id'', JNum (of_nat (pgr_id g))), (''name'', JStr (pgr_name g)),
      (''description'', null_or JStr (pgr_description g)), (''createdAt'', date_json (pgr_createdAt g)),
      (''permissions'', JArr (map permission_json (pgr_permissions g)))]"

definition page_json :: "('a \<Rightarrow> json) \<Rightarrow> 'a paginated \<Rightarrow> json" where
  "page_json f p = JObj
     [(''rows'', JArr (map f (pg_rows p))), (''page'', JNum (of_int (pg_page p))),
      (''pageSize'', JNum (of_int (pg_pageSize p))), (''total'', JNum (of_int (pg_total p)))]"

text \<open>\<^verbatim>\<open>{deleted: true}\<close> and its like.\<close>

definition flag_json :: "string \<Rightarrow> bool \<Rightarrow> json" where
  "flag_json name b = JObj [(name, JBool b)]"

definition answer :: "('a \<Rightarrow> json) \<Rightarrow> ('w, 'a) io \<Rightarrow> ('w, json) io" where
  "answer f m = bindM m (\<lambda>x. returnM (f x))"

section \<open>The controllers\<close>

definition user_json :: "authenticated_user \<Rightarrow> json" where
  "user_json u = JObj
     ([(''id'', JNum (of_nat (au_id u)))] @
      (case au_sub u of None \<Rightarrow> [] | Some j \<Rightarrow> [(''sub'', j)]) @
      (case au_username u of None \<Rightarrow> [] | Some j \<Rightarrow> [(''username'', j)]) @
      [(''permissions'', JArr (map (\<lambda>(a, s). JObj [(''action'', JStr a), (''subject'', JStr s)]) (au_permissions u))),
       (''isRoot'', JBool (au_isRoot u))])"

definition login_json :: "string \<times> nat \<times> string \<times> string \<Rightarrow> json" where
  "login_json x =
     (case x of (t, i, username, role) \<Rightarrow>
        JObj [(''token'', JStr t),
          (''user'', JObj [(''id'', JNum (of_nat i)), (''username'', JStr username), (''role'', JStr role)])])"

definition auth_controller ::
  "'w env \<Rightarrow> scrypt \<Rightarrow> (nat \<Rightarrow> string \<Rightarrow> ('w, string) io) \<Rightarrow> auth_route \<Rightarrow> 'w endpoint" where
  "auth_controller E scrypt sign r =
     (case r of
        Login username password \<Rightarrow>
          \<lparr>ep_requirement = IsPublic, ep_rootOnly = False,
           ep_audit = Some ((audit_as ZhLogin ''login'' ''auth'' ''user'')
             \<lparr>adf_actorUsernameBodyField := Some ''username'', adf_actorUserIdResponsePath := Some ''user.id'',
              adf_actorUsernameResponsePath := Some ''user.username''\<rparr>),
           ep_valid = login_dto username password,
           ep_handle = (\<lambda>_. answer login_json (login E scrypt sign username password))\<rparr>
      | Me \<Rightarrow>
          \<lparr>ep_requirement = AuthenticatedOnly, ep_rootOnly = False, ep_audit = None, ep_valid = True,
           ep_handle = (\<lambda>user. returnM (null_or user_json user))\<rparr>)"

definition users_controller :: "'w env \<Rightarrow> scrypt \<Rightarrow> nat list \<Rightarrow> users_route \<Rightarrow> 'w endpoint" where
  "users_controller E scrypt salt r =
     (case r of
        ListUsers query \<Rightarrow>
          \<lparr>ep_requirement = RequirePermission ''read'' ''user'', ep_rootOnly = False, ep_audit = None,
           ep_valid = query_users_dto query,
           ep_handle = (\<lambda>_. answer (page_json public_user_json) (list_users E query))\<rparr>
      | FindUser userId \<Rightarrow>
          \<lparr>ep_requirement = RequirePermission ''read'' ''user'', ep_rootOnly = False, ep_audit = None,
           ep_valid = True, ep_handle = (\<lambda>_. answer public_user_json (user_by_id E userId))\<rparr>
      | CreateUser username password role description \<Rightarrow>
          \<lparr>ep_requirement = RequirePermission ''create'' ''user'', ep_rootOnly = False,
           ep_audit = Some ((audit_as ZhCreateUser ''create'' ''user'' ''user'')
             \<lparr>adf_targetNameField := Some ''username'', adf_targetResponseField := Some ''id'',
              adf_metadataBodyFields := [''role'']\<rparr>),
           ep_valid = create_user_dto username password role description,
           ep_handle = (\<lambda>_. answer (null_or public_user_json)
             (create_user E scrypt salt username password role description))\<rparr>
      | UpdateUser userId description \<Rightarrow>
          \<lparr>ep_requirement = RequirePermission ''update'' ''user'', ep_rootOnly = False,
           ep_audit = Some ((audit_as ZhUpdateUser ''update'' ''user'' ''user'')
             \<lparr>adf_targetParameter := Some ''id'', adf_targetNameField := Some ''username''\<rparr>),
           ep_valid = update_user_dto description,
           ep_handle = (\<lambda>user. with_user user (\<lambda>i. answer public_user_json (update_user E i userId description)))\<rparr>
      | SetUserPassword userId password \<Rightarrow>
          \<lparr>ep_requirement = RequirePermission ''update'' ''user'', ep_rootOnly = False,
           ep_audit = Some ((audit_as ZhSetPassword ''update-password'' ''user'' ''user'')
             \<lparr>adf_targetParameter := Some ''id'', adf_targetNameField := Some ''username''\<rparr>),
           ep_valid = update_password_dto password,
           ep_handle = (\<lambda>user. with_user user (\<lambda>i. answer public_user_json
             (setPassword E scrypt salt i userId password)))\<rparr>
      | RemoveUser userId \<Rightarrow>
          \<lparr>ep_requirement = RequirePermission ''delete'' ''user'', ep_rootOnly = False,
           ep_audit = Some ((audit_as ZhRemoveUser ''delete'' ''user'' ''user'')
             \<lparr>adf_targetParameter := Some ''id''\<rparr>),
           ep_valid = True,
           ep_handle = (\<lambda>user. with_user user (\<lambda>i. answer (flag_json ''deleted'') (remove_user E i userId)))\<rparr>
      | SetUserEnabled userId enabled \<Rightarrow>
          \<lparr>ep_requirement = RequirePermission ''update'' ''user'', ep_rootOnly = False,
           ep_audit = Some ((audit_as ZhSetEnabled ''set-enabled'' ''user'' ''user'')
             \<lparr>adf_targetParameter := Some ''id'', adf_targetNameField := Some ''username'',
              adf_metadataBodyFields := [''enabled'']\<rparr>),
           ep_valid = True,
           ep_handle = (\<lambda>user. with_user user (\<lambda>i. answer
             (\<lambda>(j, username, e). JObj [(''id'', JNum (of_nat j)), (''username'', JStr username), (''enabled'', JBool e)])
             (user_setEnabled E i userId enabled)))\<rparr>)"

text \<open>\<^verbatim>\<open>@UseGuards(RootGuard) @RequirePermission('manage', 'rbac')\<close>, and \<^verbatim>\<open>@RequirePermission('read', 'rbac')\<close>.\<close>

definition root_managed :: "audit_definition \<Rightarrow> bool \<Rightarrow> (authenticated_user option \<Rightarrow> ('w, json) io) \<Rightarrow> 'w endpoint" where
  "root_managed audit valid handle =
     \<lparr>ep_requirement = RequirePermission ''manage'' ''rbac'', ep_rootOnly = True, ep_audit = Some audit,
      ep_valid = valid, ep_handle = handle\<rparr>"

definition rbac_reading :: "bool \<Rightarrow> ('w, json) io \<Rightarrow> 'w endpoint" where
  "rbac_reading valid m =
     \<lparr>ep_requirement = RequirePermission ''read'' ''rbac'', ep_rootOnly = False, ep_audit = None,
      ep_valid = valid, ep_handle = (\<lambda>_. m)\<rparr>"

definition roles_controller :: "'w env \<Rightarrow> (exn \<Rightarrow> string option) \<Rightarrow> roles_route \<Rightarrow> 'w endpoint" where
  "roles_controller E code_of r =
     (case r of
        CreateRole name description \<Rightarrow>
          root_managed ((audit_as ZhCreateRole ''create'' ''rbac-role'' ''permission-group'')
              \<lparr>adf_targetNameField := Some ''name'', adf_targetResponseField := Some ''id''\<rparr>)
            (create_role_dto name description) (\<lambda>_. answer group_json (createRole E name description))
      | UpdateRole roleId name description \<Rightarrow>
          root_managed ((audit_as ZhUpdateRole ''update'' ''rbac-role'' ''permission-group'')
              \<lparr>adf_targetParameter := Some ''id'', adf_targetNameField := Some ''name''\<rparr>)
            (update_role_dto name description)
            (\<lambda>_. answer group_json (updateRole E code_of roleId name description))
      | ListRoles query \<Rightarrow> rbac_reading (query_roles_dto query) (answer (page_json group_json) (listRoles E query))
      | ListRoleOptions \<Rightarrow> rbac_reading True (answer (\<lambda>gs. JArr (map group_json gs)) (listRoleOptions E))
      | DeleteRole roleId \<Rightarrow>
          root_managed ((audit_as ZhDeleteRole ''delete'' ''rbac-role'' ''permission-group'')
              \<lparr>adf_targetParameter := Some ''id''\<rparr>)
            True (\<lambda>_. answer (flag_json ''deleted'') (deleteRole E roleId)))"

definition permissions_controller :: "'w env \<Rightarrow> permissions_route \<Rightarrow> 'w endpoint" where
  "permissions_controller E r =
     (case r of
        CreatePermission action subject description \<Rightarrow>
          root_managed ((audit_as ZhCreatePermission ''create'' ''rbac-permission'' ''permission'')
              \<lparr>adf_targetResponseField := Some ''id'', adf_metadataBodyFields := [''action'', ''subject'']\<rparr>)
            (create_permission_dto action subject description)
            (\<lambda>_. answer permission_row_json (createPermission E action subject description))
      | ListPermissions query \<Rightarrow> rbac_reading (query_permissions_dto query) (answer (page_json permission_row_json) (listPermissions E query))
      | ListPermissionOptions \<Rightarrow>
          rbac_reading True (answer (\<lambda>ps. JArr (map permission_row_json ps)) (listPermissionOptions E))
      | DeletePermission permissionId \<Rightarrow>
          root_managed ((audit_as ZhDeletePermission ''delete'' ''rbac-permission'' ''permission'')
              \<lparr>adf_targetParameter := Some ''id''\<rparr>)
            True (\<lambda>_. answer (flag_json ''deleted'') (deletePermission E permissionId)))"

text \<open>The argument is audited from where it was given.\<close>

definition relation_audit :: "argument_form \<Rightarrow> string \<Rightarrow> audit_definition \<Rightarrow> audit_definition" where
  "relation_audit form argument d =
     (case form of
        InBody \<Rightarrow> d\<lparr>adf_metadataBodyFields := [argument]\<rparr>
      | InUrl \<Rightarrow> d\<lparr>adf_metadataParameters := [argument]\<rparr>)"

definition relations_controller :: "'w env \<Rightarrow> relations_route \<Rightarrow> 'w endpoint" where
  "relations_controller E r =
     (case r of
        AttachPermission form roleId permissionId \<Rightarrow>
          root_managed (relation_audit form ''permissionId''
              ((audit_as ZhAttach ''attach-permission'' ''rbac-role'' ''permission-group'')
                \<lparr>adf_targetParameter := Some ''roleId''\<rparr>))
            (form = InBody \<longrightarrow> positive_id_dto permissionId)
            (\<lambda>_. answer (flag_json ''attached'') (attachPermission E roleId permissionId))
      | DetachPermission roleId permissionId \<Rightarrow>
          root_managed (relation_audit InUrl ''permissionId''
              ((audit_as ZhDetach ''detach-permission'' ''rbac-role'' ''permission-group'')
                \<lparr>adf_targetParameter := Some ''roleId''\<rparr>))
            True (\<lambda>_. answer (flag_json ''detached'') (detachPermission E roleId permissionId))
      | ListUserRoles userId \<Rightarrow>
          rbac_reading True (answer (\<lambda>gs. JArr (map group_json gs)) (listUserRoles E userId))
      | AssignRole form userId roleId \<Rightarrow>
          root_managed (relation_audit form ''roleId''
              ((audit_as ZhAssign ''assign-role'' ''rbac-user-role'' ''user'')
                \<lparr>adf_targetParameter := Some ''userId''\<rparr>))
            (form = InBody \<longrightarrow> positive_id_dto roleId)
            (\<lambda>user. with_user user (\<lambda>i. answer (flag_json ''assigned'') (assignRole E i userId roleId)))
      | UnassignRole userId roleId \<Rightarrow>
          root_managed (relation_audit InUrl ''roleId''
              ((audit_as ZhUnassign ''unassign-role'' ''rbac-user-role'' ''user'')
                \<lparr>adf_targetParameter := Some ''userId''\<rparr>))
            True (\<lambda>user. with_user user (\<lambda>i. answer (flag_json ''unassigned'') (unassignRole E i userId roleId))))"

definition system_log_json :: "system_log_row \<Rightarrow> json" where
  "system_log_json x = JObj
     [(''id'', JNum (of_nat (sl_id x))), (''name'', JStr (sl_name x)), (''description'', JStr (sl_description x)),
      (''actorUserId'', JNum (of_nat (sl_actorUserId x))), (''actorUsername'', JStr (sl_actorUsername x)),
      (''action'', JStr (sl_action x)), (''subject'', JStr (sl_subject x)), (''targetType'', JStr (sl_targetType x)),
      (''targetId'', null_or JStr (sl_targetId x)), (''targetName'', null_or JStr (sl_targetName x)),
      (''metadata'', JObj (sl_metadata x)), (''method'', JStr (sl_method x)), (''route'', JStr (sl_route x)),
      (''status'', JStr (sl_status x)), (''statusCode'', JNum (of_nat (sl_statusCode x))),
      (''errorMessage'', null_or JStr (sl_errorMessage x)), (''ipAddress'', null_or JStr (sl_ipAddress x)),
      (''userAgent'', null_or JStr (sl_userAgent x)), (''createdAt'', date_json (sl_createdAt x))]"

definition query_system_logs_dto :: "system_log_query \<Rightarrow> bool" where
  "query_system_logs_dto q \<longleftrightarrow>
     pagination_dto (slq_page q) (slq_pageSize q) \<and>
     optionally (\<lambda>e. e \<in> {''succeeded'', ''failed''}) (slq_status q)"

definition system_logs_controller :: "'w env \<Rightarrow> system_log_query \<Rightarrow> 'w endpoint" where
  "system_logs_controller E query =
     \<lparr>ep_requirement = RequirePermission ''read'' ''system-log'', ep_rootOnly = False, ep_audit = None,
      ep_valid = query_system_logs_dto query,
      ep_handle = (\<lambda>_. answer (page_json system_log_json) (list_system_logs E query))\<rparr>"

section \<open>From the request to the reply\<close>

datatype route =
    AuthRoute auth_route
  | UsersRoute users_route
  | RolesRoute roles_route
  | PermissionsRoute permissions_route
  | RelationsRoute relations_route
  | SystemLogsRoute system_log_query

text \<open>The libraries and the configuration the handlers use.\<close>

record 'w console =
  cs_ttl :: int
  cs_can :: "(string \<times> string) list \<Rightarrow> string \<Rightarrow> string \<Rightarrow> bool"
  cs_scrypt :: scrypt
  cs_sign :: "nat \<Rightarrow> string \<Rightarrow> ('w, string) io"
  cs_code_of :: "exn \<Rightarrow> string option"
  cs_texts :: texts

definition endpoint_of :: "'w env \<Rightarrow> 'w console \<Rightarrow> nat list \<Rightarrow> route \<Rightarrow> 'w endpoint" where
  "endpoint_of E C salt r =
     (case r of
        AuthRoute x \<Rightarrow> auth_controller E (cs_scrypt C) (cs_sign C) x
      | UsersRoute x \<Rightarrow> users_controller E (cs_scrypt C) salt x
      | RolesRoute x \<Rightarrow> roles_controller E (cs_code_of C) x
      | PermissionsRoute x \<Rightarrow> permissions_controller E x
      | RelationsRoute x \<Rightarrow> relations_controller E x
      | SystemLogsRoute x \<Rightarrow> system_logs_controller E x)"

text \<open>The permission guard of the application, then the guard of the route.\<close>

definition permission_guards ::
  "((string \<times> string) list \<Rightarrow> string \<Rightarrow> string \<Rightarrow> bool) \<Rightarrow> 'w endpoint \<Rightarrow> authenticated_user option \<Rightarrow> exn option" where
  "permission_guards can ep user =
     (case permission_guard can (ep_requirement ep) user of
        Inl e \<Rightarrow> Some e
      | Inr ok \<Rightarrow>
          if \<not> ok then Some (Http 403 (MText ''Forbidden resource''))
          else if ep_rootOnly ep then (case root_guard user of Inl e \<Rightarrow> Some e | Inr _ \<Rightarrow> None)
          else None)"

definition audited_user_of :: "authenticated_user \<Rightarrow> audited_user" where
  "audited_user_of u =
     \<lparr>adu_id = au_id u, adu_username = (case au_username u of Some (JStr s) \<Rightarrow> Some s | _ \<Rightarrow> None)\<rparr>"

definition success_status :: "http_request \<Rightarrow> nat" where
  "success_status request = (if rq_method request = ''POST'' then 201 else 200)"

definition handle_route :: "'w endpoint \<Rightarrow> authenticated_user option \<Rightarrow> ('w, json) io" where
  "handle_route ep user =
     (if ep_valid ep then ep_handle ep user else throwM (Http 400 (MText ''Bad Request Exception'')))"

definition serve ::
  "'w env \<Rightarrow> 'w console \<Rightarrow> http_request \<Rightarrow> 'w endpoint \<Rightarrow> jwt_payload option \<Rightarrow> ('w, reply) io" where
  "serve E C request ep verified w =
     (case jwt_guard E (cs_ttl C) (ep_requirement ep) verified w of
        (Inl e, w1) \<Rightarrow> exceptions_filter E (cs_texts C) request None False e w1
      | (Inr user, w1) \<Rightarrow>
          let actor = map_option audited_user_of user in
          (case permission_guards (cs_can C) ep user of
             Some e \<Rightarrow> exceptions_filter E (cs_texts C) request actor False e w1
           | None \<Rightarrow>
               (case intercept E (cs_texts C) (ep_audit ep) request actor (success_status request)
                       (handle_route ep user) w1 of
                  (Inl e, w2) \<Rightarrow>
                    exceptions_filter E (cs_texts C) request actor
                      (audit_definition_of (ep_audit ep) request \<noteq> None) e w2
                | (Inr body, w2) \<Rightarrow> (Inr (Replied (success_status request) body), w2))))"

end
