(* ===== verification/Audit_Trail.thy ===== *)
theory Audit_Trail
  imports Console
begin

text \<open>
  What the audit of the console promises: an entry shows only what its definition names, every
  request on an audited resource leaves exactly one entry that says how it ended, and when it
  does not.
\<close>

section \<open>An entry shows what its definition names\<close>

definition body_fields :: "audit_definition \<Rightarrow> string set" where
  "body_fields d = set (adf_metadataBodyFields d) \<union> set_option (adf_targetNameField d) \<union>
     set_option (adf_actorUsernameBodyField d)"

lemma collect_fields_same:
  assumes "\<And>f. f \<in> set names \<Longrightarrow> readObjectField a (Some f) = readObjectField b (Some f)"
  shows "collect_fields a names m = collect_fields b names m"
  unfolding collect_fields_def using assms by (intro fold_cong) simp_all

lemma readObjectField_same:
  assumes "\<And>f. v = Some f \<Longrightarrow> readObjectField a (Some f) = readObjectField b (Some f)"
  shows "readObjectField a v = readObjectField b v"
  using assms by (cases v) (simp_all add: readObjectField_def)

lemma entry_same:
  assumes "\<And>f. f \<in> body_fields d \<Longrightarrow> readObjectField (rq_body r) (Some f) = readObjectField b (Some f)"
    and "readObjectField resp (adf_targetResponseField d) = readObjectField resp' (adf_targetResponseField d)"
    and "readObjectField resp (adf_targetNameField d) = readObjectField resp' (adf_targetNameField d)"
    and "readObjectPath resp (adf_actorUserIdResponsePath d) = readObjectPath resp' (adf_actorUserIdResponsePath d)"
    and "readObjectPath resp (adf_actorUsernameResponsePath d) =
      readObjectPath resp' (adf_actorUsernameResponsePath d)"
  shows "buildSystemAuditEntry zh d (r\<lparr>rq_body := b\<rparr>) u resp' ok sc err =
    buildSystemAuditEntry zh d r u resp ok sc err"
proof -
  have f: "readObjectField (rq_body r) (adf_targetNameField d) = readObjectField b (adf_targetNameField d)"
    "readObjectField (rq_body r) (adf_actorUsernameBodyField d) = readObjectField b (adf_actorUsernameBodyField d)"
    by (rule readObjectField_same; rule assms(1); simp add: body_fields_def)+
  have "collectMetadata d (r\<lparr>rq_body := b\<rparr>) = collectMetadata d r"
    using collect_fields_same [of "adf_metadataBodyFields d" "rq_body r" b] assms(1)
    by (simp add: collectMetadata_def query_object_def params_object_def body_fields_def)
  moreover have "resolveTargetId d (r\<lparr>rq_body := b\<rparr>) resp' = resolveTargetId d r resp"
    using assms(2) by (simp add: resolveTargetId_def params_object_def)
  moreover have "resolveTargetName d (r\<lparr>rq_body := b\<rparr>) resp' = resolveTargetName d r resp"
    using assms(3) f(1) by (simp add: resolveTargetName_def)
  moreover have "actorIdentity d (r\<lparr>rq_body := b\<rparr>) u resp' = actorIdentity d r u resp"
    using assms(4,5) f(2) by (simp add: actorIdentity_def)
  moreover have "forwardedAddress (r\<lparr>rq_body := b\<rparr>) = forwardedAddress r" "userAgentOf (r\<lparr>rq_body := b\<rparr>) = userAgentOf r"
    by (simp_all add: forwardedAddress_def userAgentOf_def)
  ultimately show ?thesis by (simp add: buildSystemAuditEntry_def fun_eq_iff Let_def)
qed

text \<open>The members of an object, with the password replaced.\<close>

definition with_password :: "json \<Rightarrow> (string \<times> json) list \<Rightarrow> (string \<times> json) list" where
  "with_password p members = map (\<lambda>(k, v). if k = ''password'' then (k, p) else (k, v)) members"

lemma field_with_password:
  assumes "f \<noteq> ''password''"
  shows "readObjectField (Some (JObj (with_password p members))) (Some f) =
    readObjectField (Some (JObj members)) (Some f)"
proof -
  have "map_of (rev (with_password p members)) f = map_of (rev members) f"
    using assms by (induction members) (auto simp: with_password_def map_add_def split: option.splits)
  then show ?thesis by (simp add: readObjectField_def field_def)
qed

text \<open>No definition of the console names the password, and the inferred ones name nothing of the body.\<close>

lemma inferred_fields:
  assumes "inferSystemAuditDefinition r = Some d"
  shows "body_fields d = {}" "adf_targetResponseField d = None" "adf_targetNameField d = None"
    "adf_actorUserIdResponsePath d = None" "adf_actorUsernameResponsePath d = None"
  using assms by (auto simp: inferSystemAuditDefinition_def body_fields_def split: option.splits prod.splits)

lemma audit_as_sel [simp]:
  "adf_actorUsernameBodyField (audit_as n a s t) = None" "adf_actorUserIdResponsePath (audit_as n a s t) = None"
  "adf_actorUsernameResponsePath (audit_as n a s t) = None" "adf_targetNameField (audit_as n a s t) = None"
  "adf_targetResponseField (audit_as n a s t) = None" "adf_metadataBodyFields (audit_as n a s t) = []"
  by (simp_all add: audit_as_def)

lemma relation_audit_sel [simp]:
  "adf_actorUsernameBodyField (relation_audit f x d) = adf_actorUsernameBodyField d"
  "adf_actorUserIdResponsePath (relation_audit f x d) = adf_actorUserIdResponsePath d"
  "adf_actorUsernameResponsePath (relation_audit f x d) = adf_actorUsernameResponsePath d"
  "adf_targetNameField (relation_audit f x d) = adf_targetNameField d"
  "adf_targetResponseField (relation_audit f x d) = adf_targetResponseField d"
  "adf_metadataBodyFields (relation_audit f x d) = (case f of InBody \<Rightarrow> [x] | InUrl \<Rightarrow> adf_metadataBodyFields d)"
  by (simp_all add: relation_audit_def split: argument_form.splits)

lemma endpoint_sel [simp]:
  "ep_audit (root_managed a v h) = Some a" "ep_audit (rbac_reading v m) = None"
  "ep_handle (root_managed a v h) = h" "ep_handle (rbac_reading v m) = (\<lambda>_. m)"
  "ep_requirement (root_managed a v h) = RequirePermission ''manage'' ''rbac''" "ep_rootOnly (root_managed a v h)"
  "ep_requirement (rbac_reading v m) = RequirePermission ''read'' ''rbac''" "\<not> ep_rootOnly (rbac_reading v m)"
  by (simp_all add: root_managed_def rbac_reading_def)

lemmas controller_defs =
  endpoint_of_def auth_controller_def users_controller_def roles_controller_def permissions_controller_def
  relations_controller_def system_logs_controller_def

lemma password_not_named:
  assumes "ep_audit (endpoint_of E C salt route) = Some d"
  shows "''password'' \<notin> body_fields d"
  using assms
  by (cases route)
    (auto simp: controller_defs body_fields_def
      split: auth_route.splits users_route.splits roles_route.splits permissions_route.splits
        relations_route.splits argument_form.splits)

lemma login_entry_hides_token:
  assumes "audit_definition_of (ep_audit (endpoint_of E C salt (AuthRoute (Login name password)))) request = Some d"
  shows "buildSystemAuditEntry zh d request u (Some (login_json (token, i, n, role))) ok sc err =
    buildSystemAuditEntry zh d request u (Some (login_json (token', i, n, role))) ok sc err"
proof -
  have d: "adf_targetResponseField d = None" "adf_targetNameField d = None"
    "adf_actorUserIdResponsePath d = Some ''user.id''" "adf_actorUsernameResponsePath d = Some ''user.username''"
    using assms by (auto simp: audit_definition_of_def or_else_def endpoint_of_def auth_controller_def audit_as_def)
  have paths: "split_on (CHR ''.'') ''user.id'' = [''user'', ''id'']"
    "split_on (CHR ''.'') ''user.username'' = [''user'', ''username'']" by simp_all
  have same: "readObjectField (Some (login_json (token, i, n, role))) (Some ''user'') =
      readObjectField (Some (login_json (token', i, n, role))) (Some ''user'')"
    by (simp add: readObjectField_def login_json_def field_def)
  have "buildSystemAuditEntry zh d (request\<lparr>rq_body := rq_body request\<rparr>) u
      (Some (login_json (token, i, n, role))) ok sc err =
    buildSystemAuditEntry zh d request u (Some (login_json (token', i, n, role))) ok sc err"
    by (rule entry_same) (simp_all add: d readObjectPath_def paths same, simp_all add: readObjectField_def)
  then show ?thesis by simp
qed


definition example_texts :: texts where
  "example_texts = \<lparr>tx_zh = (\<lambda>z. if z = ZhFailed then ''failed'' else ''text''), tx_error = (\<lambda>_. ''error'')\<rparr>"

definition example_console :: "sim console" where
  "example_console =
     \<lparr>cs_ttl = 60, cs_can = (\<lambda>ps a s. \<exists>x \<in> set ps. (fst x = a \<or> fst x = ''manage'') \<and> (snd x = s \<or> snd x = ''all'')),
      cs_scrypt = example_scrypt, cs_sign = (\<lambda>_ _. returnM ''token''), cs_code_of = (\<lambda>_. None),
      cs_texts = example_texts\<rparr>"

definition example_login :: http_request where
  "example_login =
     \<lparr>rq_body = Some (JObj [(''username'', JStr ''alice''), (''password'', JStr ''secret'')]),
      rq_forwardedFor = None, rq_userAgent = None, rq_ip = Some ''192.0.2.1'', rq_method = ''POST'',
      rq_originalUrl = ''/auth/login'', rq_params = [], rq_query = [], rq_remoteAddress = None\<rparr>"

definition login_definition :: audit_definition where
  "login_definition = the (ep_audit (auth_controller sim_env example_scrypt (\<lambda>_ _. returnM []) (Login [] [])))"


section \<open>One entry per request\<close>

lemma entry_fits_at: "system_log_fits (buildSystemAuditEntry zh d r u resp ok sc err now i) \<longleftrightarrow>
    system_log_fits (buildSystemAuditEntry zh d r u resp ok sc err 0 0)"
  by (simp add: system_log_fits_def buildSystemAuditEntry_def Let_def)

lemma entry_sel [simp]:
  "sl_id (buildSystemAuditEntry zh d r u resp ok sc err now i) = i"
  "sl_status (buildSystemAuditEntry zh d r u resp ok sc err now i) = (if ok then ''succeeded'' else ''failed'')"
  "sl_statusCode (buildSystemAuditEntry zh d r u resp ok sc err now i) = sc"
  "sl_errorMessage (buildSystemAuditEntry zh d r u resp ok sc err now i) = map_option (take 1024) err"
  "sl_method (buildSystemAuditEntry zh d r u resp ok sc err now i) = rq_method r"
  "sl_route (buildSystemAuditEntry zh d r u resp ok sc err now i) = path_of (rq_originalUrl r)"
  "sl_ipAddress (buildSystemAuditEntry zh d r u resp ok sc err now i) = forwardedAddress r"
  by (simp_all add: buildSystemAuditEntry_def Let_def)

lemma fresh_system_log:
  assumes "fresh_id rs (SystemLog x) (sl_id x)"
  shows "\<not> list_ex (conflicts (SystemLog x)) rs"
proof -
  have "\<not> conflicts (SystemLog x) r" if "r \<in> set rs" for r
  proof (cases r)
    case (SystemLog y)
    then show ?thesis using assms that by (auto simp: fresh_id_def conflicts_def row_id_def table_no_def)
  qed (simp_all add: conflicts_def)
  then show ?thesis by (simp add: list_ex_iff)
qed

context services
begin

lemma recordSafely_run:
  assumes "healthy (view w)"
    and "\<And>now i. sl_id (entry now i) = i \<and> system_log_fits (entry now i) = system_log_fits (entry 0 0)"
  shows "fst (recordSafely E entry w) = Inr ()"
    and "\<exists>now i. view (snd (recordSafely E entry w)) = (view w)\<lparr>rows := rows (view w) @
      (if system_log_fits (entry now i) then [SystemLog (entry now i)] else [])\<rparr>"
proof -
  have "fst (recordSafely E entry w) = Inr () \<and>
    (\<exists>now i. view (snd (recordSafely E entry w)) = (view w)\<lparr>rows := rows (view w) @
      (if system_log_fits (entry now i) then [SystemLog (entry now i)] else [])\<rparr>)"
  proof (cases "system_log_fits (entry 0 0)")
    case False
    then show ?thesis
      by (auto simp: recordSafely_def create_system_log_def catchM_def intro: exI [of _ "0::int"] exI [of _ "0::nat"])
  next
    case True
    let ?now = "pg_now E w"
    obtain i where i: "fresh_id (rows (view w)) (emb systemLogs (entry ?now i)) i"
      and run: "if list_ex (conflicts (emb systemLogs (entry ?now i))) (rows (view w))
       then fst (insert_into E systemLogs (entry ?now) w) = Inl (PgError ''23505'') \<and>
         view (snd (insert_into E systemLogs (entry ?now) w)) = view w
       else fst (insert_into E systemLogs (entry ?now) w) = Inr [entry ?now i] \<and>
         view (snd (insert_into E systemLogs (entry ?now) w)) =
           (view w)\<lparr>rows := rows (view w) @ [emb systemLogs (entry ?now i)]\<rparr>"
      using run_insert [OF assms(1), of systemLogs "entry ?now"] by auto
    have "\<not> list_ex (conflicts (SystemLog (entry ?now i))) (rows (view w))"
      using i fresh_system_log [of "rows (view w)" "entry ?now i"] assms(2) by simp
    then show ?thesis
      using run True assms(2)
      by (auto simp: recordSafely_def create_system_log_def catchM_def ignore_rows_def thenM_def
          intro!: exI [of _ ?now] exI [of _ i])
  qed
  then show "fst (recordSafely E entry w) = Inr ()"
    "\<exists>now i. view (snd (recordSafely E entry w)) = (view w)\<lparr>rows := rows (view w) @
      (if system_log_fits (entry now i) then [SystemLog (entry now i)] else [])\<rparr>" by blast+
qed

end

lemma systemLogs_disjoint [simp]:
  "disjoint_tables users systemLogs" "disjoint_tables roles systemLogs" "disjoint_tables permissions systemLogs"
  "disjoint_tables userRoles systemLogs" "disjoint_tables rolePermissions systemLogs"
  by (simp_all add: disjoint_tables_def)

context services
begin

lemma keeps_invalidate: "keeps view (table_of T) (invalidate E ks)"
  unfolding invalidate_def by (intro keeps_intros keeps_redis_write)

lemma keeps_authorization_write:
  "keeps view (table_of T) m \<Longrightarrow> keeps view (table_of T) (authorization_writeAndInvalidate E m us)"
  unfolding authorization_writeAndInvalidate_def writeAndInvalidate_def
  by (intro keeps_intros keeps_invalidate)

lemma keeps_softDelete:
  assumes "table_ok U" "disjoint_tables U T"
  shows "keeps view (table_of T) (softDelete E U del set_del P)"
  using keeps_update [OF assms] by (simp add: softDelete_def keeps_unfold)

lemma keeps_paginate:
  "(\<And>l o'. keeps view obs (f l o')) \<Longrightarrow> keeps view obs (paginate E T P p n f)"
  "(\<And>l o'. keeps view obs (f l o')) \<Longrightarrow> keeps view obs (paginate_joined E sel p n f)"
  unfolding paginate_def paginate_joined_def Let_def
  by (intro keeps_intros keeps_select keeps_db_query | assumption | (drule meta_spec, drule meta_spec, assumption))+

lemma keeps_select_page: "keeps view obs (select_page E T P key l o')"
  unfolding select_page_def by (intro keeps_intros keeps_select)

lemma keeps_includePermissions: "keeps view obs (includePermissions E rs)"
  unfolding includePermissions_def listRolePermissionRecords_def by (intro keeps_intros keeps_db_query)

lemma keeps_the_first_or: "keeps view obs (the_first_or e xs)"
  unfolding the_first_or_def by (intro keeps_intros)

lemma keeps_assertions:
  "keeps view obs (assertCanMutateUser E r t)" "keeps view obs (assertRoleExists E i)"
  "keeps view obs (assertPermissionExists E i)" "keeps view obs (assertUserExists E i)"
  "keeps view obs (listRoleMemberUserIds E i)" "keeps view obs (listPermissionHolderUserIds E i)"
  unfolding assertCanMutateUser_def assertRoleExists_def assertPermissionExists_def assertUserExists_def
    listRoleMemberUserIds_def listPermissionHolderUserIds_def
  by (intro keeps_intros keeps_select keeps_db_query)+

lemmas service_frames =
  keeps_intros keeps_select keeps_db_query keeps_authorization_write keeps_softDelete keeps_paginate
  keeps_select_page keeps_includePermissions keeps_the_first_or keeps_assertions keeps_update keeps_delete
  keeps_insert

lemma users_keep_logs:
  "keeps view (table_of systemLogs) (list_users E q)" "keeps view (table_of systemLogs) (user_by_id E i)"
  "keeps view (table_of systemLogs) (update_user E i j d)"
  "keeps view (table_of systemLogs) (setPassword E scrypt salt i j p)"
  "keeps view (table_of systemLogs) (remove_user E i j)" "keeps view (table_of systemLogs) (user_setEnabled E i j b)"
  unfolding list_users_def user_by_id_def update_user_def setPassword_def remove_user_def user_setEnabled_def
    patch_user_def Let_def
  by (intro service_frames; simp)+

lemma create_user_keeps_logs: "keeps view (table_of systemLogs) (create_user E scrypt salt n p r d)"
proof -
  have "keeps view (table_of systemLogs) (\<lambda>w. bindM (insert_into E users (new_user n h r d (pg_now E w)))
      (\<lambda>rs. returnM (map_option publicUserSelection (first rs))) w)" for h
    by (rule keeps_run_at) (intro service_frames; simp)
  then show ?thesis
    unfolding create_user_def findByUsername_def by (intro keeps_bind keeps_if keeps_throw keeps_return keeps_select)
qed

lemma login_keeps_logs:
  assumes "\<And>i n. keeps view (table_of systemLogs) (sign i n)"
  shows "keeps view (table_of systemLogs) (login E scrypt sign n p)"
proof -
  have "keeps view (table_of systemLogs) (updateLastLogin E i)" for i
    unfolding updateLastLogin_def by (rule keeps_run_at) (intro service_frames; simp)
  then show ?thesis
    unfolding login_def findByUsername_def by (intro service_frames assms)
qed

text \<open>The permission groups, for any table that is not theirs.\<close>

lemma roles_keep:
  assumes "disjoint_tables roles T" "disjoint_tables permissions T" "disjoint_tables rolePermissions T"
    "disjoint_tables userRoles T"
  shows "keeps view (table_of T) (createRole E n d)" "keeps view (table_of T) (listRoleOptions E)"
  "keeps view (table_of T) (listRoles E q)" "keeps view (table_of T) (deleteRole E i)"
proof -
  show "keeps view (table_of T) (createRole E n d)"
    unfolding createRole_def by (rule keeps_run_at) (intro service_frames; simp add: assms)
qed (unfold listRoleOptions_def listRoles_def deleteRole_def, (intro service_frames; simp add: assms)+)

lemma updateRole_keeps:
  assumes "disjoint_tables roles T"
  shows "keeps view (table_of T) (updateRole E code_of i n d)"
proof (cases "buildRoleUpdateValues n d")
  case (Inl e)
  then show ?thesis by (simp add: updateRole_def keeps_throw)
next
  case (Inr f)
  then show ?thesis
    unfolding updateRole_def Inr sum.case rethrowRoleUpdateError_def by (intro service_frames; simp add: assms)
qed

lemma permissions_keep:
  assumes "disjoint_tables permissions T"
  shows "keeps view (table_of T) (createPermission E a sb d)" "keeps view (table_of T) (listPermissionOptions E)"
  "keeps view (table_of T) (listPermissions E pq)" "keeps view (table_of T) (deletePermission E i)"
  unfolding createPermission_def listPermissionOptions_def listPermissions_def deletePermission_def Let_def
  by (intro service_frames; simp add: assms)+

lemma relations_keep:
  assumes "disjoint_tables roles T" "disjoint_tables permissions T" "disjoint_tables rolePermissions T"
    "disjoint_tables userRoles T"
  shows "keeps view (table_of T) (attachPermission E i j)" "keeps view (table_of T) (detachPermission E i j)"
  "keeps view (table_of T) (listUserRoles E i)" "keeps view (table_of T) (assignRole E r i j)"
  "keeps view (table_of T) (unassignRole E r i j)"
  unfolding attachPermission_def detachPermission_def listUserRoles_def assignRole_def unassignRole_def
  by (intro service_frames; simp add: assms)+

lemma list_system_logs_keeps: "keeps view obs (list_system_logs E q)"
  unfolding list_system_logs_def Let_def by (intro service_frames)

lemma jwt_validate_keeps: "keeps view (table_of T) (jwt_validate E ttl p)"
proof -
  have get: "keeps view (table_of T) (cache_get E (userAuthorizationCacheKey u) schema)" for u schema
    unfolding cache_get_def by (intro keeps_intros keeps_redis_read keeps_invalidate) simp
  have set: "keeps view (table_of T) (cache_set E (userAuthorizationCacheKey u) v t)" for u v t
    unfolding cache_set_def by (intro keeps_intros keeps_redis_write) simp
  have load: "keeps view (table_of T) (load_authorization E u)" for u
    unfolding load_authorization_def findAuthUser_def getUserPermissions_def by (intro service_frames)
  show ?thesis
    unfolding jwt_validate_def authorization_getOrLoad_def getOrLoad_def buildAuthenticatedUser_def
    by (intro service_frames get set load)
qed

lemma handle_route_keeps_logs:
  assumes "\<And>i n. keeps view (table_of systemLogs) (cs_sign C i n)"
  shows "keeps view (table_of systemLogs) (handle_route (endpoint_of E C salt route) user)"
proof -
  have "keeps view (table_of systemLogs) (ep_handle (endpoint_of E C salt route) user)"
    using assms
    by (cases route; cases user)
      (auto simp: controller_defs with_user_def answer_def
        split: auth_route.splits users_route.splits roles_route.splits permissions_route.splits
          relations_route.splits
        intro!: service_frames users_keep_logs create_user_keeps_logs login_keeps_logs roles_keep
          updateRole_keeps permissions_keep relations_keep list_system_logs_keeps)
  then show ?thesis unfolding handle_route_def by (intro keeps_intros)
qed

end

text \<open>The entry of a request, given how the handler ended.\<close>

definition entry_of ::
  "texts \<Rightarrow> audit_definition \<Rightarrow> http_request \<Rightarrow> audited_user option \<Rightarrow> nat \<Rightarrow> exn + json \<Rightarrow> int \<Rightarrow> nat \<Rightarrow> system_log_row" where
  "entry_of tx d r u n outcome =
     (case outcome of
        Inr j \<Rightarrow> buildSystemAuditEntry (tx_zh tx) d r u (Some j) True n None
      | Inl e \<Rightarrow> buildSystemAuditEntry (tx_zh tx) d r u None False (statusCodeOf e) (Some (tx_error tx e)))"

lemma entry_of_ok:
  "sl_id (entry_of tx d r u n oc now i) = i \<and>
   system_log_fits (entry_of tx d r u n oc now i) = system_log_fits (entry_of tx d r u n oc 0 0)"
proof (cases oc)
  case (Inl e)
  then show ?thesis by (simp add: entry_of_def) (rule entry_fits_at)
next
  case (Inr j)
  then show ?thesis by (simp add: entry_of_def) (rule entry_fits_at)
qed

context services
begin

text \<open>One more row of the audit, if it fits its columns.\<close>

lemma record_entry:
  fixes r :: http_request
  assumes "healthy (view w)" "entry = entry_of tx d r u n oc"
  shows "fst (recordSafely E entry w) = Inr () \<and> healthy (view (snd (recordSafely E entry w))) \<and>
    (\<exists>now i. table_of systemLogs (view (snd (recordSafely E entry w))) =
      table_of systemLogs (view w) @ (if system_log_fits (entry now i) then [entry now i] else []))"
proof -
  note run = recordSafely_run [of w entry, OF assms(1), unfolded assms(2), OF entry_of_ok, folded assms(2)]
  from run(2) obtain now i where v: "view (snd (recordSafely E entry w)) = (view w)\<lparr>rows := rows (view w) @
      (if system_log_fits (entry now i) then [SystemLog (entry now i)] else [])\<rparr>" by blast
  have "table_of systemLogs (view (snd (recordSafely E entry w))) =
      table_of systemLogs (view w) @ (if system_log_fits (entry now i) then [entry now i] else [])"
    by (simp add: v table_of_def)
  then show ?thesis using run(1) v assms(1) by auto
qed

lemma intercept_eq:
  assumes "healthy (view (snd (m w)))" "audit_definition_of ex r = Some d"
  shows "intercept E tx ex r u n m w =
    (fst (m w), snd (recordSafely E (entry_of tx d r u n (fst (m w))) (snd (m w))))"
proof -
  have rec: "fst (recordSafely E (entry_of tx d r u n oc) (snd (m w))) = Inr ()" for oc
    using record_entry [OF assms(1) refl] by blast
  obtain oc w1 where m: "m w = (oc, w1)" by fastforce
  show ?thesis
    using rec [of oc] assms(2) by (cases oc) (simp_all add: intercept_def m thenM_def entry_of_def returnM_eq throwM_eq)
qed

lemma exceptions_filter_eq:
  assumes "healthy (view w)" "recorded \<or> inferSystemAuditDefinition r = Some d"
  shows "exceptions_filter E tx r u recorded e w =
    (Inr (Refused (statusCodeOf e) e), if recorded then w else snd (recordSafely E (entry_of tx d r u 0 (Inl e)) w))"
  using record_entry [OF assms(1) refl, of tx d r u 0 "Inl e"] assms(2)
  by (auto simp: exceptions_filter_def recordGuardOrRoutingFailure_def thenM_def entry_of_def returnM_eq)

lemma jwt_guard_keeps: "keeps view (table_of T) (jwt_guard E ttl required verified)"
  unfolding jwt_guard_def by (intro service_frames jwt_validate_keeps)

end

text \<open>What an entry says of a request and its reply.\<close>

definition reports :: "texts \<Rightarrow> http_request \<Rightarrow> reply \<Rightarrow> system_log_row \<Rightarrow> bool" where
  "reports tx request rp x \<longleftrightarrow>
     sl_method x = rq_method request \<and> sl_route x = path_of (rq_originalUrl request) \<and>
     sl_ipAddress x = forwardedAddress request \<and>
     (case rp of
        Replied n _ \<Rightarrow> sl_status x = ''succeeded'' \<and> sl_statusCode x = n
      | Refused n e \<Rightarrow> sl_status x = ''failed'' \<and> sl_statusCode x = n \<and>
          sl_errorMessage x = Some (take 1024 (tx_error tx e)))"

lemma entry_reports:
  "reports tx r (Refused (statusCodeOf e) e) (entry_of tx d r u n (Inl e) now i)"
  "reports tx r (Replied n j) (entry_of tx d r u n (Inr j) now i)"
  by (simp_all add: reports_def entry_of_def)

definition recorded_once ::
  "('w \<Rightarrow> store) \<Rightarrow> texts \<Rightarrow> http_request \<Rightarrow> 'w \<Rightarrow> (exn + reply) \<times> 'w \<Rightarrow> bool" where
  "recorded_once view tx request w result \<longleftrightarrow>
     (\<exists>rp x. fst result = Inr rp \<and>
        table_of systemLogs (view (snd result)) =
          table_of systemLogs (view w) @ (if system_log_fits x then [x] else []) \<and>
        reports tx request rp x)"

context services
begin

text \<open>Refused before the handler, or by it, or answered: one entry in each case.\<close>

lemma filter_records:
  assumes "healthy (view w1)" "inferSystemAuditDefinition request = Some d"
    and "table_of systemLogs (view w1) = table_of systemLogs (view w)"
  shows "recorded_once view tx request w (exceptions_filter E tx request u False e w1)"
proof -
  have f: "exceptions_filter E tx request u False e w1 =
      (Inr (Refused (statusCodeOf e) e), snd (recordSafely E (entry_of tx d request u 0 (Inl e)) w1))"
    using exceptions_filter_eq [OF assms(1), of False request d tx u e] assms(2) by simp
  obtain now i where "table_of systemLogs (view (snd (recordSafely E (entry_of tx d request u 0 (Inl e)) w1))) =
      table_of systemLogs (view w1) @
      (if system_log_fits (entry_of tx d request u 0 (Inl e) now i) then [entry_of tx d request u 0 (Inl e) now i] else [])"
    using record_entry [OF assms(1) refl, of tx d request u 0 "Inl e"] by blast
  then show ?thesis
    unfolding recorded_once_def f fst_conv snd_conv assms(3)
    by (intro exI [of _ "Refused (statusCodeOf e) e"] exI [of _ "entry_of tx d request u 0 (Inl e) now i"])
      (simp add: entry_reports(1))
qed

lemma handler_records:
  assumes "healthy (view w1)" "audit_definition_of (ep_audit ep) request = Some d"
    and "table_of systemLogs (view w1) = table_of systemLogs (view w)"
    and "keeps view (table_of systemLogs) m"
  shows "recorded_once view tx request w
    (case intercept E tx (ep_audit ep) request u n m w1 of
       (Inl e, w2) \<Rightarrow> exceptions_filter E tx request u (audit_definition_of (ep_audit ep) request \<noteq> None) e w2
     | (Inr body, w2) \<Rightarrow> (Inr (Replied n body), w2))"
proof -
  note k = keepsD [OF assms(4,1)]
  let ?x = "entry_of tx d request u n (fst (m w1))"
  let ?w2 = "snd (recordSafely E ?x (snd (m w1)))"
  have i: "intercept E tx (ep_audit ep) request u n m w1 = (fst (m w1), ?w2)"
    by (rule intercept_eq) (use k assms(2) in simp_all)
  obtain now i where v: "table_of systemLogs (view ?w2) =
      table_of systemLogs (view w) @ (if system_log_fits (?x now i) then [?x now i] else [])"
    using record_entry [OF k(1) refl, of tx d request u n "fst (m w1)"] k(2) assms(3) by auto
  show ?thesis
  proof (cases "fst (m w1)")
    case (Inl e)
    then show ?thesis
      using v i assms(2) entry_reports(1) [of tx request e d u n now i]
      by (auto simp: recorded_once_def exceptions_filter_def recordGuardOrRoutingFailure_def thenM_def returnM_eq)
  next
    case (Inr j)
    then show ?thesis
      using v i entry_reports(2) [of tx request n j d u now i] by (auto simp: recorded_once_def)
  qed
qed

end

lemma audited_once:
  assumes "services E view" "healthy (view w)" "inferSystemAuditDefinition request \<noteq> None"
    and "\<And>i n. keeps view (table_of systemLogs) (cs_sign C i n)"
  shows "\<exists>rp x. fst (serve E C request (endpoint_of E C salt route) verified w) = Inr rp \<and>
    table_of systemLogs (view (snd (serve E C request (endpoint_of E C salt route) verified w))) =
      table_of systemLogs (view w) @ (if system_log_fits x then [x] else []) \<and>
    reports (cs_texts C) request rp x"
proof -
  let ?ep = "endpoint_of E C salt route"
  obtain d where d: "inferSystemAuditDefinition request = Some d" using assms(3) by blast
  then obtain d' where d': "audit_definition_of (ep_audit ?ep) request = Some d'"
    by (cases "ep_audit ?ep") (auto simp: audit_definition_of_def or_else_def)
  obtain g w1 where g: "jwt_guard E (cs_ttl C) (ep_requirement ?ep) verified w = (g, w1)" by fastforce
  note k = keepsD [OF services.jwt_guard_keeps [OF assms(1), of systemLogs "cs_ttl C" "ep_requirement ?ep" verified]
      assms(2), unfolded g snd_conv]
  note refused = services.filter_records [OF assms(1) k(1) d k(2)]
  note handled = services.handler_records [OF assms(1) k(1) d' k(2)
      services.handle_route_keeps_logs [where C = C and route = route and salt = salt, OF assms(1,4)]]
  have "recorded_once view (cs_texts C) request w (serve E C request ?ep verified w)"
    using refused handled d'
    by (auto simp: serve_def g Let_def split: sum.split option.split)
  then show ?thesis unfolding recorded_once_def .
qed



section \<open>When there is no entry\<close>

text \<open>What the client gets does not depend on the audit.\<close>

definition reply_to ::
  "'w env \<Rightarrow> 'w console \<Rightarrow> nat \<Rightarrow> 'w endpoint \<Rightarrow> jwt_payload option \<Rightarrow> 'w \<Rightarrow> reply" where
  "reply_to E C n ep verified w =
     (case jwt_guard E (cs_ttl C) (ep_requirement ep) verified w of
        (Inl e, _) \<Rightarrow> Refused (statusCodeOf e) e
      | (Inr user, w1) \<Rightarrow>
          (case permission_guards (cs_can C) ep user of
             Some e \<Rightarrow> Refused (statusCodeOf e) e
           | None \<Rightarrow>
               (case fst (handle_route ep user w1) of
                  Inl e \<Rightarrow> Refused (statusCodeOf e) e
                | Inr body \<Rightarrow> Replied n body)))"

lemma recordSafely_ok [simp]: "fst (recordSafely E entry w) = Inr ()"
  by (simp add: recordSafely_def catchM_def split: sum.splits)

lemma exceptions_filter_reply [simp]:
  "fst (exceptions_filter E tx request u recorded e w) = Inr (Refused (statusCodeOf e) e)"
  by (simp add: exceptions_filter_def recordGuardOrRoutingFailure_def thenM_def split: option.splits)

lemma intercept_reply [simp]: "fst (intercept E tx ex r u n m w) = fst (m w)"
  by (cases "m w") (auto simp: intercept_def thenM_def split: option.splits sum.splits)

lemma serve_reply:
  "fst (serve E C request ep verified w) = Inr (reply_to E C (success_status request) ep verified w)"
proof -
  obtain g w1 where g: "jwt_guard E (cs_ttl C) (ep_requirement ep) verified w = (g, w1)" by fastforce
  show ?thesis
  proof (cases g)
    case (Inr user)
    let ?n = "success_status request"
    obtain oc w2 where i: "intercept E (cs_texts C) (ep_audit ep) request (map_option audited_user_of user) ?n
        (handle_route ep user) w1 = (oc, w2)" by fastforce
    have "fst (handle_route ep user w1) = oc"
      using intercept_reply [of E "cs_texts C" "ep_audit ep" request "map_option audited_user_of user" ?n
          "handle_route ep user" w1] by (simp only: i fst_conv)
    then show ?thesis
      using Inr i by (cases "permission_guards (cs_can C) ep user"; cases oc)
        (simp_all add: serve_def reply_to_def g)
  qed (simp add: serve_def reply_to_def g)
qed

text \<open>
  C40: a forged address hides a request from the audit.  The address of an entry is whatever the
  client wrote in \<^verbatim>\<open>X-Forwarded-For\<close>, and its column takes 64 characters: with a longer first part, any
  request is carried out and answered as without the header, and leaves no entry.
\<close>

theorem forged_address_hides_request:
  assumes "services E view" "healthy (view w)" "inferSystemAuditDefinition request \<noteq> None"
    and "\<And>i n. keeps view (table_of systemLogs) (cs_sign C i n)"
    and "rq_forwardedFor request = Some (OneValue a)" "64 < length (js_trim (takeWhile (\<lambda>c. c \<noteq> CHR '','') a))"
  shows "table_of systemLogs (view (snd (serve E C request (endpoint_of E C salt route) verified w))) =
      table_of systemLogs (view w) \<and>
    fst (serve E C request (endpoint_of E C salt route) verified w) =
      fst (serve E C (request\<lparr>rq_forwardedFor := None\<rparr>) (endpoint_of E C salt route) verified w)"
proof -
  obtain rp x where x: "table_of systemLogs (view (snd (serve E C request (endpoint_of E C salt route) verified w))) =
      table_of systemLogs (view w) @ (if system_log_fits x then [x] else [])" "reports (cs_texts C) request rp x"
    using audited_once [OF assms(1-4), of salt route verified] by blast
  have "\<not> system_log_fits x"
    using x(2) assms(5,6) by (simp add: reports_def forwardedAddress_def or_else_def system_log_fits_def text_fits_def)
  then show ?thesis using x(1) by (simp add: serve_reply success_status_def)
qed

definition forged_login :: http_request where
  "forged_login = example_login\<lparr>rq_forwardedFor := Some (OneValue (replicate 65 (CHR ''1'')))\<rparr>"

theorem forged_address_hides_request_witness:
  "table_of systemLogs (sim_view (snd (serve sim_env example_console forged_login
      (endpoint_of sim_env example_console [] (AuthRoute (Login ''alice'' ''secret''))) None sim_start))) = []"
proof -
  have "js_trim (takeWhile (\<lambda>c. c \<noteq> CHR '','') (replicate 65 (CHR ''1''))) = replicate 65 (CHR ''1'')"
    by (subst takeWhile_eq_all_conv [THEN iffD2]) (simp, rule js_trim_digits, simp add: list_all_iff is_digit_def)
  then have long: "64 < length (js_trim (takeWhile (\<lambda>c. c \<noteq> CHR '','') (replicate 65 (CHR ''1''))))"
    by (simp only: length_replicate)
  have audited: "inferSystemAuditDefinition forged_login \<noteq> None"
    by (simp add: forged_login_def example_login_def inferSystemAuditDefinition_def auditedResourceOf_def
        routeSegments_def path_of_def AUDITED_RESOURCES_def ACTION_BY_METHOD_def upper_char_def map_filter_def)
  have "keeps sim_view (table_of systemLogs) (cs_sign example_console i n)" for i n
    by (simp add: example_console_def keeps_return)
  then have "table_of systemLogs (sim_view (snd (serve sim_env example_console forged_login
      (endpoint_of sim_env example_console [] (AuthRoute (Login ''alice'' ''secret''))) None sim_start))) =
      table_of systemLogs (sim_view sim_start)"
    by (intro forged_address_hides_request [OF sim_services _ audited _ _ long, THEN conjunct1])
      (simp_all add: forged_login_def)
  then show ?thesis by (simp add: table_of_def empty_store_def)
qed

end
