(* ===== verification/Authorization_State.thy ===== *)
theory Authorization_State
  imports Authentication
begin

text \<open>
  What the database says of a user (\<open>auth_of\<close>), and how each write of the accounts and permission
  groups changes it.  \<open>entitles_alike rs rs' U\<close>: from \<open>rs\<close> to \<open>rs'\<close> only the users of \<open>U\<close>, and
  users that did not exist, may have got another authorization.
\<close>

section \<open>The authorization of a user\<close>

definition user_of :: "row list \<Rightarrow> nat \<Rightarrow> user_row option" where
  "user_of rs u = find (alive_user (\<lambda>x. usr_id x = u)) (contents rs users)"

definition auth_of :: "row list \<Rightarrow> nat \<Rightarrow> (bool \<times> bool \<times> (string \<times> string) set) option" where
  "auth_of rs u =
     map_option (\<lambda>x. (usr_isRoot x, usr_enabled x, set (user_permissions u rs))) (user_of rs u)"

text \<open>The foreign keys that matter here.\<close>

definition references_ok :: "row list \<Rightarrow> bool" where
  "references_ok rs \<longleftrightarrow>
     (\<forall>ur \<in> set (contents rs userRoles). \<exists>r \<in> set (contents rs roles). rol_id r = ur_roleId ur) \<and>
     (\<forall>rp \<in> set (contents rs rolePermissions).
        \<exists>p \<in> set (contents rs permissions). prm_id p = rp_permissionId rp)"

definition entitles_alike :: "row list \<Rightarrow> row list \<Rightarrow> nat set \<Rightarrow> bool" where
  "entitles_alike rs rs' U \<longleftrightarrow>
     (references_ok rs \<longrightarrow> references_ok rs' \<and>
        (\<forall>u. u \<notin> U \<longrightarrow> auth_of rs u \<noteq> None \<longrightarrow> auth_of rs' u = auth_of rs u))"

lemma entitles_alike_refl: "entitles_alike rs rs U"
  by (simp add: entitles_alike_def)

text \<open>A pair is granted through a membership, a live role, a relation and a live permission.\<close>

definition permission_grants :: "row list \<Rightarrow> nat \<Rightarrow> string \<times> string \<Rightarrow> bool" where
  "permission_grants rs i x \<longleftrightarrow>
     (\<exists>p \<in> set (contents rs permissions). alive_permission i p \<and> x = (prm_action p, prm_subject p))"

definition role_grants :: "row list \<Rightarrow> nat \<Rightarrow> string \<times> string \<Rightarrow> bool" where
  "role_grants rs i x \<longleftrightarrow>
     (\<exists>rp \<in> set (contents rs rolePermissions). rp_roleId rp = i \<and> permission_grants rs (rp_permissionId rp) x)"

definition role_live :: "row list \<Rightarrow> nat \<Rightarrow> bool" where
  "role_live rs i \<longleftrightarrow> (\<exists>r \<in> set (contents rs roles). alive_role i r)"

lemma set_user_permissions:
  "x \<in> set (user_permissions u rs) \<longleftrightarrow>
     (\<exists>ur \<in> set (contents rs userRoles). ur_userId ur = u \<and> role_live rs (ur_roleId ur) \<and>
        role_grants rs (ur_roleId ur) x)"
  unfolding role_live_def role_grants_def permission_grants_def by (auto simp: user_permissions_def)

text \<open>A user keeps his permissions when each of his roles keeps its own.\<close>

lemma same_permissions:
  assumes "contents rs' userRoles = contents rs userRoles"
    and "\<And>ur. ur \<in> set (contents rs userRoles) \<Longrightarrow> ur_userId ur = u \<Longrightarrow>
      (role_live rs' (ur_roleId ur) \<and> role_grants rs' (ur_roleId ur) x) =
      (role_live rs (ur_roleId ur) \<and> role_grants rs (ur_roleId ur) x)"
  shows "x \<in> set (user_permissions u rs') \<longleftrightarrow> x \<in> set (user_permissions u rs)"
  unfolding set_user_permissions assms(1) using assms(2) by (intro bex_cong refl) auto

lemma authorization_tables_disjoint [simp]:
  "disjoint_tables users roles" "disjoint_tables users permissions" "disjoint_tables users userRoles"
  "disjoint_tables users rolePermissions" "disjoint_tables roles users" "disjoint_tables roles permissions"
  "disjoint_tables roles userRoles" "disjoint_tables roles rolePermissions"
  "disjoint_tables permissions users" "disjoint_tables permissions roles"
  "disjoint_tables permissions userRoles" "disjoint_tables permissions rolePermissions"
  "disjoint_tables userRoles users" "disjoint_tables userRoles roles"
  "disjoint_tables userRoles permissions" "disjoint_tables userRoles rolePermissions"
  "disjoint_tables rolePermissions users" "disjoint_tables rolePermissions roles"
  "disjoint_tables rolePermissions permissions" "disjoint_tables rolePermissions userRoles"
  by (simp_all add: disjoint_tables_def)

text \<open>Only these five tables count.\<close>

lemma entitles_alike_tables:
  assumes "contents rs' users = contents rs users" "contents rs' roles = contents rs roles"
    and "contents rs' permissions = contents rs permissions" "contents rs' userRoles = contents rs userRoles"
    and "contents rs' rolePermissions = contents rs rolePermissions"
  shows "entitles_alike rs rs' U"
  using assms
  by (simp add: entitles_alike_def references_ok_def auth_of_def user_of_def user_permissions_def)

section \<open>Writes\<close>

text \<open>To users, given what becomes of the row of a user outside \<open>U\<close>.\<close>

lemma entitles_users:
  assumes "contents rs' roles = contents rs roles" "contents rs' permissions = contents rs permissions"
    and "contents rs' userRoles = contents rs userRoles"
    and "contents rs' rolePermissions = contents rs rolePermissions"
    and "\<And>u x. u \<notin> U \<Longrightarrow> user_of rs u = Some x \<Longrightarrow>
      \<exists>y. user_of rs' u = Some y \<and> usr_isRoot y = usr_isRoot x \<and> usr_enabled y = usr_enabled x"
  shows "entitles_alike rs rs' U"
proof -
  have "user_permissions u rs' = user_permissions u rs" for u
    using assms(1-4) by (simp add: user_permissions_def)
  moreover have "references_ok rs' = references_ok rs" using assms(1-4) by (simp add: references_ok_def)
  moreover have "auth_of rs' u = auth_of rs u" if "u \<notin> U" "auth_of rs u \<noteq> None" for u
  proof -
    note u = that
    obtain x where x: "user_of rs u = Some x" using u(2) by (auto simp: auth_of_def)
    then obtain y where "user_of rs' u = Some y" "usr_isRoot y = usr_isRoot x" "usr_enabled y = usr_enabled x"
      using assms(5) [OF u(1)] by blast
    then show ?thesis using x calculation(1) by (simp add: auth_of_def)
  qed
  ultimately show ?thesis by (simp add: entitles_alike_def)
qed

lemma find_map_same:
  assumes "\<And>x. Q x \<Longrightarrow> Q (g x)" "\<And>x. Q (g x) \<Longrightarrow> Q x"
  shows "find Q (map g xs) = map_option g (find Q xs)"
proof -
  have "Q (g x) \<longleftrightarrow> Q x" for x using assms [of x] by blast
  then show ?thesis by (induction xs) simp_all
qed

lemma bex_map_untouched:
  assumes "\<And>y. Q (g y) \<longleftrightarrow> Q y" "\<And>y. Q y \<Longrightarrow> g y = y"
  shows "(\<exists>y \<in> set (map g xs). Q y \<and> x = h y) \<longleftrightarrow> (\<exists>y \<in> set xs. Q y \<and> x = h y)"
proof (induction xs)
  case (Cons y ys)
  then show ?case using assms(1) [of y] assms(2) [of y] by (cases "Q y") simp_all
qed simp

lemma find_map_untouched:
  assumes "\<And>x. Q x \<Longrightarrow> g x = x" "\<And>x. Q (g x) \<Longrightarrow> Q x"
  shows "find Q (map g xs) = find Q xs"
proof -
  have "Q (g x) \<longleftrightarrow> Q x" for x using assms [of x] by auto
  then show ?thesis using assms(1) by (induction xs) simp_all
qed

lemma find_append_Some: "find Q xs = Some y \<Longrightarrow> find Q (xs @ ys) = Some y"
  by (induction xs) auto

lemma ids_kept:
  assumes "\<And>x. key (f x) = key x"
  shows "(\<exists>y \<in> set (map (\<lambda>x. if P x then f x else x) xs). key y = k) \<longleftrightarrow> (\<exists>y \<in> set xs. key y = k)"
  using assms by (induction xs) auto

text \<open>To roles, permissions and relations, given which grants are lost or won.\<close>

lemma entitles_grants:
  assumes "contents rs' users = contents rs users" "references_ok rs \<Longrightarrow> references_ok rs'"
    and "\<And>u x. references_ok rs \<Longrightarrow> u \<notin> U \<Longrightarrow>
      x \<in> set (user_permissions u rs') \<longleftrightarrow> x \<in> set (user_permissions u rs)"
  shows "entitles_alike rs rs' U"
proof -
  have "set (user_permissions u rs') = set (user_permissions u rs)" if "references_ok rs" "u \<notin> U" for u
    using assms(3) [OF that] by blast
  then show ?thesis
    using assms(1,2) by (auto simp: entitles_alike_def auth_of_def user_of_def)
qed

text \<open>The statements the services send, by table.\<close>

lemma user_update_entitles:
  assumes "\<And>x. usr_id (f x) = usr_id x" "\<And>x. P x \<Longrightarrow> usr_id x \<in> U"
  shows "entitles_alike rs (update_rows (on_table users P) (map_table users f) rs) U"
proof (rule entitles_users)
  fix u x assume u: "u \<notin> U" "user_of rs u = Some x"
  have "find (alive_user (\<lambda>x. usr_id x = u)) (map (\<lambda>x. if P x then f x else x) (contents rs users)) =
      find (alive_user (\<lambda>x. usr_id x = u)) (contents rs users)"
    by (rule find_map_untouched) (use assms u in \<open>auto simp: alive_user_def alive_def split: if_splits\<close>)
  then show "\<exists>y. user_of (update_rows (on_table users P) (map_table users f) rs) u = Some y \<and>
      usr_isRoot y = usr_isRoot x \<and> usr_enabled y = usr_enabled x"
    using u(2) by (simp add: user_of_def update_rows_def contents_update)
qed (simp_all add: update_rows_def contents_update_other)

lemma user_patch_entitles:
  assumes "\<And>x. usr_id (f x) = usr_id x \<and> usr_isRoot (f x) = usr_isRoot x \<and>
      usr_enabled (f x) = usr_enabled x \<and> usr_deletedAt (f x) = usr_deletedAt x"
  shows "entitles_alike rs (update_rows (on_table users P) (map_table users f) rs) U"
proof (rule entitles_users)
  fix u x assume u: "user_of rs u = Some x"
  have "find (alive_user (\<lambda>x. usr_id x = u)) (map (\<lambda>x. if P x then f x else x) (contents rs users)) =
      map_option (\<lambda>x. if P x then f x else x) (find (alive_user (\<lambda>x. usr_id x = u)) (contents rs users))"
    by (rule find_map_same) (use assms in \<open>auto simp: alive_user_def alive_def split: if_splits\<close>)
  then show "\<exists>y. user_of (update_rows (on_table users P) (map_table users f) rs) u = Some y \<and>
      usr_isRoot y = usr_isRoot x \<and> usr_enabled y = usr_enabled x"
    using u assms by (simp add: user_of_def update_rows_def contents_update)
qed (simp_all add: update_rows_def contents_update_other)

lemma user_insert_entitles: "entitles_alike rs (rs @ [User x]) U"
proof (rule entitles_users)
  fix u y assume "user_of rs u = Some y"
  then have "user_of (rs @ [User x]) u = Some y"
    by (simp add: user_of_def find_append_Some)
  then show "\<exists>z. user_of (rs @ [User x]) u = Some z \<and> usr_isRoot z = usr_isRoot y \<and> usr_enabled z = usr_enabled y"
    by blast
qed simp_all

lemma role_update_entitles:
  assumes "\<And>r. rol_id (f r) = rol_id r"
    and "\<And>r. P r \<Longrightarrow> rol_deletedAt (f r) = rol_deletedAt r \<or> (\<forall>ur \<in> set (contents rs userRoles).
      ur_roleId ur = rol_id r \<longrightarrow> ur_userId ur \<in> U)"
  shows "entitles_alike rs (update_rows (on_table roles P) (map_table roles f) rs) U"
proof (rule entitles_grants)
  let ?rs = "update_rows (on_table roles P) (map_table roles f) rs"
  have r: "contents ?rs roles = map (\<lambda>r. if P r then f r else r) (contents rs roles)"
    by (simp add: update_rows_def contents_update)
  have o': "contents ?rs userRoles = contents rs userRoles" "contents ?rs permissions = contents rs permissions"
    "contents ?rs rolePermissions = contents rs rolePermissions" "contents ?rs users = contents rs users"
    by (simp_all add: update_rows_def contents_update_other)
  show "contents ?rs users = contents rs users" by (rule o')
  show "references_ok ?rs" if "references_ok rs"
    using that unfolding references_ok_def r o' by (simp add: ids_kept assms(1) del: set_map)
  fix u x assume u: "u \<notin> U"
  have alive: "alive_role (ur_roleId ur) (if P y then f y else y) \<longleftrightarrow> alive_role (ur_roleId ur) y"
    if "ur \<in> set (contents rs userRoles)" "ur_userId ur = u" for ur y
    using assms(1) assms(2) [of y] that u by (auto simp: alive_role_def alive_def)
  show "x \<in> set (user_permissions u ?rs) \<longleftrightarrow> x \<in> set (user_permissions u rs)"
  proof (rule same_permissions [OF o'(1)])
    fix ur assume "ur \<in> set (contents rs userRoles)" "ur_userId ur = u"
    from alive [OF this]
    show "(role_live ?rs (ur_roleId ur) \<and> role_grants ?rs (ur_roleId ur) x) =
        (role_live rs (ur_roleId ur) \<and> role_grants rs (ur_roleId ur) x)"
      by (simp add: role_live_def role_grants_def permission_grants_def r o' del: if_image_distrib)
  qed
qed

lemma role_insert_entitles:
  assumes "\<forall>r \<in> set (contents rs roles). rol_id r \<noteq> rol_id x"
  shows "entitles_alike rs (rs @ [Role x]) U"
proof (rule entitles_grants)
  show "references_ok (rs @ [Role x])" if "references_ok rs" using that by (auto simp: references_ok_def)
  fix u y assume "references_ok rs"
  then have "\<not> alive_role (ur_roleId ur) x" if "ur \<in> set (contents rs userRoles)" for ur
    using assms that by (auto simp: references_ok_def alive_role_def alive_def)
  then show "y \<in> set (user_permissions u (rs @ [Role x])) \<longleftrightarrow> y \<in> set (user_permissions u rs)"
    by (intro same_permissions) (simp_all add: role_live_def role_grants_def permission_grants_def)
qed simp

lemma permission_update_entitles:
  assumes "\<And>p. prm_id (f p) = prm_id p"
    and "\<And>p. P p \<Longrightarrow> \<forall>rp \<in> set (contents rs rolePermissions). rp_permissionId rp = prm_id p \<longrightarrow>
      (\<forall>ur \<in> set (contents rs userRoles). ur_roleId ur = rp_roleId rp \<longrightarrow> ur_userId ur \<in> U)"
  shows "entitles_alike rs (update_rows (on_table permissions P) (map_table permissions f) rs) U"
proof (rule entitles_grants)
  let ?rs = "update_rows (on_table permissions P) (map_table permissions f) rs"
  have p: "contents ?rs permissions = map (\<lambda>r. if P r then f r else r) (contents rs permissions)"
    by (simp add: update_rows_def contents_update)
  have o': "contents ?rs userRoles = contents rs userRoles" "contents ?rs roles = contents rs roles"
    "contents ?rs rolePermissions = contents rs rolePermissions" "contents ?rs users = contents rs users"
    by (simp_all add: update_rows_def contents_update_other)
  show "contents ?rs users = contents rs users" by (rule o')
  show "references_ok ?rs" if "references_ok rs"
    using that unfolding references_ok_def p o' by (simp add: ids_kept assms(1) del: set_map)
  fix u x assume u: "u \<notin> U"
  show "x \<in> set (user_permissions u ?rs) \<longleftrightarrow> x \<in> set (user_permissions u rs)"
  proof (rule same_permissions [OF o'(1)])
    fix ur assume ur: "ur \<in> set (contents rs userRoles)" "ur_userId ur = u"
    have "permission_grants ?rs (rp_permissionId rp) x \<longleftrightarrow> permission_grants rs (rp_permissionId rp) x"
      if rp: "rp \<in> set (contents rs rolePermissions)" "rp_roleId rp = ur_roleId ur" for rp
    proof -
      have dead: "\<not> P y" if "prm_id y = rp_permissionId rp" for y
        using assms(2) [of y] rp ur u that by auto
      have "alive_permission (rp_permissionId rp) (if P y then f y else y) \<longleftrightarrow> alive_permission (rp_permissionId rp) y"
        "alive_permission (rp_permissionId rp) y \<Longrightarrow> (if P y then f y else y) = y" for y
        using dead [of y] assms(1) by (auto simp: alive_permission_def alive_def)
      then show ?thesis unfolding permission_grants_def p by (rule bex_map_untouched)
    qed
    then show "(role_live ?rs (ur_roleId ur) \<and> role_grants ?rs (ur_roleId ur) x) =
        (role_live rs (ur_roleId ur) \<and> role_grants rs (ur_roleId ur) x)"
      by (auto simp: role_live_def role_grants_def o')
  qed
qed

lemma permission_insert_entitles:
  assumes "\<forall>p \<in> set (contents rs permissions). prm_id p \<noteq> prm_id x"
  shows "entitles_alike rs (rs @ [Permission x]) U"
proof (rule entitles_grants)
  show "references_ok (rs @ [Permission x])" if "references_ok rs" using that by (auto simp: references_ok_def)
  fix u y assume "references_ok rs"
  then have "\<not> alive_permission (rp_permissionId rp) x" if "rp \<in> set (contents rs rolePermissions)" for rp
    using assms that by (auto simp: references_ok_def alive_permission_def alive_def)
  then have "role_grants (rs @ [Permission x]) i y \<longleftrightarrow> role_grants rs i y" for i
    by (auto simp: role_grants_def permission_grants_def)
  then show "y \<in> set (user_permissions u (rs @ [Permission x])) \<longleftrightarrow> y \<in> set (user_permissions u rs)"
    by (intro same_permissions) (simp_all add: role_live_def)
qed simp

lemma relation_insert_entitles:
  assumes "\<exists>p \<in> set (contents rs permissions). prm_id p = rp_permissionId x"
    and "\<forall>ur \<in> set (contents rs userRoles). ur_roleId ur = rp_roleId x \<longrightarrow> ur_userId ur \<in> U"
  shows "entitles_alike rs (rs @ [RolePermission x]) U"
proof (rule entitles_grants)
  show "references_ok (rs @ [RolePermission x])" if "references_ok rs"
    using that assms(1) by (auto simp: references_ok_def)
  fix u y assume "u \<notin> U"
  then have "rp_roleId x \<noteq> ur_roleId ur" if "ur \<in> set (contents rs userRoles)" "ur_userId ur = u" for ur
    using assms(2) that by auto
  then show "y \<in> set (user_permissions u (rs @ [RolePermission x])) \<longleftrightarrow> y \<in> set (user_permissions u rs)"
    by (intro same_permissions) (auto simp: role_live_def role_grants_def permission_grants_def)
qed simp

lemma relation_delete_entitles:
  assumes "\<And>x ur. P x \<Longrightarrow> ur \<in> set (contents rs userRoles) \<Longrightarrow> ur_roleId ur = rp_roleId x \<Longrightarrow> ur_userId ur \<in> U"
  shows "entitles_alike rs (filter (\<lambda>r. \<not> on_table rolePermissions P r) rs) U"
proof (rule entitles_grants)
  let ?rs = "filter (\<lambda>r. \<not> on_table rolePermissions P r) rs"
  have o': "contents ?rs userRoles = contents rs userRoles" "contents ?rs roles = contents rs roles"
    "contents ?rs permissions = contents rs permissions" "contents ?rs users = contents rs users"
    "contents ?rs rolePermissions = filter (\<lambda>x. \<not> P x) (contents rs rolePermissions)"
    by (simp_all add: contents_delete contents_delete_other)
  show "contents ?rs users = contents rs users" by (rule o')
  show "references_ok ?rs" if "references_ok rs" using that by (auto simp: references_ok_def o')
  fix u y assume "u \<notin> U"
  then have "\<not> P x" if "ur \<in> set (contents rs userRoles)" "ur_userId ur = u" "rp_roleId x = ur_roleId ur" for ur x
    using assms that by metis
  then show "y \<in> set (user_permissions u ?rs) \<longleftrightarrow> y \<in> set (user_permissions u rs)"
    by (intro same_permissions) (auto simp: role_live_def role_grants_def permission_grants_def o')
qed

lemma member_insert_entitles:
  assumes "\<exists>r \<in> set (contents rs roles). rol_id r = ur_roleId x" "ur_userId x \<in> U"
  shows "entitles_alike rs (rs @ [UserRole x]) U"
proof (rule entitles_grants)
  show "references_ok (rs @ [UserRole x])" if "references_ok rs"
    using that assms(1) by (auto simp: references_ok_def)
  fix u y assume "u \<notin> U"
  then show "y \<in> set (user_permissions u (rs @ [UserRole x])) \<longleftrightarrow> y \<in> set (user_permissions u rs)"
    unfolding set_user_permissions using assms(2)
    by (auto simp: role_live_def role_grants_def permission_grants_def)
qed simp

lemma member_delete_entitles:
  assumes "\<And>x. P x \<Longrightarrow> ur_userId x \<in> U"
  shows "entitles_alike rs (filter (\<lambda>r. \<not> on_table userRoles P r) rs) U"
proof (rule entitles_grants)
  let ?rs = "filter (\<lambda>r. \<not> on_table userRoles P r) rs"
  have o': "contents ?rs rolePermissions = contents rs rolePermissions" "contents ?rs roles = contents rs roles"
    "contents ?rs permissions = contents rs permissions" "contents ?rs users = contents rs users"
    "contents ?rs userRoles = filter (\<lambda>x. \<not> P x) (contents rs userRoles)"
    by (simp_all add: contents_delete contents_delete_other)
  show "contents ?rs users = contents rs users" by (rule o')
  show "references_ok ?rs" if "references_ok rs" using that by (auto simp: references_ok_def o')
  fix u y assume "u \<notin> U"
  then show "y \<in> set (user_permissions u ?rs) \<longleftrightarrow> y \<in> set (user_permissions u rs)"
    unfolding set_user_permissions using assms
    by (auto simp: role_live_def role_grants_def permission_grants_def o')
qed

end
