(* ===== verification/Authorization_Coherence.thy ===== *)
theory Authorization_Coherence
  imports Authorization_State
begin

text \<open>
  The cache of authorizations stays true to the database.  \<open>authz_ok\<close>: what is cached for a user
  is what the database says of him, and the foreign keys of the relations hold.  Every operation
  of the services for accounts and permission groups keeps it, failures included.
\<close>

section \<open>The invariant\<close>

definition cached_authorization :: "store \<Rightarrow> nat \<Rightarrow> authorization_snapshot option" where
  "cached_authorization s u = cached s (userAuthorizationCacheKey u) authorizationSnapshotSchema"

definition snapshot_rights :: "authorization_snapshot \<Rightarrow> bool \<times> bool \<times> (string \<times> string) set" where
  "snapshot_rights a = (as_isRoot a, as_enabled a, set (as_permissions a))"

definition authz_ok :: "store \<Rightarrow> bool" where
  "authz_ok s \<longleftrightarrow> references_ok (rows s) \<and>
     (\<forall>u a. cached_authorization s u = Some a \<longrightarrow> auth_of (rows s) u = Some (snapshot_rights a))"

text \<open>
  Rows change for the users of \<open>U\<close> only, and of the cached entries none is new and those of \<open>U\<close>
  are gone.
\<close>

lemma authz_ok_step:
  assumes "authz_ok s" "entitles_alike (rows s) (rows t) U"
    and "\<And>u. strs t (userAuthorizationCacheKey u) = strs s (userAuthorizationCacheKey u) \<or>
      strs t (userAuthorizationCacheKey u) = None"
    and "\<And>u. u \<in> U \<Longrightarrow> strs t (userAuthorizationCacheKey u) = None"
  shows "authz_ok t"
  unfolding authz_ok_def
proof (intro conjI allI impI)
  have ref: "references_ok (rows s)" using assms(1) by (simp add: authz_ok_def)
  then show "references_ok (rows t)" using assms(2) by (simp add: entitles_alike_def)
  fix u a assume c: "cached_authorization t u = Some a"
  then have "strs t (userAuthorizationCacheKey u) \<noteq> None"
    by (auto simp: cached_authorization_def cached_def split: option.splits)
  then have "u \<notin> U" "cached_authorization s u = Some a"
    using assms(3) [of u] assms(4) [of u] c by (auto simp: cached_authorization_def cached_def)
  moreover from this(2) have "auth_of (rows s) u = Some (snapshot_rights a)"
    using assms(1) by (simp add: authz_ok_def)
  ultimately show "auth_of (rows t) u = Some (snapshot_rights a)"
    using assms(2) ref by (simp add: entitles_alike_def snapshot_rights_def)
qed

lemma authz_ok_same_rows:
  assumes "authz_ok s" "rows t = rows s"
    and "\<And>u. strs t (userAuthorizationCacheKey u) = strs s (userAuthorizationCacheKey u) \<or>
      strs t (userAuthorizationCacheKey u) = None"
  shows "authz_ok t"
  using authz_ok_step [OF assms(1), of t "{}"] assms(2,3) by (simp add: entitles_alike_refl)

section \<open>Steps that keep it\<close>

definition safe_at :: "('w \<Rightarrow> store) \<Rightarrow> ('w, 'a) io \<Rightarrow> 'w \<Rightarrow> bool" where
  "safe_at view m w \<longleftrightarrow>
     (healthy (view w) \<longrightarrow> healthy (view (snd (m w))) \<and> (authz_ok (view w) \<longrightarrow> authz_ok (view (snd (m w)))))"

text \<open>A step that only reads.\<close>

definition reads_at :: "('w \<Rightarrow> store) \<Rightarrow> ('w, 'a) io \<Rightarrow> 'w \<Rightarrow> bool" where
  "reads_at view m w \<longleftrightarrow> (healthy (view w) \<longrightarrow> view (snd (m w)) = view w)"

text \<open>A step that writes rows; when it throws it has changed no one's authorization.\<close>

definition rewrites_at :: "('w \<Rightarrow> store) \<Rightarrow> nat set \<Rightarrow> ('w, 'a) io \<Rightarrow> 'w \<Rightarrow> bool" where
  "rewrites_at view U m w \<longleftrightarrow>
     (healthy (view w) \<longrightarrow>
       (\<exists>rs'. view (snd (m w)) = (view w)\<lparr>rows := rs'\<rparr> \<and>
          entitles_alike (rows (view w)) rs' (if isl (fst (m w)) then {} else U)))"

lemma reads_atI: "(healthy (view w) \<Longrightarrow> view (snd (m w)) = view w) \<Longrightarrow> reads_at view m w"
  by (simp add: reads_at_def)

lemma reads_keeps: "keeps view (\<lambda>s. s) m \<Longrightarrow> reads_at view m w"
  by (simp add: reads_at_def keeps_unfold)

lemma safe_reads: "reads_at view m w \<Longrightarrow> safe_at view m w"
  by (auto simp: reads_at_def safe_at_def)

lemma safe_bind:
  assumes "reads_at view m w"
    and "\<And>a w'. healthy (view w) \<Longrightarrow> fst (m w) = Inr a \<Longrightarrow> view w' = view w \<Longrightarrow> safe_at view (f a) w'"
  shows "safe_at view (bindM m f) w"
  using assms by (cases "fst (m w)") (auto simp: safe_at_def reads_at_def bindM_def)

lemma safe_then:
  assumes "reads_at view m w"
    and "\<And>a w'. healthy (view w) \<Longrightarrow> fst (m w) = Inr a \<Longrightarrow> view w' = view w \<Longrightarrow> safe_at view n w'"
  shows "safe_at view (thenM m n) w"
  using assms by (cases "fst (m w)") (auto simp: safe_at_def reads_at_def thenM_def)

text \<open>After the write nothing but reading follows.\<close>

lemma safe_before_reads:
  assumes "safe_at view m w" "\<And>a w'. reads_at view (f a) w'"
  shows "safe_at view (bindM m f) w" "safe_at view (thenM m n) w \<longleftrightarrow> safe_at view (bindM m (\<lambda>_. n)) w"
  using assms by (cases "fst (m w)"; auto simp: safe_at_def reads_at_def bindM_def thenM_def)+

lemma bindM_assoc: "bindM (bindM m f) g = bindM m (\<lambda>a. bindM (f a) g)"
  by (rule ext) (simp add: bindM_def split: sum.splits)

lemma safe_rewrites:
  assumes "rewrites_at view {} m w"
  shows "safe_at view m w"
  unfolding safe_at_def
proof (intro impI)
  assume h: "healthy (view w)"
  then obtain rs' where v: "view (snd (m w)) = (view w)\<lparr>rows := rs'\<rparr>"
    and e: "entitles_alike (rows (view w)) rs' {}"
    using assms by (auto simp: rewrites_at_def)
  have "authz_ok (view (snd (m w)))" if "authz_ok (view w)"
    using authz_ok_step [OF that, of "(view w)\<lparr>rows := rs'\<rparr>" "{}"] e by (simp add: v)
  then show "healthy (view (snd (m w))) \<and> (authz_ok (view w) \<longrightarrow> authz_ok (view (snd (m w))))"
    using h v by simp
qed

text \<open>What is done with the rows a statement returned: a check that there was one.\<close>

definition checks_rows :: "('a list \<Rightarrow> ('w, 'b) io) \<Rightarrow> bool" where
  "checks_rows k \<longleftrightarrow> (\<forall>ys w. snd (k ys w) = w \<and> (isl (fst (k ys w)) \<longrightarrow> ys = []))"

lemma checks_rows_simps [simp]:
  "checks_rows (\<lambda>ys. if first ys = None then throwM e else returnM x)"
  "checks_rows (\<lambda>ys. if ys = [] then throwM e else returnM x)"
  "checks_rows (the_first_or e)"
  "checks_rows (\<lambda>ys. bindM (the_first_or e ys) (\<lambda>u. returnM (g u)))"
  "checks_rows (\<lambda>ys. returnM (h ys))"
  by (auto simp: checks_rows_def the_first_or_def bindM_def split: option.splits)

lemma none_on_table:
  assumes "filter P (contents rs T) = []" "r \<in> set rs"
  shows "\<not> on_table T P r"
  using assms by (force simp: on_table_def contents_def map_filter_def filter_empty_conv split: option.splits)

lemma untouched_rows:
  assumes "filter P (contents rs T) = []"
  shows "update_rows (on_table T P) g rs = rs" "filter (\<lambda>r. \<not> on_table T P r) rs = rs"
  using none_on_table [OF assms] by (simp_all add: update_rows_def map_idI filter_id_conv)

lemma not_isl: "\<not> isl x \<Longrightarrow> \<exists>y. x = Inr y"
  by (cases x) simp_all

context services
begin

lemma update_rewrites:
  assumes "table_ok T" "checks_rows k"
    and "entitles_alike (rows (view w)) (update_rows (on_table T P) (map_table T f) (rows (view w))) U"
  shows "rewrites_at view U (bindM (update_table E T P f) k) w"
  unfolding rewrites_at_def
proof
  assume h: "healthy (view w)"
  let ?rs = "update_rows (on_table T P) (map_table T f) (rows (view w))"
  show "\<exists>rs'. view (snd (bindM (update_table E T P f) k w)) = (view w)\<lparr>rows := rs'\<rparr> \<and>
      entitles_alike (rows (view w)) rs' (if isl (fst (bindM (update_table E T P f) k w)) then {} else U)"
  proof (cases "conflict_free ?rs")
    case False
    then show ?thesis
      using run_update_conflict [OF h False]
      by (intro exI [of _ "rows (view w)"]) (simp add: bindM_def entitles_alike_refl)
  next
    case True
    note run = run_update [OF h assms(1) True]
    obtain ys where ys: "fst (update_table E T P f w) = Inr ys" using run(1) by (blast dest: not_isl)
    have "entitles_alike (rows (view w)) ?rs {}" if "ys = []"
      using run(3) that ys untouched_rows(1) [of P "rows (view w)" T] 
      by (simp add: entitles_alike_refl flip: mset_filter)
    then show ?thesis
      using run(2) ys assms(2,3)
      by (intro exI [of _ ?rs]) (auto simp: bindM_def checks_rows_def)
  qed
qed

lemma softDelete_rewrites:
  assumes "table_ok T" "checks_rows k"
    and "\<And>t. entitles_alike (rows (view w))
      (update_rows (on_table T (alive del [P])) (map_table T (set_del t)) (rows (view w))) U"
  shows "rewrites_at view U (bindM (softDelete E T del set_del P) k) w"
proof -
  have "bindM (softDelete E T del set_del P) k w =
      bindM (update_table E T (alive del [P]) (set_del (Some (now_ms E w)))) k w"
    by (simp only: bindM_def softDelete_def)
  then show ?thesis
    using update_rewrites [OF assms(1,2), of w "alive del [P]" "set_del (Some (now_ms E w))" U] assms(3)
    by (simp add: rewrites_at_def)
qed

lemma delete_rewrites:
  assumes "checks_rows k"
    and "entitles_alike (rows (view w)) (filter (\<lambda>r. \<not> on_table T P r) (rows (view w))) U"
  shows "rewrites_at view U (bindM (delete_from E T P) k) w"
  unfolding rewrites_at_def
proof
  assume h: "healthy (view w)"
  let ?rs = "filter (\<lambda>r. \<not> on_table T P r) (rows (view w))"
  note run = run_delete [OF h, of T P]
  obtain ys where ys: "fst (delete_from E T P w) = Inr ys" using run(1) by (blast dest: not_isl)
  have "entitles_alike (rows (view w)) ?rs {}" if "ys = []"
    using run(3) that ys untouched_rows(2) [of P "rows (view w)" T]
    by (simp add: entitles_alike_refl flip: mset_filter)
  then show "\<exists>rs'. view (snd (bindM (delete_from E T P) k w)) = (view w)\<lparr>rows := rs'\<rparr> \<and>
      entitles_alike (rows (view w)) rs' (if isl (fst (bindM (delete_from E T P) k w)) then {} else U)"
    using run(2) ys assms by (intro exI [of _ ?rs]) (auto simp: bindM_def checks_rows_def)
qed

lemma insert_rewrites:
  assumes "m = insert_into E T mk \<or> m = insert_or_ignore E T mk" "table_ok T" "checks_rows k"
    and "\<And>i. fresh_id (rows (view w)) (emb T (mk i)) i \<Longrightarrow>
      entitles_alike (rows (view w)) (rows (view w) @ [emb T (mk i)]) U"
  shows "rewrites_at view U (bindM m k) w"
  unfolding rewrites_at_def
proof
  assume h: "healthy (view w)"
  obtain i where i: "fresh_id (rows (view w)) (emb T (mk i)) i"
    and run: "view (snd (m w)) = view w \<and> (isl (fst (m w)) \<or> fst (m w) = Inr []) \<or>
      fst (m w) = Inr [mk i] \<and> view (snd (m w)) = (view w)\<lparr>rows := rows (view w) @ [emb T (mk i)]\<rparr>"
  proof (cases "m = insert_into E T mk")
    case True
    then show ?thesis using that run_insert [OF h assms(2), of mk] by (auto split: if_splits)
  next
    case False
    then show ?thesis using that assms(1) run_insert_or_ignore [OF h assms(2), of mk] by (auto split: if_splits)
  qed
  from run show "\<exists>rs'. view (snd (bindM m k w)) = (view w)\<lparr>rows := rs'\<rparr> \<and>
      entitles_alike (rows (view w)) rs' (if isl (fst (bindM m k w)) then {} else U)"
  proof
    assume "view (snd (m w)) = view w \<and> (isl (fst (m w)) \<or> fst (m w) = Inr [])"
    then show ?thesis using assms(3)
      by (intro exI [of _ "rows (view w)"]) (auto simp: bindM_def entitles_alike_refl checks_rows_def split: sum.splits)
  next
    assume "fst (m w) = Inr [mk i] \<and> view (snd (m w)) = (view w)\<lparr>rows := rows (view w) @ [emb T (mk i)]\<rparr>"
    then show ?thesis using assms(3) assms(4) [OF i]
      by (intro exI [of _ "rows (view w) @ [emb T (mk i)]"]) (auto simp: bindM_def checks_rows_def)
  qed
qed

lemma write_safe:
  assumes "rewrites_at view U m w" "U \<subseteq> set us"
  shows "safe_at view (authorization_writeAndInvalidate E m us) w"
  unfolding safe_at_def
proof
  assume h: "healthy (view w)"
  then obtain rs' where v: "view (snd (m w)) = (view w)\<lparr>rows := rs'\<rparr>"
    and e: "entitles_alike (rows (view w)) rs' (if isl (fst (m w)) then {} else U)"
    using assms(1) by (auto simp: rewrites_at_def)
  have h': "healthy (view (snd (m w)))" using h v by simp
  show "healthy (view (snd (authorization_writeAndInvalidate E m us w))) \<and>
      (authz_ok (view w) \<longrightarrow> authz_ok (view (snd (authorization_writeAndInvalidate E m us w))))"
  proof (cases "fst (m w)")
    case (Inl err)
    then show ?thesis
      using h' e v authz_ok_step [of "view w" "(view w)\<lparr>rows := rs'\<rparr>" "{}"]
      by (simp add: authorization_writeAndInvalidate_def writeAndInvalidate_eq)
  next
    case (Inr r)
    then have "view (snd (authorization_writeAndInvalidate E m us w)) =
        del_keys (map userAuthorizationCacheKey us) ((view w)\<lparr>rows := rs'\<rparr>)"
      using h' v by (simp add: authorization_writeAndInvalidate_def writeAndInvalidate_eq)
    then show ?thesis
      using h' e v Inr assms(2) authz_ok_step [of "view w" _ U] by (auto simp: subset_eq)
  qed
qed

text \<open>What the reads before a write tell.\<close>

lemma query_run:
  assumes "healthy (view w)"
  shows "\<exists>rs. fst (db_query E f w) = Inr (f rs) \<and> mset rs = mset (rows (view w))"
  using select [of w "\<lambda>_. True"] assms by (auto simp: db_query_def bindM_def)

lemma same_contents: "mset rs = mset rs' \<Longrightarrow> set (contents rs T) = set (contents rs' T)"
  by (rule mset_eq_setD) (rule contents_mset)

lemma reads_query: "reads_at view (db_query E f) w"
  by (rule reads_keeps) (rule keeps_db_query)

lemma reads_select: "reads_at view (select_from E T P) w"
  by (rule reads_keeps) (rule keeps_select)

lemma reads_assertions:
  "reads_at view (assertCanMutateUser E r t) w" "reads_at view (assertRoleExists E i) w"
  "reads_at view (assertPermissionExists E i) w" "reads_at view (assertUserExists E i) w"
  unfolding assertCanMutateUser_def assertRoleExists_def assertPermissionExists_def assertUserExists_def
  by (rule reads_keeps; intro keeps_intros keeps_select)+

lemma selected_exists:
  assumes "healthy (view w)" "fst (select_from E T P w) = Inr xs" "xs \<noteq> []"
  shows "\<exists>x \<in> set (contents (rows (view w)) T). P x"
proof -
  have "mset xs = filter_mset P (mset (contents (rows (view w)) T))"
    using run_select(3) [OF assms(1), of T P] assms(2) by simp
  then have "set xs = {x \<in> set (contents (rows (view w)) T). P x}"
    by (metis set_mset_filter set_mset_mset)
  moreover obtain x where "x \<in> set xs" using assms(3) by (cases xs) auto
  ultimately show ?thesis by auto
qed

lemma role_exists:
  assumes "healthy (view w)" "fst (assertRoleExists E i w) = Inr a"
  shows "\<exists>r \<in> set (contents (rows (view w)) roles). rol_id r = i"
proof -
  obtain xs where "fst (select_from E roles (alive_role i) w) = Inr xs" "xs \<noteq> []"
    using assms(2) by (auto simp: assertRoleExists_def bindM_def split: sum.splits if_splits)
  from selected_exists [OF assms(1) this] show ?thesis by (auto simp: alive_role_def alive_def)
qed

lemma permission_exists:
  assumes "healthy (view w)" "fst (assertPermissionExists E i w) = Inr a"
  shows "\<exists>p \<in> set (contents (rows (view w)) permissions). prm_id p = i"
proof -
  obtain xs where "fst (select_from E permissions (alive_permission i) w) = Inr xs" "xs \<noteq> []"
    using assms(2) by (auto simp: assertPermissionExists_def bindM_def split: sum.splits if_splits)
  from selected_exists [OF assms(1) this] show ?thesis by (auto simp: alive_permission_def alive_def)
qed

lemma members_listed:
  assumes "healthy (view w)" "fst (listRoleMemberUserIds E i w) = Inr us"
  shows "set us = {ur_userId ur |ur. ur \<in> set (contents (rows (view w)) userRoles) \<and> ur_roleId ur = i}"
proof -
  obtain rs where "us = role_members i rs" "mset rs = mset (rows (view w))"
    using query_run [OF assms(1), of "role_members i"] assms(2) by (auto simp: listRoleMemberUserIds_def)
  then show ?thesis using same_contents [of rs "rows (view w)" userRoles] by (auto simp: role_members_def)
qed

lemma set_permission_holders:
  "set (permission_holders i rs) = {ur_userId ur |ur rp. ur \<in> set (contents rs userRoles) \<and>
     rp \<in> set (contents rs rolePermissions) \<and> ur_roleId ur = rp_roleId rp \<and> rp_permissionId rp = i}"
  by (fastforce simp: permission_holders_def)

lemma holders_listed:
  assumes "healthy (view w)" "fst (listPermissionHolderUserIds E i w) = Inr us"
  shows "set us = {ur_userId ur |ur rp. ur \<in> set (contents (rows (view w)) userRoles) \<and>
    rp \<in> set (contents (rows (view w)) rolePermissions) \<and> ur_roleId ur = rp_roleId rp \<and>
    rp_permissionId rp = i}"
proof -
  obtain rs where "us = permission_holders i rs" "mset rs = mset (rows (view w))"
    using query_run [OF assms(1), of "permission_holders i"] assms(2)
    by (auto simp: listPermissionHolderUserIds_def)
  then show ?thesis
    by (simp add: set_permission_holders same_contents [of rs "rows (view w)"])
qed

end

section \<open>The operations on accounts\<close>

context services
begin

lemma patch_user_rewrites:
  assumes "\<And>x. usr_id (f x) = usr_id x"
    and "(\<forall>x. usr_isRoot (f x) = usr_isRoot x \<and> usr_enabled (f x) = usr_enabled x \<and>
        usr_deletedAt (f x) = usr_deletedAt x) \<or> i \<in> U"
  shows "rewrites_at view U (bindM (patch_user E i f) (\<lambda>u. returnM (g u))) w"
proof -
  have "entitles_alike (rows (view w))
      (update_rows (on_table users (alive_user (\<lambda>u. usr_id u = i))) (map_table users f) (rows (view w))) U"
    using assms(2)
  proof
    assume "i \<in> U"
    then show ?thesis by (intro user_update_entitles assms(1)) (simp add: alive_user_def alive_def)
  qed (use assms(1) in \<open>simp add: user_patch_entitles\<close>)
  then show ?thesis
    unfolding patch_user_def bindM_assoc by (intro update_rewrites) simp_all
qed

lemma update_user_safe: "safe_at view (update_user E r t d) w"
  unfolding update_user_def
  by (intro safe_then reads_assertions safe_rewrites patch_user_rewrites) simp_all

lemma setPassword_safe: "safe_at view (setPassword E scrypt salt r t p) w"
  unfolding setPassword_def
  by (intro safe_then reads_assertions safe_rewrites patch_user_rewrites) simp_all

lemma user_setEnabled_safe: "safe_at view (user_setEnabled E r t e) w"
  unfolding user_setEnabled_def
  by (intro safe_then reads_assertions write_safe [of "{t}"] patch_user_rewrites) simp_all

lemma remove_user_safe: "safe_at view (remove_user E r t) w"
proof -
  have "rewrites_at view {t} (bindM (softDelete E users usr_deletedAt set_user_deleted (\<lambda>u. usr_id u = t))
      (\<lambda>rs. if rs = [] then throwM (Http 404 MUserMissing) else returnM True)) w'" for w'
    by (intro softDelete_rewrites user_update_entitles) (simp_all add: set_user_deleted_def alive_def)
  then show ?thesis
    unfolding remove_user_def by (intro safe_then reads_assertions write_safe [of "{t}"]) simp_all
qed

lemma create_user_safe: "safe_at view (create_user E scrypt salt n p r d) w"
proof -
  have "safe_at view (\<lambda>w. bindM (insert_into E users (new_user n h r d (pg_now E w))) (\<lambda>rs. returnM (map_option publicUserSelection (first rs))) w) w'" for h w'
  proof -
    have "safe_at view (bindM (insert_into E users (new_user n h r d (pg_now E w')))
        (\<lambda>rs. returnM (map_option publicUserSelection (first rs)))) w'"
      by (rule safe_rewrites, rule insert_rewrites [OF disjI1 [OF refl]]) (simp_all add: user_insert_entitles)
    then show ?thesis by (simp add: safe_at_def)
  qed
  then show ?thesis
    unfolding create_user_def findByUsername_def
    by (intro safe_bind reads_keeps keeps_intros keeps_select) (simp add: safe_reads reads_atI)
qed

lemma updateLastLogin_safe: "safe_at view (updateLastLogin E i) w"
proof -
  have "safe_at view (bindM (update_table E users (\<lambda>u. usr_id u = i) (\<lambda>u. u\<lparr>usr_lastLoginAt := Some (now_ms E w)\<rparr>))
      (\<lambda>_. returnM ())) w"
    by (intro safe_rewrites update_rewrites user_patch_entitles) simp_all
  then show ?thesis
    by (simp add: safe_at_def updateLastLogin_def ignore_rows_def thenM_def bindM_def)
qed

lemma login_safe: 
  assumes "\<And>i n. keeps view (\<lambda>s. s) (signAsync i n)"
  shows "safe_at view (login E scrypt signAsync n p) w"
proof -
  have "safe_at view (thenM (ignoreM (updateLastLogin E i)) (returnM x)) w'" for i w' and x :: "string \<times> nat \<times> string \<times> string"
    using updateLastLogin_safe [of i w'] by (simp add: safe_at_def thenM_def)
  then show ?thesis
    unfolding login_def findByUsername_def
    by (intro safe_bind reads_keeps keeps_intros keeps_select)
      (auto intro!: safe_bind reads_keeps assms simp: safe_reads reads_atI split: option.splits)
qed

end

section \<open>The operations on permission groups\<close>

lemma fresh_role: "fresh_id rs (Role x) i \<Longrightarrow> \<forall>r \<in> set (contents rs roles). rol_id r \<noteq> i"
  by (fastforce simp: fresh_id_def in_contents row_id_def table_no_def)

lemma fresh_permission: "fresh_id rs (Permission x) i \<Longrightarrow> \<forall>p \<in> set (contents rs permissions). prm_id p \<noteq> i"
  by (fastforce simp: fresh_id_def in_contents row_id_def table_no_def)

context services
begin

lemma createRole_safe: "safe_at view (createRole E n d) w"
proof -
  have "rewrites_at view {} (bindM (insert_or_ignore E roles (new_role n d (pg_now E w)))
      (\<lambda>rs. case first rs of None \<Rightarrow> throwM (Http 409 MRoleExists) | Some r \<Rightarrow> returnM (with_permissions [] r))) w"
    by (intro insert_rewrites disjI2 refl)
      (auto simp: new_role_def checks_rows_def first_def
        intro!: role_insert_entitles dest!: fresh_role split: list.splits)
  from safe_rewrites [OF this] show ?thesis by (simp add: createRole_def safe_at_def)
qed

lemma createPermission_safe: "safe_at view (createPermission E a sb d) w"
  unfolding createPermission_def
  by (intro safe_rewrites insert_rewrites disjI2 refl)
    (auto simp: new_permission_def intro!: permission_insert_entitles dest!: fresh_permission)

lemma reads_includePermissions: "reads_at view (includePermissions E rs) w"
  unfolding includePermissions_def listRolePermissionRecords_def
  by (intro reads_keeps keeps_intros keeps_db_query)

lemma updateRole_safe: "safe_at view (updateRole E code_of i n d) w"
proof (cases "buildRoleUpdateValues n d")
  case (Inl e)
  then show ?thesis by (simp add: updateRole_def safe_reads reads_atI)
next
  case (Inr f)
  have f: "rol_id (f r) = rol_id r" "rol_deletedAt (f r) = rol_deletedAt r" for r
    using Inr by (auto simp: buildRoleUpdateValues_def split: if_splits)
  have "rewrites_at view {} (bindM (update_table E roles (alive_role i) f) returnM) w"
    by (intro update_rewrites role_update_entitles) (simp_all add: f checks_rows_def)
  then have s: "safe_at view (update_table E roles (alive_role i) f) w"
    by (intro safe_rewrites) (auto simp: rewrites_at_def bindM_def split: sum.splits)
  have "safe_at view (catchM (update_table E roles (alive_role i) f) (rethrowRoleUpdateError code_of)) w"
    using s by (auto simp: safe_at_def catchM_def rethrowRoleUpdateError_def split: sum.splits)
  then show ?thesis
    unfolding updateRole_def Inr sum.case
    by (intro safe_before_reads) (auto intro!: reads_atI simp: reads_includePermissions [unfolded reads_at_def, rule_format] bindM_def
        split: option.splits sum.splits)
qed

text \<open>First the users affected are listed, then the write is sent and their entries are dropped.\<close>

lemma listed_then_written:
  assumes "reads_at view m w"
    and "\<And>us w'. healthy (view w) \<Longrightarrow> fst (m w) = Inr us \<Longrightarrow> view w' = view w \<Longrightarrow> rewrites_at view (set us) n w'"
  shows "safe_at view (bindM m (authorization_writeAndInvalidate E n)) w"
  using assms by (intro safe_bind write_safe [OF _ subset_refl]) (simp_all add: reads_at_def)

text \<open>The same facts about a world \<open>w'\<close> that looks like \<open>w\<close>.\<close>

lemma existing:
  "fst (assertRoleExists E i w') = Inr a \<Longrightarrow> view w' = view w \<Longrightarrow> healthy (view w) \<Longrightarrow>
     \<exists>r \<in> set (contents (rows (view w)) roles). rol_id r = i"
  "fst (assertPermissionExists E i w') = Inr a \<Longrightarrow> view w' = view w \<Longrightarrow> healthy (view w) \<Longrightarrow>
     \<exists>p \<in> set (contents (rows (view w)) permissions). prm_id p = i"
  "fst (listRoleMemberUserIds E i w') = Inr us \<Longrightarrow> view w' = view w \<Longrightarrow> healthy (view w) \<Longrightarrow>
     ur \<in> set (contents (rows (view w)) userRoles) \<Longrightarrow> ur_roleId ur = i \<Longrightarrow> ur_userId ur \<in> set us"
  using role_exists [of w' i a] permission_exists [of w' i a] members_listed [of w' i us] by auto

lemma reads_members: "reads_at view (listRoleMemberUserIds E i) w" "reads_at view (listPermissionHolderUserIds E i) w"
  by (simp_all add: listRoleMemberUserIds_def listPermissionHolderUserIds_def reads_query)

lemma deleteRole_safe: "safe_at view (deleteRole E i) w"
  unfolding deleteRole_def
  by (intro listed_then_written reads_members softDelete_rewrites role_update_entitles)
    (auto simp: set_role_deleted_def alive_def members_listed)

lemma deletePermission_safe: "safe_at view (deletePermission E i) w"
  unfolding deletePermission_def
  by (intro listed_then_written reads_members softDelete_rewrites permission_update_entitles)
    (auto simp: set_permission_deleted_def alive_def holders_listed)

lemma relation_insert_rewrites:
  assumes "\<exists>p \<in> set (contents (rows (view w)) permissions). prm_id p = j"
    and "\<forall>ur \<in> set (contents (rows (view w)) userRoles). ur_roleId ur = i \<longrightarrow> ur_userId ur \<in> U" "checks_rows k"
  shows "rewrites_at view U (bindM (insert_or_ignore E rolePermissions
    (\<lambda>_. \<lparr>rp_roleId = i, rp_permissionId = j, rp_description = None\<rparr>)) k) w"
  by (rule insert_rewrites [OF disjI2 [OF refl]]) (simp_all add: assms relation_insert_entitles)

lemma member_insert_rewrites:
  assumes "\<exists>r \<in> set (contents (rows (view w)) roles). rol_id r = i" "checks_rows k"
  shows "rewrites_at view {t} (bindM (insert_or_ignore E userRoles
    (\<lambda>_. \<lparr>ur_userId = t, ur_roleId = i, ur_description = None\<rparr>)) k) w"
  by (rule insert_rewrites [OF disjI2 [OF refl]]) (simp_all add: assms member_insert_entitles)

lemma attachPermission_safe: "safe_at view (attachPermission E i j) w"
  unfolding attachPermission_def
  by (intro safe_then reads_assertions listed_then_written reads_members relation_insert_rewrites)
    (simp_all, (metis existing)+)

lemma detachPermission_safe: "safe_at view (detachPermission E i j) w"
  unfolding detachPermission_def
  by (intro listed_then_written reads_members delete_rewrites relation_delete_entitles)
    (auto simp: members_listed)

lemma unassignRole_safe: "safe_at view (unassignRole E r t i) w"
  unfolding unassignRole_def
  by (intro safe_then reads_assertions write_safe [of "{t}"] delete_rewrites member_delete_entitles) auto

lemma assignRole_safe: "safe_at view (assignRole E r t i) w"
  unfolding assignRole_def
  by (intro safe_then reads_assertions write_safe [of "{t}"] member_insert_rewrites) (simp_all, metis existing(1))

end

section \<open>The authentication reads the truth\<close>

lemma users_unique:
  assumes "conflict_free rs" "x \<in> set (contents rs users)" "y \<in> set (contents rs users)" "usr_id x = usr_id y"
  shows "x = y"
proof -
  have "User x = User y"
    using assms by (intro conflict_free_pair [OF assms(1)]) (auto simp: in_contents conflicts_def user_conflict_def)
  then show ?thesis by simp
qed

lemma user_of_found:
  assumes "conflict_free rs" "mset xs = filter_mset (alive_user (\<lambda>x. usr_id x = u)) (mset (contents rs users))"
  shows "first xs = user_of rs u"
proof (cases xs)
  case Nil
  then show ?thesis
    using assms(2) by (auto simp: user_of_def find_None_iff2 filter_empty_conv simp flip: mset_filter dest!: sym [of "{#}"])
next
  case (Cons x ys)
  have "set xs = {x \<in> set (contents rs users). alive_user (\<lambda>x. usr_id x = u) x}"
    using assms(2) by (metis set_mset_filter set_mset_mset)
  then have x: "x \<in> set (contents rs users)" "alive_user (\<lambda>x. usr_id x = u) x" using Cons by auto
  then obtain y where y: "user_of rs u = Some y" by (cases "user_of rs u") (auto simp: user_of_def find_None_iff)
  then have "y \<in> set (contents rs users)" "usr_id y = u"
    by (auto simp: user_of_def find_Some_iff alive_user_def alive_def)
  then have "y = x" using users_unique [OF assms(1) x(1)] x(2) by (simp add: alive_user_def alive_def)
  then show ?thesis using Cons y by simp
qed

context services
begin

lemma reads_load: "reads_at view (load_authorization E u) w"
  unfolding load_authorization_def findAuthUser_def getUserPermissions_def
  by (intro reads_keeps keeps_intros keeps_select keeps_db_query)

lemma findAuthUser_run:
  assumes "healthy (view w)"
  shows "fst (findAuthUser E u w) = Inr (map_option (\<lambda>x. (usr_id x, usr_isRoot x, usr_enabled x)) (user_of (rows (view w)) u))"
    and "view (snd (findAuthUser E u w)) = view w"
proof -
  note run = run_select [OF assms, of users "alive_user (\<lambda>x. usr_id x = u)"]
  obtain xs where xs: "fst (select_from E users (alive_user (\<lambda>x. usr_id x = u)) w) = Inr xs"
    using run(1) by (blast dest: not_isl)
  then have "first xs = user_of (rows (view w)) u"
    using run(3) indexes [of w] assms by (intro user_of_found) simp_all
  then show "fst (findAuthUser E u w) = Inr (map_option (\<lambda>x. (usr_id x, usr_isRoot x, usr_enabled x)) (user_of (rows (view w)) u))"
    "view (snd (findAuthUser E u w)) = view w"
    using xs run(2) by (simp_all add: findAuthUser_def bindM_def)
qed

lemma user_permissions_same:
  assumes "mset rs = mset rs'"
  shows "set (user_permissions u rs) = set (user_permissions u rs')"
  by (simp add: set_eq_iff set_user_permissions role_live_def role_grants_def permission_grants_def
      same_contents [OF assms])

end

text \<open>What the database says of an account, and of the bearer of a token.\<close>

definition account_verdict :: "(bool \<times> bool \<times> (string \<times> string) set) option \<Rightarrow> exn + (bool \<times> (string \<times> string) set)" where
  "account_verdict r =
     (case r of
        None \<Rightarrow> Inl (Http 401 MAccountGone)
      | Some (isRoot, enabled, ps) \<Rightarrow>
          if enabled then Inr (isRoot, ps) else Inl (Http 403 MAccountDisabled))"

definition bearer_verdict :: "row list \<Rightarrow> jwt_payload \<Rightarrow> exn + (nat \<times> bool \<times> (string \<times> string) set)" where
  "bearer_verdict rs payload =
     (case sub_number payload of
        None \<Rightarrow> Inl (Http 401 MCredentialInvalid)
      | Some i \<Rightarrow>
          if i < 1 then Inl (Http 401 MCredentialInvalid)
          else map_sum id (\<lambda>x. (nat i, x)) (account_verdict (auth_of rs (nat i))))"

definition bearer :: "authenticated_user \<Rightarrow> nat \<times> bool \<times> (string \<times> string) set" where
  "bearer u = (au_id u, au_isRoot u, set (au_permissions u))"

context services
begin

lemma load_authorization_run:
  assumes "healthy (view w)"
  shows "fst (load_authorization E u w) = Inl e \<Longrightarrow> account_verdict (auth_of (rows (view w)) u) = Inl e"
    and "fst (load_authorization E u w) = Inr a \<Longrightarrow> auth_of (rows (view w)) u = Some (snapshot_rights a)"
proof -
  note f = findAuthUser_run [OF assms, of u]
  let ?w = "snd (findAuthUser E u w)"
  obtain rs where p: "fst (getUserPermissions E u ?w) = Inr (user_permissions u rs)"
    and rs: "mset rs = mset (rows (view w))"
    using query_run [of ?w "user_permissions u"] assms f(2) by (auto simp: getUserPermissions_def)
  have "fst (load_authorization E u w) = (case user_of (rows (view w)) u of
      None \<Rightarrow> Inl (Http 401 MAccountGone)
    | Some x \<Rightarrow> if \<not> usr_enabled x then Inl (Http 403 MAccountDisabled)
        else Inr \<lparr>as_isRoot = usr_isRoot x, as_enabled = usr_enabled x, as_permissions = user_permissions u rs\<rparr>)"
    using p f(1) by (simp add: load_authorization_def bindM_def split: option.splits)
  note this [simp]
  show "fst (load_authorization E u w) = Inl e \<Longrightarrow> account_verdict (auth_of (rows (view w)) u) = Inl e"
    by (cases "user_of (rows (view w)) u") (simp_all add: auth_of_def account_verdict_def split: if_splits)
  show "fst (load_authorization E u w) = Inr a \<Longrightarrow> auth_of (rows (view w)) u = Some (snapshot_rights a)"
    by (cases "user_of (rows (view w)) u")
      (simp_all add: auth_of_def snapshot_rights_def user_permissions_same [OF rs, symmetric] split: if_splits,
        drule sym, simp)
qed

lemma authorization_load_run:
  fixes u :: nat and ttl :: int
  assumes "healthy (view w)" "authz_ok (view w)"
  defines "r \<equiv> authorization_getOrLoad E ttl u (load_authorization E u) w"
  shows "fst r = Inl e \<Longrightarrow> account_verdict (auth_of (rows (view w)) u) = Inl e"
    and "fst r = Inr a \<Longrightarrow> auth_of (rows (view w)) u = Some (snapshot_rights a)"
    and "healthy (view (snd r)) \<and> authz_ok (view (snd r)) \<and> rows (view (snd r)) = rows (view w)"
proof -
  let ?k = "userAuthorizationCacheKey u"
  define c where "c = cached (view w) ?k authorizationSnapshotSchema"
  define w1 where "w1 = snd (cache_get E ?k authorizationSnapshotSchema w)"
  define l where "l = load_authorization E u w1"
  have key: "\<not> is_set_key ?k" by simp
  note g = cache_get_run [OF assms(1) key, of authorizationSnapshotSchema, folded c_def w1_def]
  have ok1: "authz_ok (view w1)"
    by (rule authz_ok_same_rows [OF assms(2) g(2)]) (use g(4) in \<open>auto split: if_splits\<close>)
  have w2: "view (snd l) = view w1" using reads_load g(3) by (auto simp: reads_at_def l_def)
  note load = load_authorization_run [OF g(3), of u, folded l_def, unfolded g(2)]
  have r: "r = (case c of Some x \<Rightarrow> (Inr x, w1)
      | None \<Rightarrow> (case fst l of Inl e \<Rightarrow> (Inl e, snd l)
          | Inr x \<Rightarrow> (Inr x, snd (cache_set E ?k (snapshot_json x) ttl (snd l)))))"
    unfolding r_def authorization_getOrLoad_def getOrLoad_eq l_def w1_def Let_def g(1) sum.sel ..
  have hit: "auth_of (rows (view w)) u = Some (snapshot_rights x)" if "c = Some x" for x
    using assms(2) that by (simp add: authz_ok_def cached_authorization_def c_def)
  show "fst r = Inl e \<Longrightarrow> account_verdict (auth_of (rows (view w)) u) = Inl e"
    using r load(1) by (cases c; cases "fst l") auto
  show "fst r = Inr a \<Longrightarrow> auth_of (rows (view w)) u = Some (snapshot_rights a)"
    using r hit load(2) by (cases c; cases "fst l") auto
  define S where "S = (\<lambda>x. view (snd (cache_set E ?k (snapshot_json x) ttl (snd l))))"
  have "healthy (S x) \<and> authz_ok (S x) \<and> rows (S x) = rows (view w)" if "fst l = Inr x" for x
  proof -
    define t where "t = S x"
    have t: "t = (if ttl \<le> 0 then view w1 else put_str ?k (stringify (snapshot_json x)) (Some (seconds (nat ttl))) (view w1))"
      using w2 g(3) by (simp add: t_def S_def)
    have c: "cached_authorization t v = (if v = u \<and> 0 < ttl then Some x else cached_authorization (view w1) v)" for v
      using authorization.cached_after_put by (simp add: t cached_authorization_def cached_def)
    have t': "rows t = rows (view w)" "healthy t" using g(2,3) by (simp_all add: t)
    have "auth_of (rows (view w)) v = Some (snapshot_rights a)" if "cached_authorization t v = Some a" for v a
    proof (cases "v = u \<and> 0 < ttl")
      case True
      then show ?thesis using that load(2) [OF \<open>fst l = Inr x\<close>] by (simp add: c)
    next
      case False
      then have "cached_authorization (view w1) v = Some a" using that by (simp only: c if_False)
      then show ?thesis using ok1 g(2) by (simp add: authz_ok_def)
    qed
    moreover have "references_ok (rows (view w))" using assms(2) unfolding authz_ok_def ..
    ultimately show ?thesis using t' by (simp add: authz_ok_def flip: t_def)
  qed
  then show "healthy (view (snd r)) \<and> authz_ok (view (snd r)) \<and> rows (view (snd r)) = rows (view w)"
    using r g(2,3) ok1 w2 by (cases c; cases "fst l") (auto simp: S_def)
qed

text \<open>
  The user of a request is the one the database knows, with the rights it gives him.
\<close>

lemma jwt_validate_run:
  assumes "healthy (view w)" "authz_ok (view w)"
  shows "map_sum id bearer (fst (jwt_validate E ttl p w)) = bearer_verdict (rows (view w)) p \<and>
    healthy (view (snd (jwt_validate E ttl p w))) \<and> authz_ok (view (snd (jwt_validate E ttl p w))) \<and>
    rows (view (snd (jwt_validate E ttl p w))) = rows (view w)"
proof (cases "\<exists>i. sub_number p = Some i \<and> 1 \<le> i")
  case True
  then obtain i where i: "sub_number p = Some i" "\<not> i < 1" by force
  define r where "r = authorization_getOrLoad E ttl (nat i) (load_authorization E (nat i)) w"
  note run = authorization_load_run [OF assms, of ttl "nat i", folded r_def]
  have "jwt_validate E ttl p w =
      (case fst r of Inl e \<Rightarrow> (Inl e, snd r) | Inr a \<Rightarrow> buildAuthenticatedUser p (nat i) a (snd r))"
    unfolding jwt_validate_def r_def bindM_def using i by simp
  then show ?thesis
    using run i
    by (cases "fst r")
      (auto simp: bearer_verdict_def buildAuthenticatedUser_def account_verdict_def snapshot_rights_def bearer_def)
next
  case False
  then show ?thesis
    using assms by (auto simp: jwt_validate_def bearer_verdict_def not_le split: option.splits)
qed

end

end
