(* ===== verification/Console_Authorization.thy ===== *)
theory Console_Authorization
  imports Audit_Trail Authorization_Coherence
begin

text \<open>
  The console over time: in every state that requests to it can reach, what is cached of a user's
  authorization is what the database says, so the guards decide every request by the database.
\<close>

section \<open>Every request keeps the cache true\<close>

lemma safe_answer: "safe_at view m w \<Longrightarrow> safe_at view (answer f m) w"
  unfolding answer_def by (rule safe_before_reads(1)) (simp_all add: reads_at_def)

lemma safe_outcome:
  assumes "safe_at view m w" "m w = (oc, w1)"
  shows "healthy (view w) \<Longrightarrow> healthy (view w1)" "healthy (view w) \<Longrightarrow> authz_ok (view w) \<Longrightarrow> authz_ok (view w1)"
  using assms by (auto simp: safe_at_def)

context services
begin

lemma recordSafely_safe: "safe_at view (recordSafely E entry) w"
proof -
  have "safe_at view (bindM (insert_into E systemLogs (entry (pg_now E w))) (\<lambda>_. returnM ())) w"
    by (rule safe_rewrites, rule insert_rewrites [OF disjI1 [OF refl]])
      (simp_all add: checks_rows_def entitles_alike_tables)
  then show ?thesis
    by (auto simp: safe_at_def recordSafely_def create_system_log_def catchM_def ignore_rows_def thenM_def bindM_def
        split: sum.splits)
qed

lemma filter_safe: "safe_at view (exceptions_filter E tx r u recorded e) w"
  using recordSafely_safe
  by (auto simp: safe_at_def exceptions_filter_def recordGuardOrRoutingFailure_def thenM_def split: option.splits)

lemma intercept_safe:
  assumes "safe_at view m w"
  shows "safe_at view (intercept E tx ex r u n m) w"
proof -
  obtain oc w1 where m: "m w = (oc, w1)" by fastforce
  show ?thesis
    using safe_outcome [OF assms m] recordSafely_safe [of _ w1] assms
    by (cases oc) (auto simp: safe_at_def intercept_def m thenM_def split: option.splits)
qed

lemma console_reads:
  "reads_at view (list_users E q) w" "reads_at view (user_by_id E i) w" "reads_at view (listRoles E rq) w"
  "reads_at view (listRoleOptions E) w" "reads_at view (listPermissions E pq) w"
  "reads_at view (listPermissionOptions E) w" "reads_at view (listUserRoles E i) w"
  "reads_at view (list_system_logs E lq) w"
  unfolding list_users_def user_by_id_def listRoles_def listRoleOptions_def listPermissions_def
    listPermissionOptions_def listUserRoles_def list_system_logs_def Let_def
  by (rule reads_keeps; intro keeps_intros keeps_select keeps_db_query keeps_paginate keeps_select_page
      keeps_includePermissions keeps_assertions)+

lemma handle_route_safe:
  assumes "\<And>i n. keeps view (\<lambda>s. s) (cs_sign C i n)"
  shows "safe_at view (handle_route (endpoint_of E C salt route) user) w"
proof -
  have "safe_at view (ep_handle (endpoint_of E C salt route) user) w"
    using login_safe assms
    by (cases route; cases user)
      (auto simp: controller_defs with_user_def
        split: auth_route.splits users_route.splits roles_route.splits permissions_route.splits
          relations_route.splits
        intro!: safe_answer safe_reads [OF console_reads(1)] safe_reads [OF console_reads(2)]
          safe_reads [OF console_reads(3)] safe_reads [OF console_reads(4)] safe_reads [OF console_reads(5)]
          safe_reads [OF console_reads(6)] safe_reads [OF console_reads(7)] safe_reads [OF console_reads(8)]
          update_user_safe setPassword_safe user_setEnabled_safe remove_user_safe create_user_safe
          createRole_safe createPermission_safe updateRole_safe deleteRole_safe deletePermission_safe
          attachPermission_safe detachPermission_safe assignRole_safe unassignRole_safe
        simp: safe_reads reads_at_def)
  then show ?thesis by (simp add: handle_route_def safe_reads reads_at_def)
qed

end

text \<open>Who the first guard lets through, by the database.\<close>

definition bearer_admission ::
  "row list \<Rightarrow> requirement \<Rightarrow> jwt_payload option \<Rightarrow> exn + (nat \<times> bool \<times> (string \<times> string) set) option" where
  "bearer_admission rs required verified =
     (if required = IsPublic then Inr None
      else case verified of
             None \<Rightarrow> Inl (Http 401 (MText ''Unauthorized''))
           | Some p \<Rightarrow> map_sum id Some (bearer_verdict rs p))"

context services
begin

lemma jwt_guard_run:
  assumes "healthy (view w)" "authz_ok (view w)"
  shows "healthy (view (snd (jwt_guard E ttl required verified w))) \<and>
    authz_ok (view (snd (jwt_guard E ttl required verified w))) \<and>
    rows (view (snd (jwt_guard E ttl required verified w))) = rows (view w) \<and>
    map_sum id (map_option bearer) (fst (jwt_guard E ttl required verified w)) =
      bearer_admission (rows (view w)) required verified"
proof (cases "required = IsPublic \<or> verified = None")
  case True
  then show ?thesis using assms by (auto simp: jwt_guard_def bearer_admission_def)
next
  case False
  then obtain p where p: "verified = Some p" by blast
  obtain oc w1 where j: "jwt_validate E ttl p w = (oc, w1)" by fastforce
  show ?thesis
    using jwt_validate_run [OF assms, of ttl p] False p
    by (cases oc) (auto simp: jwt_guard_def bearer_admission_def j bindM_def dest: sym)
qed

lemma serve_safe:
  assumes "\<And>i n. keeps view (\<lambda>s. s) (cs_sign C i n)" "healthy (view w)" "authz_ok (view w)"
  shows "healthy (view (snd (serve E C request (endpoint_of E C salt route) verified w))) \<and>
    authz_ok (view (snd (serve E C request (endpoint_of E C salt route) verified w)))"
proof -
  let ?ep = "endpoint_of E C salt route"
  obtain g w1 where g: "jwt_guard E (cs_ttl C) (ep_requirement ?ep) verified w = (g, w1)" by fastforce
  have h1: "healthy (view w1)" "authz_ok (view w1)"
    using jwt_guard_run [OF assms(2,3), of "cs_ttl C" "ep_requirement ?ep" verified] by (simp_all add: g)
  have f: "healthy (view (snd (exceptions_filter E tx request u b e w')))"
    "authz_ok (view (snd (exceptions_filter E tx request u b e w')))"
    if "healthy (view w')" "authz_ok (view w')" for tx u b e w'
    using filter_safe [of tx request u b e w'] that by (simp_all add: safe_at_def)
  show ?thesis
  proof (cases g)
    case (Inr user)
    obtain oc w2 where i: "intercept E (cs_texts C) (ep_audit ?ep) request (map_option audited_user_of user)
        (success_status request) (handle_route ?ep user) w1 = (oc, w2)" by fastforce
    note h2 = safe_outcome [OF intercept_safe [OF handle_route_safe [OF assms(1)]] i]
    show ?thesis
      using Inr h1 h2 f by (cases "permission_guards (cs_can C) ?ep user"; cases oc) (simp_all add: serve_def g i)
  qed (use h1 f in \<open>simp add: serve_def g\<close>)
qed

end

section \<open>Runs\<close>

text \<open>
  What happens beside the requests to the console (calls, devices, the worker, the expiry of keys) does
  not write to the tables of accounts, and adds nothing to the cache of authorizations.
\<close>

definition leaves_accounts :: "store \<Rightarrow> store \<Rightarrow> bool" where
  "leaves_accounts s t \<longleftrightarrow> healthy t \<and> table_of users t = table_of users s \<and> table_of roles t = table_of roles s \<and>
     table_of permissions t = table_of permissions s \<and> table_of userRoles t = table_of userRoles s \<and>
     table_of rolePermissions t = table_of rolePermissions s \<and>
     (\<forall>u. strs t (userAuthorizationCacheKey u) = strs s (userAuthorizationCacheKey u) \<or>
        strs t (userAuthorizationCacheKey u) = None)"

inductive console_run :: "'w env \<Rightarrow> ('w \<Rightarrow> store) \<Rightarrow> 'w console \<Rightarrow> 'w \<Rightarrow> 'w \<Rightarrow> bool" for E view C w0 where
  start: "console_run E view C w0 w0"
| request: "console_run E view C w0 w \<Longrightarrow>
    console_run E view C w0 (snd (serve E C request (endpoint_of E C salt route) verified w))"
| elsewhere: "console_run E view C w0 w \<Longrightarrow> leaves_accounts (view w) (view w') \<Longrightarrow> console_run E view C w0 w'"

lemma console_run_ok:
  assumes "console_run E view C w0 w" "services E view" "\<And>i n. keeps view (\<lambda>s. s) (cs_sign C i n)"
    and "healthy (view w0)" "authz_ok (view w0)"
  shows "healthy (view w) \<and> authz_ok (view w)"
  using assms(1)
proof (induction rule: console_run.induct)
  case start
  then show ?case using assms(4,5) ..
next
  case (request w rq salt route verified)
  then show ?case using services.serve_safe [where C = C, OF assms(2,3)] by blast
next
  case (elsewhere w w')
  then show ?case
    using authz_ok_step [OF _ entitles_alike_tables, of "view w" "view w'" "{}"]
    by (simp add: leaves_accounts_def table_of_def)
qed

text \<open>
  C7: no authorization is served stale.  Start with an empty cache, or a true one, and let requests to
  the console come in any order, succeed or fail, with keys expiring in between: whatever is cached
  for a user is what the database says of him now, his root mark, his enabled mark and the permissions
  his groups give him.
\<close>

theorem cached_authorization_is_current:
  assumes "services E view" "healthy (view w0)" "authz_ok (view w0)"
    and "\<And>i n. keeps view (\<lambda>s. s) (cs_sign C i n)"
    and "console_run E view C w0 w" "cached_authorization (view w) u = Some a"
  shows "auth_of (rows (view w)) u = Some (snapshot_rights a)"
  using console_run_ok [OF assms(5,1) assms(4) assms(2,3)] assms(6) by (simp add: authz_ok_def)

text \<open>A member of one group that holds one permission, with the snapshot the cache may keep.\<close>

definition example_member :: user_row where
  "example_member =
     \<lparr>usr_id = 5, usr_username = ''bob'', usr_passwordHash = ''x'', usr_role = ''operator'', usr_isRoot = False,
      usr_enabled = True, usr_lastLoginAt = None, usr_description = None, usr_createdAt = 0, usr_deletedAt = None\<rparr>"

definition member_store :: store where
  "member_store = put_str (userAuthorizationCacheKey 5) (stringify (snapshot_json example_snapshot)) None
     (empty_store\<lparr>rows :=
       [User example_member,
        Role \<lparr>rol_id = 1, rol_name = ''readers'', rol_description = None, rol_createdAt = 0, rol_deletedAt = None\<rparr>,
        UserRole \<lparr>ur_userId = 5, ur_roleId = 1, ur_description = None\<rparr>,
        Permission \<lparr>prm_id = 1, prm_action = ''read'', prm_subject = ''user'', prm_description = None,
          prm_deletedAt = None\<rparr>,
        RolePermission \<lparr>rp_roleId = 1, rp_permissionId = 1, rp_description = None\<rparr>]\<rparr>)"

definition member_world :: sim where
  "member_world = sim_start\<lparr>sim_store := member_store\<rparr>"

lemma member_world_view: "sim_view member_world = member_store"
  unfolding member_world_def by (rule sim_view_intro) (simp add: member_store_def conflicts_def)

lemma member_cached: "cached_authorization member_store v = (if v = 5 then Some example_snapshot else None)"
  using authorization.cached_after_put [where v = example_snapshot]
  by (simp add: cached_authorization_def member_store_def) (simp add: cached_def empty_store_def)

lemma member_ok: "healthy member_store" "authz_ok member_store"
proof -
  show "healthy member_store" by (simp add: member_store_def)
  have "auth_of (rows member_store) 5 = Some (snapshot_rights example_snapshot)"
    by (simp add: auth_of_def user_of_def member_store_def example_member_def alive_user_def alive_def
        snapshot_rights_def example_snapshot_def user_permissions_def alive_role_def alive_permission_def)
  moreover have "references_ok (rows member_store)" by (simp add: references_ok_def member_store_def)
  ultimately show "authz_ok member_store" by (simp add: authz_ok_def member_cached)
qed

theorem cached_authorization_is_current_witness:
  "auth_of (rows (sim_view member_world)) 5 = Some (snapshot_rights example_snapshot)"
  by (rule cached_authorization_is_current
      [OF sim_services, of member_world example_console member_world 5 example_snapshot])
    (simp_all add: member_world_view member_ok member_cached console_run.start example_console_def keeps_return)

section \<open>The guards decide by the database\<close>

text \<open>CASL's rules without conditions: \<^verbatim>\<open>manage\<close> stands for any action, \<^verbatim>\<open>all\<close> for any subject.\<close>

definition granted :: "(string \<times> string) set \<Rightarrow> string \<Rightarrow> string \<Rightarrow> bool" where
  "granted G a s \<longleftrightarrow> (\<exists>(x, y) \<in> G. (x = a \<or> x = ''manage'') \<and> (y = s \<or> y = ''all''))"

text \<open>The specification: who may call an endpoint, as a function of the rows.\<close>

definition admission ::
  "row list \<Rightarrow> 'w endpoint \<Rightarrow> jwt_payload option \<Rightarrow> exn + (nat \<times> bool \<times> (string \<times> string) set) option" where
  "admission rs ep verified =
     (case bearer_admission rs (ep_requirement ep) verified of
        Inl e \<Rightarrow> Inl e
      | Inr b \<Rightarrow>
          let isRoot = (case b of None \<Rightarrow> False | Some (_, r, _) \<Rightarrow> r);
              permits = (case b of None \<Rightarrow> {} | Some (_, _, ps) \<Rightarrow> ps);
              rooted = (if ep_rootOnly ep \<and> \<not> isRoot then Inl (Http 403 MRootRequired) else Inr b) in
          (case ep_requirement ep of
             Unmarked \<Rightarrow> Inl (Http 403 MPermissionUndeclared)
           | RequirePermission a s \<Rightarrow>
               if isRoot \<or> granted permits a s then rooted else Inl (Http 403 (MPermissionDenied a s))
           | _ \<Rightarrow> rooted))"

lemma no_bearer: "map_sum id Some x \<noteq> Inr None"
  by (cases x) simp_all

lemma permission_guards_admission:
  assumes "\<And>ps a s. can ps a s \<longleftrightarrow> granted (set ps) a s"
    and "bearer_admission rs (ep_requirement ep) verified = Inr (map_option bearer user)"
  shows "admission rs ep verified =
    (case permission_guards can ep user of Some e \<Rightarrow> Inl e | None \<Rightarrow> Inr (map_option bearer user))"
  using assms
  by (cases user; cases "ep_requirement ep")
    (auto simp: admission_def permission_guards_def permission_guard_def root_guard_def bearer_def
      bearer_admission_def no_bearer split: if_splits option.splits)

text \<open>What the guards leave behind: the same rows, and at most one entry of the authorization cache.\<close>

definition guards_leave :: "store \<Rightarrow> store \<Rightarrow> bool" where
  "guards_leave s t \<longleftrightarrow> healthy t \<and> rows t = rows s \<and>
     (\<forall>k. (\<forall>u. k \<noteq> userAuthorizationCacheKey u) \<longrightarrow> strs t k = strs s k)"

lemma handled_reply:
  "fst (case intercept E tx ex r u n m w of
          (Inl e, w2) \<Rightarrow> exceptions_filter E tx r u b e w2
        | (Inr body, w2) \<Rightarrow> (Inr (Replied n' body), w2)) =
     Inr (case fst (m w) of Inl e \<Rightarrow> Refused (statusCodeOf e) e | Inr body \<Rightarrow> Replied n' body)"
proof -
  obtain oc w2 where i: "intercept E tx ex r u n m w = (oc, w2)" by fastforce
  moreover have "fst (m w) = oc" using intercept_reply [of E tx ex r u n m w] by (simp only: i fst_conv)
  ultimately show ?thesis by (cases oc) simp_all
qed

context services
begin

lemma recordSafely_keeps:
  assumes "disjoint_tables systemLogs T"
  shows "keeps view (table_of T) (recordSafely E entry)"
proof -
  have "keeps view (table_of T) (create_system_log E entry)"
    using keeps_insert(1) [OF _ assms, of "entry t" for t]
    by (simp add: keeps_unfold create_system_log_def ignore_rows_def thenM_def split: sum.splits)
  then show ?thesis unfolding recordSafely_def by (intro keeps_intros)
qed

lemma filter_keeps:
  assumes "disjoint_tables systemLogs T"
  shows "keeps view (table_of T) (exceptions_filter E tx r u recorded e)"
  unfolding exceptions_filter_def recordGuardOrRoutingFailure_def
  by (intro keeps_intros recordSafely_keeps assms)

lemma jwt_guard_keeps_strs:
  assumes "\<And>u. k \<noteq> userAuthorizationCacheKey u"
  shows "keeps view (\<lambda>s. strs s k) (jwt_guard E ttl required verified)"
proof -
  have get: "keeps view (\<lambda>s. strs s k) (cache_get E (userAuthorizationCacheKey u) schema)" for u schema
    using cache_get_run(3,4) [of _ "userAuthorizationCacheKey u" schema] assms [of u]
    by (fastforce simp: keeps_unfold)
  have set: "keeps view (\<lambda>s. strs s k) (cache_set E (userAuthorizationCacheKey u) v t)" for u v t
    using assms [of u] by (simp add: keeps_unfold)
  have load: "keeps view (\<lambda>s. strs s k) (load_authorization E u)" for u
    unfolding load_authorization_def findAuthUser_def getUserPermissions_def by (intro service_frames)
  show ?thesis
    unfolding jwt_guard_def jwt_validate_def authorization_getOrLoad_def getOrLoad_def buildAuthenticatedUser_def
    by (intro service_frames get set load)
qed

lemma jwt_guard_leaves:
  assumes "healthy (view w)" "authz_ok (view w)"
  shows "guards_leave (view w) (view (snd (jwt_guard E ttl required verified w)))"
  using jwt_guard_run [OF assms, of ttl required verified]
    keepsD(2) [OF jwt_guard_keeps_strs assms(1), of _ ttl required verified]
  by (simp add: guards_leave_def)

text \<open>Every route, by the verdict of the database: to the filter, or to its handler.\<close>

lemma serve_guarded:
  assumes "healthy (view w)" "authz_ok (view w)" "\<And>ps a s. cs_can C ps a s \<longleftrightarrow> granted (set ps) a s"
  shows "case admission (rows (view w)) ep verified of
      Inl e \<Rightarrow> \<exists>user w1. guards_leave (view w) (view w1) \<and>
        serve E C request ep verified w = exceptions_filter E (cs_texts C) request user False e w1
    | Inr b \<Rightarrow> \<exists>user w1. map_option bearer user = b \<and> guards_leave (view w) (view w1) \<and>
        serve E C request ep verified w =
          (let actor = map_option audited_user_of user in
           case intercept E (cs_texts C) (ep_audit ep) request actor (success_status request)
                  (handle_route ep user) w1 of
             (Inl e, w2) \<Rightarrow>
               exceptions_filter E (cs_texts C) request actor
                 (audit_definition_of (ep_audit ep) request \<noteq> None) e w2
           | (Inr body, w2) \<Rightarrow> (Inr (Replied (success_status request) body), w2))"
proof -
  obtain g w1 where g: "jwt_guard E (cs_ttl C) (ep_requirement ep) verified w = (g, w1)" by fastforce
  have w1: "guards_leave (view w) (view w1)"
    using jwt_guard_leaves [OF assms(1,2), of "cs_ttl C" "ep_requirement ep" verified] by (simp add: g)
  have b: "map_sum id (map_option bearer) g = bearer_admission (rows (view w)) (ep_requirement ep) verified"
    using jwt_guard_run [OF assms(1,2), of "cs_ttl C" "ep_requirement ep" verified] by (simp add: g)
  show ?thesis
  proof (cases g)
    case (Inl e)
    then have "admission (rows (view w)) ep verified = Inl e" using b by (simp add: admission_def flip: b)
    then show ?thesis using w1 Inl by (auto simp: serve_def g)
  next
    case (Inr user)
    then have a: "admission (rows (view w)) ep verified =
        (case permission_guards (cs_can C) ep user of Some e \<Rightarrow> Inl e | None \<Rightarrow> Inr (map_option bearer user))"
      using b by (intro permission_guards_admission assms(3)) simp
    show ?thesis
      using a w1 Inr by (cases "permission_guards (cs_can C) ep user") (auto simp: serve_def g Let_def)
  qed
qed

end

text \<open>
  C6: the guards of the console are the database's verdict.  In any state that requests can reach, a
  request is refused exactly when the rows say so (no such account, disabled, not permitted, not
  root), with that error, and then changes nothing but the audit; and a request they allow goes to
  its handler with the identity and the rights the rows give.
\<close>

theorem requests_decided_by_database:
  fixes salt :: "nat list" and route :: route
  assumes "services E view" "healthy (view w0)" "authz_ok (view w0)"
    and "\<And>i n. keeps view (\<lambda>s. s) (cs_sign C i n)"
    and "\<And>ps a s. cs_can C ps a s \<longleftrightarrow> granted (set ps) a s"
    and "console_run E view C w0 w"
  defines "ep \<equiv> endpoint_of E C salt route"
  shows "case admission (rows (view w)) ep verified of
      Inl e \<Rightarrow> fst (serve E C request ep verified w) = Inr (Refused (statusCodeOf e) e) \<and>
        (disjoint_tables systemLogs T \<longrightarrow>
          table_of T (view (snd (serve E C request ep verified w))) = table_of T (view w))
    | Inr b \<Rightarrow> \<exists>user w1. map_option bearer user = b \<and> rows (view w1) = rows (view w) \<and>
        fst (serve E C request ep verified w) =
          Inr (case fst (handle_route ep user w1) of
                 Inl e \<Rightarrow> Refused (statusCodeOf e) e
               | Inr body \<Rightarrow> Replied (success_status request) body)"
proof -
  have ok: "healthy (view w)" "authz_ok (view w)"
    using console_run_ok [OF assms(6,1,4,2,3)] by simp_all
  note g = services.serve_guarded [OF assms(1) ok assms(5), where ep = ep and verified = verified and request = request]
  show ?thesis
  proof (cases "admission (rows (view w)) ep verified")
    case (Inl e)
    then obtain user w1 where w1: "guards_leave (view w) (view w1)"
      "serve E C request ep verified w = exceptions_filter E (cs_texts C) request user False e w1"
      using g by auto
    then show ?thesis
      using Inl keepsD(2) [OF services.filter_keeps [OF assms(1)], of T w1]
      by (simp add: guards_leave_def table_of_def)
  next
    case (Inr b)
    then obtain user w1 where w1: "map_option bearer user = b" "guards_leave (view w) (view w1)"
      and s: "serve E C request ep verified w =
        (let actor = map_option audited_user_of user in
         case intercept E (cs_texts C) (ep_audit ep) request actor (success_status request) (handle_route ep user) w1 of
           (Inl e, w2) \<Rightarrow> exceptions_filter E (cs_texts C) request actor
             (audit_definition_of (ep_audit ep) request \<noteq> None) e w2
         | (Inr body, w2) \<Rightarrow> (Inr (Replied (success_status request) body), w2))"
      using g by auto
    then show ?thesis using Inr w1 by (auto simp: guards_leave_def Let_def handled_reply)
  qed
qed

definition member_token :: jwt_payload where
  "member_token = \<lparr>jp_sub = Some (JNum (of_nat 5)), jp_username = None\<rparr>"

lemma member_verdict: "bearer_verdict (rows member_store) member_token = Inr (5, False, {(''read'', ''user'')})"
proof -
  have "integer_of (Finite (of_nat 5)) = Some (int 5)" by (rule integer_of_nat)
  then have "sub_number member_token = Some 5" by (simp add: sub_number_def member_token_def to_number_def)
  moreover have "auth_of (rows member_store) 5 = Some (False, True, {(''read'', ''user'')})"
    using member_ok(2) by (simp add: authz_ok_def member_cached snapshot_rights_def example_snapshot_def)
  ultimately show ?thesis by (simp add: bearer_verdict_def account_verdict_def)
qed

theorem requests_decided_by_database_witness:
  "fst (serve sim_env example_console example_login
      (endpoint_of sim_env example_console [] (UsersRoute (RemoveUser 5))) (Some member_token) member_world) =
    Inr (Refused 403 (Http 403 (MPermissionDenied ''delete'' ''user'')))"
proof -
  have verdict: "admission (rows (sim_view member_world))
      (endpoint_of sim_env example_console [] (UsersRoute (RemoveUser 5))) (Some member_token) =
      Inl (Http 403 (MPermissionDenied ''delete'' ''user''))"
    by (simp add: admission_def bearer_admission_def member_world_view member_verdict controller_defs granted_def)
  have can: "cs_can example_console ps a s \<longleftrightarrow> granted (set ps) a s" for ps a s
    by (simp add: example_console_def granted_def case_prod_unfold)
  have sign: "keeps sim_view (\<lambda>s. s) (cs_sign example_console i n)" for i n
    by (simp add: example_console_def keeps_return)
  have ok: "healthy (sim_view member_world)" "authz_ok (sim_view member_world)"
    by (simp_all add: member_world_view member_ok)
  from requests_decided_by_database [OF sim_services ok sign can console_run.start,
      where route = "UsersRoute (RemoveUser 5)" and salt = "[]" and verified = "Some member_token" and
        request = example_login]
  show ?thesis unfolding verdict sum.case statusCodeOf_def exn.case by (rule conjunct1)
qed

end
