(* ===== verification/Root_Account.thy ===== *)
theory Root_Account
  imports Console_Authorization
begin

text \<open>
  The account policy over the whole path of a request: a live root account is changed by nobody but
  its own bearer, whatever permissions others hold.
\<close>

text \<open>The account \<open>x\<close> as it was, but for the time of its last login.\<close>

definition same_account :: "user_row \<Rightarrow> user_row \<Rightarrow> bool" where
  "same_account x y \<longleftrightarrow> y\<lparr>usr_lastLoginAt := None\<rparr> = x\<lparr>usr_lastLoginAt := None\<rparr>"

definition account_stands :: "user_row \<Rightarrow> store \<Rightarrow> bool" where
  "account_stands x s \<longleftrightarrow> (\<exists>y \<in> set (table_of users s). same_account x y)"

lemma same_accountD:
  assumes "same_account x y"
  shows "usr_id y = usr_id x" "usr_isRoot y = usr_isRoot x" "usr_deletedAt y = usr_deletedAt x"
    "usr_enabled y = usr_enabled x" "usr_passwordHash y = usr_passwordHash x"
  using assms unfolding same_account_def by (cases x; cases y; simp)+

definition stands_on :: "user_row \<Rightarrow> store \<Rightarrow> store \<Rightarrow> bool" where
  "stands_on x s t \<longleftrightarrow> (account_stands x s \<longrightarrow> account_stands x t)"

interpretation standing: store_preorder "stands_on x" for x
  by unfold_locales (simp_all add: stands_on_def)

lemma stands_keeps: "keeps view (table_of users) m \<Longrightarrow> relates view (stands_on x) m"
  by (rule keeps_relates, assumption) (simp add: stands_on_def account_stands_def)

lemmas standing_intros =
  standing.return standing.throw standing.bind standing.sequence standing.catch standing.ignored standing.branch
  standing.option_branch

lemma standing_answer: "relates view (stands_on x) m \<Longrightarrow> relates view (stands_on x) (answer f m)"
  unfolding answer_def by (intro standing.bind standing.return)

context services
begin

text \<open>Once the policy let \<open>r\<close> change \<open>t\<close>, the account \<open>t\<close> is not the root account of another.\<close>

lemma policy_protects:
  assumes "healthy (view w)" "account_stands x (view w)" "usr_isRoot x" "usr_deletedAt x = None"
    and "fst (assertCanMutateUser E r (usr_id x) w) = Inr a"
  shows "r = usr_id x"
proof -
  obtain y where y: "y \<in> set (contents (rows (view w)) users)" "same_account x y"
    using assms(2) by (auto simp: account_stands_def table_of_def)
  have root: "usr_isRoot y" "usr_id y = usr_id x" "usr_deletedAt y = None"
    using assms(3,4) same_accountD [OF y(2)] by simp_all
  note run = run_select [OF assms(1), of users "alive_user (\<lambda>z. usr_id z = usr_id x)"]
  obtain xs where xs: "fst (select_from E users (alive_user (\<lambda>z. usr_id z = usr_id x)) w) = Inr xs"
    using run(1) by (blast dest: not_isl)
  have first: "first xs = user_of (rows (view w)) (usr_id x)"
    using run(3) xs indexes [of w] assms(1) by (intro user_of_found) simp_all
  obtain z where z: "first xs = Some z"
    using assms(5) xs by (cases "first xs") (simp_all add: assertCanMutateUser_def bindM_def)
  then have "z \<in> set (contents (rows (view w)) users)" "usr_id z = usr_id x"
    using first by (auto simp: user_of_def find_Some_iff alive_user_def alive_def)
  then have "z = y" using users_unique [OF _ _ y(1), of z] indexes [of w] assms(1) root(2) by simp
  then show ?thesis
    using assms(5) xs z root
    by (auto simp: assertCanMutateUser_def bindM_def assertAdministratorMutationAllowed_def split: if_splits)
qed

lemma guarded_stands:
  assumes "usr_isRoot x" "usr_deletedAt x = None" "r \<noteq> usr_id x"
    and "t \<noteq> usr_id x \<Longrightarrow> relates view (stands_on x) m" "keeps view (\<lambda>_. ()) m"
  shows "relates view (stands_on x) (thenM (assertCanMutateUser E r t) m)"
  unfolding relates_def
proof (intro allI impI)
  fix w assume h: "healthy (view w)"
  obtain oc w1 where a: "assertCanMutateUser E r t w = (oc, w1)" by fastforce
  have v: "view w1 = view w" using reads_assertions(1) [of r t w] h by (simp add: reads_at_def a)
  show "healthy (view (snd (thenM (assertCanMutateUser E r t) m w))) \<and>
      stands_on x (view w) (view (snd (thenM (assertCanMutateUser E r t) m w)))"
  proof (cases oc)
    case (Inl e)
    then show ?thesis using h v by (simp add: thenM_def a stands_on_def)
  next
    case (Inr b)
    have "healthy (view (snd (m w1)))" using keepsD(1) [OF assms(5)] h v by simp
    moreover have "stands_on x (view w) (view (snd (m w1)))"
    proof (cases "t = usr_id x")
      case True
      then have "\<not> account_stands x (view w)"
        using policy_protects [OF h _ assms(1,2)] assms(3) Inr a by auto
      then show ?thesis by (simp add: stands_on_def)
    next
      case False
      then show ?thesis using relatesD(2) [OF assms(4), of w1] h v by simp
    qed
    ultimately show ?thesis using Inr by (simp add: thenM_def a)
  qed
qed

lemma update_stands:
  assumes "\<And>y. P y \<Longrightarrow> usr_id y \<noteq> usr_id x \<or> same_account y (f y)"
  shows "relates view (stands_on x) (update_table E users P f)"
  unfolding relates_def
proof (intro allI impI)
  fix w assume h: "healthy (view w)"
  let ?rs = "update_rows (on_table users P) (map_table users f) (rows (view w))"
  have v: "view (snd (update_table E users P f w)) = (view w)\<lparr>rows := ?rs\<rparr> \<or>
      view (snd (update_table E users P f w)) = view w"
    using run_update(2) [OF h] run_update_conflict(2) [OF h] by (metis tables_ok(1))
  have "account_stands x (view w\<lparr>rows := ?rs\<rparr>)" if "account_stands x (view w)"
  proof -
    obtain y where y: "y \<in> set (contents (rows (view w)) users)" "same_account x y"
      using \<open>account_stands x (view w)\<close> by (auto simp: account_stands_def table_of_def)
    let ?z = "if P y then f y else y"
    have "same_account x ?z"
      using y(2) assms [of y] same_accountD(1) [OF y(2)] by (auto simp: same_account_def)
    moreover have "?z \<in> set (contents ?rs users)"
      using y(1) by (auto simp: update_rows_def contents_update)
    ultimately show ?thesis by (auto simp: account_stands_def table_of_def)
  qed
  then show "healthy (view (snd (update_table E users P f w))) \<and>
      stands_on x (view w) (view (snd (update_table E users P f w)))"
    using v h by (auto simp: stands_on_def)
qed

lemma patch_stands:
  "t \<noteq> usr_id x \<Longrightarrow> relates view (stands_on x) (patch_user E t f)"
  unfolding patch_user_def
  by (intro standing.bind update_stands stands_keeps [OF keeps_the_first_or]) (auto simp: alive_user_def alive_def)

lemma keeps_nothing_update: "keeps view (\<lambda>_. ()) (update_table E users P f)"
  using keeps_update [of users roles] by (simp add: keeps_unfold)

lemma keeps_nothing_patch: "keeps view (\<lambda>_. ()) (patch_user E t f)"
  unfolding patch_user_def by (intro keeps_intros keeps_nothing_update keeps_the_first_or)

lemma stands_write:
  "relates view (stands_on x) m \<Longrightarrow> relates view (stands_on x) (authorization_writeAndInvalidate E m us)"
  unfolding authorization_writeAndInvalidate_def writeAndInvalidate_def
  by (intro standing.bind standing.sequence standing.return stands_keeps [OF keeps_invalidate])

lemma keeps_nothing_write:
  assumes "keeps view (\<lambda>_. ()) m"
  shows "keeps view (\<lambda>_. ()) (authorization_writeAndInvalidate E m us)"
proof -
  have "keeps view (\<lambda>_. ()) (invalidate E ks)" for ks
    using keeps_invalidate [of users ks] by (simp add: keeps_unfold)
  then show ?thesis
    unfolding authorization_writeAndInvalidate_def writeAndInvalidate_def by (intro keeps_intros assms)
qed

lemma keeps_nothing_softDelete: "keeps view (\<lambda>_. ()) (softDelete E users del set_del P)"
  using keeps_nothing_update by (simp add: softDelete_def keeps_unfold)

text \<open>Every change of an account asks the policy first.\<close>

lemma account_changes_stand:
  assumes "usr_isRoot x" "usr_deletedAt x = None" "r \<noteq> usr_id x"
  shows "relates view (stands_on x) (update_user E r t d)"
    and "relates view (stands_on x) (setPassword E scrypt salt r t p)"
    and "relates view (stands_on x) (user_setEnabled E r t b)"
    and "relates view (stands_on x) (remove_user E r t)"
  unfolding update_user_def setPassword_def user_setEnabled_def remove_user_def
proof (goal_cases)
  case 1
  show ?case
    by (intro guarded_stands assms standing.bind standing.return patch_stands keeps_bind keeps_return keeps_nothing_patch)
next
  case 2
  show ?case
    by (intro guarded_stands assms standing.bind standing.return patch_stands keeps_bind keeps_return keeps_nothing_patch)
next
  case 3
  show ?case
    by (intro guarded_stands assms stands_write standing.bind standing.return patch_stands
        keeps_nothing_write keeps_bind keeps_return keeps_nothing_patch)
next
  case 4
  have "relates view (stands_on x) (softDelete E users usr_deletedAt set_user_deleted (\<lambda>u. usr_id u = t))"
    if "t \<noteq> usr_id x"
  proof -
    have "relates view (stands_on x)
        (update_table E users (alive usr_deletedAt [\<lambda>u. usr_id u = t]) (set_user_deleted (Some (now_ms E w))))" for w
      using that by (intro update_stands) (auto simp: alive_def)
    then show ?thesis unfolding softDelete_def by (rule run_at)
  qed
  then show ?case
    by (intro guarded_stands assms stands_write standing.bind standing.branch standing.throw standing.return
        keeps_nothing_write keeps_bind keeps_if keeps_throw keeps_return keeps_nothing_softDelete) simp
qed

lemma create_user_stands: "relates view (stands_on x) (create_user E scrypt salt n p r d)"
proof -
  have "relates view (stands_on x) (insert_into E users mk)" for mk
    unfolding relates_def
  proof (intro allI impI)
    fix w assume "healthy (view w)"
    then show "healthy (view (snd (insert_into E users mk w))) \<and>
        stands_on x (view w) (view (snd (insert_into E users mk w)))"
      using run_insert [of w users mk] by (auto simp: stands_on_def account_stands_def table_of_def split: if_splits)
  qed
  note inserts = this
  have "relates view (stands_on x) (\<lambda>w. bindM (insert_into E users (new_user n h r d (pg_now E w)))
      (\<lambda>rs. returnM (map_option publicUserSelection (first rs))) w)" for h
    by (rule run_at) (intro standing.bind standing.return inserts)
  then show ?thesis
    unfolding create_user_def findByUsername_def
    by (intro standing.bind standing.branch standing.throw standing.return stands_keeps [OF keeps_select])
qed

lemma login_stands:
  assumes "\<And>i n. keeps view (\<lambda>s. s) (sign i n)"
  shows "relates view (stands_on x) (login E scrypt sign n p)"
proof -
  have "relates view (stands_on x) (update_table E users P (\<lambda>u. u\<lparr>usr_lastLoginAt := t\<rparr>))" for P t
    by (rule update_stands) (simp add: same_account_def)
  note updates = this
  have "relates view (stands_on x) (updateLastLogin E i)" for i
    unfolding updateLastLogin_def ignore_rows_def
    by (rule run_at) (intro standing.sequence standing.return updates)
  then show ?thesis
    unfolding login_def findByUsername_def
    by (intro standing_intros stands_keeps [OF keeps_select] stands_keeps [OF keeps_all [OF assms]])
qed

lemma stands_reads: "(\<And>w. reads_at view m w) \<Longrightarrow> relates view (stands_on x) m"
  by (simp add: relates_def reads_at_def stands_on_def)

lemmas standing_reads =
  stands_reads [OF console_reads(1)] stands_reads [OF console_reads(2)] stands_reads [OF console_reads(3)]
  stands_reads [OF console_reads(4)] stands_reads [OF console_reads(5)] stands_reads [OF console_reads(6)]
  stands_reads [OF console_reads(7)] stands_reads [OF console_reads(8)]

lemma handle_route_stands:
  assumes "usr_isRoot x" "usr_deletedAt x = None" "\<And>u. user = Some u \<Longrightarrow> au_id u \<noteq> usr_id x"
    and "\<And>i n. keeps view (\<lambda>s. s) (cs_sign C i n)"
  shows "relates view (stands_on x) (handle_route (endpoint_of E C salt route) user)"
proof -
  have groups: "disjoint_tables roles users" "disjoint_tables permissions users" "disjoint_tables rolePermissions users"
    "disjoint_tables userRoles users" by simp_all
  have "relates view (stands_on x) (ep_handle (endpoint_of E C salt route) user)"
    using assms
    by (cases route; cases user)
      (auto simp: controller_defs with_user_def
        split: auth_route.splits users_route.splits roles_route.splits permissions_route.splits
          relations_route.splits
        intro!: standing_answer account_changes_stand create_user_stands login_stands standing.return standing.throw
          standing_reads stands_keeps [OF roles_keep(1) [OF groups]] stands_keeps [OF roles_keep(4) [OF groups]]
          stands_keeps [OF updateRole_keeps [OF groups(1)]] stands_keeps [OF permissions_keep(1) [OF groups(2)]]
          stands_keeps [OF permissions_keep(4) [OF groups(2)]] stands_keeps [OF relations_keep(1) [OF groups]]
          stands_keeps [OF relations_keep(2) [OF groups]] stands_keeps [OF relations_keep(4) [OF groups]]
          stands_keeps [OF relations_keep(5) [OF groups]])
  then show ?thesis unfolding handle_route_def by (intro standing.branch standing.throw)
qed

lemma intercept_stands:
  assumes "relates view (stands_on x) m"
  shows "relates view (stands_on x) (intercept E tx ex r u n m)"
proof (cases "audit_definition_of ex r")
  case None
  then show ?thesis using assms by (simp add: intercept_def)
next
  case (Some d)
  have rec: "relates view (stands_on x) (recordSafely E entry)" for entry
    by (rule stands_keeps [OF recordSafely_keeps]) (simp add: disjoint_tables_def)
  show ?thesis
    unfolding relates_def
  proof (intro allI impI)
    fix w assume h: "healthy (view w)"
    obtain oc w1 where m: "m w = (oc, w1)" by fastforce
    have w1: "healthy (view w1)" "stands_on x (view w) (view w1)"
      using relatesD [OF assms h] by (simp_all add: m)
    show "healthy (view (snd (intercept E tx ex r u n m w))) \<and>
        stands_on x (view w) (view (snd (intercept E tx ex r u n m w)))"
      using relatesD [OF rec w1(1)] standing.R_trans [OF w1(2)] Some
      by (cases oc) (simp_all add: intercept_def m thenM_def)
  qed
qed

end

text \<open>
  C8: a root account is changed by nobody else.  Whatever request comes to the console with whatever
  token and permissions: if its bearer is not the live root account \<open>x\<close> itself, then afterwards \<open>x\<close>
  is still there with its password, its mark and everything else but the time of its last login.
\<close>

theorem root_account_changed_only_by_itself:
  assumes "services E view" "healthy (view w)" "authz_ok (view w)"
    and "\<And>i n. keeps view (\<lambda>s. s) (cs_sign C i n)"
    and "x \<in> set (table_of users (view w))" "usr_isRoot x" "usr_deletedAt x = None"
    and "\<And>i r ps. bearer_admission (rows (view w)) (ep_requirement (endpoint_of E C salt route)) verified =
      Inr (Some (i, r, ps)) \<Longrightarrow> i \<noteq> usr_id x"
  shows "\<exists>y \<in> set (table_of users (view (snd (serve E C request (endpoint_of E C salt route) verified w)))).
    same_account x y"
proof -
  let ?ep = "endpoint_of E C salt route"
  obtain g w1 where g: "jwt_guard E (cs_ttl C) (ep_requirement ?ep) verified w = (g, w1)" by fastforce
  have w1: "healthy (view w1)" "rows (view w1) = rows (view w)"
    and b: "map_sum id (map_option bearer) g = bearer_admission (rows (view w)) (ep_requirement ?ep) verified"
    using services.jwt_guard_run [OF assms(1-3), of "cs_ttl C" "ep_requirement ?ep" verified] by (simp_all add: g)
  have s1: "account_stands x (view w1)"
    using assms(5) w1(2) by (auto simp: account_stands_def table_of_def same_account_def)
  have f: "account_stands x (view (snd (exceptions_filter E tx request u b e w')))"
    if "healthy (view w')" "account_stands x (view w')" for tx u b e w'
    using relatesD(2) [OF stands_keeps [OF services.filter_keeps [OF assms(1)]] that(1)] that(2)
    by (simp add: stands_on_def disjoint_tables_def)
  have "account_stands x (view (snd (serve E C request ?ep verified w)))"
  proof (cases g)
    case (Inr user)
    have id: "au_id u \<noteq> usr_id x" if u: "user = Some u" for u
    proof -
      have "bearer_admission (rows (view w)) (ep_requirement ?ep) verified = Inr (Some (bearer u))"
        unfolding b [symmetric] by (simp add: Inr u)
      then show ?thesis unfolding bearer_def by (rule assms(8))
    qed
    obtain oc w2 where i: "intercept E (cs_texts C) (ep_audit ?ep) request (map_option audited_user_of user)
        (success_status request) (handle_route ?ep user) w1 = (oc, w2)" by fastforce
    have "relates view (stands_on x) (handle_route ?ep user)"
      by (rule services.handle_route_stands [OF assms(1,6,7)]) (rule id, assumption, rule assms(4))
    from relatesD [OF services.intercept_stands [OF assms(1) this] w1(1)]
    have h: "healthy (view w2)" "account_stands x (view w2)"
      using i s1 by (metis snd_conv stands_on_def)+
    show ?thesis
      using Inr i h f w1(1) s1
      by (cases "permission_guards (cs_can C) ?ep user"; cases oc) (simp_all add: serve_def g)
  qed (use f w1(1) s1 in \<open>simp add: serve_def g\<close>)
  then show ?thesis by (simp add: account_stands_def)
qed

text \<open>A root account, and an operator who may do everything, both without a cached snapshot.\<close>

definition example_root :: user_row where
  "example_root =
     \<lparr>usr_id = 1, usr_username = ''root'', usr_passwordHash = ''x'', usr_role = ''admin'', usr_isRoot = True,
      usr_enabled = True, usr_lastLoginAt = None, usr_description = None, usr_createdAt = 0, usr_deletedAt = None\<rparr>"

definition root_store :: store where
  "root_store = empty_store\<lparr>rows :=
     [User example_root, User example_member,
      Role \<lparr>rol_id = 1, rol_name = ''operators'', rol_description = None, rol_createdAt = 0, rol_deletedAt = None\<rparr>,
      UserRole \<lparr>ur_userId = 5, ur_roleId = 1, ur_description = None\<rparr>,
      Permission \<lparr>prm_id = 1, prm_action = ''manage'', prm_subject = ''all'', prm_description = None,
        prm_deletedAt = None\<rparr>,
      RolePermission \<lparr>rp_roleId = 1, rp_permissionId = 1, rp_description = None\<rparr>]\<rparr>"

definition root_world :: sim where
  "root_world = sim_start\<lparr>sim_store := root_store\<rparr>"

lemma root_world_view: "sim_view root_world = root_store"
  unfolding root_world_def
  by (rule sim_view_intro) (simp add: root_store_def conflicts_def user_conflict_def example_root_def example_member_def)

lemma root_world_ok: "healthy root_store" "authz_ok root_store"
  by (simp_all add: root_store_def authz_ok_def references_ok_def cached_authorization_def cached_def,
      simp_all add: empty_store_def)

lemma operator_verdict:
  "bearer_verdict (rows root_store) member_token = Inr (5, False, {(''manage'', ''all'')})"
proof -
  have "sub_number member_token = Some 5"
    using integer_of_nat [of 5] by (simp add: sub_number_def member_token_def to_number_def)
  moreover have "auth_of (rows root_store) 5 = Some (False, True, {(''manage'', ''all'')})"
    by (simp add: auth_of_def user_of_def root_store_def example_member_def example_root_def alive_user_def alive_def
        user_permissions_def alive_role_def alive_permission_def)
  ultimately show ?thesis by (simp add: bearer_verdict_def account_verdict_def)
qed

theorem root_account_changed_only_by_itself_witness:
  "\<exists>y \<in> set (table_of users (sim_view (snd (serve sim_env example_console example_login
      (endpoint_of sim_env example_console [] (UsersRoute (RemoveUser 1))) (Some member_token) root_world)))).
    same_account example_root y"
proof (rule root_account_changed_only_by_itself [OF sim_services])
  show "healthy (sim_view root_world)" "authz_ok (sim_view root_world)"
    by (simp_all add: root_world_view root_world_ok)
  show "keeps sim_view (\<lambda>s. s) (cs_sign example_console i n)" for i n
    by (simp add: example_console_def keeps_return)
  show "example_root \<in> set (table_of users (sim_view root_world))" "usr_isRoot example_root"
    "usr_deletedAt example_root = None"
    by (simp_all add: root_world_view root_store_def table_of_def example_root_def)
  show "i \<noteq> usr_id example_root"
    if "bearer_admission (rows (sim_view root_world))
      (ep_requirement (endpoint_of sim_env example_console [] (UsersRoute (RemoveUser 1)))) (Some member_token) =
      Inr (Some (i, r, ps))" for i r ps
    using that by (simp add: root_world_view bearer_admission_def operator_verdict controller_defs example_root_def)
qed

end
