(* ===== verification/Ws_Gateway.thy ===== *)
theory Ws_Gateway
  imports Device_Token System_Audit Invocation
begin

text \<open>
  \<^verbatim>\<open>infrastructure/ws/ws.gateway.ts\<close>: the connections of the devices.  A connection proves its device
  token, takes the session of its client, is listed as online, and then exchanges heartbeats and
  results; a handler of the gateway is an operation on the instance that holds the socket.  What the
  WebSocket library does (framing, the close handshake) shows as the state and the fields of the
  socket.
\<close>

section \<open>The request and its proof\<close>

text \<open>
  The upgrade request: the parameters of its URL (\<open>None\<close> when \<^verbatim>\<open>new URL\<close> throws), the header
  \<^verbatim>\<open>x-forwarded-for\<close>, and the address of the peer.
\<close>

record ws_request =
  wr_searchParams :: "(string \<times> string) list option"
  wr_forwardedFor :: "header option"
  wr_remoteAddress :: "string option"

record device_connection =
  dc_clientId :: string
  dc_projectIds :: "nat list"
  dc_deviceTokenId :: nat
  dc_metadata :: device_meta
  dc_maxInFlight :: int

definition PING_INTERVAL_MILLISECONDS :: int where
  "PING_INTERVAL_MILLISECONDS = 5000"

definition READ_TIMEOUT_MILLISECONDS :: int where
  "READ_TIMEOUT_MILLISECONDS = 20000"

text \<open>The empty string counts as absent: the operator \<^verbatim>\<open>||\<close>.\<close>

definition nonempty :: "string option \<Rightarrow> string option" where
  "nonempty v = (if v = Some [] then None else v)"

definition clientIp :: "nat \<Rightarrow> ws_request \<Rightarrow> string option" where
  "clientIp trustedProxyHops r =
     (if trustedProxyHops = 0 then nonempty (wr_remoteAddress r)
      else
        let forwardedAddress = (case wr_forwardedFor r of
              None \<Rightarrow> None
            | Some (OneValue v) \<Rightarrow> Some v
            | Some (ManyValues vs) \<Rightarrow> first vs) in
        or_else (nonempty (map_option (\<lambda>v. js_trim (takeWhile (\<lambda>c. c \<noteq> CHR '','') v)) forwardedAddress))
          (nonempty (wr_remoteAddress r)))"

text \<open>\<^verbatim>\<open>searchParams.get\<close> gives null for a missing parameter.\<close>

definition null_or_string :: "string option \<Rightarrow> json" where
  "null_or_string v = (case v of None \<Rightarrow> JNull | Some s \<Rightarrow> JStr s)"

definition authenticate :: "'w env \<Rightarrow> nat \<Rightarrow> ws_request \<Rightarrow> ('w, device_connection option) io" where
  "authenticate E trustedProxyHops r =
     catchM
       (case wr_searchParams r of
          None \<Rightarrow> throwM (TypeErr (MText ''Invalid URL''))
        | Some ps \<Rightarrow>
            (case (nonempty (map_of ps ''token''), nonempty (map_of ps ''clientId'')) of
               (Some token, Some clientId) \<Rightarrow>
                 bindM (validateForConnect E token) (\<lambda>validatedToken.
                   case validatedToken of
                     None \<Rightarrow> returnM None
                   | Some (tokenId, projectIds) \<Rightarrow>
                       let maxInFlight = clampMaxInFlight (Some (null_or_string (map_of ps ''maxInFlight''))) in
                       returnM (Some
                         \<lparr>dc_clientId = clientId, dc_projectIds = map nat projectIds,
                          dc_deviceTokenId = nat tokenId,
                          dc_metadata = \<lparr>dm_platform = map_of ps ''platform'', dm_lastIp = clientIp trustedProxyHops r,
                            dm_extra = map_of ps ''extra'', dm_maxInFlight = Some maxInFlight\<rparr>,
                          dc_maxInFlight = maxInFlight\<rparr>))
             | _ \<Rightarrow> returnM None))
       (\<lambda>_. returnM None)"

section \<open>A connection comes online\<close>

definition send_if_open :: "nat \<Rightarrow> json \<Rightarrow> 'w inst \<Rightarrow> 'w inst" where
  "send_if_open n m W = (if sk_readyState (socket_of W n) = 1 then send_socket n m W else W)"

definition attachConnectionContext :: "nat \<Rightarrow> device_connection \<Rightarrow> 'w inst \<Rightarrow> 'w inst" where
  "attachConnectionContext n c W =
     set_socket n ((socket_of W n)\<lparr>sk_clientId := Some (dc_clientId c),
       sk_deviceTokenId := Some (dc_deviceTokenId c), sk_projects := Some (dc_projectIds c),
       sk_maxInFlight := Some (dc_maxInFlight c)\<rparr>) W"

text \<open>
  The statements of \<^verbatim>\<open>registerConnection\<close>, each awaited: between two of them the instance may handle
  other events.
\<close>

definition registration :: "'w env \<Rightarrow> nat \<Rightarrow> device_connection \<Rightarrow> ('w inst, unit) io list" where
  "registration E n c =
     [register E (dc_clientId c) n,
      lift (registerOnline E (dc_clientId c) (dc_deviceTokenId c) (dc_metadata c)),
      lift (online E (dc_clientId c) (dc_projectIds c)),
      lift (setMaxInFlight E (dc_clientId c) (dc_maxInFlight c)),
      ignoreM (lift (resetInFlight E (dc_clientId c)))]"

definition registerConnection :: "'w env \<Rightarrow> nat \<Rightarrow> device_connection \<Rightarrow> ('w inst, bool) io" where
  "registerConnection E n c =
     catchM (thenM (forM (registration E n c) (\<lambda>m. m)) (returnM True))
       (\<lambda>_. thenM (modify (close_socket n 4503 ''infra unavailable'')) (returnM False))"

definition bindMessageHandler :: "nat \<Rightarrow> 'w inst \<Rightarrow> 'w inst" where
  "bindMessageHandler n W = set_socket n ((socket_of W n)\<lparr>sk_listening := True\<rparr>) W"

definition touch :: "'w env \<Rightarrow> nat \<Rightarrow> 'w inst \<Rightarrow> 'w inst" where
  "touch E n W = set_socket n ((socket_of W n)\<lparr>sk_lastActivity := Some (now_ms E (ext W))\<rparr>) W"

definition startHeartbeat :: "'w env \<Rightarrow> nat \<Rightarrow> 'w inst \<Rightarrow> 'w inst" where
  "startHeartbeat E n W =
     (let W1 = touch E n W in set_socket n ((socket_of W1 n)\<lparr>sk_pinging := True\<rparr>) W1)"

definition welcome_json :: "device_connection \<Rightarrow> json" where
  "welcome_json c = JObj
     [(''type'', JStr ''welcome''), (''clientId'', JStr (dc_clientId c)),
      (''projects'', JArr (map (\<lambda>p. JNum (of_nat p)) (dc_projectIds c))),
      (''maxInFlight'', JNum (of_int (dc_maxInFlight c)))]"

definition open_session :: "'w env \<Rightarrow> nat \<Rightarrow> device_connection \<Rightarrow> 'w inst \<Rightarrow> 'w inst" where
  "open_session E n c W = startHeartbeat E n (send_if_open n (welcome_json c) (bindMessageHandler n W))"

definition handleConnection :: "'w env \<Rightarrow> nat \<Rightarrow> nat \<Rightarrow> ws_request \<Rightarrow> ('w inst, unit) io" where
  "handleConnection E trustedProxyHops n r =
     bindM (lift (authenticate E trustedProxyHops r)) (\<lambda>connection.
       case connection of
         None \<Rightarrow> modify (close_socket n 4001 ''unauthorized'')
       | Some c \<Rightarrow>
           thenM (modify (attachConnectionContext n c))
             (bindM (registerConnection E n c) (\<lambda>registered.
                if \<not> registered then returnM () else modify (open_session E n c))))"

section \<open>A connection ends\<close>

definition handleDisconnect :: "'w env \<Rightarrow> nat \<Rightarrow> ('w inst, unit) io" where
  "handleDisconnect E n =
     thenM (modify (\<lambda>W. set_socket n ((socket_of W n)\<lparr>sk_pinging := False\<rparr>) W))
       (bindM (gets (\<lambda>W. (nonempty (sk_clientId (socket_of W n)), sk_projects (socket_of W n)))) (\<lambda>(c, ps).
          case c of
            None \<Rightarrow> returnM ()
          | Some clientId \<Rightarrow>
              catchM
                (bindM (unregister E clientId n) (\<lambda>wasOwner.
                   case ps of
                     Some projectIds \<Rightarrow>
                       if wasOwner
                       then thenM (lift (offline E clientId projectIds)) (lift (markOffline E clientId))
                       else returnM ()
                   | None \<Rightarrow> returnM ()))
                (\<lambda>_. returnM ())))"

section \<open>Messages of the device\<close>

definition handleHeartbeat :: "'w env \<Rightarrow> nat \<Rightarrow> ('w inst, unit) io" where
  "handleHeartbeat E n =
     bindM (gets (\<lambda>W. (nonempty (sk_clientId (socket_of W n)), sk_maxInFlight (socket_of W n)))) (\<lambda>(c, m).
       case c of
         None \<Rightarrow> returnM ()
       | Some clientId \<Rightarrow>
           thenM (ignore_rows (lift (refresh E clientId)))
             (thenM (case m of
                       Some maximum \<Rightarrow> if maximum \<noteq> 0 then lift (setMaxInFlight E clientId maximum) else returnM ()
                     | None \<Rightarrow> returnM ())
               (ignore_rows (refreshSession E clientId))))"

text \<open>The text a JSON value becomes inside a template string.\<close>

fun js_string :: "json \<Rightarrow> string" where
  "js_string JNull = ''null''"
| "js_string (JBool b) = (if b then ''true'' else ''false'')"
| "js_string (JNum q) = show_number q"
| "js_string (JStr s) = s"
| "js_string (JArr xs) = comma_separated (map (\<lambda>x. if x = JNull then [] else js_string x) xs)"
| "js_string (JObj ps) = ''[object Object]''"

definition outcome_text :: "outcome \<Rightarrow> string" where
  "outcome_text out =
     (case out of OutOk \<Rightarrow> ''ok'' | OutLate \<Rightarrow> ''late'' | OutRouted \<Rightarrow> ''routed'' | OutMismatch \<Rightarrow> ''mismatch'')"

text \<open>
  \<^verbatim>\<open>handleResult\<close> with a request id that is not a string: the keys are made of its text, but no
  waiter is filed under it, here or on another instance.
\<close>

definition handle_untyped_result :: "'w env \<Rightarrow> json \<Rightarrow> string \<Rightarrow> json \<Rightarrow> ('w inst, outcome) io" where
  "handle_untyped_result E requestId fromClientId res =
     bindM (lift (redis_get E (waiter_key (js_string requestId)))) (\<lambda>v.
       case nonempty v of
         None \<Rightarrow> returnM OutLate
       | Some waiterInstance \<Rightarrow>
           bindM (lift (redis_set_nx E (completed_key (js_string requestId)) ''1''
                          (seconds COMPLETED_TIME_TO_LIVE_SECONDS))) (\<lambda>isFirst.
             if \<not> isFirst then returnM OutLate
             else bindM (gets instance_id) (\<lambda>me.
               if waiterInstance = me
               then thenM (lift (redis_del E [completed_key (js_string requestId)])) (returnM OutMismatch)
               else thenM (bus_publish E (result_channel waiterInstance)
                             (JObj [(''requestId'', requestId), (''result'', res),
                                    (''fromClientId'', JStr fromClientId)]))
                      (returnM OutRouted))))"

definition handle_result_of :: "'w env \<Rightarrow> nat \<Rightarrow> json \<Rightarrow> ('w inst, outcome) io" where
  "handle_result_of E n m =
     bindM (gets (\<lambda>W. or_default '''' (sk_clientId (socket_of W n)))) (\<lambda>clientId.
       case field ''requestId'' m of
         None \<Rightarrow> handleResult E '''' clientId m
       | Some JNull \<Rightarrow> handleResult E '''' clientId m
       | Some (JStr s) \<Rightarrow> handleResult E s clientId m
       | Some other \<Rightarrow> handle_untyped_result E other clientId m)"

definition ack_json :: "json \<Rightarrow> outcome \<Rightarrow> json" where
  "ack_json m out = JObj
     ([(''type'', JStr ''resultAck'')] @
      (case field ''requestId'' m of None \<Rightarrow> [] | Some i \<Rightarrow> [(''requestId'', i)]) @
      [(''outcome'', JStr (outcome_text out))])"

definition js_falsy :: "json \<Rightarrow> bool" where
  "js_falsy j \<longleftrightarrow> j = JNull \<or> j = JBool False \<or> j = JNum 0 \<or> j = JStr []"

definition onMessage :: "'w env \<Rightarrow> nat \<Rightarrow> string \<Rightarrow> ('w inst, unit) io" where
  "onMessage E n serializedMessage =
     catchM
       (case parse_json serializedMessage of
          None \<Rightarrow> returnM ()
        | Some m \<Rightarrow>
            if js_falsy m then returnM ()
            else if field ''type'' m = Some (JStr ''heartbeat'')
            then thenM (handleHeartbeat E n)
                   (modify (send_if_open n (JObj [(''type'', JStr ''heartbeatAck'')])))
            else if field ''type'' m = Some (JStr ''result'')
            then bindM (handle_result_of E n m) (\<lambda>out. modify (send_if_open n (ack_json m out)))
            else returnM ())
       (\<lambda>_. returnM ())"

text \<open>A frame reaches the handler only once it is bound.\<close>

definition on_message_event :: "'w env \<Rightarrow> nat \<Rightarrow> string \<Rightarrow> 'w inst \<Rightarrow> 'w inst" where
  "on_message_event E n serializedMessage W =
     (if sk_listening (socket_of W n) then snd (onMessage E n serializedMessage (touch E n W)) else W)"

section \<open>The heartbeat of the server\<close>

text \<open>\<^verbatim>\<open>terminate\<close> closes without a handshake.\<close>

definition terminate_socket :: "nat \<Rightarrow> 'w inst \<Rightarrow> 'w inst" where
  "terminate_socket n W = set_socket n ((socket_of W n)\<lparr>sk_readyState := 2\<rparr>) W"

definition ping_socket :: "nat \<Rightarrow> 'w inst \<Rightarrow> 'w inst" where
  "ping_socket n W = set_socket n ((socket_of W n)\<lparr>sk_pings := sk_pings (socket_of W n) + 1\<rparr>) W"

text \<open>What the timer runs, at the time \<open>now\<close>, while it is set.\<close>

definition on_ping_timer :: "nat \<Rightarrow> int \<Rightarrow> 'w inst \<Rightarrow> 'w inst" where
  "on_ping_timer n now W =
     (if sk_readyState (socket_of W n) \<noteq> 1 then W
      else if READ_TIMEOUT_MILLISECONDS < now - or_default 0 (sk_lastActivity (socket_of W n))
      then terminate_socket n W
      else ping_socket n W)"

definition on_pong :: "'w env \<Rightarrow> nat \<Rightarrow> 'w inst \<Rightarrow> 'w inst" where
  "on_pong E n W = touch E n W"

section \<open>Fragmented frames\<close>

text \<open>
  The receiver of the WebSocket library, as far as the gateway wraps it: \<open>rc_getInfo\<close> is the
  library's parser of a frame header, and an error closes the connection with its code.
\<close>

record receiver =
  rc_bufferedBytes :: nat
  rc_fin :: bool
  rc_errored :: bool
  rc_closeCode :: "nat option"

definition getInfo :: "(receiver \<Rightarrow> receiver) \<Rightarrow> receiver \<Rightarrow> receiver" where
  "getInfo originalGetInfo r =
     (let hadHeaderBytes = 2 \<le> rc_bufferedBytes r; r1 = originalGetInfo r in
      if hadHeaderBytes \<and> \<not> rc_errored r1 \<and> \<not> rc_fin r1
      then r1\<lparr>rc_errored := True, rc_closeCode := Some 1009\<rparr> else r1)"

end
