(* ===== verification/Device_Sessions.thy ===== *)
theory Device_Sessions
  imports Ws_Gateway
begin

text \<open>
  What a device gets from a connection: the session it holds while it is connected, that jobs reach
  it, that only its own disconnect ends it, and what happens when it says nothing.
\<close>

section \<open>The session of a device\<close>

text \<open>
  The device of connection \<open>c\<close> is served through socket \<open>n\<close> of instance \<open>W\<close>: the session key names
  this instance and this connection, the device counts as online in each of its groups, and its row
  says so.
\<close>

definition holds_session :: "('w \<Rightarrow> store) \<Rightarrow> 'w inst \<Rightarrow> nat \<Rightarrow> device_connection \<Rightarrow> bool" where
  "holds_session view W n c \<longleftrightarrow>
     healthy (view (ext W)) \<and> map_of (sockets W) (dc_clientId c) = Some n \<and>
     (\<exists>u. sk_sessionToken (socket_of W n) = Some (instance_id W @ CHR '':'' # u) \<and>
       strs (view (ext W)) (session_key (dc_clientId c)) = Some (instance_id W @ CHR '':'' # u))"

definition device_session :: "('w \<Rightarrow> store) \<Rightarrow> 'w inst \<Rightarrow> nat \<Rightarrow> device_connection \<Rightarrow> bool" where
  "device_session view W n c \<longleftrightarrow>
     (let s = view (ext W); clientId = dc_clientId c in
      holds_session view W n c \<and> sk_readyState (socket_of W n) = 1 \<and>
      online_in s clientId \<and> (\<forall>p \<in> set (dc_projectIds c). clientId \<in> set (sets s (clients_key p))) \<and>
      strs s (maxinflight_key clientId) = Some (show_int (dc_maxInFlight c)) \<and>
      (\<exists>d \<in> set (table_of devices s). dev_clientId d = clientId \<and> dev_online d \<and> dev_deletedAt d = None \<and>
        dev_deviceTokenId d = Some (dc_deviceTokenId c)))"

lemma device_session_holds: "device_session view W n c \<Longrightarrow> holds_session view W n c"
  by (simp add: device_session_def Let_def)

lemma holds_session_healthy: "holds_session view W n c \<Longrightarrow> healthy (view (ext W))"
  by (simp add: holds_session_def)

text \<open>Everything but one key.\<close>

definition apart :: "string \<Rightarrow> store \<Rightarrow> _" where
  "apart k s = (rows s, sets s, (strs s)(k := None), published s, jobs s)"

lemma set_socket_same [simp]: "socket_of (set_socket n k W) n = k"
  by simp

lemma send_if_open_sel [simp]:
  "ext (send_if_open n m W) = ext W" "instance_id (send_if_open n m W) = instance_id W"
  "sockets (send_if_open n m W) = sockets W" "waiters (send_if_open n m W) = waiters W"
  "settled (send_if_open n m W) = settled W"
  by (simp_all add: send_if_open_def send_socket_def)

lemma touch_sel [simp]:
  "ext (touch E n W) = ext W" "instance_id (touch E n W) = instance_id W" "sockets (touch E n W) = sockets W"
  "waiters (touch E n W) = waiters W" "settled (touch E n W) = settled W"
  by (simp_all add: touch_def)

text \<open>The last step of a connection changes only its socket.\<close>

lemma open_session_sel [simp]:
  "ext (open_session E n c W) = ext W" "instance_id (open_session E n c W) = instance_id W"
  "sockets (open_session E n c W) = sockets W"
  by (simp_all add: open_session_def startHeartbeat_def bindMessageHandler_def Let_def)

lemma open_session_socket:
  "socket_of (open_session E n c W) = (socket_of W)(n := (socket_of W n)
     \<lparr>sk_listening := True, sk_lastActivity := Some (now_ms E (ext W)), sk_pinging := True,
      sk_sent := sk_sent (socket_of W n) @
        (if sk_readyState (socket_of W n) = 1 then [welcome_json c] else [])\<rparr>)"
  by (simp add: open_session_def startHeartbeat_def bindMessageHandler_def send_if_open_def send_socket_def
      touch_def Let_def fun_eq_iff)

context services
begin

lemma cache_apart: "\<not> is_set_key k \<Longrightarrow> keeps view (apart k) (cache_get E k schema)"
  "\<not> is_set_key k \<Longrightarrow> keeps view (apart k) (cache_set E k v t)"
  unfolding keeps_unfold
proof (safe, goal_cases)
  case (1 w)
  then show ?case by (rule cache_get_run(3) [rotated])
next
  case (2 w)
  then show ?case using cache_get_run(4) [OF 2(2,1), of schema] by (auto simp: apart_def fun_eq_iff)
qed (auto simp: apart_def fun_eq_iff)

lemma validateForConnect_apart: "keeps view (apart (deviceTokenCacheKey E t)) (validateForConnect E t)"
proof -
  have f: "keeps view (apart (deviceTokenCacheKey E t)) (findDeviceByToken E t)"
    unfolding findDeviceByToken_def by (intro keeps_intros keeps_select)
  show ?thesis
    unfolding validateForConnect_def
  proof (intro keeps_bind keeps_return)
    show "keeps view (apart (deviceTokenCacheKey E t))
      (getOrLoad E (deviceTokenCacheKey E t) cachedDeviceTokenSchema device_token_json (findDeviceByToken E t)
        (\<lambda>v _. websocket_token_ttl v))"
      unfolding getOrLoad_def by (intro keeps_intros f cache_apart keeps_at) simp_all
  qed
qed

lemma register_run:
  assumes "healthy (view (ext W))"
  obtains u where "fst (register E c n W) = Inr ()"
    and "view (ext (snd (register E c n W))) =
      put_str (session_key c) (instance_id W @ CHR '':'' # u) (Some 30000) (view (ext W))"
    and "socket_of (snd (register E c n W)) =
      (socket_of W)(n := (socket_of W n)\<lparr>sk_sessionToken := Some (instance_id W @ CHR '':'' # u)\<rparr>)"
    and "sockets (snd (register E c n W)) = AList.update c n (sockets W)"
    and "instance_id (snd (register E c n W)) = instance_id W"
proof -
  obtain u where u: "fst (random_uuid E (ext W)) = Inr u" "view (snd (random_uuid E (ext W))) = view (ext W)"
    using uuid by blast
  then show thesis
    using assms by (intro that [of u]) (simp_all add: register_def io_simps seconds_def SESSION_TIME_TO_LIVE_SECONDS_def)
qed

lemma registerOnline_row:
  assumes "healthy (view w)"
  obtains rs where "fst (registerOnline E c t m w) = Inr ()"
    and "view (snd (registerOnline E c t m w)) = (view w)\<lparr>rows := rs\<rparr>"
    and "\<exists>d \<in> set (contents rs devices). dev_clientId d = c \<and> dev_online d \<and> dev_deletedAt d = None \<and>
      dev_deviceTokenId d = Some t"
proof (cases "\<exists>x \<in> set (contents (rows (view w)) devices). dev_clientId x = c")
  case True
  then obtain x where "x \<in> set (contents (rows (view w)) devices)" "dev_clientId x = c" by blast
  from registerOnline_existing [OF assms this, of t m]
  obtain d where d: "d \<in> set (contents (rows (view w)) devices)" "dev_clientId d = c"
    "fst (registerOnline E c t m w) = Inr ()"
    "view (snd (registerOnline E c t m w)) = (view w)\<lparr>rows := update_rows (on_table devices (\<lambda>x. dev_id x = dev_id d))
        (map_table devices (online_patch t m (now_ms E w) (dev_deletedAt d \<noteq> None))) (rows (view w))\<rparr>"
    by blast
  let ?f = "online_patch t m (now_ms E w) (dev_deletedAt d \<noteq> None)"
  have "?f d \<in> set (contents (update_rows (on_table devices (\<lambda>x. dev_id x = dev_id d)) (map_table devices ?f)
      (rows (view w))) devices)"
    using d(1) unfolding update_rows_def by (subst contents_update) (force simp: image_iff)+
  then show thesis using d by (intro that [OF d(3,4)]) (force intro!: bexI [of _ "?f d"])
next
  case False
  then have none: "\<forall>x \<in> set (contents (rows (view w)) devices). dev_clientId x \<noteq> c" by blast
  obtain i where i: "fst (registerOnline E c t m w) = Inr ()" "view (snd (registerOnline E c t m w)) =
      (view w)\<lparr>rows := rows (view w) @ [Device (new_device c t m (now_ms E w) i)]\<rparr>"
    using registerOnline_new [OF assms none, of t m] by blast
  show thesis
    by (rule that [OF i]) (simp add: new_device_def online_base_def)
qed

text \<open>The first two statements of \<^verbatim>\<open>registerConnection\<close>, then the others.\<close>

lemma claiming_run:
  fixes W :: "'w inst" and n :: nat and c :: device_connection
  assumes "healthy (view (ext W))"
  defines "W' \<equiv> snd (forM (take 2 (registration E n c)) (\<lambda>m. m) W)"
  shows "fst (forM (take 2 (registration E n c)) (\<lambda>m. m) W) = Inr ()" "holds_session view W' n c"
    and "\<exists>d \<in> set (table_of devices (view (ext W'))). dev_clientId d = dc_clientId c \<and> dev_online d \<and>
      dev_deletedAt d = None \<and> dev_deviceTokenId d = Some (dc_deviceTokenId c)"
    and "\<exists>t. socket_of W' = (socket_of W)(n := (socket_of W n)\<lparr>sk_sessionToken := t\<rparr>)"
    and "instance_id W' = instance_id W"
proof -
  let ?i = "dc_clientId c"
  define W1 where "W1 = snd (register E ?i n W)"
  obtain u where u: "fst (register E ?i n W) = Inr ()"
    "view (ext W1) = put_str (session_key ?i) (instance_id W @ CHR '':'' # u) (Some 30000) (view (ext W))"
    "socket_of W1 = (socket_of W)(n := (socket_of W n)\<lparr>sk_sessionToken := Some (instance_id W @ CHR '':'' # u)\<rparr>)"
    "sockets W1 = AList.update ?i n (sockets W)" "instance_id W1 = instance_id W"
    unfolding W1_def by (rule register_run [OF assms(1)])
  have h1: "healthy (view (ext W1))" using assms(1) by (simp add: u(2))
  define w2 where "w2 = snd (registerOnline E ?i (dc_deviceTokenId c) (dc_metadata c) (ext W1))"
  obtain rs where rs: "fst (registerOnline E ?i (dc_deviceTokenId c) (dc_metadata c) (ext W1)) = Inr ()"
    "view w2 = (view (ext W1))\<lparr>rows := rs\<rparr>"
    "\<exists>d \<in> set (contents rs devices). dev_clientId d = ?i \<and> dev_online d \<and> dev_deletedAt d = None \<and>
      dev_deviceTokenId d = Some (dc_deviceTokenId c)"
    unfolding w2_def by (rule registerOnline_row [OF h1])
  have run: "forM (take 2 (registration E n c)) (\<lambda>m. m) W = (Inr (), W1\<lparr>ext := w2\<rparr>)"
    by (simp add: registration_def io_simps u(1) rs(1) lift_def flip: W1_def w2_def)
  then have W': "W' = W1\<lparr>ext := w2\<rparr>" by (simp add: W'_def)
  show "fst (forM (take 2 (registration E n c)) (\<lambda>m. m) W) = Inr ()" by (simp add: run)
  show "holds_session view W' n c"
    using h1 by (simp add: holds_session_def W' u(3-5) update_conv' rs(2)) (simp add: u(2))
  show "\<exists>d \<in> set (table_of devices (view (ext W'))). dev_clientId d = ?i \<and> dev_online d \<and>
      dev_deletedAt d = None \<and> dev_deviceTokenId d = Some (dc_deviceTokenId c)"
    using rs(3) by (simp add: W' rs(2) table_of_def)
  show "\<exists>t. socket_of W' = (socket_of W)(n := (socket_of W n)\<lparr>sk_sessionToken := t\<rparr>)" unfolding W' by (auto simp: u(3))
  show "instance_id W' = instance_id W" by (simp add: W' u(5))
qed

lemma listing_run:
  fixes W :: "'w inst" and n :: nat and c :: device_connection
  assumes "healthy (view (ext W))"
  obtains w where "forM (drop 2 (registration E n c)) (\<lambda>m. m) W = (Inr (), W\<lparr>ext := w\<rparr>)" "healthy (view w)"
    and "online_in (view w) (dc_clientId c)"
    and "\<forall>p \<in> set (dc_projectIds c). dc_clientId c \<in> set (sets (view w) (clients_key p))"
    and "strs (view w) (maxinflight_key (dc_clientId c)) = Some (show_int (dc_maxInFlight c))"
    and "inflight_of (view w) (dc_clientId c) = 0" "rows (view w) = rows (view (ext W))"
    and "strs (view w) (session_key (dc_clientId c)) = strs (view (ext W)) (session_key (dc_clientId c))"
proof -
  let ?i = "dc_clientId c"
  define w3 where "w3 = snd (online E ?i (dc_projectIds c) (ext W))"
  note on = online_run [OF assms, of ?i "dc_projectIds c"]
  have v3: "view w3 = (put_str (presence_key ?i) (json_ids (dc_projectIds c)) (Some 30000) (view (ext W)))
        \<lparr>sets := (\<lambda>k. if k \<in> clients_key ` set (dc_projectIds c) then List.insert ?i (sets (view (ext W)) k)
                  else sets (view (ext W)) k)\<rparr>"
    unfolding w3_def by (rule on(2))
  have h3: "healthy (view w3)" using assms unfolding v3 healthy_def typed_keys_def by auto
  define w4 where "w4 = snd (setMaxInFlight E ?i (dc_maxInFlight c) w3)"
  have s4: "fst (setMaxInFlight E ?i (dc_maxInFlight c) w3) = Inr ()"
    and v4: "view w4 = put_str (maxinflight_key ?i) (show_int (dc_maxInFlight c)) (Some 30000) (view w3)"
    using h3 by (simp_all add: w4_def setMaxInFlight_def seconds_def PRESENCE_TIME_TO_LIVE_SECONDS_def)
  have h4: "healthy (view w4)" using h3 by (simp add: v4)
  define w5 where "w5 = snd (resetInFlight E ?i w4)"
  have v5: "view w5 = del_keys [inflight_key ?i] (view w4)"
    using h4 by (simp add: w5_def resetInFlight_def)
  have run: "forM (drop 2 (registration E n c)) (\<lambda>m. m) W = (Inr (), W\<lparr>ext := w5\<rparr>)"
    by (simp add: registration_def io_simps on(1) s4 lift_def flip: w3_def w4_def w5_def)
  show thesis
    by (rule that [OF run])
      (use h4 in \<open>auto simp: online_in_def inflight_of_def v5 v4 v3 session_key_def presence_keys\<close>)
qed

lemma forM_append: "forM (xs @ ys) f = thenM (forM xs f) (forM ys f)"
  by (induction xs) (auto simp: fun_eq_iff thenM_def returnM_def split: sum.splits)

lemma registration_run:
  fixes W :: "'w inst" and n :: nat and c :: device_connection
  assumes "healthy (view (ext W))" "sk_readyState (socket_of W n) = 1"
  defines "W' \<equiv> snd (forM (registration E n c) (\<lambda>m. m) W)"
  shows "fst (forM (registration E n c) (\<lambda>m. m) W) = Inr ()"
    and "device_session view W' n c" "inflight_of (view (ext W')) (dc_clientId c) = 0"
    and "\<exists>t. socket_of W' = (socket_of W)(n := (socket_of W n)\<lparr>sk_sessionToken := t\<rparr>)"
    and "instance_id W' = instance_id W"
proof -
  define W1 where "W1 = snd (forM (take 2 (registration E n c)) (\<lambda>m. m) W)"
  note claim = claiming_run [OF assms(1), of n c, folded W1_def]
  obtain w where w: "forM (drop 2 (registration E n c)) (\<lambda>m. m) W1 = (Inr (), W1\<lparr>ext := w\<rparr>)" "healthy (view w)"
    "online_in (view w) (dc_clientId c)"
    "\<forall>p \<in> set (dc_projectIds c). dc_clientId c \<in> set (sets (view w) (clients_key p))"
    "strs (view w) (maxinflight_key (dc_clientId c)) = Some (show_int (dc_maxInFlight c))"
    "inflight_of (view w) (dc_clientId c) = 0" "rows (view w) = rows (view (ext W1))"
    "strs (view w) (session_key (dc_clientId c)) = strs (view (ext W1)) (session_key (dc_clientId c))"
    by (rule listing_run [OF holds_session_healthy [OF claim(2)]])
  have "forM (registration E n c) (\<lambda>m. m) W = (Inr (), W1\<lparr>ext := w\<rparr>)"
    using forM_append [of "take 2 (registration E n c)" "drop 2 (registration E n c)" "\<lambda>m. m"] claim(1) w(1)
    by (simp add: thenM_Inr flip: W1_def)
  then have run: "fst (forM (registration E n c) (\<lambda>m. m) W) = Inr ()" and W': "W' = W1\<lparr>ext := w\<rparr>"
    by (simp_all add: W'_def)
  show "fst (forM (registration E n c) (\<lambda>m. m) W) = Inr ()" by (rule run)
  show "\<exists>t. socket_of W' = (socket_of W)(n := (socket_of W n)\<lparr>sk_sessionToken := t\<rparr>)"
    "instance_id W' = instance_id W" "inflight_of (view (ext W')) (dc_clientId c) = 0"
    using claim(4,5) w(6) by (simp_all add: W')
  show "device_session view W' n c"
    using claim(2-4) w assms(2)
    by (auto simp: device_session_def holds_session_def W' table_of_def)
qed

lemma authenticate_healthy: "healthy (view w) \<Longrightarrow> healthy (view (snd (authenticate E hops r w)))"
proof -
  have "keeps view (\<lambda>_. ()) (validateForConnect E t)" for t
    using validateForConnect_apart by (rule keeps_through)
  then have "keeps view (\<lambda>_. ()) (authenticate E hops r)"
    unfolding authenticate_def Let_def by (auto intro!: keeps_intros split: option.splits)
  then show "healthy (view w) \<Longrightarrow> healthy (view (snd (authenticate E hops r w)))" by (rule keepsD(1))
qed

lemma handleConnection_run:
  fixes W :: "'w inst"
  assumes "healthy (view (ext W))" "sk_readyState (socket_of W n) = 1"
    and "fst (authenticate E hops r (ext W)) = Inr (Some c)"
  defines "W' \<equiv> snd (handleConnection E hops n r W)"
  shows "device_session view W' n c" "inflight_of (view (ext W')) (dc_clientId c) = 0"
    and "sk_clientId (socket_of W' n) = Some (dc_clientId c)" "sk_projects (socket_of W' n) = Some (dc_projectIds c)"
    and "sk_deviceTokenId (socket_of W' n) = Some (dc_deviceTokenId c)"
    and "sk_sent (socket_of W' n) = sk_sent (socket_of W n) @ [welcome_json c]"
    and "sk_listening (socket_of W' n)" "sk_pinging (socket_of W' n)"
    and "m \<noteq> n \<Longrightarrow> socket_of W' m = socket_of W m" "instance_id W' = instance_id W"
proof -
  define W1 where "W1 = attachConnectionContext n c (W\<lparr>ext := snd (authenticate E hops r (ext W))\<rparr>)"
  have s1: "socket_of W1 = (socket_of W)(n := (socket_of W n)\<lparr>sk_clientId := Some (dc_clientId c),
       sk_deviceTokenId := Some (dc_deviceTokenId c), sk_projects := Some (dc_projectIds c),
       sk_maxInFlight := Some (dc_maxInFlight c)\<rparr>)"
    by (simp add: W1_def attachConnectionContext_def)
  have h1: "healthy (view (ext W1))"
    using authenticate_healthy [OF assms(1)] by (simp add: W1_def attachConnectionContext_def)
  define W2 where "W2 = snd (forM (registration E n c) (\<lambda>m. m) W1)"
  have open1: "sk_readyState (socket_of W1 n) = 1" using assms(2) by (simp add: s1)
  note run = registration_run [OF h1 open1, of c, folded W2_def]
  obtain t where t: "socket_of W2 = (socket_of W1)(n := (socket_of W1 n)\<lparr>sk_sessionToken := t\<rparr>)"
    using run(4) by blast
  have W': "W' = open_session E n c W2"
    using assms(3) run(1)
    by (simp add: W'_def handleConnection_def bindM_def thenM_def catchM_def registerConnection_def lift_def
        modify_def returnM_def W2_def W1_def split_def)
  have ro: "sk_readyState (socket_of W2 n) = 1" using open1 by (simp add: t)
  show "device_session view W' n c"
    using run(2) by (simp add: device_session_def holds_session_def W' open_session_socket Let_def)
  show "inflight_of (view (ext W')) (dc_clientId c) = 0" using run(3) by (simp add: W')
  show "sk_clientId (socket_of W' n) = Some (dc_clientId c)" "sk_projects (socket_of W' n) = Some (dc_projectIds c)"
    "sk_deviceTokenId (socket_of W' n) = Some (dc_deviceTokenId c)"
    "sk_sent (socket_of W' n) = sk_sent (socket_of W n) @ [welcome_json c]"
    "sk_listening (socket_of W' n)" "sk_pinging (socket_of W' n)"
    "m \<noteq> n \<Longrightarrow> socket_of W' m = socket_of W m"
    using ro by (simp_all add: W' open_session_socket t s1)
  show "instance_id W' = instance_id W"
    using run(5) by (simp add: W' W1_def attachConnectionContext_def)
qed

lemma dispatch_reaches_session:
  fixes j :: job_message
  assumes "device_session view W n c" "CHR '':'' \<notin> set (instance_id W)"
  defines "W' \<equiv> snd (dispatchJob E (dc_clientId c) j W)"
  shows "fst (dispatchJob E (dc_clientId c) j W) = Inr (\<not> past_deadline j (now_ms E (ext W')))"
    and "sk_sent (socket_of W' n) =
      sk_sent (socket_of W n) @ (if past_deadline j (now_ms E (ext W')) then [] else [job_json j])"
proof -
  obtain u where u: "strs (view (ext W)) (session_key (dc_clientId c)) = Some (instance_id W @ CHR '':'' # u)"
    "healthy (view (ext W))" "map_of (sockets W) (dc_clientId c) = Some n" "sk_readyState (socket_of W n) = 1"
    using assms(1) by (auto simp: device_session_def holds_session_def Let_def)
  have "before_colon (instance_id W @ CHR '':'' # u) = instance_id W"
    using assms(2) by (simp add: before_colon_def takeWhile_append)
  then show "fst (dispatchJob E (dc_clientId c) j W) = Inr (\<not> past_deadline j (now_ms E (ext W')))"
    "sk_sent (socket_of W' n) =
      sk_sent (socket_of W n) @ (if past_deadline j (now_ms E (ext W')) then [] else [job_json j])"
    using u by (auto simp: W'_def dispatchJob_def io_simps deliverLocalJob_def send_socket_def)
qed

lemma session_listed:
  assumes "device_session view W n c" "p \<in> set (dc_projectIds c)"
  shows "dc_clientId c \<in> set (projr (fst (listOnline E p (ext W))))"
  using assms listOnline_run(1) [of "ext W" p] by (force simp: device_session_def holds_session_def Let_def)

lemma session_capacity:
  assumes "device_session view W n c" "1 \<le> dc_maxInFlight c" "dc_maxInFlight c \<le> 1024"
  shows "fst (getMaxInFlight E (dc_clientId c) (ext W)) = Inr (dc_maxInFlight c)"
proof -
  obtain m where m: "dc_maxInFlight c = int m" "1 \<le> m" "m \<le> 1024"
    using assms(2,3) by (metis nat_le_iff nat_0_le of_nat_le_iff of_nat_1 order_trans zero_le_one of_nat_numeral)
  have "integer_of (to_number (JStr (show_int (int m)))) = Some (int m)"
    using string_to_number_show_nat [of m] m(3) by (simp add: to_number_def show_int_def)
  then have "stored_maximum (Some (show_int (int m))) = int m"
    using m(2,3) by (simp add: stored_maximum_def clampMaxInFlight_def DEFAULT_IN_FLIGHT_CAPACITY_def
        MINIMUM_IN_FLIGHT_CAPACITY_def MAXIMUM_IN_FLIGHT_CAPACITY_def show_int_def show_nat_nonempty)
  then show ?thesis
    using assms(1) getMaxInFlight_run(1) [of "ext W" "dc_clientId c"]
    by (simp add: device_session_def holds_session_def Let_def maximum_of_def m(1))
qed

text \<open>An own disconnect undoes all of it.\<close>

lemma markOffline_run:
  assumes "healthy (view w)"
  shows "fst (markOffline E c w) = Inr ()"
    and "\<exists>rs. view (snd (markOffline E c w)) = (view w)\<lparr>rows := rs\<rparr> \<and>
      contents rs devices = map (\<lambda>d. if dev_deletedAt d = None \<and> dev_clientId d = c
        then d\<lparr>dev_online := False, dev_status := ''offline''\<rparr> else d) (contents (rows (view w)) devices)"
proof -
  let ?P = "alive dev_deletedAt [\<lambda>d. dev_clientId d = c]"
  let ?f = "\<lambda>d. d\<lparr>dev_online := False, dev_status := ''offline''\<rparr>"
  let ?rs = "update_rows (on_table devices ?P) (map_table devices ?f) (rows (view w))"
  have "conflict_free ?rs"
  proof (rule conflict_free_update)
    show "conflict_free (rows (view w))" using indexes [of w] assms by simp
  next
    fix r s
    assume "conflicts (if on_table devices ?P r then map_table devices ?f r else r)
      (if on_table devices ?P s then map_table devices ?f s else s)"
    then show "conflicts r s"
      by (cases r; cases s)
        (auto simp: on_table_def map_table_def conflicts_def device_conflict_def split: if_splits)
  qed
  note run = run_update [OF assms tables_ok(7) this]
  show "fst (markOffline E c w) = Inr ()" using run(1) by (simp add: markOffline_def io_simps)
  have "contents ?rs devices = map (\<lambda>d. if dev_deletedAt d = None \<and> dev_clientId d = c then ?f d else d)
      (contents (rows (view w)) devices)"
    unfolding update_rows_def contents_update [OF tables_ok(7)] by (simp add: alive_def)
  then show "\<exists>rs. view (snd (markOffline E c w)) = (view w)\<lparr>rows := rs\<rparr> \<and>
      contents rs devices = map (\<lambda>d. if dev_deletedAt d = None \<and> dev_clientId d = c
        then ?f d else d) (contents (rows (view w)) devices)"
    using run(1,2) by (intro exI [of _ ?rs]) (simp add: markOffline_def io_simps)
qed

lemma unregister_owner:
  fixes W :: "'w inst"
  assumes "holds_session view W n c"
  defines "W' \<equiv> snd (unregister E (dc_clientId c) n W)"
  shows "fst (unregister E (dc_clientId c) n W) = Inr True"
    and "view (ext W') = del_keys [session_key (dc_clientId c)] (view (ext W))"
    and "map_of (sockets W') (dc_clientId c) = None" "socket_of W' = socket_of W"
proof -
  obtain t where t: "sk_sessionToken (socket_of W n) = Some t" "strs (view (ext W)) (session_key (dc_clientId c)) = Some t"
    "t \<noteq> []" "healthy (view (ext W))" "map_of (sockets W) (dc_clientId c) = Some n"
    using assms(1) by (auto simp: holds_session_def)
  note run = compare_and_delete_run [OF t(4), of "session_key (dc_clientId c)" t]
  show "fst (unregister E (dc_clientId c) n W) = Inr True"
    "view (ext W') = del_keys [session_key (dc_clientId c)] (view (ext W))"
    "map_of (sockets W') (dc_clientId c) = None" "socket_of W' = socket_of W"
    using t run by (simp_all add: W'_def unregister_def io_simps delete_conv')
qed

lemma handleDisconnect_owner:
  fixes W :: "'w inst"
  assumes "holds_session view W n c" "sk_clientId (socket_of W n) = Some (dc_clientId c)"
    and "sk_projects (socket_of W n) = Some (dc_projectIds c)" "dc_clientId c \<noteq> []"
  defines "W' \<equiv> snd (handleDisconnect E n W)"
  shows "healthy (view (ext W'))" "\<not> online_in (view (ext W')) (dc_clientId c)"
    and "\<forall>p \<in> set (dc_projectIds c). dc_clientId c \<notin> set (sets (view (ext W')) (clients_key p))"
    and "strs (view (ext W')) (session_key (dc_clientId c)) = None"
    and "inflight_of (view (ext W')) (dc_clientId c) = 0"
    and "\<forall>d \<in> set (table_of devices (view (ext W'))).
      dev_clientId d = dc_clientId c \<longrightarrow> dev_deletedAt d = None \<longrightarrow> \<not> dev_online d"
    and "map_of (sockets W') (dc_clientId c) = None" "\<not> sk_pinging (socket_of W' n)"
    and "sk_readyState (socket_of W' n) = sk_readyState (socket_of W n)"
proof -
  let ?i = "dc_clientId c"
  define W1 where "W1 = set_socket n ((socket_of W n)\<lparr>sk_pinging := False\<rparr>) W"
  have f1: "sk_clientId (socket_of W1 n) = Some ?i" "sk_projects (socket_of W1 n) = Some (dc_projectIds c)"
    "\<not> sk_pinging (socket_of W1 n)" "sk_readyState (socket_of W1 n) = sk_readyState (socket_of W n)"
    using assms(2,3) by (simp_all add: W1_def)
  have s1: "holds_session view W1 n c" using assms(1) by (simp add: holds_session_def W1_def)
  define W2 where "W2 = snd (unregister E ?i n W1)"
  note un = unregister_owner [OF s1, folded W2_def]
  have h2: "healthy (view (ext W2))" using assms(1) by (simp add: un(2) W1_def holds_session_def)
  define w3 where "w3 = snd (offline E ?i (dc_projectIds c) (ext W2))"
  define w4 where "w4 = snd (markOffline E ?i w3)"
  note off = offline_run [OF h2, of ?i "dc_projectIds c", folded w3_def]
  note mark = markOffline_run [OF off(4), of ?i, folded w4_def]
  obtain rs where rs: "view w4 = (view w3)\<lparr>rows := rs\<rparr>"
    "contents rs devices = map (\<lambda>d. if dev_deletedAt d = None \<and> dev_clientId d = ?i
        then d\<lparr>dev_online := False, dev_status := ''offline''\<rparr> else d) (contents (rows (view w3)) devices)"
    using mark(2) by blast
  have "W' = W2\<lparr>ext := w4\<rparr>"
    using assms(4) un(1) off(1) mark(1)
    by (simp add: W'_def handleDisconnect_def io_simps nonempty_def lift_def f1 flip: W1_def W2_def w3_def w4_def)
  then show "healthy (view (ext W'))" "\<not> online_in (view (ext W')) ?i"
    "\<forall>p \<in> set (dc_projectIds c). ?i \<notin> set (sets (view (ext W')) (clients_key p))"
    "strs (view (ext W')) (session_key ?i) = None" "inflight_of (view (ext W')) ?i = 0"
    "\<forall>d \<in> set (table_of devices (view (ext W'))).
      dev_clientId d = ?i \<longrightarrow> dev_deletedAt d = None \<longrightarrow> \<not> dev_online d"
    "map_of (sockets W') ?i = None" "\<not> sk_pinging (socket_of W' n)"
    "sk_readyState (socket_of W' n) = sk_readyState (socket_of W n)"
    using off un h2
    by (auto simp: rs online_in_def inflight_of_def table_of_def un(2-4) f1(3,4))
qed

end

section \<open>Connecting and disconnecting\<close>

lemma authenticated_capacity:
  assumes "fst (authenticate E hops r w) = Inr (Some c)"
  shows "1 \<le> dc_maxInFlight c" "dc_maxInFlight c \<le> 1024" "dc_clientId c \<noteq> []"
  using assms clamp_bounds
  by (auto simp: authenticate_def Let_def bindM_def catchM_def nonempty_def split: option.splits sum.splits prod.splits if_splits)

text \<open>A phone with the token of group 3 connects to an instance that has open sockets and no session.\<close>

definition phone_request :: ws_request where
  "phone_request = \<lparr>wr_searchParams = Some [(''token'', ''dk_a''), (''clientId'', ''phone''), (''maxInFlight'', ''2'')],
     wr_forwardedFor = None, wr_remoteAddress = Some ''10.0.0.9''\<rparr>"

definition gateway_store :: store where
  "gateway_store = empty_store\<lparr>rows := [DeviceToken example_device_token,
     DeviceTokenProject \<lparr>tp_tokenId = 4, tp_projectId = 3, tp_description = None\<rparr>]\<rparr>"

definition gateway :: "sim inst" where
  "gateway = \<lparr>ext = sim_start\<lparr>sim_store := gateway_store\<rparr>, instance_id = ''i'',
     socket_of = (\<lambda>_. closed_socket\<lparr>sk_readyState := 1\<rparr>), sockets = [], waiters = [], settled = []\<rparr>"

lemma gateway_sel [simp]:
  "sim_view (ext gateway) = gateway_store" "healthy gateway_store" "instance_id gateway = ''i''"
  "socket_of gateway m = closed_socket\<lparr>sk_readyState := 1\<rparr>"
proof -
  show "sim_view (ext gateway) = gateway_store"
    unfolding gateway_def inst.simps by (rule sim_view_intro) (simp add: gateway_store_def conflicts_def)
qed (simp_all add: gateway_def gateway_store_def)

lemma phone_token_valid: "fst (validateForConnect sim_env ''dk_a'' (ext gateway)) = Inr (Some (4, [3]))"
proof -
  have "strs (sim_view (ext gateway)) k = None" for k by (simp add: gateway_store_def empty_store_def)
  then obtain w' where w': "sim_view w' = gateway_store"
    "fst (validateForConnect sim_env ''dk_a'' (ext gateway)) =
      (case fst (findDeviceByToken sim_env ''dk_a'' w') of
         Inl e \<Rightarrow> Inl e
       | Inr None \<Rightarrow> Inr None
       | Inr (Some d) \<Rightarrow> Inr (if dts_status d \<noteq> ''active'' then None else Some (dts_id d, dts_projectIds d)))"
    using services.validate_uncached [OF sim_services, of "ext gateway" "''dk_a''"] by auto
  have t: "dvt_token example_device_token = ''dk_a''" "dvt_deletedAt example_device_token = None"
    "dvt_id example_device_token = 4" "dvt_status example_device_token = ''active''"
    by (simp_all add: example_device_token_def)
  obtain ids where "fst (findDeviceByToken sim_env ''dk_a'' w') = Inr (Some (device_snapshot_of example_device_token ids))"
    "mset ids = {#3#}"
    using services.findDeviceByToken_some(1) [OF sim_services, of w' example_device_token]
    by (auto simp: w'(1) t) (simp add: gateway_store_def)
  then show "fst (validateForConnect sim_env ''dk_a'' (ext gateway)) = Inr (Some (4, [3]))"
    by (simp add: w'(2) device_snapshot_of_def t)
qed

lemma phone_authenticates:
  obtains c where "fst (authenticate sim_env 0 phone_request (ext gateway)) = Inr (Some c)"
    and "dc_clientId c = ''phone''" "dc_projectIds c = [3]"
proof -
  have "fst (authenticate sim_env 0 phone_request (ext gateway)) = Inr (Some
      \<lparr>dc_clientId = ''phone'', dc_projectIds = [3], dc_deviceTokenId = 4,
        dc_metadata = \<lparr>dm_platform = None, dm_lastIp = clientIp 0 phone_request, dm_extra = None,
          dm_maxInFlight = Some (clampMaxInFlight (Some (null_or_string (Some ''2''))))\<rparr>,
        dc_maxInFlight = clampMaxInFlight (Some (null_or_string (Some ''2'')))\<rparr>)"
    using phone_token_valid
    by (cases "validateForConnect sim_env ''dk_a'' (ext gateway)")
      (simp add: authenticate_def phone_request_def nonempty_def bindM_def catchM_def returnM_def Let_def)
  then show thesis by (rule that) simp_all
qed

text \<open>
  C9: a connected device is served.  After the connection of a device with a valid token it is
  welcomed, every group of its token lists it, routing reads the capacity it reported and no call
  in flight, its row is online under its token, and a job dispatched to it on this instance is sent
  down this very socket unless its deadline has passed.
\<close>

theorem connected_device_is_served:
  fixes W :: "'w inst" and j :: job_message
  assumes "services E view" "healthy (view (ext W))" "sk_readyState (socket_of W n) = 1"
    and "fst (authenticate E hops r (ext W)) = Inr (Some c)" "CHR '':'' \<notin> set (instance_id W)"
  defines "W' \<equiv> snd (handleConnection E hops n r W)"
  shows "sk_sent (socket_of W' n) = sk_sent (socket_of W n) @ [welcome_json c] \<and>
    (\<forall>p \<in> set (dc_projectIds c). dc_clientId c \<in> set (projr (fst (listOnline E p (ext W'))))) \<and>
    fst (getMaxInFlight E (dc_clientId c) (ext W')) = Inr (dc_maxInFlight c) \<and>
    inflight_of (view (ext W')) (dc_clientId c) = 0 \<and>
    (\<exists>d \<in> set (table_of devices (view (ext W'))). dev_clientId d = dc_clientId c \<and> dev_online d \<and>
      dev_deletedAt d = None \<and> dev_deviceTokenId d = Some (dc_deviceTokenId c)) \<and>
    (let (sent, W2) = dispatchJob E (dc_clientId c) j W'; late = past_deadline j (now_ms E (ext W2)) in
      sent = Inr (\<not> late) \<and>
      sk_sent (socket_of W2 n) = sk_sent (socket_of W' n) @ (if late then [] else [job_json j]))"
proof -
  note run = services.handleConnection_run [OF assms(1-4), folded W'_def]
  note cap = authenticated_capacity [OF assms(4)]
  have me: "CHR '':'' \<notin> set (instance_id W')" using assms(5) by (simp add: run(10))
  show ?thesis
    using run(6,2) services.session_listed [OF assms(1) run(1)]
      services.session_capacity [OF assms(1) run(1) cap(1,2)]
      services.dispatch_reaches_session [OF assms(1) run(1) me, of j] run(1)
    by (simp add: device_session_def Let_def split_def)
qed

theorem connected_device_is_served_witness:
  "\<exists>c. dc_clientId c = ''phone'' \<and>
    sk_sent (socket_of (snd (handleConnection sim_env 0 1 phone_request gateway)) 1) = [welcome_json c]"
proof -
  obtain c where c: "fst (authenticate sim_env 0 phone_request (ext gateway)) = Inr (Some c)" "dc_clientId c = ''phone''"
    by (rule phone_authenticates)
  from connected_device_is_served [OF sim_services _ _ c(1), of 1] c(2)
  show ?thesis by (intro exI [of _ c]) (simp add: closed_socket_def)
qed



text \<open>Whatever the services do, a connection ends up refused, given up, or in service.\<close>

lemma handleConnection_returns: "fst (handleConnection E hops n r W) = Inr ()"
proof -
  obtain v w1 where a: "authenticate E hops r (ext W) = (Inr v, w1)"
  proof -
    have "\<not> isl (fst (authenticate E hops r (ext W)))"
      by (auto simp: authenticate_def catchM_def split: sum.splits)
    then show thesis using that by (cases "authenticate E hops r (ext W)"; cases "fst (authenticate E hops r (ext W))") auto
  qed
  show ?thesis
    by (auto simp: handleConnection_def bindM_def lift_def a registerConnection_def catchM_def thenM_def modify_def
        split: option.splits sum.splits)
qed

lemma registration_socket:
  fixes W :: "'w inst"
  shows "\<exists>t. socket_of (snd (forM (registration E n c) (\<lambda>m. m) W)) =
    (socket_of W)(n := (socket_of W n)\<lparr>sk_sessionToken := t\<rparr>)"
proof -
  have same: "\<exists>t. socket_of V = (socket_of V)(n := (socket_of V n)\<lparr>sk_sessionToken := t\<rparr>)" for V :: "'w inst"
    by (rule exI [of _ "sk_sessionToken (socket_of V n)"]) simp
  have "\<exists>t. socket_of (snd (register E (dc_clientId c) n W)) =
      (socket_of W)(n := (socket_of W n)\<lparr>sk_sessionToken := t\<rparr>)"
    using same [of W] by (auto simp: register_def bindM_def thenM_def gets_def modify_def split: sum.splits)
  then show ?thesis by (auto simp: registration_def thenM_def returnM_def split: sum.splits)
qed



lemma ping_timer_run:
  assumes "sk_readyState (socket_of W n) = 1" "sk_lastActivity (socket_of W n) = Some t"
  shows "socket_of (fold (on_ping_timer n) ts W) =
    (socket_of W)(n := (socket_of W n)
       \<lparr>sk_readyState := (if \<exists>x \<in> set ts. READ_TIMEOUT_MILLISECONDS < x - t then 2 else 1),
        sk_pings := sk_pings (socket_of W n) +
          length (takeWhile (\<lambda>x. x - t \<le> READ_TIMEOUT_MILLISECONDS) ts)\<rparr>)"
  using assms
proof (induction ts arbitrary: W)
  case Nil
  then show ?case by (cases "socket_of W n") (simp add: fun_eq_iff)
next
  case (Cons x ts)
  let ?late = "READ_TIMEOUT_MILLISECONDS < x - t"
  have closed: "fold (on_ping_timer n) ts V = V" if "sk_readyState (socket_of V n) \<noteq> 1" for V :: "'a inst"
    using that by (induction ts) (simp_all add: on_ping_timer_def)
  show ?case
  proof (cases ?late)
    case True
    then have step: "on_ping_timer n x W = terminate_socket n W"
      using Cons.prems by (simp add: on_ping_timer_def or_default_def)
    have "fold (on_ping_timer n) ts (terminate_socket n W) = terminate_socket n W"
      by (rule closed) (simp add: terminate_socket_def)
    then show ?thesis using True by (simp add: step terminate_socket_def)
  next
    case False
    then have step: "on_ping_timer n x W = ping_socket n W"
      using Cons.prems by (simp add: on_ping_timer_def or_default_def)
    show ?thesis
      using Cons.IH [of "ping_socket n W"] Cons.prems False by (simp add: step ping_socket_def fun_eq_iff)
  qed
qed



section \<open>A connection that closes while it is being registered\<close>

text \<open>
  The statements of the registration are awaited.  Here the socket closes after the first \<open>k\<close> of them,
  its disconnect is handled, and then the registration goes on.
\<close>

definition interrupted_connection :: "'w env \<Rightarrow> nat \<Rightarrow> nat \<Rightarrow> device_connection \<Rightarrow> 'w inst \<Rightarrow> 'w inst" where
  "interrupted_connection E k n c W =
     (let W1 = snd (forM (take k (registration E n c)) (\<lambda>m. m) (attachConnectionContext n c W));
          W2 = snd (handleDisconnect E n (set_socket n ((socket_of W1 n)\<lparr>sk_readyState := 3\<rparr>) W1));
          W3 = snd (forM (drop k (registration E n c)) (\<lambda>m. m) W2) in
      open_session E n c W3)"

text \<open>
  C19: a device that leaves while it is being registered stays listed.  When the socket closes after the
  session and the row were written, the disconnect is handled in full, and yet afterwards every group
  lists the device as online although no job can be dispatched to it, and the timer of the closed
  socket runs on, a tick of it changing nothing, with no disconnect left that would stop it.
\<close>

theorem early_close_leaves_ghost:
  fixes W :: "'w inst" and n :: nat
  assumes "services E view" "healthy (view (ext W))" "p \<in> set (dc_projectIds c)" "dc_clientId c \<noteq> []"
  defines "W' \<equiv> interrupted_connection E 2 n c W"
  shows "dc_clientId c \<in> set (projr (fst (listOnline E p (ext W')))) \<and>
    fst (dispatchJob E (dc_clientId c) j W') = Inr False \<and>
    sk_readyState (socket_of W' n) = 3 \<and> sk_pinging (socket_of W' n) \<and> on_ping_timer n now W' = W'"
proof -
  define V where "V = attachConnectionContext n c W"
  have hV: "healthy (view (ext V))" using assms(2) by (simp add: V_def attachConnectionContext_def)
  define W1 where "W1 = snd (forM (take 2 (registration E n c)) (\<lambda>m. m) V)"
  note claim = services.claiming_run [OF assms(1) hV, of n c, folded W1_def]
  define W1' where "W1' = set_socket n ((socket_of W1 n)\<lparr>sk_readyState := 3\<rparr>) W1"
  have s1: "holds_session view W1' n c" "sk_clientId (socket_of W1' n) = Some (dc_clientId c)"
    "sk_projects (socket_of W1' n) = Some (dc_projectIds c)" "sk_readyState (socket_of W1' n) = 3"
    using claim(2,4) by (auto simp: W1'_def holds_session_def V_def attachConnectionContext_def)
  define W2 where "W2 = snd (handleDisconnect E n W1')"
  note off = services.handleDisconnect_owner [OF assms(1) s1(1-3) assms(4), folded W2_def]
  obtain w where w: "forM (drop 2 (registration E n c)) (\<lambda>m. m) W2 = (Inr (), W2\<lparr>ext := w\<rparr>)" "healthy (view w)"
    "online_in (view w) (dc_clientId c)"
    "\<forall>p \<in> set (dc_projectIds c). dc_clientId c \<in> set (sets (view w) (clients_key p))"
    "strs (view w) (session_key (dc_clientId c)) = strs (view (ext W2)) (session_key (dc_clientId c))"
    by (rule services.listing_run [OF assms(1) off(1), of n c])
  have W': "W' = open_session E n c (W2\<lparr>ext := w\<rparr>)"
    by (simp add: W'_def interrupted_connection_def w(1) flip: V_def W1_def W1'_def W2_def)
  have closed: "sk_readyState (socket_of W2 n) = 3" using s1(4) off(9) by simp
  have "dc_clientId c \<in> set (projr (fst (listOnline E p (ext W'))))"
    using services.listOnline_run(1) [OF assms(1), of w p] w(2-4) assms(3) by (force simp: W')
  moreover have "fst (dispatchJob E (dc_clientId c) j W') = Inr False"
    using services.run_get [OF assms(1) w(2), of "session_key (dc_clientId c)"] w(5) off(4)
    by (simp add: W' dispatchJob_def io_simps)
  ultimately show ?thesis by (simp add: W' open_session_socket closed on_ping_timer_def)
qed

theorem early_close_leaves_ghost_witness:
  "\<exists>c. fst (authenticate sim_env 0 phone_request (ext gateway)) = Inr (Some c) \<and>
    ''phone'' \<in> set (projr (fst (listOnline sim_env 3 (ext (interrupted_connection sim_env 2 1 c gateway)))))"
proof -
  obtain c where c: "fst (authenticate sim_env 0 phone_request (ext gateway)) = Inr (Some c)"
    "dc_clientId c = ''phone''" "dc_projectIds c = [3]"
    by (rule phone_authenticates)
  from early_close_leaves_ghost [OF sim_services, of gateway 3 c 1] c show ?thesis by auto
qed

end
