(* ===== verification/Session_Isolation.thy ===== *)
theory Session_Isolation
  imports Device_Sessions
begin

text \<open>
  The sessions of different devices do not disturb each other: what one socket does leaves the session
  of another device as it was, and so does the late close of an earlier socket of the same device.
\<close>

section \<open>What belongs to one client\<close>

definition client_keys :: "string \<Rightarrow> string set" where
  "client_keys c = {session_key c, presence_key c, maxinflight_key c}"

text \<open>All that a session of client \<open>c\<close> reads of the store.\<close>

definition mark :: "string \<Rightarrow> store \<Rightarrow> _" where
  "mark c s = (map (strs s) [session_key c, presence_key c, maxinflight_key c],
     {p. c \<in> set (sets s (clients_key p))}, {d \<in> set (table_of devices s). dev_clientId d = c})"

lemma client_keys_apart [simp]:
  "waiter_key r \<notin> client_keys c" "completed_key r \<notin> client_keys c" "deviceTokenCacheKey E t \<notin> client_keys c"
  "inflight_key d \<notin> client_keys c" "session_key d \<in> client_keys c \<longleftrightarrow> d = c"
  "presence_key d \<in> client_keys c \<longleftrightarrow> d = c" "maxinflight_key d \<in> client_keys c \<longleftrightarrow> d = c"
  by (auto simp: client_keys_def session_key_def waiter_key_def completed_key_def presence_keys deviceTokenCacheKey_def)

lemma mark_writes [simp]:
  "k \<notin> client_keys c \<Longrightarrow> \<not> is_set_key k \<Longrightarrow> mark c (put_str k v t s) = mark c s"
  "set ks \<inter> client_keys c = {} \<Longrightarrow> \<forall>k \<in> set ks. \<not> is_set_key k \<Longrightarrow> mark c (del_keys ks s) = mark c s"
  "mark c (expire_key k t' s) = mark c s" "mark c (s\<lparr>published := ps\<rparr>) = mark c s"
  by (auto simp: mark_def client_keys_def table_of_def)

text \<open>A write to the rows of other clients.\<close>

lemma mark_rows:
  assumes "{d \<in> set (contents rs devices). dev_clientId d = c} =
    {d \<in> set (contents (rows s) devices). dev_clientId d = c}"
  shows "mark c (s\<lparr>rows := rs\<rparr>) = mark c s"
  using assms by (simp add: mark_def table_of_def)

context services
begin

lemma keeps_mark_redis:
  "k \<notin> client_keys c \<Longrightarrow> \<not> is_set_key k \<Longrightarrow> keeps view (mark c) (redis_set_ttl E k v t)"
  "k \<notin> client_keys c \<Longrightarrow> \<not> is_set_key k \<Longrightarrow> keeps view (mark c) (redis_set_nx E k v t)"
  "set ks \<inter> client_keys c = {} \<Longrightarrow> \<forall>k \<in> set ks. \<not> is_set_key k \<Longrightarrow> keeps view (mark c) (redis_del E ks)"
  "keeps view (mark c) (redis_expire E k t)" "keeps view (mark c) (redis_publish E ch m)"
  by (simp_all add: keeps_unfold)

lemma keeps_mark_members:
  assumes "d \<noteq> c"
  shows "keeps view (mark c) (redis_sadd E (clients_key p) d)" "keeps view (mark c) (redis_srem E (clients_key p) d)"
  using assms by (auto simp: keeps_unfold mark_def table_of_def)

lemma keeps_mark_update:
  assumes "\<And>d. P d \<Longrightarrow> dev_clientId d \<noteq> c" "\<And>d. dev_clientId (f d) = dev_clientId d"
  shows "keeps view (mark c) (update_table E devices P f)"
  unfolding keeps_unfold
proof (intro allI impI)
  fix w assume h: "healthy (view w)"
  let ?rs = "update_rows (on_table devices P) (map_table devices f) (rows (view w))"
  have "contents ?rs devices = map (\<lambda>x. if P x then f x else x) (contents (rows (view w)) devices)"
    unfolding update_rows_def by (rule contents_update) simp
  then have "mark c ((view w)\<lparr>rows := ?rs\<rparr>) = mark c (view w)"
    using assms by (intro mark_rows) (force simp: image_iff)
  moreover have "view (snd (update_table E devices P f w)) = (view w)\<lparr>rows := ?rs\<rparr> \<or>
      view (snd (update_table E devices P f w)) = view w"
    using run_update(2) [OF h, of devices P f] run_update_conflict(2) [OF h, of devices P f] by auto
  ultimately show "healthy (view (snd (update_table E devices P f w))) \<and>
      mark c (view (snd (update_table E devices P f w))) = mark c (view w)"
    using h by auto
qed

lemma keeps_mark_online:
  assumes "d \<noteq> c"
  shows "keeps view (mark c) (registerOnline E d t m)"
  unfolding keeps_unfold
proof (intro allI impI)
  fix w assume h: "healthy (view w)"
  show "healthy (view (snd (registerOnline E d t m w))) \<and>
    mark c (view (snd (registerOnline E d t m w))) = mark c (view w)"
  proof (cases "\<exists>x \<in> set (contents (rows (view w)) devices). dev_clientId x = d")
    case True
    then obtain x where "x \<in> set (contents (rows (view w)) devices)" "dev_clientId x = d" by blast
    from registerOnline_existing [OF h this, of t m] obtain y
      where y: "y \<in> set (contents (rows (view w)) devices)" "dev_clientId y = d"
        "view (snd (registerOnline E d t m w)) = (view w)\<lparr>rows :=
          update_rows (on_table devices (\<lambda>x. dev_id x = dev_id y))
            (map_table devices (online_patch t m (now_ms E w) (dev_deletedAt y \<noteq> None))) (rows (view w))\<rparr>"
      by blast
    have cf: "conflict_free (rows (view w))" using indexes [of w] h by simp
    let ?f = "online_patch t m (now_ms E w) (dev_deletedAt y \<noteq> None)"
    have "contents (update_rows (on_table devices (\<lambda>x. dev_id x = dev_id y)) (map_table devices ?f) (rows (view w)))
        devices = map (\<lambda>x. if dev_id x = dev_id y then ?f x else x) (contents (rows (view w)) devices)"
      unfolding update_rows_def by (rule contents_update) simp
    moreover have "dev_clientId x = d" if "x \<in> set (contents (rows (view w)) devices)" "dev_id x = dev_id y" for x
      using device_ids_unique [OF cf that(1) y(1) that(2)] y(2) by simp
    ultimately show ?thesis
      using h assms unfolding y(3) by (intro conjI mark_rows) (force simp: image_iff)+
  next
    case False
    then have none: "\<forall>x \<in> set (contents (rows (view w)) devices). dev_clientId x \<noteq> d" by blast
    obtain i where i: "view (snd (registerOnline E d t m w)) =
        (view w)\<lparr>rows := rows (view w) @ [Device (new_device d t m (now_ms E w) i)]\<rparr>"
      using registerOnline_new [OF h none, of t m] by blast
    show ?thesis
      using h assms unfolding i by (intro conjI mark_rows) (auto simp: new_device_def online_base_def)
  qed
qed

lemma keeps_mark_others:
  assumes "d \<noteq> c"
  shows "keeps view (mark c) (online E d ps)" "keeps view (mark c) (offline E d ps)"
    "keeps view (mark c) (markOffline E d)" "keeps view (mark c) (setMaxInFlight E d m)"
    "keeps view (mark c) (resetInFlight E d)" "keeps view (mark c) (refresh E d)"
    "keeps view (mark c) (compare_and_delete E (session_key d) t)"
  unfolding online_def offline_def markOffline_def setMaxInFlight_def resetInFlight_def refresh_def
    compare_and_delete_def
  using assms
  by (auto intro!: keeps_intros keeps_mark_redis keeps_mark_members keeps_mark_update keeps_redis_read
      simp: alive_def split: option.splits)

lemma keeps_mark_validate: "keeps view (mark c) (validateForConnect E t)"
proof -
  have "mark c s' = mark c s" if "apart (deviceTokenCacheKey E t) s' = apart (deviceTokenCacheKey E t) s" for s s'
  proof -
    have "(strs s')(deviceTokenCacheKey E t := None) = (strs s)(deviceTokenCacheKey E t := None)"
      using that by (simp add: apart_def)
    then have "strs s' k = strs s k" if "k \<in> client_keys c" for k
      using that client_keys_apart(3) by (metis fun_upd_other)
    then show ?thesis using that by (simp add: mark_def apart_def table_of_def client_keys_def)
  qed
  then show ?thesis
    using keeps_relates [OF validateForConnect_apart [of t], of "\<lambda>s s'. mark c s' = mark c s"]
    unfolding keeps_def by blast
qed

lemma keeps_mark_authenticate: "keeps view (mark c) (authenticate E hops r)"
  unfolding authenticate_def Let_def by (intro keeps_intros keeps_mark_validate)

end

section \<open>What one socket does to the session of another client\<close>

text \<open>\<open>spares\<close>: run in \<open>W\<close>, the operation leaves alone what a session of client \<open>c\<close> on socket \<open>n\<close> needs.\<close>

definition spared :: "('w \<Rightarrow> store) \<Rightarrow> string \<Rightarrow> nat \<Rightarrow> 'w inst \<Rightarrow> 'w inst \<Rightarrow> bool" where
  "spared view c n W W' \<longleftrightarrow>
     (healthy (view (ext W)) \<longrightarrow> healthy (view (ext W')) \<and> mark c (view (ext W')) = mark c (view (ext W))) \<and>
     socket_of W' n = socket_of W n \<and> map_of (sockets W') c = map_of (sockets W) c \<and>
     instance_id W' = instance_id W"

definition spares :: "('w \<Rightarrow> store) \<Rightarrow> string \<Rightarrow> nat \<Rightarrow> 'w inst \<Rightarrow> ('w inst, 'a) io \<Rightarrow> bool" where
  "spares view c n W m \<longleftrightarrow> spared view c n W (snd (m W))"

lemma spared_refl [simp]: "spared view c n W W"
  by (simp add: spared_def)

lemma spared_trans: "spared view c n W V \<Longrightarrow> spared view c n V U \<Longrightarrow> spared view c n W U"
  by (auto simp: spared_def)

lemma spares_return [simp]: "spares view c n W (returnM a)" "spares view c n W (throwM e)"
  "spares view c n W (gets g)"
  by (simp_all add: spares_def returnM_def throwM_def gets_def)

lemma spares_modify: "spares view c n W (modify f) \<longleftrightarrow> spared view c n W (f W)"
  by (simp add: spares_def modify_def)

lemma spares_lift: "keeps view (mark c) m \<Longrightarrow> spares view c n W (lift m)"
  by (simp add: spares_def spared_def keeps_unfold)

lemma spares_bind:
  "spares view c n W m \<Longrightarrow> (\<And>a V. m W = (Inr a, V) \<Longrightarrow> spares view c n V (f a)) \<Longrightarrow> spares view c n W (bindM m f)"
  by (cases "m W"; cases "fst (m W)") (auto simp: spares_def bindM_def intro: spared_trans)

lemma spares_gets: "spares view c n W (f (g W)) \<Longrightarrow> spares view c n W (bindM (gets g) f)"
  by (simp add: spares_def bindM_def gets_def)

lemma spares_then:
  "spares view c n W m \<Longrightarrow> (\<And>a V. m W = (Inr a, V) \<Longrightarrow> spares view c n V k) \<Longrightarrow> spares view c n W (thenM m k)"
  by (cases "m W"; cases "fst (m W)") (auto simp: spares_def thenM_def intro: spared_trans)

lemma spares_catch:
  "spares view c n W m \<Longrightarrow> (\<And>e V. m W = (Inl e, V) \<Longrightarrow> spares view c n V (h e)) \<Longrightarrow> spares view c n W (catchM m h)"
  by (cases "m W"; cases "fst (m W)") (auto simp: spares_def catchM_def intro: spared_trans)

lemma spares_ignored: "spares view c n W m \<Longrightarrow> spares view c n W (ignoreM m)"
  "spares view c n W m \<Longrightarrow> spares view c n W (ignore_rows m)"
  by (cases "m W"; cases "fst (m W)"; simp add: spares_def ignoreM_def ignore_rows_def thenM_def returnM_def)+

lemma spares_forM: "(\<And>x V. x \<in> set xs \<Longrightarrow> spares view c n V (f x)) \<Longrightarrow> spares view c n W (forM xs f)"
  by (induction xs arbitrary: W) (auto intro!: spares_then)

lemmas spares_intros = spares_return spares_bind spares_then spares_catch spares_ignored

lemma spared_socket [simp]: "m \<noteq> n \<Longrightarrow> spared view c n W (set_socket m k W)"
  "m \<noteq> n \<Longrightarrow> spared view c n W (close_socket m code reason W)"
  "m \<noteq> n \<Longrightarrow> spared view c n W (send_if_open m x W)" "m \<noteq> n \<Longrightarrow> spared view c n W (touch E m W)"
  "m \<noteq> n \<Longrightarrow> spared view c n W (open_session E m d W)"
  "m \<noteq> n \<Longrightarrow> spared view c n W (attachConnectionContext m d W)"
  by (simp_all add: spared_def close_socket_def send_if_open_def send_socket_def touch_def open_session_socket
      attachConnectionContext_def)

context services
begin

lemma spares_register:
  assumes "m \<noteq> n" "d \<noteq> c"
  shows "spares view c n W (register E d m)"
  unfolding register_def
  using assms
  by (auto intro!: spares_intros spares_gets spares_lift keeps_random keeps_mark_redis
      simp: spares_modify spared_def update_conv')

lemma spares_unregister:
  assumes "m \<noteq> n" "d \<noteq> c"
  shows "spares view c n W (unregister E d m)"
  unfolding unregister_def
  using assms
  by (auto intro!: spares_intros spares_gets spares_lift keeps_mark_others
      simp: spares_modify spared_def delete_conv' split: option.splits)

lemma spares_handleConnection:
  assumes "m \<noteq> n" "\<And>d. fst (authenticate E hops r (ext W)) = Inr (Some d) \<Longrightarrow> dc_clientId d \<noteq> c"
  shows "spares view c n W (handleConnection E hops m r)"
proof -
  have reg: "spares view c n V (forM (registration E m d) (\<lambda>m. m))" if "dc_clientId d \<noteq> c" for d V
    using that assms(1)
    by (auto simp: registration_def
        intro!: spares_intros spares_register spares_lift keeps_mark_others keeps_mark_online)
  show ?thesis
    unfolding handleConnection_def registerConnection_def
    using assms
    by (auto intro!: spares_intros spares_lift keeps_mark_authenticate reg
        simp: spares_modify lift_def split: option.splits)
qed

lemma spares_handleDisconnect:
  assumes "m \<noteq> n" "sk_clientId (socket_of W m) \<noteq> Some c"
  shows "spares view c n W (handleDisconnect E m)"
  unfolding handleDisconnect_def
  using assms
  by (auto intro!: spares_intros spares_gets spares_lift spares_unregister keeps_mark_others
      simp: spares_modify nonempty_def modify_def split: option.splits)

lemma spares_resolve: "spares view c n W (resolveLocalWaiter i res d)"
  by (auto simp: spares_def spared_def resolveLocalWaiter_def split: option.splits)

lemma spares_results:
  "spares view c n W (handleResult E i d res)" "spares view c n W (handle_untyped_result E j d res)"
  unfolding handleResult_def handle_untyped_result_def bus_publish_def
  by (auto intro!: spares_intros spares_gets spares_lift spares_resolve keeps_mark_redis keeps_redis_read
      split: option.splits)

lemma spares_onMessage:
  assumes "m \<noteq> n" "sk_clientId (socket_of W m) \<noteq> Some c"
  shows "spares view c n W (onMessage E m text)"
proof -
  have "spares view c n W (handleHeartbeat E m)"
    unfolding handleHeartbeat_def refreshSession_def
    using assms
    by (auto intro!: spares_intros spares_gets spares_lift keeps_mark_others keeps_mark_redis
        simp: nonempty_def split: option.splits)
  moreover have "spares view c n W (handle_result_of E m x)" for x
    unfolding handle_result_of_def
    by (auto intro!: spares_gets spares_results split: option.splits json.splits)
  ultimately show ?thesis
    unfolding onMessage_def
    using assms(1) by (auto intro!: spares_intros simp: spares_modify split: option.splits)
qed

end

section \<open>The life of a session among others\<close>

text \<open>What the gateway of one instance handles.\<close>

datatype gateway_event =
    Connects nat ws_request
  | Disconnects nat
  | Says nat string
  | Pongs nat
  | Ticks nat int

definition on_gateway_event :: "'w env \<Rightarrow> nat \<Rightarrow> gateway_event \<Rightarrow> 'w inst \<Rightarrow> 'w inst" where
  "on_gateway_event E hops e W =
     (case e of
        Connects m r \<Rightarrow> snd (handleConnection E hops m r W)
      | Disconnects m \<Rightarrow> snd (handleDisconnect E m W)
      | Says m text \<Rightarrow> on_message_event E m text W
      | Pongs m \<Rightarrow> on_pong E m W
      | Ticks m now \<Rightarrow> on_ping_timer m now W)"

text \<open>
  An event of a socket other than \<open>n\<close>: it connects as another client than \<open>c\<close>, speaks as another
  client, or closes; a socket that closes may be an earlier one of \<open>c\<close>, with its own token.
\<close>

definition foreign :: "'w env \<Rightarrow> nat \<Rightarrow> string \<Rightarrow> nat \<Rightarrow> 'w inst \<Rightarrow> gateway_event \<Rightarrow> bool" where
  "foreign E hops c n W e \<longleftrightarrow>
     (case e of
        Connects m r \<Rightarrow> m \<noteq> n \<and>
          (case fst (authenticate E hops r (ext W)) of Inr (Some d) \<Rightarrow> dc_clientId d \<noteq> c | _ \<Rightarrow> True)
      | Disconnects m \<Rightarrow> m \<noteq> n \<and>
          (sk_clientId (socket_of W m) \<noteq> Some c \<or> sk_sessionToken (socket_of W m) \<noteq> sk_sessionToken (socket_of W n))
      | Says m text \<Rightarrow> m \<noteq> n \<and> sk_clientId (socket_of W m) \<noteq> Some c
      | Pongs m \<Rightarrow> m \<noteq> n
      | Ticks m now \<Rightarrow> m \<noteq> n)"

inductive foreign_run :: "'w env \<Rightarrow> nat \<Rightarrow> string \<Rightarrow> nat \<Rightarrow> 'w inst \<Rightarrow> 'w inst \<Rightarrow> bool"
  for E hops c n W where
  start: "foreign_run E hops c n W W"
| event: "foreign_run E hops c n W V \<Longrightarrow> foreign E hops c n V e \<Longrightarrow>
    foreign_run E hops c n W (on_gateway_event E hops e V)"

lemma spared_session:
  assumes "spared view (dc_clientId c) n W W'" "device_session view W n c"
  shows "device_session view W' n c"
proof -
  let ?i = "dc_clientId c"
  have h: "healthy (view (ext W'))" "mark ?i (view (ext W')) = mark ?i (view (ext W))"
    and local: "socket_of W' n = socket_of W n" "map_of (sockets W') ?i = map_of (sockets W) ?i"
      "instance_id W' = instance_id W"
    using assms by (auto simp: spared_def device_session_def holds_session_def Let_def)
  from h(2) have m: "strs (view (ext W')) (session_key ?i) = strs (view (ext W)) (session_key ?i)"
    "strs (view (ext W')) (presence_key ?i) = strs (view (ext W)) (presence_key ?i)"
    "strs (view (ext W')) (maxinflight_key ?i) = strs (view (ext W)) (maxinflight_key ?i)"
    "{p. ?i \<in> set (sets (view (ext W')) (clients_key p))} = {p. ?i \<in> set (sets (view (ext W)) (clients_key p))}"
    "{d \<in> set (table_of devices (view (ext W'))). dev_clientId d = ?i} =
     {d \<in> set (table_of devices (view (ext W))). dev_clientId d = ?i}"
    by (simp_all add: mark_def)
  then show ?thesis
    using assms(2) h(1) local
    by (auto simp: device_session_def holds_session_def Let_def online_in_def set_eq_iff Bex_def)
qed

context services
begin

text \<open>The late close of an earlier socket of the client: it does not own the session any more.\<close>

lemma late_close_spares:
  assumes "device_session view W n c" "m \<noteq> n" "sk_clientId (socket_of W m) = Some (dc_clientId c)"
    and "sk_sessionToken (socket_of W m) \<noteq> sk_sessionToken (socket_of W n)"
  shows "spares view (dc_clientId c) n W (handleDisconnect E m)"
proof -
  define V where "V = set_socket m ((socket_of W m)\<lparr>sk_pinging := False\<rparr>) W"
  obtain t where t: "sk_sessionToken (socket_of W n) = Some t" "map_of (sockets W) (dc_clientId c) = Some n"
    "strs (view (ext W)) (session_key (dc_clientId c)) = Some t" "healthy (view (ext W))"
    using assms(1) by (auto simp: device_session_def holds_session_def Let_def)
  have un: "fst (unregister E (dc_clientId c) m V) = Inr False"
    "spared view (dc_clientId c) n V (snd (unregister E (dc_clientId c) m V))"
    using t assms(2,4) compare_and_delete_run [OF t(4), of "session_key (dc_clientId c)"]
    by (auto simp: unregister_def io_simps V_def spared_def split: option.splits)
  have sk: "sk_clientId (socket_of V m) = Some (dc_clientId c)" using assms(3) by (simp add: V_def)
  have "spared view (dc_clientId c) n V (snd (handleDisconnect E m W))"
    using un by (auto simp: handleDisconnect_def io_simps nonempty_def sk split: option.splits simp flip: V_def)
  moreover have "spared view (dc_clientId c) n W V" using assms(2) by (simp add: V_def)
  ultimately show ?thesis unfolding spares_def by (rule spared_trans [rotated])
qed

lemma foreign_event_spares:
  assumes "device_session view W n c" "foreign E hops (dc_clientId c) n W e"
  shows "spared view (dc_clientId c) n W (on_gateway_event E hops e W)"
proof (cases e)
  case (Connects m r)
  then show ?thesis
    using assms(2) spares_handleConnection [of m n hops r W "dc_clientId c"]
    by (simp add: on_gateway_event_def foreign_def spares_def split: sum.splits option.splits)
next
  case (Disconnects m)
  then show ?thesis
    using assms late_close_spares [OF assms(1), of m] spares_handleDisconnect [of m n W "dc_clientId c"]
    by (auto simp: on_gateway_event_def foreign_def spares_def)
next
  case (Says m s)
  then have m: "m \<noteq> n" "sk_clientId (socket_of W m) \<noteq> Some (dc_clientId c)"
    using assms(2) by (simp_all add: foreign_def)
  have "sk_clientId (socket_of (touch E m W) m) \<noteq> Some (dc_clientId c)" using m(2) by (simp add: touch_def)
  from spares_onMessage [OF m(1) this] have "spared view (dc_clientId c) n W (snd (onMessage E m s (touch E m W)))"
    unfolding spares_def by (rule spared_trans [OF spared_socket(4) [OF m(1)]])
  then show ?thesis by (simp add: Says on_gateway_event_def on_message_event_def)
next
  case (Pongs m)
  then show ?thesis using assms(2) by (simp add: on_gateway_event_def foreign_def on_pong_def)
next
  case (Ticks m now)
  then show ?thesis
    using assms(2)
    by (simp add: on_gateway_event_def foreign_def on_ping_timer_def terminate_socket_def ping_socket_def)
qed

lemma foreign_run_session:
  assumes "foreign_run E hops (dc_clientId c) n W W'" "device_session view W n c"
  shows "device_session view W' n c \<and> instance_id W' = instance_id W"
  using assms
proof (induction rule: foreign_run.induct)
  case (event V e)
  have V: "device_session view V n c" "instance_id V = instance_id W"
    using event.IH [OF event.prems] by simp_all
  have sp: "spared view (dc_clientId c) n V (on_gateway_event E hops e V)"
    by (rule foreign_event_spares [OF V(1) event.hyps(2)])
  show ?case using spared_session [OF sp V(1)] sp V(2) by (auto simp: spared_def)
qed simp

end



end
