(* ===== verification/Sdk_Types.thy ===== *)
theory Sdk_Types
  imports Json_Text Db_Util
begin

text \<open>
  The JavaScript SDK: \<^verbatim>\<open>sdk/javascript/src/errors.ts\<close>, the part of
  \<^verbatim>\<open>types.ts\<close> that the device and the caller exchange with the server, and the timer functions
  of the runtime.  The Chinese texts of errors are constructors; where one is sent over the wire, an
  argument of the model gives its characters.
\<close>

datatype sdk_text =
    Blank string
  | IntegerInRange string int int
  | NotPositive string
  | WebSocketFailed
  | WelcomeMismatch
  | SocketNotWritable
  | DeadlineExpired
  | ActionUnregistered string
  | ActionTimedOut js_num
  | DeviceTokenRejected
  | TimeoutNotInteger
  | RequestTimedOut
  | RequestFailed string string nat
  | TooLong string nat
  | TooMany string nat
  | StepCompleted string
  | NotFinite
  | StatusCodeOutOfRange
  | BodyFormatInvalid
  | AuditTooLong

datatype sdk_error =
    PlainError sdk_text
  | JsTypeError sdk_text
  | JsRangeError sdk_text
  | InvalidUrl
  | R2RpcError sdk_text
  | R2RpcHttpError sdk_text nat "(string + json) option"
  | Aborted string
  | R2RpcAuthenticationError sdk_text

definition is_blank :: "string \<Rightarrow> bool" where
  "is_blank s \<longleftrightarrow> js_trim s = []"

section \<open>What device and server exchange\<close>

record rpc_job =
  rj_requestId :: string
  rj_project :: string
  rj_action :: string
  rj_payload :: "json option"
  rj_timeoutSeconds :: rat
  rj_deadlineAt :: "json option"

record action_result =
  ar_payload :: "json option"
  ar_status :: "string option"
  ar_isOk :: "bool option"
  ar_httpCode :: "int option"
  ar_error :: "string option"
  ar_appAudit :: "json option"

section \<open>Numbers and timers of the runtime\<close>

text \<open>\<^verbatim>\<open>a <= b\<close>, false when either is not a number.\<close>

definition js_le :: "js_num \<Rightarrow> js_num \<Rightarrow> bool" where
  "js_le a b =
     (case (a, b) of
        (Finite p, Finite q) \<Rightarrow> p \<le> q
      | (NaN, _) \<Rightarrow> False
      | (_, NaN) \<Rightarrow> False
      | (Infinity negative, Finite _) \<Rightarrow> negative
      | (Finite _, Infinity negative) \<Rightarrow> \<not> negative
      | (Infinity m, Infinity n) \<Rightarrow> m \<or> \<not> n)"

definition js_min :: "js_num \<Rightarrow> js_num \<Rightarrow> js_num" where
  "js_min a b = (if a = NaN \<or> b = NaN then NaN else if js_le a b then a else b)"

definition js_max :: "js_num \<Rightarrow> js_num \<Rightarrow> js_num" where
  "js_max a b = (if a = NaN \<or> b = NaN then NaN else if js_le a b then b else a)"

text \<open>\<^verbatim>\<open>a - q\<close> and \<^verbatim>\<open>a * q\<close> for a finite \<open>q\<close>, positive in the product.\<close>

definition js_minus :: "js_num \<Rightarrow> rat \<Rightarrow> js_num" where
  "js_minus a q = (case a of Finite p \<Rightarrow> Finite (p - q) | _ \<Rightarrow> a)"

definition js_scale :: "js_num \<Rightarrow> rat \<Rightarrow> js_num" where
  "js_scale a q = (case a of Finite p \<Rightarrow> Finite (p * q) | _ \<Rightarrow> a)"

text \<open>
  The delay a timer of Node.js really has: whole milliseconds, one of them for anything below, above
  \<open>2147483647\<close> or not a number.
\<close>

definition timer_delay :: "js_num \<Rightarrow> int" where
  "timer_delay a =
     (case a of Finite q \<Rightarrow> if 1 \<le> q \<and> q \<le> 2147483647 then \<lfloor>q\<rfloor> else 1 | _ \<Rightarrow> 1)"

lemma timer_delay_bounds: "1 \<le> timer_delay a \<and> timer_delay a \<le> 2147483647"
  by (auto simp: timer_delay_def floor_le_iff split: js_num.splits)

lemma timer_delay_le: "1 \<le> q \<Longrightarrow> of_int (timer_delay (Finite q)) \<le> q"
  by (simp add: timer_delay_def)

lemma timer_delay_exact: "1 \<le> n \<Longrightarrow> n \<le> 2147483647 \<Longrightarrow> timer_delay (Finite (of_int n)) = n"
  by (simp add: timer_delay_def)

lemma js_le_Finite [simp]: "js_le (Finite p) (Finite q) \<longleftrightarrow> p \<le> q"
  by (simp add: js_le_def)

lemma js_min_Finite [simp]: "js_min (Finite p) (Finite q) = Finite (min p q)"
  by (simp add: js_min_def)

lemma js_max_Finite [simp]: "js_max (Finite p) (Finite q) = Finite (max p q)"
  by (simp add: js_max_def max_def)

end
