(* ===== verification/Sdk_Device.thy ===== *)
theory Sdk_Device
  imports Sdk_Types
begin

text \<open>
  \<^verbatim>\<open>sdk/javascript/src/device.ts\<close>: the client that a device runs.  An object
  \<^verbatim>\<open>R2RpcDevice\<close> is a record, its methods are functions on it; the WebSockets it has opened and
  the timers of the runtime that are set belong to the record, and what the runtime calls (a message,
  a close, a timer) is an event.  Handlers are functions of the job: they do not call the device.
\<close>

section \<open>The state\<close>

datatype connection_state = Idle | Connecting | Online | Reconnecting | Stopped

text \<open>A URL as the \<^verbatim>\<open>URL\<close> class has it.\<close>

record ws_url =
  wu_protocol :: string
  wu_host :: string
  wu_pathname :: string
  wu_searchParams :: "(string \<times> string) list"

record web_socket =
  ws_url :: ws_url
  ws_readyState :: nat
  ws_sent :: "string list"
  ws_closed :: "(nat \<times> string) list"

text \<open>
  What a handler does with a job: it returns or throws after so many milliseconds, throws before it
  gives a promise, or its promise never settles.
\<close>

datatype handling = Returns int action_result | Rejects int string | Throws string | NeverSettles

type_synonym handler = "rpc_job \<Rightarrow> handling"

text \<open>A job whose handler is running: the socket it came from, when and with what it ends.\<close>

record running_job =
  rn_socket :: nat
  rn_job :: rpc_job
  rn_due :: int
  rn_result :: action_result

record connection_event =
  ce_state :: connection_state
  ce_reconnectAttempt :: nat

record device =
  dv_actionHandlers :: "string \<rightharpoonup> handler"
  dv_defaultHandler :: "(nat \<times> handler) option"
  dv_maximumInFlight :: int
  dv_state :: connection_state
  dv_webSocket :: "nat option"
  dv_heartbeatTimer :: "nat option"
  dv_reconnectTimer :: "nat option"
  dv_reconnectAttempt :: nat
  dv_shouldRun :: bool
  dv_sockets :: "web_socket list"
  dv_intervals :: "(nat \<times> int) list"
  dv_timeouts :: "(nat \<times> int) list"
  dv_timerCount :: nat
  dv_running :: "running_job list"
  dv_events :: "connection_event list"
  dv_errors :: "sdk_error list"

text \<open>
  The options.  \<open>op_onStateChange\<close> may call the device, so it is a function on its state; a handler for
  errors only sees them.  \<open>op_newUrl\<close> is the constructor of \<^verbatim>\<open>URL\<close> and \<open>op_text\<close> gives
  the characters of the texts that are sent to the server.
\<close>

record options =
  op_baseUrl :: string
  op_deviceToken :: string
  op_clientId :: string
  op_platform :: "string option"
  op_extra :: "json option"
  op_maxInFlight :: "js_num option"
  op_heartbeatIntervalMilliseconds :: "js_num option"
  op_reconnectInitialDelayMilliseconds :: "js_num option"
  op_reconnectMaximumDelayMilliseconds :: "js_num option"
  op_onStateChange :: "connection_event \<Rightarrow> device \<Rightarrow> device"
  op_newUrl :: "string \<Rightarrow> string \<Rightarrow> ws_url option"
  op_text :: "sdk_text \<Rightarrow> string"

definition WEB_SOCKET_OPEN_STATE :: nat where
  "WEB_SOCKET_OPEN_STATE = 1"

definition SDK_DEFAULT_IN_FLIGHT_CAPACITY :: int where
  "SDK_DEFAULT_IN_FLIGHT_CAPACITY = 16"

definition SDK_MINIMUM_IN_FLIGHT_CAPACITY :: int where
  "SDK_MINIMUM_IN_FLIGHT_CAPACITY = 1"

definition SDK_MAXIMUM_IN_FLIGHT_CAPACITY :: int where
  "SDK_MAXIMUM_IN_FLIGHT_CAPACITY = 1024"

section \<open>The constructor\<close>

definition ensurePositive :: "string \<Rightarrow> js_num option \<Rightarrow> sdk_error option" where
  "ensurePositive name v =
     (case v of
        None \<Rightarrow> None
      | Some x \<Rightarrow> if js_le x (Finite 0) then Some (JsRangeError (NotPositive name)) else None)"

definition ensureIntegerInRange :: "string \<Rightarrow> js_num \<Rightarrow> int \<Rightarrow> int \<Rightarrow> sdk_error option" where
  "ensureIntegerInRange name v minimum maximum =
     (case integer_of v of
        None \<Rightarrow> Some (JsRangeError (IntegerInRange name minimum maximum))
      | Some n \<Rightarrow>
          if n < minimum \<or> maximum < n then Some (JsRangeError (IntegerInRange name minimum maximum)) else None)"

text \<open>The first check that fails.\<close>

fun first_error :: "sdk_error option list \<Rightarrow> sdk_error option" where
  "first_error [] = None"
| "first_error (e # es) = (case e of Some x \<Rightarrow> Some x | None \<Rightarrow> first_error es)"

definition idle_device :: "int \<Rightarrow> device" where
  "idle_device maximum =
     \<lparr>dv_actionHandlers = Map.empty, dv_defaultHandler = None, dv_maximumInFlight = maximum,
      dv_state = Idle, dv_webSocket = None, dv_heartbeatTimer = None, dv_reconnectTimer = None,
      dv_reconnectAttempt = 0, dv_shouldRun = False, dv_sockets = [], dv_intervals = [], dv_timeouts = [],
      dv_timerCount = 0, dv_running = [], dv_events = [], dv_errors = []\<rparr>"

definition new_sdk_device :: "options \<Rightarrow> sdk_error + device" where
  "new_sdk_device opt =
     (let maximum = or_default (Finite (of_int SDK_DEFAULT_IN_FLIGHT_CAPACITY)) (op_maxInFlight opt) in
      case first_error
        [if is_blank (op_baseUrl opt) then Some (JsTypeError (Blank ''baseUrl'')) else None,
         if is_blank (op_deviceToken opt) then Some (JsTypeError (Blank ''deviceToken'')) else None,
         if is_blank (op_clientId opt) then Some (JsTypeError (Blank ''clientId'')) else None,
         ensureIntegerInRange ''maxInFlight'' maximum SDK_MINIMUM_IN_FLIGHT_CAPACITY
           SDK_MAXIMUM_IN_FLIGHT_CAPACITY,
         ensurePositive ''heartbeatIntervalMilliseconds'' (op_heartbeatIntervalMilliseconds opt),
         ensurePositive ''reconnectInitialDelayMilliseconds'' (op_reconnectInitialDelayMilliseconds opt),
         ensurePositive ''reconnectMaximumDelayMilliseconds'' (op_reconnectMaximumDelayMilliseconds opt)] of
        Some e \<Rightarrow> Inl e
      | None \<Rightarrow> Inr (idle_device (or_default 0 (integer_of maximum))))"

section \<open>Handlers\<close>

definition registerAction :: "string \<Rightarrow> handler \<Rightarrow> device \<Rightarrow> sdk_error option \<times> device" where
  "registerAction action h d =
     (if is_blank action then (Some (JsTypeError (Blank ''action'')), d)
      else (None, d\<lparr>dv_actionHandlers := (dv_actionHandlers d)(action \<mapsto> h)\<rparr>))"

text \<open>The functions that registering returns; \<open>i\<close> is the identity of the handler object.\<close>

definition unregisterAction :: "string \<Rightarrow> device \<Rightarrow> device" where
  "unregisterAction action d = d\<lparr>dv_actionHandlers := (dv_actionHandlers d)(action := None)\<rparr>"

definition registerDefaultHandler :: "nat \<Rightarrow> handler \<Rightarrow> device \<Rightarrow> device" where
  "registerDefaultHandler i h d = d\<lparr>dv_defaultHandler := Some (i, h)\<rparr>"

definition unregisterDefaultHandler :: "nat \<Rightarrow> device \<Rightarrow> device" where
  "unregisterDefaultHandler i d =
     (if map_option fst (dv_defaultHandler d) = Some i then d\<lparr>dv_defaultHandler := None\<rparr> else d)"

section \<open>Sockets, timers and notifications\<close>

definition set_state :: "options \<Rightarrow> connection_state \<Rightarrow> device \<Rightarrow> device" where
  "set_state opt s d =
     (let e = \<lparr>ce_state = s, ce_reconnectAttempt = dv_reconnectAttempt d\<rparr> in
      op_onStateChange opt e (d\<lparr>dv_state := s, dv_events := dv_events d @ [e]\<rparr>))"

definition reportError :: "sdk_error \<Rightarrow> device \<Rightarrow> device" where
  "reportError e d = d\<lparr>dv_errors := dv_errors d @ [e]\<rparr>"

definition update_socket :: "nat \<Rightarrow> (web_socket \<Rightarrow> web_socket) \<Rightarrow> device \<Rightarrow> device" where
  "update_socket n f d =
     d\<lparr>dv_sockets := (if n < length (dv_sockets d) then (dv_sockets d)[n := f (dv_sockets d ! n)]
                      else dv_sockets d)\<rparr>"

text \<open>\<^verbatim>\<open>webSocket?.close(code, reason)\<close>: the socket is closing; its close event comes later.\<close>

definition close_current :: "nat \<Rightarrow> string \<Rightarrow> device \<Rightarrow> device" where
  "close_current code reason d =
     (case dv_webSocket d of
        None \<Rightarrow> d
      | Some n \<Rightarrow> update_socket n (\<lambda>s. s\<lparr>ws_readyState := max 2 (ws_readyState s),
                                           ws_closed := ws_closed s @ [(code, reason)]\<rparr>) d)"

definition clear_interval :: "nat option \<Rightarrow> device \<Rightarrow> device" where
  "clear_interval t d = d\<lparr>dv_intervals := filter (\<lambda>(i, _). Some i \<noteq> t) (dv_intervals d)\<rparr>"

definition clear_timeout :: "nat option \<Rightarrow> device \<Rightarrow> device" where
  "clear_timeout t d = d\<lparr>dv_timeouts := filter (\<lambda>(i, _). Some i \<noteq> t) (dv_timeouts d)\<rparr>"

text \<open>Clearing a timer that is not set does nothing, so the tests for one are left out.\<close>

definition clearTimers :: "device \<Rightarrow> device" where
  "clearTimers d =
     (let d1 = (clear_interval (dv_heartbeatTimer d) d)\<lparr>dv_heartbeatTimer := None\<rparr> in
      (clear_timeout (dv_reconnectTimer d1) d1)\<lparr>dv_reconnectTimer := None\<rparr>)"

definition device_send :: "json \<Rightarrow> nat option \<Rightarrow> device \<Rightarrow> device" where
  "device_send message target d =
     (case target of
        None \<Rightarrow> reportError (R2RpcError SocketNotWritable) d
      | Some n \<Rightarrow>
          if n < length (dv_sockets d) \<and> ws_readyState (dv_sockets d ! n) = WEB_SOCKET_OPEN_STATE
          then update_socket n (\<lambda>s. s\<lparr>ws_sent := ws_sent s @ [stringify message]\<rparr>) d
          else reportError (R2RpcError SocketNotWritable) d)"

definition device_startHeartbeat :: "options \<Rightarrow> device \<Rightarrow> device" where
  "device_startHeartbeat opt d =
     (let d1 = clear_interval (dv_heartbeatTimer d) d;
          ms = or_default (Finite 10000) (op_heartbeatIntervalMilliseconds opt) in
      d1\<lparr>dv_intervals := dv_intervals d1 @ [(dv_timerCount d1, timer_delay ms)],
         dv_heartbeatTimer := Some (dv_timerCount d1), dv_timerCount := dv_timerCount d1 + 1\<rparr>)"

section \<open>Connecting\<close>

text \<open>\<^verbatim>\<open>URLSearchParams.set\<close>: the first entry of the name takes the value, further ones go.\<close>

fun params_set :: "string \<Rightarrow> string \<Rightarrow> (string \<times> string) list \<Rightarrow> (string \<times> string) list" where
  "params_set k v [] = [(k, v)]"
| "params_set k v (p # ps) =
     (if fst p = k then (k, v) # filter (\<lambda>q. fst q \<noteq> k) ps else p # params_set k v ps)"

definition buildWebSocketUrl :: "options \<Rightarrow> device \<Rightarrow> ws_url option" where
  "buildWebSocketUrl opt d =
     map_option (\<lambda>u.
       let ps0 = wu_searchParams u;
           ps1 = params_set ''token'' (op_deviceToken opt) ps0;
           ps2 = params_set ''clientId'' (op_clientId opt) ps1;
           ps3 = (case op_platform opt of
                    Some p \<Rightarrow> if p \<noteq> [] then params_set ''platform'' p ps2 else ps2
                  | None \<Rightarrow> ps2);
           ps4 = (case op_extra opt of Some x \<Rightarrow> params_set ''extra'' (stringify x) ps3 | None \<Rightarrow> ps3);
           ps5 = params_set ''maxInFlight'' (show_int (dv_maximumInFlight d)) ps4 in
       u\<lparr>wu_protocol := (if wu_protocol u = ''https:'' then ''wss:'' else ''ws:''), wu_searchParams := ps5\<rparr>)
     (op_newUrl opt ''/api/client/ws'' (op_baseUrl opt))"

text \<open>The first component is the error that is thrown, if any.\<close>

definition openConnection :: "options \<Rightarrow> connection_state \<Rightarrow> device \<Rightarrow> sdk_error option \<times> device" where
  "openConnection opt s d =
     (let d1 = set_state opt s d in
      case buildWebSocketUrl opt d1 of
        None \<Rightarrow> (Some InvalidUrl, d1)
      | Some u \<Rightarrow>
          (None, d1\<lparr>dv_sockets := dv_sockets d1 @ [\<lparr>ws_url = u, ws_readyState = 0, ws_sent = [], ws_closed = []\<rparr>],
                    dv_webSocket := Some (length (dv_sockets d1))\<rparr>))"

definition start_device :: "options \<Rightarrow> device \<Rightarrow> sdk_error option \<times> device" where
  "start_device opt d =
     (if dv_shouldRun d then (None, d)
      else openConnection opt Connecting (d\<lparr>dv_shouldRun := True, dv_reconnectAttempt := 0\<rparr>))"

definition stop_device :: "options \<Rightarrow> device \<Rightarrow> device" where
  "stop_device opt d =
     (let d1 = close_current 1000 ''client stopped'' (clearTimers (d\<lparr>dv_shouldRun := False\<rparr>)) in
      set_state opt Stopped (d1\<lparr>dv_webSocket := None\<rparr>))"

section \<open>Messages\<close>

definition handleWelcome :: "options \<Rightarrow> json \<Rightarrow> device \<Rightarrow> device" where
  "handleWelcome opt m d =
     (if field ''clientId'' m \<noteq> Some (JStr (op_clientId opt))
      then close_current 4003 ''clientId mismatch'' (reportError (R2RpcError WelcomeMismatch) d)
      else device_startHeartbeat opt (set_state opt Online (d\<lparr>dv_reconnectAttempt := 0\<rparr>)))"

text \<open>\<^verbatim>\<open>isRpcJob\<close>, giving the job.\<close>

definition rpc_job_of :: "json \<Rightarrow> rpc_job option" where
  "rpc_job_of m =
     (case (field ''type'' m, field ''requestId'' m, field ''project'' m, field ''action'' m, field ''timeoutSeconds'' m) of
        (Some (JStr t), Some (JStr i), Some (JStr p), Some (JStr a), Some (JNum q)) \<Rightarrow>
          if t = ''job''
          then Some \<lparr>rj_requestId = i, rj_project = p, rj_action = a, rj_payload = field ''payload'' m,
                     rj_timeoutSeconds = q, rj_deadlineAt = field ''deadlineAt'' m\<rparr>
          else None
      | _ \<Rightarrow> None)"

definition result_json :: "options \<Rightarrow> rpc_job \<Rightarrow> action_result \<Rightarrow> json" where
  "result_json opt job r =
     JObj ([(''type'', JStr ''result''), (''requestId'', JStr (rj_requestId job)),
            (''clientId'', JStr (op_clientId opt)),
            (''status'', JStr (or_default (if ar_isOk r = Some False then ''error'' else ''ok'') (ar_status r))),
            (''is_ok'', JBool (or_default True (ar_isOk r))),
            (''httpCode'', JNum (of_int (or_default (if ar_isOk r = Some False then 500 else 200) (ar_httpCode r))))] @
       (case ar_payload r of None \<Rightarrow> [] | Some p \<Rightarrow> [(''payload'', p)]) @
       (case ar_error r of None \<Rightarrow> [] | Some e \<Rightarrow> [(''error'', JStr e)]) @
       (case ar_appAudit r of None \<Rightarrow> [] | Some a \<Rightarrow> [(''appAudit'', a)]))"

definition sendResult :: "options \<Rightarrow> nat \<Rightarrow> rpc_job \<Rightarrow> action_result \<Rightarrow> device \<Rightarrow> device" where
  "sendResult opt n job r = device_send (result_json opt job r) (Some n)"

definition failed_result :: "string \<Rightarrow> int \<Rightarrow> string \<Rightarrow> action_result" where
  "failed_result status httpCode err =
     \<lparr>ar_payload = None, ar_status = Some status, ar_isOk = Some False, ar_httpCode = Some httpCode,
      ar_error = Some err, ar_appAudit = None\<rparr>"

definition resolveTimeoutMilliseconds :: "rpc_job \<Rightarrow> int \<Rightarrow> js_num" where
  "resolveTimeoutMilliseconds job now =
     (let configured = js_max (Finite 1) (Finite (rj_timeoutSeconds job * 1000)) in
      case rj_deadlineAt job of
        None \<Rightarrow> configured
      | Some v \<Rightarrow> js_max (Finite 1) (js_min configured (js_minus (to_number v) (of_int now))))"

text \<open>
  When the promise settles and with what.  A handler that settles in the same millisecond as the
  timer comes second.
\<close>

definition executeWithTimeout ::
  "options \<Rightarrow> rpc_job \<Rightarrow> handler \<Rightarrow> int \<Rightarrow> int \<times> (string + action_result)" where
  "executeWithTimeout opt job h now =
     (let timeoutMilliseconds = resolveTimeoutMilliseconds job now;
          limit = timer_delay timeoutMilliseconds;
          timeout = (now + limit, Inr (failed_result ''timeout'' 408 (op_text opt (ActionTimedOut timeoutMilliseconds)))) in
      case h job of
        Returns ms r \<Rightarrow> if ms < limit then (now + max 0 ms, Inr r) else timeout
      | Rejects ms err \<Rightarrow> if ms < limit then (now + max 0 ms, Inl err) else timeout
      | Throws err \<Rightarrow> (now, Inl err)
      | NeverSettles \<Rightarrow> timeout)"

definition job_expired :: "rpc_job \<Rightarrow> int \<Rightarrow> bool" where
  "job_expired job now \<longleftrightarrow>
     (case rj_deadlineAt job of None \<Rightarrow> False | Some v \<Rightarrow> js_le (to_number v) (Finite (of_int now)))"

definition handleJob :: "options \<Rightarrow> nat \<Rightarrow> rpc_job \<Rightarrow> int \<Rightarrow> device \<Rightarrow> device" where
  "handleJob opt n job now d =
     (if job_expired job now then sendResult opt n job (failed_result ''timeout'' 408 (op_text opt DeadlineExpired)) d
      else case (case dv_actionHandlers d (rj_action job) of
                   Some h \<Rightarrow> Some h
                 | None \<Rightarrow> map_option snd (dv_defaultHandler d)) of
             None \<Rightarrow> sendResult opt n job
               (failed_result ''error'' 404 (op_text opt (ActionUnregistered (rj_action job)))) d
           | Some h \<Rightarrow>
               (case executeWithTimeout opt job h now of
                  (due, settled) \<Rightarrow>
                    d\<lparr>dv_running := dv_running d @
                        [\<lparr>rn_socket = n, rn_job = job, rn_due = due,
                          rn_result = (case settled of Inr r \<Rightarrow> r | Inl err \<Rightarrow> failed_result ''error'' 500 err)\<rparr>]\<rparr>))"

text \<open>The promise of the \<open>k\<close>th running job settles.\<close>

definition job_settles :: "options \<Rightarrow> nat \<Rightarrow> device \<Rightarrow> device" where
  "job_settles opt k d =
     (if k < length (dv_running d)
      then let r = dv_running d ! k in
        sendResult opt (rn_socket r) (rn_job r) (rn_result r)
          (d\<lparr>dv_running := take k (dv_running d) @ drop (Suc k) (dv_running d)\<rparr>)
      else d)"

definition device_parseMessage :: "string \<Rightarrow> json option" where
  "device_parseMessage text =
     (case parse_json text of
        Some (JObj ps) \<Rightarrow> Some (JObj ps)
      | Some (JArr xs) \<Rightarrow> Some (JArr xs)
      | _ \<Rightarrow> None)"

definition handleMessage :: "options \<Rightarrow> nat \<Rightarrow> string \<Rightarrow> int \<Rightarrow> device \<Rightarrow> device" where
  "handleMessage opt n messageData now d =
     (if dv_webSocket d \<noteq> Some n then d
      else case device_parseMessage messageData of
             None \<Rightarrow> d
           | Some m \<Rightarrow>
               if field ''type'' m = Some (JStr ''welcome'') then handleWelcome opt m d
               else (case rpc_job_of m of None \<Rightarrow> d | Some job \<Rightarrow> handleJob opt n job now d))"

section \<open>Closing and reconnecting\<close>

definition reconnect_delay :: "options \<Rightarrow> nat \<Rightarrow> js_num" where
  "reconnect_delay opt attempt =
     js_min (or_default (Finite 30000) (op_reconnectMaximumDelayMilliseconds opt))
       (js_scale (or_default (Finite 500) (op_reconnectInitialDelayMilliseconds opt)) (2 ^ (attempt - 1)))"

definition scheduleReconnect :: "options \<Rightarrow> device \<Rightarrow> device" where
  "scheduleReconnect opt d =
     (let d1 = set_state opt Reconnecting (d\<lparr>dv_reconnectAttempt := dv_reconnectAttempt d + 1\<rparr>) in
      d1\<lparr>dv_timeouts := dv_timeouts d1 @
            [(dv_timerCount d1, timer_delay (reconnect_delay opt (dv_reconnectAttempt d1)))],
         dv_reconnectTimer := Some (dv_timerCount d1), dv_timerCount := dv_timerCount d1 + 1\<rparr>)"

definition handleClose :: "options \<Rightarrow> nat \<Rightarrow> nat \<Rightarrow> device \<Rightarrow> device" where
  "handleClose opt n code d =
     (if dv_webSocket d \<noteq> Some n then d
      else let d1 = (clear_interval (dv_heartbeatTimer d) (d\<lparr>dv_webSocket := None\<rparr>))\<lparr>dv_heartbeatTimer := None\<rparr> in
        if \<not> dv_shouldRun d1 then set_state opt Stopped d1
        else if code = 4001
        then reportError (R2RpcAuthenticationError DeviceTokenRejected)
               (set_state opt Stopped (d1\<lparr>dv_shouldRun := False\<rparr>))
        else scheduleReconnect opt d1)"

section \<open>Events\<close>

datatype device_event =
    Starts
  | Stops
  | Opens nat
  | Receives nat string int
  | Fails nat
  | Closes nat nat
  | HeartbeatDue nat
  | ReconnectDue nat
  | JobSettles nat

text \<open>A socket that exists opens once, delivers until it has closed and closes once; a timer fires while set.\<close>

definition may_happen :: "device_event \<Rightarrow> device \<Rightarrow> bool" where
  "may_happen e d \<longleftrightarrow>
     (case e of
        Opens n \<Rightarrow> n < length (dv_sockets d) \<and> ws_readyState (dv_sockets d ! n) = 0
      | Receives n text now \<Rightarrow> n < length (dv_sockets d) \<and> ws_readyState (dv_sockets d ! n) \<in> {1, 2}
      | Fails n \<Rightarrow> n < length (dv_sockets d) \<and> ws_readyState (dv_sockets d ! n) < 3
      | Closes n code \<Rightarrow> n < length (dv_sockets d) \<and> ws_readyState (dv_sockets d ! n) < 3
      | HeartbeatDue i \<Rightarrow> i \<in> fst ` set (dv_intervals d)
      | ReconnectDue i \<Rightarrow> i \<in> fst ` set (dv_timeouts d)
      | JobSettles k \<Rightarrow> k < length (dv_running d)
      | _ \<Rightarrow> True)"

definition on_device_event :: "options \<Rightarrow> device_event \<Rightarrow> device \<Rightarrow> device" where
  "on_device_event opt e d =
     (case e of
        Starts \<Rightarrow> snd (start_device opt d)
      | Stops \<Rightarrow> stop_device opt d
      | Opens n \<Rightarrow> update_socket n (\<lambda>s. s\<lparr>ws_readyState := 1\<rparr>) d
      | Receives n text now \<Rightarrow> handleMessage opt n text now d
      | Fails n \<Rightarrow> reportError (R2RpcError WebSocketFailed) d
      | Closes n code \<Rightarrow> handleClose opt n code (update_socket n (\<lambda>s. s\<lparr>ws_readyState := 3\<rparr>) d)
      | HeartbeatDue i \<Rightarrow> device_send (JObj [(''type'', JStr ''heartbeat'')]) (dv_webSocket d) d
      | ReconnectDue i \<Rightarrow> snd (openConnection opt Reconnecting (clear_timeout (Some i) d))
      | JobSettles k \<Rightarrow> job_settles opt k d)"

inductive device_run :: "options \<Rightarrow> device \<Rightarrow> device_event list \<Rightarrow> device \<Rightarrow> bool" for opt where
  still: "device_run opt d [] d"
| event: "device_run opt d es d' \<Longrightarrow> may_happen e d' \<Longrightarrow> device_run opt d (es @ [e]) (on_device_event opt e d')"

end
