(* ===== verification/Sdk_Device_Runs.thy ===== *)
theory Sdk_Device_Runs
  imports Sdk_Device
begin

text \<open>
  What the device of the SDK does in the long run: it keeps one connection at a time, stays stopped
  once it is stopped, comes back with bounded delays, and answers every job once and in time.
\<close>

section \<open>The parts of the state an operation leaves alone\<close>

definition unobtrusive :: "options \<Rightarrow> bool" where
  "unobtrusive opt \<longleftrightarrow> (\<forall>e d. op_onStateChange opt e d = d)"

lemma set_state_unobtrusive:
  "unobtrusive opt \<Longrightarrow> set_state opt s d =
     d\<lparr>dv_state := s, dv_events := dv_events d @ [\<lparr>ce_state = s, ce_reconnectAttempt = dv_reconnectAttempt d\<rparr>]\<rparr>"
  by (simp add: set_state_def unobtrusive_def)

lemma update_socket_sel [simp]:
  "dv_webSocket (update_socket n f d) = dv_webSocket d"
  "dv_shouldRun (update_socket n f d) = dv_shouldRun d"
  "dv_intervals (update_socket n f d) = dv_intervals d"
  "dv_timeouts (update_socket n f d) = dv_timeouts d"
  "dv_heartbeatTimer (update_socket n f d) = dv_heartbeatTimer d"
  "dv_reconnectTimer (update_socket n f d) = dv_reconnectTimer d"
  "dv_reconnectAttempt (update_socket n f d) = dv_reconnectAttempt d"
  "dv_state (update_socket n f d) = dv_state d"
  "dv_running (update_socket n f d) = dv_running d"
  "dv_maximumInFlight (update_socket n f d) = dv_maximumInFlight d"
  "dv_actionHandlers (update_socket n f d) = dv_actionHandlers d"
  "dv_defaultHandler (update_socket n f d) = dv_defaultHandler d"
  "dv_events (update_socket n f d) = dv_events d"
  "length (dv_sockets (update_socket n f d)) = length (dv_sockets d)"
  "m < length (dv_sockets d) \<Longrightarrow>
     dv_sockets (update_socket n f d) ! m = (if m = n then f (dv_sockets d ! m) else dv_sockets d ! m)"
  by (simp_all add: update_socket_def)

lemma reportError_sel [simp]:
  "dv_webSocket (reportError e d) = dv_webSocket d"
  "dv_shouldRun (reportError e d) = dv_shouldRun d"
  "dv_intervals (reportError e d) = dv_intervals d"
  "dv_timeouts (reportError e d) = dv_timeouts d"
  "dv_heartbeatTimer (reportError e d) = dv_heartbeatTimer d"
  "dv_reconnectTimer (reportError e d) = dv_reconnectTimer d"
  "dv_reconnectAttempt (reportError e d) = dv_reconnectAttempt d"
  "dv_state (reportError e d) = dv_state d"
  "dv_running (reportError e d) = dv_running d"
  "dv_sockets (reportError e d) = dv_sockets d"
  by (simp_all add: reportError_def)

text \<open>What the invariants read of a device.\<close>

definition control :: "device \<Rightarrow>
    nat option \<times> bool \<times> (nat \<times> int) list \<times> (nat \<times> int) list \<times> nat option \<times> nat option \<times> connection_state \<times> nat list" where
  "control d = (dv_webSocket d, dv_shouldRun d, dv_intervals d, dv_timeouts d, dv_heartbeatTimer d,
     dv_reconnectTimer d, dv_state d, map ws_readyState (dv_sockets d))"

lemma control_update_socket:
  assumes "\<And>s. ws_readyState (f s) = ws_readyState s"
  shows "control (update_socket n f d) = control d"
  using assms by (auto simp: control_def update_socket_def map_update intro!: list_update_same_conv [THEN iffD2])

lemma control_reportError [simp]: "control (reportError e d) = control d"
  by (simp add: control_def)

lemma control_device_send [simp]: "control (device_send m t d) = control d"
  by (simp add: device_send_def control_update_socket split: option.split)

lemma control_running [simp]: "control (d\<lparr>dv_running := r\<rparr>) = control d"
  by (simp add: control_def)

lemma control_jobs [simp]:
  "control (sendResult opt n job r d) = control d"
  "control (handleJob opt n job now d) = control d"
  "control (job_settles opt k d) = control d"
  by (simp_all add: sendResult_def handleJob_def job_settles_def Let_def split: option.split prod.split)

section \<open>One connection at a time\<close>

definition device_ok :: "options \<Rightarrow> device \<Rightarrow> bool" where
  "device_ok opt d \<longleftrightarrow>
     (\<forall>n. dv_webSocket d = Some n \<longrightarrow> n < length (dv_sockets d) \<and> ws_readyState (dv_sockets d ! n) < 3 \<and>
        dv_shouldRun d \<and> dv_timeouts d = []) \<and>
     (\<forall>m < length (dv_sockets d). dv_webSocket d \<noteq> Some m \<longrightarrow> 2 \<le> ws_readyState (dv_sockets d ! m)) \<and>
     (dv_intervals d = [] \<or>
        (\<exists>i ms. dv_intervals d = [(i, ms)] \<and> dv_heartbeatTimer d = Some i \<and> dv_webSocket d \<noteq> None)) \<and>
     (dv_timeouts d = [] \<or>
        (\<exists>i ms. dv_timeouts d = [(i, ms)] \<and> dv_reconnectTimer d = Some i \<and> dv_webSocket d = None \<and> dv_shouldRun d)) \<and>
     (\<not> dv_shouldRun d \<longrightarrow> dv_state d \<in> {Idle, Stopped}) \<and>
     (dv_state d = Online \<longrightarrow> dv_intervals d \<noteq> []) \<and>
     (op_newUrl opt ''/api/client/ws'' (op_baseUrl opt) \<noteq> None \<longrightarrow> dv_shouldRun d \<longrightarrow>
        dv_webSocket d \<noteq> None \<or> dv_timeouts d \<noteq> [])"

lemma device_ok_control:
  assumes "control d' = control d"
  shows "device_ok opt d' = device_ok opt d"
proof -
  have c: "dv_webSocket d' = dv_webSocket d" "dv_shouldRun d' = dv_shouldRun d" "dv_intervals d' = dv_intervals d"
    "dv_timeouts d' = dv_timeouts d" "dv_heartbeatTimer d' = dv_heartbeatTimer d"
    "dv_reconnectTimer d' = dv_reconnectTimer d" "dv_state d' = dv_state d"
    "map ws_readyState (dv_sockets d') = map ws_readyState (dv_sockets d)"
    using assms by (simp_all add: control_def)
  have l: "length (dv_sockets d') = length (dv_sockets d)" using c(8) by (rule map_eq_imp_length_eq)
  have r: "ws_readyState (dv_sockets d' ! m) = ws_readyState (dv_sockets d ! m)" if "m < length (dv_sockets d)" for m
    using c(8) that l by (metis nth_map)
  show ?thesis by (simp add: device_ok_def c l r cong: conj_cong)
qed

lemma idle_device_ok: "device_ok opt (idle_device n)"
  by (simp add: device_ok_def idle_device_def)

lemma openConnection_cases:
  assumes "unobtrusive opt"
  obtains (Invalid) e where "op_newUrl opt ''/api/client/ws'' (op_baseUrl opt) = None"
      "openConnection opt s d = (Some InvalidUrl, d\<lparr>dv_state := s, dv_events := dv_events d @ [e]\<rparr>)"
  | (Opened) e u where "openConnection opt s d =
      (None, d\<lparr>dv_state := s, dv_events := dv_events d @ [e],
        dv_sockets := dv_sockets d @ [\<lparr>ws_url = u, ws_readyState = 0, ws_sent = [], ws_closed = []\<rparr>],
        dv_webSocket := Some (length (dv_sockets d))\<rparr>)"
proof (cases "buildWebSocketUrl opt (d\<lparr>dv_state := s, dv_events := dv_events d @
    [\<lparr>ce_state = s, ce_reconnectAttempt = dv_reconnectAttempt d\<rparr>]\<rparr>)")
  case None
  then have "op_newUrl opt ''/api/client/ws'' (op_baseUrl opt) = None"
    by (simp add: buildWebSocketUrl_def)
  then show thesis using None assms by (intro Invalid) (simp_all add: openConnection_def set_state_unobtrusive)
next
  case (Some u)
  then show thesis using assms by (intro Opened) (simp_all add: openConnection_def set_state_unobtrusive)
qed

lemma openConnection_ok:
  assumes "unobtrusive opt" "s \<noteq> Online" "dv_webSocket d = None" "dv_shouldRun d" "dv_timeouts d = []"
    "dv_intervals d = []" "\<forall>m < length (dv_sockets d). 2 \<le> ws_readyState (dv_sockets d ! m)"
  shows "device_ok opt (snd (openConnection opt s d))"
  using assms
  by (cases rule: openConnection_cases [of opt s d]) (auto simp: device_ok_def nth_append less_Suc_eq)

lemma start_device_ok:
  assumes "unobtrusive opt" "device_ok opt d"
  shows "device_ok opt (snd (start_device opt d))"
proof (cases "dv_shouldRun d")
  case False
  then show ?thesis
    using assms unfolding start_device_def
    by (simp, intro openConnection_ok) (auto simp: device_ok_def)
qed (use assms in \<open>simp add: start_device_def\<close>)

lemma stop_device_ok:
  assumes "unobtrusive opt" "device_ok opt d"
  shows "device_ok opt (stop_device opt d)"
  using assms
  by (auto simp: stop_device_def set_state_unobtrusive device_ok_def close_current_def clearTimers_def
      clear_interval_def clear_timeout_def Let_def split: option.split)

lemma handleWelcome_ok:
  assumes "unobtrusive opt" "device_ok opt d" "dv_webSocket d = Some n"
  shows "device_ok opt (handleWelcome opt m d)"
proof (cases "field ''clientId'' m = Some (JStr (op_clientId opt))")
  case True
  then show ?thesis
    using assms by (auto simp: handleWelcome_def set_state_unobtrusive device_ok_def device_startHeartbeat_def
        clear_interval_def Let_def)
next
  case False
  then show ?thesis
    using assms by (auto simp: handleWelcome_def device_ok_def close_current_def)
qed

lemma handleMessage_ok:
  assumes "unobtrusive opt" "device_ok opt d"
  shows "device_ok opt (handleMessage opt n text now d)"
  using assms device_ok_control [OF control_jobs(2)]
  by (auto simp: handleMessage_def handleWelcome_ok split: option.split)

lemma handleClose_ok:
  assumes "unobtrusive opt" "device_ok opt d" "n < length (dv_sockets d)"
  shows "device_ok opt (handleClose opt n code (update_socket n (\<lambda>s. s\<lparr>ws_readyState := 3\<rparr>) d))"
proof (cases "dv_webSocket d = Some n")
  case True
  then have "dv_shouldRun d" "dv_timeouts d = []" using assms(2) by (auto simp: device_ok_def)
  moreover have "dv_intervals d = [] \<or> (\<exists>i ms. dv_intervals d = [(i, ms)] \<and> dv_heartbeatTimer d = Some i)"
    using assms(2) by (auto simp: device_ok_def)
  ultimately show ?thesis
    using True assms
    by (auto simp: handleClose_def scheduleReconnect_def set_state_unobtrusive device_ok_def clear_interval_def Let_def)
next
  case False
  then show ?thesis using assms by (auto simp: handleClose_def device_ok_def)
qed

lemma on_device_event_ok:
  assumes "unobtrusive opt" "device_ok opt d" "may_happen e d"
  shows "device_ok opt (on_device_event opt e d)"
proof (cases e)
  case (Opens n)
  then show ?thesis using assms by (auto simp: on_device_event_def may_happen_def device_ok_def)
next
  case (ReconnectDue i)
  then obtain ms where "dv_timeouts d = [(i, ms)]" "dv_webSocket d = None" "dv_shouldRun d"
    using assms by (auto simp: may_happen_def device_ok_def)
  then show ?thesis
    using ReconnectDue assms unfolding on_device_event_def
    by (simp, intro openConnection_ok) (auto simp: device_ok_def clear_timeout_def)
qed (use assms in \<open>auto simp: on_device_event_def start_device_ok stop_device_ok handleMessage_ok handleClose_ok
    may_happen_def device_ok_control [OF control_reportError] device_ok_control [OF control_device_send]
    device_ok_control [OF control_jobs(3)]\<close>)

lemma device_run_ok:
  assumes "device_run opt d es d'" "unobtrusive opt" "device_ok opt d"
  shows "device_ok opt d'"
  using assms by (induction rule: device_run.induct) (auto intro: on_device_event_ok)

lemma new_sdk_device_ok:
  assumes "new_sdk_device opt = Inr d"
  obtains n where "d = idle_device n" "1 \<le> n" "n \<le> 1024"
proof -
  have "\<exists>n. d = idle_device n \<and> 1 \<le> n \<and> n \<le> 1024"
    using assms
    by (auto simp: new_sdk_device_def Let_def ensureIntegerInRange_def SDK_MINIMUM_IN_FLIGHT_CAPACITY_def
        SDK_MAXIMUM_IN_FLIGHT_CAPACITY_def or_default_def split: option.splits if_splits)
  then show thesis using that by blast
qed

section \<open>A phone that connects\<close>

definition phone_options :: options where
  "phone_options =
     \<lparr>op_baseUrl = ''http://h'', op_deviceToken = ''dk_a'', op_clientId = ''phone'', op_platform = None,
      op_extra = None, op_maxInFlight = Some (Finite 2), op_heartbeatIntervalMilliseconds = None,
      op_reconnectInitialDelayMilliseconds = None, op_reconnectMaximumDelayMilliseconds = None,
      op_onStateChange = (\<lambda>_ d. d),
      op_newUrl = (\<lambda>path base. Some \<lparr>wu_protocol = ''http:'', wu_host = ''h'', wu_pathname = path, wu_searchParams = []\<rparr>),
      op_text = (\<lambda>_. ''refused'')\<rparr>"

definition phone_open :: device where
  "phone_open = on_device_event phone_options (Opens 0) (on_device_event phone_options Starts (idle_device 2))"

lemma phone_options_sel [simp]:
  "unobtrusive phone_options" "op_clientId phone_options = ''phone''"
  "op_newUrl phone_options ''/api/client/ws'' (op_baseUrl phone_options) \<noteq> None"
  "op_heartbeatIntervalMilliseconds phone_options = None"
  "op_reconnectInitialDelayMilliseconds phone_options = None" "op_reconnectMaximumDelayMilliseconds phone_options = None"
  by (simp_all add: phone_options_def unobtrusive_def)

lemma phone_new: "new_sdk_device phone_options = Inr (idle_device 2)"
  by (simp add: new_sdk_device_def phone_options_def is_blank_def js_trim_def is_js_space_def ensureIntegerInRange_def
      ensurePositive_def or_default_def integer_of_def SDK_MINIMUM_IN_FLIGHT_CAPACITY_def
      SDK_MAXIMUM_IN_FLIGHT_CAPACITY_def Let_def)

lemma phone_starts:
  defines "d \<equiv> on_device_event phone_options Starts (idle_device 2)"
  shows "dv_webSocket d = Some 0" "length (dv_sockets d) = 1" "ws_readyState (dv_sockets d ! 0) = 0"
    "ws_sent (dv_sockets d ! 0) = []" "dv_shouldRun d" "dv_timeouts d = []" "dv_running d = []"
    "dv_actionHandlers d = Map.empty" "dv_defaultHandler d = None" "dv_reconnectAttempt d = 0"
  by (simp_all add: d_def on_device_event_def start_device_def openConnection_def set_state_unobtrusive
      buildWebSocketUrl_def idle_device_def) (simp_all add: phone_options_def)

lemma phone_open_sel:
  "dv_webSocket phone_open = Some 0" "length (dv_sockets phone_open) = 1"
  "ws_readyState (dv_sockets phone_open ! 0) = 1" "ws_sent (dv_sockets phone_open ! 0) = []"
  "dv_shouldRun phone_open" "dv_timeouts phone_open = []" "dv_running phone_open = []"
  "dv_actionHandlers phone_open = Map.empty" "dv_defaultHandler phone_open = None" "dv_reconnectAttempt phone_open = 0"
  using phone_starts by (simp_all add: phone_open_def on_device_event_def [of _ "Opens 0"])

lemma device_run_one: "may_happen e d \<Longrightarrow> device_run opt d [e] (on_device_event opt e d)"
  using device_run.event [OF device_run.still] by fastforce

lemma phone_open_run: "device_run phone_options (idle_device 2) [Starts, Opens 0] phone_open"
proof -
  have "device_run phone_options (idle_device 2) [Starts] (on_device_event phone_options Starts (idle_device 2))"
    using device_run.event [OF device_run.still, of Starts] by (simp add: may_happen_def)
  from device_run.event [OF this, of "Opens 0"] show ?thesis
    using phone_starts by (simp add: may_happen_def phone_open_def)
qed

section \<open>The connections of a run\<close>



section \<open>A stopped device stays stopped\<close>

definition at_rest :: "device \<Rightarrow> bool" where
  "at_rest d \<longleftrightarrow> dv_webSocket d = None \<and> dv_intervals d = [] \<and> dv_timeouts d = [] \<and> \<not> dv_shouldRun d \<and>
     (\<forall>m < length (dv_sockets d). 2 \<le> ws_readyState (dv_sockets d ! m))"

definition traffic :: "device \<Rightarrow> string list list" where
  "traffic d = map ws_sent (dv_sockets d)"

lemma at_rest_event:
  assumes "at_rest d" "may_happen e d" "e \<noteq> Starts" "unobtrusive opt" "dv_state d = Stopped"
  shows "at_rest (on_device_event opt e d) \<and> traffic (on_device_event opt e d) = traffic d \<and>
    dv_state (on_device_event opt e d) = Stopped"
proof -
  have closed: "traffic (update_socket n (\<lambda>s. s\<lparr>ws_readyState := 3\<rparr>) d) = traffic d" for n
    by (auto simp: traffic_def update_socket_def map_update intro!: list_update_same_conv [THEN iffD2])
  have silent: "sendResult opt n job r d' = reportError (R2RpcError SocketNotWritable) d'"
    if "dv_sockets d' = dv_sockets d" for n job r d'
    using assms(1) that by (auto simp: sendResult_def device_send_def at_rest_def WEB_SOCKET_OPEN_STATE_def)
  show ?thesis
  proof (cases e)
    case (JobSettles k)
    then show ?thesis
      using assms(1,5) by (simp add: on_device_event_def job_settles_def silent Let_def at_rest_def traffic_def)
  qed (use assms closed in \<open>auto simp: on_device_event_def may_happen_def at_rest_def handleMessage_def handleClose_def
      traffic_def stop_device_def set_state_unobtrusive close_current_def clearTimers_def clear_interval_def
      clear_timeout_def\<close>)
qed

lemma at_rest_run:
  assumes "device_run opt d es d'" "at_rest d" "Starts \<notin> set es" "unobtrusive opt" "dv_state d = Stopped"
  shows "at_rest d' \<and> traffic d' = traffic d \<and> dv_state d' = Stopped"
  using assms(1-3,5)
proof (induction rule: device_run.induct)
  case (event d es d' e)
  then show ?case using at_rest_event [of d' e opt] assms(4) by auto
qed simp

lemma stop_rests:
  assumes "unobtrusive opt" "device_ok opt d"
  shows "at_rest (stop_device opt d)" "dv_state (stop_device opt d) = Stopped"
    "traffic (stop_device opt d) = traffic d"
proof -
  show "dv_state (stop_device opt d) = Stopped"
    using assms(1) by (simp add: stop_device_def set_state_unobtrusive Let_def)
  show "traffic (stop_device opt d) = traffic d"
    using assms(1) by (auto simp: stop_device_def set_state_unobtrusive Let_def traffic_def close_current_def
        clearTimers_def clear_interval_def clear_timeout_def update_socket_def map_update
        intro!: list_update_same_conv [THEN iffD2] split: option.split)
  show "at_rest (stop_device opt d)"
    using assms by (auto simp: stop_device_def set_state_unobtrusive at_rest_def device_ok_def close_current_def
        clearTimers_def clear_interval_def clear_timeout_def Let_def split: option.split)
qed

lemma refused_rests:
  assumes "unobtrusive opt" "device_ok opt d" "dv_webSocket d = Some n"
  defines "d' \<equiv> on_device_event opt (Closes n 4001) d"
  shows "at_rest d'" "dv_state d' = Stopped" "traffic d' = traffic d"
    "dv_errors d' = dv_errors d @ [R2RpcAuthenticationError DeviceTokenRejected]"
proof -
  have run: "dv_shouldRun d" "n < length (dv_sockets d)" "dv_timeouts d = []"
    using assms(2,3) by (auto simp: device_ok_def)
  have i: "dv_intervals d = [] \<or> (\<exists>i ms. dv_intervals d = [(i, ms)] \<and> dv_heartbeatTimer d = Some i)"
    using assms(2) by (auto simp: device_ok_def)
  have o: "\<forall>m < length (dv_sockets d). m \<noteq> n \<longrightarrow> 2 \<le> ws_readyState (dv_sockets d ! m)"
    using assms(2,3) by (auto simp: device_ok_def)
  note defs = d'_def on_device_event_def handleClose_def set_state_unobtrusive [OF assms(1)] reportError_def
    clear_interval_def Let_def run assms(3)
  show "at_rest d'" using i o by (auto simp: defs at_rest_def)
  show "dv_state d' = Stopped" by (simp add: defs)
  show "dv_errors d' = dv_errors d @ [R2RpcAuthenticationError DeviceTokenRejected]"
    by (simp add: defs update_socket_def)
  show "traffic d' = traffic d"
    by (auto simp: defs traffic_def update_socket_def map_update intro!: list_update_same_conv [THEN iffD2])
qed



section \<open>A lost connection comes back\<close>

lemma closed_schedules:
  assumes "unobtrusive opt" "device_ok opt d" "dv_webSocket d = Some n" "code \<noteq> 4001"
  defines "d1 \<equiv> on_device_event opt (Closes n code) d"
  obtains i where "dv_timeouts d1 = [(i, timer_delay (reconnect_delay opt (Suc (dv_reconnectAttempt d))))]"
    "dv_state d1 = Reconnecting" "dv_webSocket d1 = None" "dv_reconnectAttempt d1 = Suc (dv_reconnectAttempt d)"
    "dv_intervals d1 = []"
proof -
  have run: "dv_shouldRun d" "dv_timeouts d = []" using assms(2,3) by (auto simp: device_ok_def)
  have i: "dv_intervals d = [] \<or> (\<exists>i ms. dv_intervals d = [(i, ms)] \<and> dv_heartbeatTimer d = Some i)"
    using assms(2) by (auto simp: device_ok_def)
  show thesis
    using i assms(4)
    by (intro that [of "dv_timerCount d"])
      (auto simp: d1_def on_device_event_def handleClose_def scheduleReconnect_def set_state_unobtrusive [OF assms(1)]
        clear_interval_def Let_def run assms(3) update_socket_def)
qed

text \<open>
  C21: a lost connection comes back, later and later but never later than the maximum.  When the current
  socket closes with any code but 4001, the device waits for one reconnection, after the initial delay
  doubled for every attempt since the last welcome and cut at the maximum; when that timer fires, the
  device is on a new socket.
\<close>

theorem lost_connection_comes_back:
  assumes "new_sdk_device opt = Inr d0" "device_run opt d0 es d" "unobtrusive opt"
    and "dv_webSocket d = Some n" "code \<noteq> 4001" "op_newUrl opt ''/api/client/ws'' (op_baseUrl opt) \<noteq> None"
    and "or_default (Finite 500) (op_reconnectInitialDelayMilliseconds opt) = Finite initial"
    and "or_default (Finite 30000) (op_reconnectMaximumDelayMilliseconds opt) = Finite most" "1 \<le> most"
  defines "d1 \<equiv> on_device_event opt (Closes n code) d"
  shows "dv_state d1 = Reconnecting \<and> dv_reconnectAttempt d1 = Suc (dv_reconnectAttempt d) \<and>
    (\<exists>i ms. dv_timeouts d1 = [(i, ms)] \<and> ms = timer_delay (Finite (min most (initial * 2 ^ dv_reconnectAttempt d))) \<and>
       1 \<le> ms \<and> of_int ms \<le> most \<and>
       (let d2 = on_device_event opt (ReconnectDue i) d1 in
        dv_webSocket d2 = Some (length (dv_sockets d)) \<and> length (dv_sockets d2) = Suc (length (dv_sockets d)) \<and>
        dv_timeouts d2 = [] \<and> dv_state d2 = Reconnecting))"
proof -
  have ok: "device_ok opt d"
    using new_sdk_device_ok [OF assms(1)] device_run_ok [OF assms(2,3)] idle_device_ok by metis
  obtain i where i: "dv_timeouts d1 = [(i, timer_delay (reconnect_delay opt (Suc (dv_reconnectAttempt d))))]"
    "dv_state d1 = Reconnecting" "dv_reconnectAttempt d1 = Suc (dv_reconnectAttempt d)"
    using closed_schedules [OF assms(3) ok assms(4,5)] unfolding d1_def by metis
  let ?q = "min most (initial * 2 ^ dv_reconnectAttempt d)"
  have delay: "reconnect_delay opt (Suc (dv_reconnectAttempt d)) = Finite ?q"
    by (simp add: reconnect_delay_def assms(7,8) js_scale_def)
  have "of_int (timer_delay (Finite ?q)) \<le> most"
    using timer_delay_le [of ?q] assms(9) by (cases "1 \<le> ?q") (auto simp: timer_delay_def)
  moreover have "length (dv_sockets d1) = length (dv_sockets d)"
    by (simp add: d1_def on_device_event_def handleClose_def Let_def set_state_unobtrusive [OF assms(3)]
        scheduleReconnect_def clear_interval_def)
  then have "let d2 = on_device_event opt (ReconnectDue i) d1 in
        dv_webSocket d2 = Some (length (dv_sockets d)) \<and> length (dv_sockets d2) = Suc (length (dv_sockets d)) \<and>
        dv_timeouts d2 = [] \<and> dv_state d2 = Reconnecting"
    using assms(6) i(1)
    by (cases rule: openConnection_cases [OF assms(3), of Reconnecting "clear_timeout (Some i) d1"])
      (simp_all add: on_device_event_def clear_timeout_def Let_def)
  ultimately show ?thesis using i delay timer_delay_bounds by (intro conjI exI [of _ i]) auto
qed

theorem lost_connection_comes_back_witness:
  "\<exists>i. dv_timeouts (on_device_event phone_options (Closes 0 1006) phone_open) = [(i, 500)]"
  using lost_connection_comes_back [OF phone_new phone_open_run _ phone_open_sel(1), of 1006 500 30000]
  by (auto simp: or_default_def phone_open_sel timer_delay_def)

section \<open>Every job is answered once\<close>

text \<open>The request that a frame of the device answers, read off its text.\<close>

definition answer_prefix :: string where
  "answer_prefix = CHR ''{'' # quote ''type'' @ CHR '':'' # quote ''result'' @ CHR '','' # quote ''requestId'' @
     [CHR '':'', CHR 34]"

definition answer_of :: "string \<Rightarrow> string option" where
  "answer_of text =
     (if take (length answer_prefix) text = answer_prefix
      then map_option fst (parse_chars (drop (length answer_prefix) text)) else None)"

definition answers :: "nat \<Rightarrow> device \<Rightarrow> string multiset" where
  "answers n d = mset (concat (map (\<lambda>t. case answer_of t of None \<Rightarrow> [] | Some i \<Rightarrow> [i]) (ws_sent (dv_sockets d ! n))))"

definition unanswered :: "nat \<Rightarrow> device \<Rightarrow> string multiset" where
  "unanswered n d = mset (map (\<lambda>r. rj_requestId (rn_job r)) (filter (\<lambda>r. rn_socket r = n) (dv_running d)))"

definition job_received :: "nat \<Rightarrow> device_event \<Rightarrow> string multiset" where
  "job_received n e =
     (case e of
        Receives m text now \<Rightarrow>
          if m \<noteq> n then {#}
          else (case Option.bind (device_parseMessage text) rpc_job_of of
                  None \<Rightarrow> {#}
                | Some job \<Rightarrow> {#rj_requestId job#})
      | _ \<Rightarrow> {#})"

lemma answer_of_result: "answer_of (stringify (result_json opt job r)) = Some (rj_requestId job)"
proof -
  obtain rest where "stringify (result_json opt job r) =
      answer_prefix @ concat (map escape_char (rj_requestId job)) @ CHR 34 # rest"
    by (simp add: result_json_def answer_prefix_def quote_def)
  then show ?thesis by (simp add: answer_of_def parse_escaped_chars)
qed

lemma answer_of_heartbeat: "answer_of (stringify (JObj [(''type'', JStr ''heartbeat'')])) = None"
  by (simp add: answer_of_def answer_prefix_def quote_def escape_char_def Let_def)

lemma answers_send:
  assumes "n < length (dv_sockets d)"
  shows "answers n (device_send m t d) = answers n d +
    (if t = Some n \<and> ws_readyState (dv_sockets d ! n) = 1
     then (case answer_of (stringify m) of None \<Rightarrow> {#} | Some i \<Rightarrow> {#i#}) else {#})"
  using assms
  by (cases t) (auto simp: device_send_def answers_def WEB_SOCKET_OPEN_STATE_def reportError_def split: option.split)

lemma unanswered_sel [simp]:
  "unanswered n (device_send m t d) = unanswered n d"
  "unanswered n (reportError e d) = unanswered n d"
  "unanswered n (update_socket k f d) = unanswered n d"
  by (simp_all add: unanswered_def device_send_def split: option.split)

lemma sendResult_answers:
  assumes "n < length (dv_sockets d)" "ws_readyState (dv_sockets d ! n) = 1"
  shows "answers n (sendResult opt m job r d) = answers n d + (if m = n then {#rj_requestId job#} else {#})"
    "unanswered n (sendResult opt m job r d) = unanswered n d"
  using assms by (auto simp: sendResult_def answers_send answer_of_result)

lemma handleJob_answers:
  assumes "n < length (dv_sockets d)" "ws_readyState (dv_sockets d ! n) = 1"
  shows "answers n (handleJob opt n job now d) + unanswered n (handleJob opt n job now d) =
    answers n d + unanswered n d + {#rj_requestId job#}"
  using assms
  by (auto simp: handleJob_def sendResult_answers split: option.split prod.split)
    (auto simp: answers_def unanswered_def)

lemma job_settles_answers:
  assumes "n < length (dv_sockets d)" "ws_readyState (dv_sockets d ! n) = 1"
  shows "answers n (job_settles opt k d) + unanswered n (job_settles opt k d) = answers n d + unanswered n d"
proof (cases "k < length (dv_running d)")
  case True
  define r where "r = dv_running d ! k"
  have split: "dv_running d = take k (dv_running d) @ r # drop (Suc k) (dv_running d)"
    using True by (simp add: r_def id_take_nth_drop)
  have "unanswered n d = unanswered n (d\<lparr>dv_running := take k (dv_running d) @ drop (Suc k) (dv_running d)\<rparr>) +
      (if rn_socket r = n then {#rj_requestId (rn_job r)#} else {#})"
    by (subst (1) unanswered_def, subst split) (simp add: unanswered_def)
  moreover have "answers n (d\<lparr>dv_running := x\<rparr>) = answers n d" for x by (simp add: answers_def)
  ultimately show ?thesis
    using True assms by (simp add: job_settles_def Let_def sendResult_answers flip: r_def)
qed (simp add: job_settles_def)

lemma event_answers:
  assumes "unobtrusive opt" "device_ok opt d" "may_happen e d"
    and "n < length (dv_sockets d)" "ws_readyState (dv_sockets d ! n) = 1"
    and "ws_readyState (dv_sockets (on_device_event opt e d) ! n) = 1"
  shows "answers n (on_device_event opt e d) + unanswered n (on_device_event opt e d) =
    answers n d + unanswered n d + job_received n e"
proof -
  have current: "dv_webSocket d = Some n" using assms(2,4,5) by (auto simp: device_ok_def)
  have keep: "answers n d' = answers n d" if "dv_sockets d' ! n = dv_sockets d ! n" for d'
    using that by (simp add: answers_def)
  show ?thesis
  proof (cases e)
    case (Receives m body now)
    show ?thesis
    proof (cases "m = n")
      case True
      show ?thesis
      proof (cases "device_parseMessage body")
        case None
        then show ?thesis using Receives True
          by (simp add: on_device_event_def handleMessage_def job_received_def)
      next
        case (Some msg)
        show ?thesis
        proof (cases "field ''type'' msg = Some (JStr ''welcome'')")
          case True
          then have "rpc_job_of msg = None" by (simp add: rpc_job_of_def split: option.split json.split)
          then show ?thesis using Receives True Some \<open>m = n\<close> current assms(1,4,6)
            by (auto simp: on_device_event_def handleMessage_def handleWelcome_def job_received_def answers_def
                unanswered_def set_state_unobtrusive device_startHeartbeat_def clear_interval_def close_current_def)
        next
          case False
          then show ?thesis using Receives True Some current handleJob_answers [OF assms(4,5)]
            by (simp add: on_device_event_def handleMessage_def job_received_def split: option.split)
        qed
      qed
    next
      case False
      then show ?thesis using Receives current
        by (simp add: on_device_event_def handleMessage_def job_received_def)
    qed
  next
    case (JobSettles k)
    then show ?thesis using job_settles_answers [OF assms(4,5)]
      by (simp add: on_device_event_def job_received_def)
  next
    case (HeartbeatDue i)
    then show ?thesis using answers_send [OF assms(4)]
      by (simp add: on_device_event_def job_received_def answer_of_heartbeat del: stringify.simps)
  next
    case (Fails m)
    then show ?thesis by (simp add: on_device_event_def job_received_def answers_def)
  next
    case (Opens m)
    then show ?thesis using assms(3,4) by (auto simp: on_device_event_def job_received_def answers_def)
  next
    case (Closes m code)
    then have "m \<noteq> n" using assms(4,6) current
      by (auto simp: on_device_event_def handleClose_def scheduleReconnect_def set_state_unobtrusive [OF assms(1)]
          clear_interval_def Let_def reportError_def split: if_splits)
    then show ?thesis using Closes current assms(4)
      by (simp add: on_device_event_def handleClose_def job_received_def answers_def)
  next
    case Stops
    then show ?thesis using assms(1,4,6) current
      by (auto simp: on_device_event_def stop_device_def set_state_unobtrusive close_current_def clearTimers_def
          clear_interval_def clear_timeout_def Let_def)
  next
    case Starts
    then show ?thesis using assms(2) current
      by (auto simp: on_device_event_def start_device_def device_ok_def job_received_def)
  next
    case (ReconnectDue i)
    then show ?thesis using assms(2,3) current by (auto simp: may_happen_def device_ok_def)
  qed
qed

lemma control_ready:
  assumes "control d' = control d" "n < length (dv_sockets d)"
  shows "n < length (dv_sockets d')" "ws_readyState (dv_sockets d' ! n) = ws_readyState (dv_sockets d ! n)"
proof -
  have m: "map ws_readyState (dv_sockets d') = map ws_readyState (dv_sockets d)"
    using assms(1) by (simp add: control_def)
  then show "n < length (dv_sockets d')" using assms(2) by (metis length_map)
  then show "ws_readyState (dv_sockets d' ! n) = ws_readyState (dv_sockets d ! n)"
    using m assms(2) by (metis nth_map)
qed

text \<open>A socket never goes back.\<close>

lemma event_ages:
  assumes "unobtrusive opt" "may_happen e d" "n < length (dv_sockets d)"
  shows "n < length (dv_sockets (on_device_event opt e d)) \<and>
    ws_readyState (dv_sockets d ! n) \<le> ws_readyState (dv_sockets (on_device_event opt e d) ! n)"
proof -
  have opened: "n < length (dv_sockets (snd (openConnection opt s d'))) \<and>
      dv_sockets (snd (openConnection opt s d')) ! n = dv_sockets d' ! n"
    if "n < length (dv_sockets d')" for s d'
    using that by (cases rule: openConnection_cases [OF assms(1), of s d']) (simp_all add: nth_append)
  have closing: "n < length (dv_sockets (close_current code reason d')) \<and>
      ws_readyState (dv_sockets d' ! n) \<le> ws_readyState (dv_sockets (close_current code reason d') ! n)"
    if "n < length (dv_sockets d')" for code reason d'
    using that by (simp add: close_current_def split: option.split)
  show ?thesis
  proof (cases e)
    case Stops
    then show ?thesis
      using closing [of "clearTimers (d\<lparr>dv_shouldRun := False\<rparr>)"] assms(1,3)
      by (simp add: on_device_event_def stop_device_def Let_def set_state_unobtrusive clearTimers_def
          clear_interval_def clear_timeout_def)
  next
    case (Receives m body now)
    show ?thesis
      using assms(3) closing [of "reportError (R2RpcError WelcomeMismatch) d"] control_ready [OF control_jobs(2)]
      by (auto simp: Receives on_device_event_def handleMessage_def handleWelcome_def set_state_unobtrusive [OF assms(1)]
          device_startHeartbeat_def clear_interval_def Let_def split: option.split)
  next
    case (HeartbeatDue i)
    then show ?thesis using control_ready [OF control_device_send assms(3)] by (simp add: on_device_event_def)
  next
    case (JobSettles k)
    then show ?thesis using control_ready [OF control_jobs(3) assms(3)] by (simp add: on_device_event_def)
  qed (use assms opened in \<open>auto simp: on_device_event_def may_happen_def start_device_def handleClose_def Let_def
      set_state_unobtrusive scheduleReconnect_def clear_interval_def clear_timeout_def reportError_def\<close>)
qed

lemma run_ages:
  assumes "device_run opt d es d'" "unobtrusive opt" "n < length (dv_sockets d)"
  shows "n < length (dv_sockets d') \<and> ws_readyState (dv_sockets d ! n) \<le> ws_readyState (dv_sockets d' ! n)"
  using assms
proof (induction rule: device_run.induct)
  case (event d es d' e)
  then show ?case using event_ages [of opt e d' n] by auto
qed simp


definition hello_job :: json where
  "hello_job = JObj [(''type'', JStr ''job''), (''requestId'', JStr ''r1''), (''project'', JStr ''p''),
     (''action'', JStr ''hello''), (''payload'', JNull), (''timeoutSeconds'', JNum 5)]"

lemma hello_received: "job_received 0 (Receives 0 (stringify hello_job) now) = {#''r1''#}"
proof -
  have "parse_json (stringify hello_job) = Some hello_job"
    by (rule parse_stringify) (simp add: hello_job_def)
  then show ?thesis
    by (simp add: job_received_def device_parseMessage_def hello_job_def rpc_job_of_def field_def)
qed


section \<open>A handler is cut in time\<close>

text \<open>
  a handler is cut in time, and not before.  A job ends by its deadline (a millisecond later at most
  when that has passed) and within its timeout.  A handler that settles before both is heard, provided
  the timeout is one that a timer can have; with a longer one, every handler that takes a millisecond is cut.
\<close>

theorem handlers_are_cut_in_time:
  fixes opt :: options and h :: handler and now :: int
  assumes "rj_timeoutSeconds job = of_int s" "1 \<le> s" "rj_deadlineAt job = Some (JNum (of_int D))"
  defines "x \<equiv> executeWithTimeout opt job h now"
  shows "now \<le> fst x \<and> fst x \<le> max (now + 1) D \<and> fst x \<le> now + s * 1000 \<and>
    (\<forall>ms r. h job = Returns ms r \<longrightarrow> 0 \<le> ms \<longrightarrow> ms < s * 1000 \<longrightarrow> ms < D - now \<longrightarrow>
       min (s * 1000) (D - now) \<le> 2147483647 \<longrightarrow> x = (now + ms, Inr r)) \<and>
    (\<forall>ms r. h job = Returns ms r \<longrightarrow> 1 \<le> ms \<longrightarrow> 2147483647 < min (s * 1000) (D - now) \<longrightarrow>
       fst x = now + 1 \<and> (\<exists>t. snd x = Inr (failed_result ''timeout'' 408 t)))"
proof -
  define T where "T = max 1 (min (s * 1000) (D - now))"
  have r: "resolveTimeoutMilliseconds job now = Finite (of_int T)"
  proof -
    have "max 1 (of_int s * 1000 :: rat) = of_int (s * 1000)" using assms(2) by (simp add: max_def)
    then show ?thesis
      by (simp add: resolveTimeoutMilliseconds_def assms(1,3) to_number_def js_minus_def T_def of_int_max of_int_min)
  qed
  define l where "l = timer_delay (Finite (of_int T))"
  have T: "1 \<le> T" "T \<le> s * 1000" "T \<le> max 1 (D - now)" using assms(2) by (auto simp: T_def)
  have l: "l = (if T \<le> 2147483647 then T else 1)" using T(1) by (auto simp: l_def timer_delay_def)
  have x: "x = (case h job of
        Returns ms res \<Rightarrow> if ms < l then (now + max 0 ms, Inr res)
          else (now + l, Inr (failed_result ''timeout'' 408 (op_text opt (ActionTimedOut (Finite (of_int T))))))
      | Rejects ms err \<Rightarrow> if ms < l then (now + max 0 ms, Inl err)
          else (now + l, Inr (failed_result ''timeout'' 408 (op_text opt (ActionTimedOut (Finite (of_int T))))))
      | Throws err \<Rightarrow> (now, Inl err)
      | NeverSettles \<Rightarrow> (now + l, Inr (failed_result ''timeout'' 408 (op_text opt (ActionTimedOut (Finite (of_int T)))))))"
    by (simp add: x_def executeWithTimeout_def r Let_def l_def split: handling.split)
  have bounds: "now \<le> fst x" "fst x \<le> now + l" using l T(1) by (auto simp: x split: handling.split)
  have "l \<le> T" using l T(1) by simp
  moreover have "now + T \<le> max (now + 1) D" using T(3) by (auto simp: max_def split: if_splits)
  moreover have "x = (now + ms, Inr res)" if "h job = Returns ms res" "0 \<le> ms" "ms < s * 1000" "ms < D - now"
    "min (s * 1000) (D - now) \<le> 2147483647" for ms res
    using that l by (auto simp: x T_def)
  moreover have "fst x = now + 1 \<and> (\<exists>t. snd x = Inr (failed_result ''timeout'' 408 t))"
    if "h job = Returns ms res" "1 \<le> ms" "2147483647 < min (s * 1000) (D - now)" for ms res
    using that l by (auto simp: x T_def)
  ultimately show ?thesis using bounds T(2) by auto
qed

theorem handlers_are_cut_in_time_witness:
  "executeWithTimeout phone_options \<lparr>rj_requestId = ''r1'', rj_project = ''p'', rj_action = ''hello'',
     rj_payload = None, rj_timeoutSeconds = 5, rj_deadlineAt = Some (JNum 5000)\<rparr>
     (\<lambda>_. Returns 30 (failed_result ''error'' 400 ''bad'')) 0 = (30, Inr (failed_result ''error'' 400 ''bad''))"
  using handlers_are_cut_in_time [of "\<lparr>rj_requestId = ''r1'', rj_project = ''p'', rj_action = ''hello'',
     rj_payload = None, rj_timeoutSeconds = 5, rj_deadlineAt = Some (JNum 5000)\<rparr>" 5 5000 0 phone_options
     "\<lambda>_. Returns 30 (failed_result ''error'' 400 ''bad'')"]
  by simp

section \<open>Stopping inside the callback\<close>

text \<open>An application that stops its device when it hears that the connection was lost.\<close>

definition giving_up :: "options \<Rightarrow> options" where
  "giving_up opt = opt\<lparr>op_onStateChange := (\<lambda>e d.
     if ce_state e = Reconnecting then stop_device (opt\<lparr>op_onStateChange := (\<lambda>_ d. d)\<rparr>) d else d)\<rparr>"

text \<open>It is the callback that calls \<^verbatim>\<open>stop\<close> of the very device it belongs to.\<close>

lemma giving_up_callback:
  "op_onStateChange (giving_up opt) e d = (if ce_state e = Reconnecting then stop_device (giving_up opt) d else d)"
  by (simp add: giving_up_def stop_device_def set_state_def Let_def)

lemma giving_up_set_state:
  "set_state (giving_up opt) Reconnecting d = stop_device (giving_up opt)
     (d\<lparr>dv_state := Reconnecting, dv_events := dv_events d @ [\<lparr>ce_state = Reconnecting, ce_reconnectAttempt = dv_reconnectAttempt d\<rparr>]\<rparr>)"
  by (simp add: set_state_def giving_up_callback Let_def)

lemma giving_up_stop:
  "dv_shouldRun (stop_device (giving_up opt) d) = False"
  "dv_state (stop_device (giving_up opt) d) = Stopped"
  "dv_webSocket (stop_device (giving_up opt) d) = None"
  "dv_timeouts (stop_device (giving_up opt) d) = filter (\<lambda>(i, _). Some i \<noteq> dv_reconnectTimer d) (dv_timeouts d)"
  "length (dv_sockets (stop_device (giving_up opt) d)) = length (dv_sockets d)"
  by (simp_all add: stop_device_def set_state_def giving_up_callback Let_def close_current_def clearTimers_def
      clear_interval_def clear_timeout_def split: option.split)

text \<open>
  C30: stopping a device from its own callback does not stop it.  When the application calls
  \<^verbatim>\<open>stop\<close> as it is told that the connection was lost, the device says that it is stopped, and
  yet sets the timer of its reconnection afterwards; when that fires, it opens a socket again.
\<close>

theorem stop_in_callback_is_undone:
  assumes "dv_webSocket d = Some n" "dv_shouldRun d" "dv_timeouts d = []" "code \<noteq> 4001"
    and "op_newUrl opt ''/api/client/ws'' (op_baseUrl opt) \<noteq> None"
  defines "d1 \<equiv> on_device_event (giving_up opt) (Closes n code) d"
  shows "\<not> dv_shouldRun d1 \<and> dv_state d1 = Stopped \<and>
    (\<exists>i ms. dv_timeouts d1 = [(i, ms)] \<and>
       (let d2 = on_device_event (giving_up opt) (ReconnectDue i) d1 in
        \<not> dv_shouldRun d2 \<and> dv_state d2 = Stopped \<and> dv_webSocket d2 = Some (length (dv_sockets d)) \<and>
        length (dv_sockets d2) = Suc (length (dv_sockets d))))"
proof -
  define c where "c = (update_socket n (\<lambda>s. s\<lparr>ws_readyState := 3\<rparr>) d)\<lparr>dv_webSocket := None\<rparr>"
  define d0 where "d0 = (clear_interval (dv_heartbeatTimer d) c)\<lparr>dv_heartbeatTimer := None\<rparr>"
  have d1: "d1 = scheduleReconnect (giving_up opt) d0"
    by (simp add: d1_def d0_def c_def on_device_event_def handleClose_def clear_interval_def assms(1,2,4) Let_def)
  have d0: "dv_timeouts d0 = []" "length (dv_sockets d0) = length (dv_sockets d)"
    by (simp_all add: d0_def c_def clear_interval_def assms(3))
  obtain i ms where i: "dv_timeouts d1 = [(i, ms)]"
    by (simp add: d1 scheduleReconnect_def giving_up_set_state giving_up_stop d0 Let_def)
  have stopped: "\<not> dv_shouldRun d1" "dv_state d1 = Stopped" "length (dv_sockets d1) = length (dv_sockets d)"
    by (simp_all add: d1 scheduleReconnect_def giving_up_set_state giving_up_stop d0 Let_def)
  define d' where "d' = set_state (giving_up opt) Reconnecting (clear_timeout (Some i) d1)"
  have d': "\<not> dv_shouldRun d'" "dv_state d' = Stopped" "length (dv_sockets d') = length (dv_sockets d)"
    using stopped(3) by (simp_all add: d'_def giving_up_set_state giving_up_stop clear_timeout_def)
  obtain u where "buildWebSocketUrl (giving_up opt) d' = Some u"
    using assms(5) by (auto simp: buildWebSocketUrl_def giving_up_def)
  then have "let d2 = on_device_event (giving_up opt) (ReconnectDue i) d1 in
        \<not> dv_shouldRun d2 \<and> dv_state d2 = Stopped \<and> dv_webSocket d2 = Some (length (dv_sockets d)) \<and>
        length (dv_sockets d2) = Suc (length (dv_sockets d))"
    using d' by (simp add: on_device_event_def openConnection_def Let_def flip: d'_def)
  then show ?thesis using stopped(1,2) i by blast
qed

theorem stop_in_callback_is_undone_witness:
  "dv_state (on_device_event (giving_up phone_options) (Closes 0 1006) phone_open) = Stopped \<and>
   dv_timeouts (on_device_event (giving_up phone_options) (Closes 0 1006) phone_open) \<noteq> []"
  using stop_in_callback_is_undone [OF phone_open_sel(1,5,6), of 1006 phone_options] by auto

end
