(* ===== verification/Sdk_App_Audit.thy ===== *)
theory Sdk_App_Audit
  imports App_Audit Sdk_Types Calendar
begin

text \<open>
  \<^verbatim>\<open>sdk/javascript/src/app-audit.ts\<close>: the recorder with which a device writes the trace it
  attaches to a result.  A step and its handle have the same index; the handle is the object that
  completes the step.  A call that throws leaves the recorder as it was.
\<close>

section \<open>The data\<close>

record audit_request =
  rq_method :: "string option"
  rq_url :: "string option"
  rq_headers :: "json option"
  rq_body :: "json option"

record audit_response =
  rp_statusCode :: "js_num option"
  rp_headers :: "json option"
  rp_bodyFormat :: "string option"
  rp_body :: "json option"

record audit_error =
  er_type :: "string option"
  er_code :: "string option"
  er_message :: "string option"

datatype step_status = StatusNumber js_num | StatusText string

record audit_step =
  sp_sequence :: nat
  sp_name :: string
  sp_startedAt :: string
  sp_durationMs :: int
  sp_code :: "string option"
  sp_request :: "audit_request option"
  sp_status :: "step_status option"
  sp_response :: "audit_response option"
  sp_error :: "audit_error option"

record step_handle =
  hd_completed :: bool
  hd_startedAtMilliseconds :: int

record recorder =
  ad_title :: string
  ad_metadata :: "(string \<times> json) list"
  ad_steps :: "audit_step list"
  ad_handles :: "step_handle list"

definition MAXIMUM_METADATA_COUNT :: nat where
  "MAXIMUM_METADATA_COUNT = 64"

definition MAXIMUM_STEP_COUNT :: nat where
  "MAXIMUM_STEP_COUNT = 128"

definition MAXIMUM_AUDIT_BYTES :: nat where
  "MAXIMUM_AUDIT_BYTES = 512 * 1024"

section \<open>The checks\<close>

text \<open>Checks in order: the first that fails is thrown.\<close>

fun first_failure :: "(bool \<times> sdk_error) list \<Rightarrow> sdk_error option" where
  "first_failure [] = None"
| "first_failure ((bad, e) # cs) = (if bad then Some e else first_failure cs)"

lemma first_failure_None [simp]: "first_failure cs = None \<longleftrightarrow> list_all (\<lambda>c. \<not> fst c) cs"
  by (induction cs rule: first_failure.induct) auto

declare first_failure.simps [simp del]

definition longer :: "nat \<Rightarrow> string option \<Rightarrow> bool" where
  "longer n v \<longleftrightarrow> (case v of None \<Rightarrow> False | Some s \<Rightarrow> n < length s)"

definition validateRequest :: "audit_request option \<Rightarrow> (bool \<times> sdk_error) list" where
  "validateRequest request =
     (case request of
        None \<Rightarrow> []
      | Some r \<Rightarrow>
          [(case rq_method r of None \<Rightarrow> False | Some m \<Rightarrow> is_blank m, JsTypeError (Blank ''request method'')),
           (longer 32 (rq_method r), JsRangeError (TooLong ''request method'' 32)),
           (longer 4096 (rq_url r), JsRangeError (TooLong ''request url'' 4096))])"

definition validateResponse :: "audit_response option \<Rightarrow> (bool \<times> sdk_error) list" where
  "validateResponse response =
     (case response of
        None \<Rightarrow> []
      | Some r \<Rightarrow>
          [(case rp_statusCode r of
              None \<Rightarrow> False
            | Some c \<Rightarrow> (case integer_of c of None \<Rightarrow> True | Some n \<Rightarrow> n < 0 \<or> 999 < n),
            JsRangeError StatusCodeOutOfRange),
           (case rp_bodyFormat r of None \<Rightarrow> False | Some f \<Rightarrow> f \<notin> {''json'', ''text'', ''empty''},
            JsTypeError BodyFormatInvalid)])"

definition validateError :: "audit_error option \<Rightarrow> (bool \<times> sdk_error) list" where
  "validateError err =
     (case err of
        None \<Rightarrow> []
      | Some e \<Rightarrow>
          [(longer 100 (er_type e), JsRangeError (TooLong ''error type'' 100)),
           (longer 100 (er_code e), JsRangeError (TooLong ''error code'' 100)),
           (longer 4096 (er_message e), JsRangeError (TooLong ''error message'' 4096))])"

section \<open>Recording\<close>

definition new_recorder :: "string \<Rightarrow> sdk_error + recorder" where
  "new_recorder title =
     (if is_blank title then Inl (PlainError (Blank ''title''))
      else if 200 < length title then Inl (JsRangeError (TooLong ''title'' 200))
      else Inr \<lparr>ad_title = title, ad_metadata = [], ad_steps = [], ad_handles = []\<rparr>)"

definition addMetadata :: "string \<Rightarrow> json \<Rightarrow> recorder \<Rightarrow> sdk_error option \<times> recorder" where
  "addMetadata key v r =
     (case first_failure
        [(is_blank key, PlainError (Blank ''metadata key'')),
         (100 < length key, JsRangeError (TooLong ''metadata key'' 100)),
         (MAXIMUM_METADATA_COUNT \<le> length (ad_metadata r), PlainError (TooMany ''metadata'' MAXIMUM_METADATA_COUNT))] of
        Some e \<Rightarrow> (Some e, r)
      | None \<Rightarrow> (None, r\<lparr>ad_metadata := ad_metadata r @ [(key, v)]\<rparr>))"

text \<open>A date is its milliseconds, \<open>None\<close> for an invalid one, whose \<^verbatim>\<open>toISOString\<close> throws.\<close>

record step_input =
  si_code :: "string option"
  si_name :: string
  si_request :: "audit_request option"
  si_startedAt :: "int option option"

definition startStep :: "step_input \<Rightarrow> int \<Rightarrow> recorder \<Rightarrow> sdk_error option \<times> recorder" where
  "startStep input now r =
     (case first_failure
        ([(is_blank (si_name input), PlainError (Blank ''step name'')),
          (200 < length (si_name input), JsRangeError (TooLong ''step name'' 200)),
          (longer 100 (si_code input), JsRangeError (TooLong ''step code'' 100))] @
         validateRequest (si_request input) @
         [(MAXIMUM_STEP_COUNT \<le> length (ad_steps r), PlainError (TooMany ''step'' MAXIMUM_STEP_COUNT)),
          (si_startedAt input = Some None, JsRangeError NotFinite)]) of
        Some e \<Rightarrow> (Some e, r)
      | None \<Rightarrow>
          let startedAt = (case si_startedAt input of Some (Some t) \<Rightarrow> t | _ \<Rightarrow> now) in
          (None, r\<lparr>ad_steps := ad_steps r @
                     [\<lparr>sp_sequence = length (ad_steps r) + 1, sp_name = si_name input,
                       sp_startedAt = iso_instant startedAt, sp_durationMs = 0, sp_code = si_code input,
                       sp_request = si_request input, sp_status = None, sp_response = None, sp_error = None\<rparr>],
                   ad_handles := ad_handles r @
                     [\<lparr>hd_completed = False, hd_startedAtMilliseconds = startedAt\<rparr>]\<rparr>))"

definition complete_step ::
  "nat \<Rightarrow> step_status option \<Rightarrow> audit_response option \<Rightarrow> audit_error option \<Rightarrow> int \<Rightarrow> recorder \<Rightarrow>
   sdk_error option \<times> recorder" where
  "complete_step k status response err now r =
     (let h = ad_handles r ! k; s = ad_steps r ! k in
      case first_failure
        ([(hd_completed h, PlainError (StepCompleted (sp_name s))),
          (case status of Some (StatusNumber q) \<Rightarrow> (case q of Finite _ \<Rightarrow> False | _ \<Rightarrow> True) | _ \<Rightarrow> False,
           JsRangeError NotFinite),
          (case status of Some (StatusText t) \<Rightarrow> 100 < length t | _ \<Rightarrow> False,
           JsRangeError (TooLong ''step status'' 100))] @
         validateResponse response @ validateError err) of
        Some e \<Rightarrow> (Some e, r)
      | None \<Rightarrow>
          let s1 = s\<lparr>sp_durationMs := max 0 (now - hd_startedAtMilliseconds h)\<rparr>;
              s2 = (case status of None \<Rightarrow> s1 | Some x \<Rightarrow> s1\<lparr>sp_status := Some x\<rparr>);
              s3 = (case response of None \<Rightarrow> s2 | Some x \<Rightarrow> s2\<lparr>sp_response := Some x\<rparr>);
              s4 = (case err of None \<Rightarrow> s3 | Some x \<Rightarrow> s3\<lparr>sp_error := Some x\<rparr>) in
          (None, r\<lparr>ad_steps := (ad_steps r)[k := s4],
                   ad_handles := (ad_handles r)[k := h\<lparr>hd_completed := True\<rparr>]\<rparr>))"

definition succeed_step :: "nat \<Rightarrow> step_status option \<Rightarrow> audit_response option \<Rightarrow> int \<Rightarrow> recorder \<Rightarrow>
    sdk_error option \<times> recorder" where
  "succeed_step k status response now = complete_step k status response None now"

definition fail_step :: "nat \<Rightarrow> step_status option \<Rightarrow> audit_response option \<Rightarrow> audit_error \<Rightarrow> int \<Rightarrow> recorder \<Rightarrow>
    sdk_error option \<times> recorder" where
  "fail_step k status response err now = complete_step k status response (Some err) now"

section \<open>The snapshot\<close>

text \<open>An absent member is left out of the text.\<close>

definition member :: "string \<Rightarrow> ('a \<Rightarrow> json) \<Rightarrow> 'a option \<Rightarrow> (string \<times> json) list" where
  "member k f v = (case v of None \<Rightarrow> [] | Some x \<Rightarrow> [(k, f x)])"

definition json_of_number :: "js_num \<Rightarrow> json" where
  "json_of_number a = (case a of Finite q \<Rightarrow> JNum q | _ \<Rightarrow> JNull)"

definition request_json :: "audit_request \<Rightarrow> json" where
  "request_json r = JObj
     (member ''method'' JStr (rq_method r) @ member ''url'' JStr (rq_url r) @
      member ''headers'' id (rq_headers r) @ member ''body'' id (rq_body r))"

definition response_json :: "audit_response \<Rightarrow> json" where
  "response_json r = JObj
     (member ''statusCode'' json_of_number (rp_statusCode r) @ member ''headers'' id (rp_headers r) @
      member ''bodyFormat'' JStr (rp_bodyFormat r) @ member ''body'' id (rp_body r))"

definition error_json :: "audit_error \<Rightarrow> json" where
  "error_json e = JObj
     (member ''type'' JStr (er_type e) @ member ''code'' JStr (er_code e) @ member ''message'' JStr (er_message e))"

definition status_json :: "step_status \<Rightarrow> json" where
  "status_json s = (case s of StatusNumber q \<Rightarrow> json_of_number q | StatusText t \<Rightarrow> JStr t)"

text \<open>The members in the order in which they are set.\<close>

definition step_json :: "audit_step \<Rightarrow> json" where
  "step_json s = JObj
     ([(''sequence'', JNum (of_nat (sp_sequence s))), (''name'', JStr (sp_name s)),
       (''startedAt'', JStr (sp_startedAt s)), (''durationMs'', JNum (of_int (sp_durationMs s)))] @
      member ''code'' JStr (sp_code s) @ member ''request'' request_json (sp_request s) @
      member ''status'' status_json (sp_status s) @ member ''response'' response_json (sp_response s) @
      member ''error'' error_json (sp_error s))"

definition audit_json :: "recorder \<Rightarrow> json" where
  "audit_json r = JObj
     [(''schemaVersion'', JNum 1), (''title'', JStr (ad_title r)),
      (''metadata'', JArr (map (\<lambda>(k, v). JObj [(''key'', JStr k), (''value'', v)]) (ad_metadata r))),
      (''steps'', JArr (map step_json (ad_steps r)))]"

definition audit_snapshot :: "recorder \<Rightarrow> sdk_error + json" where
  "audit_snapshot r =
     (if MAXIMUM_AUDIT_BYTES < utf8_length (stringify (audit_json r)) then Inl (JsRangeError AuditTooLong)
      else Inr (audit_json r))"

section \<open>Use\<close>

datatype audit_call =
    AddMetadata string json
  | StartStep step_input int
  | Succeed nat "step_status option" "audit_response option" int
  | Fail nat "step_status option" "audit_response option" audit_error int

text \<open>A handle that does not exist cannot be called.\<close>

definition run_audit_call :: "audit_call \<Rightarrow> recorder \<Rightarrow> recorder" where
  "run_audit_call c r =
     (case c of
        AddMetadata k v \<Rightarrow> snd (addMetadata k v r)
      | StartStep input now \<Rightarrow> snd (startStep input now r)
      | Succeed k status response now \<Rightarrow>
          if k < length (ad_handles r) then snd (succeed_step k status response now r) else r
      | Fail k status response err now \<Rightarrow>
          if k < length (ad_handles r) then snd (fail_step k status response err now r) else r)"

section \<open>What a schema accepts as it is\<close>

lemma z_strict_accepts:
  assumes "distinct (map fst shape)" "list_all (\<lambda>p. fst p \<in> fst ` set shape) ps"
    and "list_all (\<lambda>(k, may_miss, f). case field k (JObj ps) of None \<Rightarrow> may_miss | Some v \<Rightarrow> f v = Some v) shape"
  shows "\<exists>d. z_strict shape (JObj ps) = Some d \<and> (\<forall>k. field k d = field k (JObj ps))"
proof -
  define j where "j = JObj ps"
  define kept where "kept = (\<lambda>e :: string \<times> bool \<times> schema. case field (fst e) j of None \<Rightarrow> [] | Some v \<Rightarrow> [(fst e, v)])"
  have members: "map (z_member j) shape = map Some (map kept shape)"
  proof -
    have "z_member j e = Some (kept e)" if "e \<in> set shape" for e
    proof -
      obtain k may_miss f where e: "e = (k, may_miss, f)" by (cases e)
      then have "case field k j of None \<Rightarrow> may_miss | Some v \<Rightarrow> f v = Some v"
        using assms(3) that by (force simp: list_all_iff j_def)
      then show ?thesis by (auto simp: e kept_def z_member_def split: option.splits)
    qed
    then show ?thesis by simp
  qed
  have read: "map_of (rev (concat (map kept es))) k = (if k \<in> fst ` set es then field k j else None)"
    if "distinct (map fst es)" for es k
    using that by (induction es) (auto simp: kept_def map_add_def split: option.splits)
  have none: "field k j = None" if "k \<notin> fst ` set shape" for k
    using that assms(2) by (auto simp: j_def field_def map_of_eq_None_iff list_all_iff)
  have "z_strict shape j = Some (JObj (concat (map kept shape)))"
    using assms(2) members unfolding j_def z_strict_Some by blast
  moreover have "field k (JObj (concat (map kept shape))) = field k j" for k
    using read [OF assms(1)] none by (simp add: field_def [of k "JObj (concat (map kept shape))"])
  ultimately show ?thesis unfolding j_def by blast
qed

lemma all_some_exists:
  assumes "\<forall>x \<in> set xs. \<exists>d. f x = Some d \<and> P x d"
  shows "\<exists>ds. all_some (map f xs) = Some ds \<and> list_all2 P xs ds"
  using assms by (induction xs) (auto simp: list_all2_Cons1)

section \<open>A recorder writes what the server accepts\<close>

definition request_ok :: "audit_request \<Rightarrow> bool" where
  "request_ok r \<longleftrightarrow> (case rq_method r of None \<Rightarrow> True | Some m \<Rightarrow> m \<noteq> [] \<and> length m \<le> 32) \<and> \<not> longer 4096 (rq_url r)"

definition response_ok :: "audit_response \<Rightarrow> bool" where
  "response_ok r \<longleftrightarrow>
     (case rp_statusCode r of None \<Rightarrow> True | Some c \<Rightarrow> \<exists>n. c = Finite (of_int n) \<and> 0 \<le> n \<and> n \<le> 999) \<and>
     (case rp_bodyFormat r of None \<Rightarrow> True | Some f \<Rightarrow> f \<in> {''json'', ''text'', ''empty''})"

definition error_ok :: "audit_error \<Rightarrow> bool" where
  "error_ok e \<longleftrightarrow> \<not> longer 100 (er_type e) \<and> \<not> longer 100 (er_code e) \<and> \<not> longer 4096 (er_message e)"

definition status_ok :: "step_status \<Rightarrow> bool" where
  "status_ok s \<longleftrightarrow> (case s of StatusNumber q \<Rightarrow> \<exists>x. q = Finite x | StatusText t \<Rightarrow> length t \<le> 100)"

definition step_ok :: "int set \<Rightarrow> nat \<Rightarrow> audit_step \<Rightarrow> bool" where
  "step_ok dates k s \<longleftrightarrow> sp_sequence s = k \<and> sp_name s \<noteq> [] \<and> length (sp_name s) \<le> 200 \<and>
     sp_startedAt s \<in> iso_instant ` dates \<and> 0 \<le> sp_durationMs s \<and> \<not> longer 100 (sp_code s) \<and>
     pred_option request_ok (sp_request s) \<and> pred_option status_ok (sp_status s) \<and>
     pred_option response_ok (sp_response s) \<and> pred_option error_ok (sp_error s)"

definition recorder_ok :: "int set \<Rightarrow> recorder \<Rightarrow> bool" where
  "recorder_ok dates r \<longleftrightarrow> ad_title r \<noteq> [] \<and> length (ad_title r) \<le> 200 \<and> length (ad_metadata r) \<le> 64 \<and>
     list_all (\<lambda>(k, v). k \<noteq> [] \<and> length k \<le> 100) (ad_metadata r) \<and> length (ad_steps r) \<le> 128 \<and>
     length (ad_handles r) = length (ad_steps r) \<and>
     (\<forall>k < length (ad_steps r). step_ok dates (k + 1) (ad_steps r ! k))"

lemma blank_empty: "\<not> is_blank s \<Longrightarrow> s \<noteq> []"
  by (auto simp: is_blank_def js_trim_def)

lemma validateRequest_ok: "list_all (\<lambda>c. \<not> fst c) (validateRequest q) \<Longrightarrow> pred_option request_ok q"
  by (cases q) (auto simp: validateRequest_def request_ok_def longer_def blank_empty not_less
      split: option.splits)

lemma integer_of_Some: "integer_of c = Some n \<longleftrightarrow> c = Finite (of_int n)"
  by (auto simp: integer_of_def split: js_num.splits if_splits)

lemma validateResponse_ok: "list_all (\<lambda>c. \<not> fst c) (validateResponse q) \<Longrightarrow> pred_option response_ok q"
  by (cases q) (auto simp: validateResponse_def response_ok_def integer_of_Some not_less
      split: option.splits)

lemma validateError_ok: "list_all (\<lambda>c. \<not> fst c) (validateError q) \<Longrightarrow> pred_option error_ok q"
  by (cases q) (auto simp: validateError_def error_ok_def)

lemma addMetadata_ok: "recorder_ok dates r \<Longrightarrow> recorder_ok dates (snd (addMetadata k v r))"
  by (auto simp: addMetadata_def recorder_ok_def MAXIMUM_METADATA_COUNT_def blank_empty not_less
      split: option.split if_splits)

lemma startStep_ok:
  assumes "recorder_ok dates r" "(case si_startedAt input of Some (Some t) \<Rightarrow> t | _ \<Rightarrow> now) \<in> dates"
  shows "recorder_ok dates (snd (startStep input now r))"
  using assms
  by (auto simp: startStep_def recorder_ok_def step_ok_def MAXIMUM_STEP_COUNT_def blank_empty not_less nth_append
      validateRequest_ok less_Suc_eq longer_def Let_def split: option.split)

lemma complete_step_ok:
  assumes "recorder_ok dates r" "k < length (ad_handles r)"
  shows "recorder_ok dates (snd (complete_step k status response err now r))"
proof (cases "first_failure
    ([(hd_completed (ad_handles r ! k), PlainError (StepCompleted (sp_name (ad_steps r ! k)))),
      (case status of Some (StatusNumber q) \<Rightarrow> (case q of Finite _ \<Rightarrow> False | _ \<Rightarrow> True) | _ \<Rightarrow> False, JsRangeError NotFinite),
      (case status of Some (StatusText t) \<Rightarrow> 100 < length t | _ \<Rightarrow> False, JsRangeError (TooLong ''step status'' 100))] @
     validateResponse response @ validateError err)")
  case (Some e)
  then show ?thesis using assms by (simp add: complete_step_def Let_def)
next
  case None
  then have ok: "pred_option status_ok status" "pred_option response_ok response" "pred_option error_ok err"
    using validateResponse_ok validateError_ok
    by (auto simp: status_ok_def split: option.splits step_status.splits js_num.splits if_splits)
  have "step_ok dates (k + 1) (ad_steps r ! k)" using assms by (simp add: recorder_ok_def)
  then show ?thesis
    using None ok assms
    by (auto simp: complete_step_def recorder_ok_def step_ok_def Let_def nth_list_update split: option.split)
qed

text \<open>The date a call writes down.\<close>

definition dates_of :: "audit_call \<Rightarrow> int set" where
  "dates_of c =
     (case c of StartStep input now \<Rightarrow> {case si_startedAt input of Some (Some t) \<Rightarrow> t | _ \<Rightarrow> now} | _ \<Rightarrow> {})"

lemma run_audit_call_ok:
  assumes "recorder_ok dates r" "dates_of c \<subseteq> dates"
  shows "recorder_ok dates (run_audit_call c r)"
  using assms
  by (cases c) (auto simp: run_audit_call_def dates_of_def addMetadata_ok startStep_ok complete_step_ok
      succeed_step_def fail_step_def)

lemma run_audit_calls_ok:
  assumes "recorder_ok dates r" "\<forall>c \<in> set calls. dates_of c \<subseteq> dates"
  shows "recorder_ok dates (fold run_audit_call calls r)"
  using assms by (induction calls arbitrary: r) (auto simp: run_audit_call_ok)

lemma new_recorder_ok: "new_recorder title = Inr r \<Longrightarrow> recorder_ok dates r"
  by (auto simp: new_recorder_def recorder_ok_def blank_empty split: if_splits)

lemma member_field [simp]:
  "map_of (member k f v) l = (if l = k then map_option f v else None)"
  "fst ` set (member k f v) = (if v = None then {} else {k})"
  by (auto simp: member_def split: option.split)

lemma map_of_rev_member [simp]: "rev (member k f v) = member k f v"
  by (simp add: member_def split: option.split)

lemma request_accepted: "request_ok q \<Longrightarrow> requestSchema (request_json q) = Some (request_json q)"
  by (auto simp: requestSchema_def request_json_def request_ok_def z_strict_def z_member_def field_def member_def
      z_string_def z_unknown_def longer_def not_less Suc_le_eq split: option.splits)

lemma response_accepted: "response_ok q \<Longrightarrow> responseSchema (response_json q) = Some (response_json q)"
  by (auto simp: responseSchema_def response_json_def response_ok_def z_strict_def z_member_def field_def member_def
      z_enum_def z_int_def json_of_number_def z_unknown_def split: option.splits)

lemma error_accepted: "error_ok q \<Longrightarrow> errorSchema (error_json q) = Some (error_json q)"
  by (auto simp: errorSchema_def error_json_def error_ok_def z_strict_def z_member_def field_def member_def
      z_string_def longer_def not_less split: option.splits)

lemma status_accepted: "status_ok q \<Longrightarrow> z_or z_number (z_string 0 100) (status_json q) = Some (status_json q)"
  by (auto simp: status_ok_def status_json_def json_of_number_def z_or_def z_number_def z_string_def
      split: step_status.splits)

lemma step_accepted:
  assumes "step_ok dates k s" "1 \<le> k" "k \<le> 128" "\<forall>t \<in> dates. datetime_ok (iso_instant t)"
  shows "\<exists>d. stepSchema datetime_ok (step_json s) = Some d \<and> (\<forall>f. field f d = field f (step_json s))"
  unfolding stepSchema_def step_json_def
proof (rule z_strict_accepts, goal_cases)
  case 3
  then show ?case
    using assms
    by (auto simp: field_def map_add_def step_ok_def z_int_def z_string_def z_datetime_def z_nonnegative_def
        APP_AUDIT_MAX_STEPS_def longer_def request_accepted response_accepted error_accepted status_accepted
        option.pred_set Suc_le_eq not_less split: option.splits)
qed (auto simp: list_all_iff member_def split: option.splits)

lemma metadata_accepted:
  assumes "k \<noteq> []" "length k \<le> 100"
  shows "metadataSchema (JObj [(''key'', JStr k), (''value'', v)]) = Some (JObj [(''key'', JStr k), (''value'', v)])"
  using assms by (simp add: metadataSchema_def z_strict_def z_member_def field_def z_string_def z_unknown_def Suc_le_eq)

text \<open>
  C14: what the SDK records, the server accepts.  Whatever calls a device makes on a recorder, the ones
  that throw included, a snapshot that does not throw passes the validation of the server (which reads
  dates of the years 1970 to 9999), and every field of every step arrives unchanged.
\<close>

theorem recorded_audit_is_accepted:
  fixes calls :: "audit_call list"
  assumes "new_recorder title = Inr r0" "audit_snapshot (fold run_audit_call calls r0) = Inr j"
    and "\<forall>c \<in> set calls. dates_of c \<subseteq> dates" "\<forall>t \<in> dates. datetime_ok (iso_instant t)"
  defines "r \<equiv> fold run_audit_call calls r0"
  shows "\<exists>d steps. validateDeviceAppAudit datetime_ok j = AuditOk d \<and>
    field ''title'' d = Some (JStr (ad_title r)) \<and> field ''metadata'' d = field ''metadata'' j \<and>
    field ''steps'' d = Some (JArr steps) \<and> length steps = length (ad_steps r) \<and>
    (\<forall>k < length steps. \<forall>f. field f (steps ! k) = field f (step_json (ad_steps r ! k)))"
proof -
  have ok: "recorder_ok dates r"
    unfolding r_def using new_recorder_ok [OF assms(1)] run_audit_calls_ok [OF _ assms(3)] by blast
  have j: "j = audit_json r" "utf8_length (stringify j) \<le> 524288"
    using assms(2) by (auto simp: audit_snapshot_def r_def MAXIMUM_AUDIT_BYTES_def split: if_splits)
  define same where "same = (\<lambda>s d. \<forall>f. field f d = field f (step_json s))"
  have "\<exists>d. stepSchema datetime_ok (step_json s) = Some d \<and> same s d" if "s \<in> set (ad_steps r)" for s
  proof -
    from that obtain k where k: "k < length (ad_steps r)" "s = ad_steps r ! k" by (auto simp: in_set_conv_nth)
    then show ?thesis
      using ok step_accepted [of dates "k + 1" s datetime_ok] assms(4) by (simp add: recorder_ok_def same_def)
  qed
  then obtain steps where steps: "all_some (map (\<lambda>s. stepSchema datetime_ok (step_json s)) (ad_steps r)) = Some steps"
    "list_all2 same (ad_steps r) steps"
    using all_some_exists [of "ad_steps r" "\<lambda>s. stepSchema datetime_ok (step_json s)" same] by blast
  have len: "length steps = length (ad_steps r)" using list_all2_lengthD [OF steps(2)] by simp
  have nth: "same (ad_steps r ! k) (steps ! k)" if "k < length steps" for k
    using list_all2_nthD2 [OF steps(2) that] .
  define ms where "ms = map (\<lambda>(k, v). JObj [(''key'', JStr k), (''value'', v)]) (ad_metadata r)"
  have "map metadataSchema ms = map Some ms"
    using ok by (auto simp: ms_def recorder_ok_def list_all_iff metadata_accepted)
  then have metadata: "z_array 64 metadataSchema (JArr ms) = Some (JArr ms)"
    using ok by (simp add: z_array_def all_some_Some recorder_ok_def ms_def)
  define d where "d = JObj [(''schemaVersion'', JNum 1), (''title'', JStr (ad_title r)), (''metadata'', JArr ms),
      (''steps'', JArr steps)]"
  have "z_array 128 (stepSchema datetime_ok) (JArr (map step_json (ad_steps r))) = Some (JArr steps)"
    using ok steps(1) by (simp add: z_array_def recorder_ok_def comp_def)
  then have schema: "appAuditSchema datetime_ok j = Some d"
    using metadata ok
    by (simp add: appAuditSchema_def j(1) audit_json_def d_def z_strict_def z_member_def field_def z_int_def
        z_string_def recorder_ok_def APP_AUDIT_MAX_METADATA_def APP_AUDIT_MAX_STEPS_def Suc_le_eq ms_def)
  have "field ''sequence'' (steps ! k) = Some (JNum (of_nat (k + 1)))" if "k < length steps" for k
  proof -
    have "sp_sequence (ad_steps r ! k) = k + 1" using ok that len by (simp add: recorder_ok_def step_ok_def)
    moreover have "field ''sequence'' (step_json s) = Some (JNum (of_nat (sp_sequence s)))" for s
      by (simp add: step_json_def field_def map_add_def)
    ultimately show ?thesis using nth [OF that] by (simp add: same_def)
  qed
  then have "wrong_sequence 0 steps = None"
    unfolding wrong_sequence_None by (intro nth_equalityI) simp_all
  then have "validateDeviceAppAudit datetime_ok j = AuditOk d"
    using j(2) schema by (simp add: validateDeviceAppAudit_def APP_AUDIT_MAX_BYTES_def)
      (simp add: d_def field_def array_of_def)
  moreover have "field ''metadata'' d = field ''metadata'' j"
    by (simp add: d_def j(1) audit_json_def field_def ms_def)
  ultimately show ?thesis
    using len nth by (intro exI [of _ d] exI [of _ steps]) (simp add: d_def field_def same_def)
qed

definition hello_step :: step_input where
  "hello_step = \<lparr>si_code = None, si_name = ''hello'', si_request = None, si_startedAt = None\<rparr>"

theorem recorded_audit_is_accepted_witness:
  "\<exists>d. validateDeviceAppAudit (\<lambda>s. s = iso_instant 0)
     (audit_json (fold run_audit_call [StartStep hello_step 0, Succeed 0 None None 30, Succeed 0 None None 40]
        \<lparr>ad_title = ''t'', ad_metadata = [], ad_steps = [], ad_handles = []\<rparr>)) = AuditOk d"
proof -
  let ?r0 = "\<lparr>ad_title = ''t'', ad_metadata = [], ad_steps = [], ad_handles = []\<rparr>"
  let ?calls = "[StartStep hello_step 0, Succeed 0 None None 30, Succeed 0 None None 40]"
  have r0: "new_recorder ''t'' = Inr ?r0"
    by (simp add: new_recorder_def is_blank_def js_trim_def is_js_space_def)
  have run: "fold run_audit_call ?calls ?r0 = \<lparr>ad_title = ''t'', ad_metadata = [], ad_steps =
      [\<lparr>sp_sequence = 1, sp_name = ''hello'', sp_startedAt = iso_instant 0, sp_durationMs = 30, sp_code = None,
        sp_request = None, sp_status = None, sp_response = None, sp_error = None\<rparr>],
      ad_handles = [\<lparr>hd_completed = True, hd_startedAtMilliseconds = 0\<rparr>]\<rparr>"
    by (simp add: run_audit_call_def hello_step_def startStep_def succeed_step_def complete_step_def
        validateRequest_def validateResponse_def validateError_def first_failure.simps is_blank_def js_trim_def
        is_js_space_def longer_def MAXIMUM_STEP_COUNT_def Let_def)
  have "iso_instant 0 = ''1970-01-01T00:00:00.000Z''" by code_simp
  then have "audit_snapshot (fold run_audit_call ?calls ?r0) = Inr (audit_json (fold run_audit_call ?calls ?r0))"
    unfolding run
    by (simp add: audit_snapshot_def audit_json_def step_json_def member_def MAXIMUM_AUDIT_BYTES_def utf8_length_def
        quote_def escape_char_def show_number_def show_int_def show_nat.simps digit_char_def Let_def)
  from recorded_audit_is_accepted [OF r0 this, of "{0}" "\<lambda>s. s = iso_instant 0"]
  show ?thesis by (auto simp: dates_of_def hello_step_def)
qed

end
