(* ===== verification/Sdk_Caller.thy ===== *)
theory Sdk_Caller
  imports Sdk_Types
begin

text \<open>
  \<^verbatim>\<open>sdk/javascript/src/caller.ts\<close>: the HTTP client of a caller.  A method gives the error it
  throws or the request it sends; \<open>fetch\<close> is what the network does with a request.
\<close>

section \<open>Encoding\<close>

definition upper_hex :: "nat \<Rightarrow> char" where
  "upper_hex d = char_of (if d < 10 then 48 + d else 55 + d)"

definition percent :: "nat \<Rightarrow> string" where
  "percent n = [CHR ''%'', upper_hex (n div 16), upper_hex (n mod 16)]"

text \<open>The UTF-8 bytes of a character below 256.\<close>

definition utf8_bytes :: "char \<Rightarrow> nat list" where
  "utf8_bytes c = (let n = (of_char c :: nat) in if n < 128 then [n] else [192 + n div 64, 128 + n mod 64])"

definition percent_encoded :: "(char \<Rightarrow> bool) \<Rightarrow> char \<Rightarrow> string" where
  "percent_encoded kept c = (if kept c then [c] else concat (map percent (utf8_bytes c)))"

definition is_alphanumeric :: "char \<Rightarrow> bool" where
  "is_alphanumeric c \<longleftrightarrow>
     (let n = (of_char c :: nat) in 48 \<le> n \<and> n \<le> 57 \<or> 65 \<le> n \<and> n \<le> 90 \<or> 97 \<le> n \<and> n \<le> 122)"

definition uri_kept :: "char \<Rightarrow> bool" where
  "uri_kept c \<longleftrightarrow> is_alphanumeric c \<or> c \<in> set ''-_.!~*()'' \<or> c = CHR 39"

definition encodeURIComponent :: "string \<Rightarrow> string" where
  "encodeURIComponent s = concat (map (percent_encoded uri_kept) s)"

text \<open>A value in \<^verbatim>\<open>URLSearchParams.toString()\<close>.\<close>

definition form_kept :: "char \<Rightarrow> bool" where
  "form_kept c \<longleftrightarrow> is_alphanumeric c \<or> c \<in> set ''*-._''"

definition form_encode :: "string \<Rightarrow> string" where
  "form_encode s = concat (map (\<lambda>c. if c = CHR '' '' then ''+'' else percent_encoded form_kept c) s)"

section \<open>The caller\<close>

record caller_options =
  co_baseUrl :: string
  co_accessToken :: string
  co_requestTimeoutMilliseconds :: "js_num option"

record caller =
  ca_baseUrl :: string
  ca_accessToken :: string
  ca_requestTimeoutMilliseconds :: js_num

record fetch_call =
  hr_method :: string
  hr_url :: string
  hr_headers :: "(string \<times> string) list"
  hr_body :: "string option"

record call_options =
  cl_clientId :: "string option"
  cl_timeoutSeconds :: "js_num option"
  cl_signal :: "(int \<times> string) option"

text \<open>\<^verbatim>\<open>replace(/\/$/, '')\<close>.\<close>

definition without_slash :: "string \<Rightarrow> string" where
  "without_slash s = (if s \<noteq> [] \<and> last s = CHR ''/'' then butlast s else s)"

definition new_caller :: "caller_options \<Rightarrow> sdk_error + caller" where
  "new_caller opt =
     (if is_blank (co_baseUrl opt) then Inl (JsTypeError (Blank ''baseUrl''))
      else if is_blank (co_accessToken opt) then Inl (JsTypeError (Blank ''accessToken''))
      else let timeout = or_default (Finite 20000) (co_requestTimeoutMilliseconds opt) in
        if js_le timeout (Finite 0) then Inl (JsRangeError (NotPositive ''requestTimeoutMilliseconds''))
        else Inr \<lparr>ca_baseUrl = without_slash (co_baseUrl opt), ca_accessToken = co_accessToken opt,
                  ca_requestTimeoutMilliseconds = timeout\<rparr>)"

definition ensureRequiredValue :: "string \<Rightarrow> string \<Rightarrow> sdk_error option" where
  "ensureRequiredValue name v = (if is_blank v then Some (JsTypeError (Blank name)) else None)"

definition fetch_call_of :: "caller \<Rightarrow> string \<Rightarrow> string \<Rightarrow> json option \<Rightarrow> fetch_call" where
  "fetch_call_of c httpMethod path body =
     \<lparr>hr_method = httpMethod, hr_url = ca_baseUrl c @ path,
      hr_headers = (''authorization'', ''Bearer '' @ ca_accessToken c) #
        (case body of None \<Rightarrow> [] | Some _ \<Rightarrow> [(''content-type'', ''application/json'')]),
      hr_body = map_option stringify body\<rparr>"

definition invoke_path :: "string \<Rightarrow> string \<Rightarrow> string option \<Rightarrow> string" where
  "invoke_path project action clientId =
     ''/rpc/invoke/'' @ encodeURIComponent project @ ''/'' @ encodeURIComponent action @
       (case clientId of None \<Rightarrow> [] | Some c \<Rightarrow> if c = [] then [] else ''?clientId='' @ form_encode c)"

definition caller_invoke :: "caller \<Rightarrow> string \<Rightarrow> string \<Rightarrow> json \<Rightarrow> call_options \<Rightarrow> sdk_error + fetch_call" where
  "caller_invoke c project action payload opt =
     (case ensureRequiredValue ''project'' project of
        Some e \<Rightarrow> Inl e
      | None \<Rightarrow>
          (case ensureRequiredValue ''action'' action of
             Some e \<Rightarrow> Inl e
           | None \<Rightarrow>
               if (case cl_timeoutSeconds opt of
                     None \<Rightarrow> False
                   | Some t \<Rightarrow> (case integer_of t of None \<Rightarrow> True | Some n \<Rightarrow> n < 1))
               then Inl (JsRangeError TimeoutNotInteger)
               else (case Option.bind (cl_clientId opt) (ensureRequiredValue ''clientId'') of
                       Some e \<Rightarrow> Inl e
                     | None \<Rightarrow>
                         Inr (fetch_call_of c ''POST'' (invoke_path project action (cl_clientId opt))
                           (Some (JObj ((''payload'', payload) #
                             (case Option.bind (cl_timeoutSeconds opt) integer_of of
                                None \<Rightarrow> []
                              | Some n \<Rightarrow> [(''timeoutSeconds'', JNum (of_int n))]))))))))"

definition listOnlineDevices :: "caller \<Rightarrow> string \<Rightarrow> sdk_error + fetch_call" where
  "listOnlineDevices c project =
     (case ensureRequiredValue ''project'' project of
        Some e \<Rightarrow> Inl e
      | None \<Rightarrow> Inr (fetch_call_of c ''GET'' (''/rpc/clientQueue?project='' @ encodeURIComponent project) None))"

definition isDeviceOnline :: "caller \<Rightarrow> string \<Rightarrow> string \<Rightarrow> sdk_error + fetch_call" where
  "isDeviceOnline c project clientId =
     (case ensureRequiredValue ''project'' project of
        Some e \<Rightarrow> Inl e
      | None \<Rightarrow>
          (case ensureRequiredValue ''clientId'' clientId of
             Some e \<Rightarrow> Inl e
           | None \<Rightarrow> Inr (fetch_call_of c ''GET''
               (''/rpc/clientQueue?project='' @ encodeURIComponent project @ ''&clientId='' @ encodeURIComponent clientId)
               None)))"

section \<open>Sending\<close>

text \<open>
  The network answers a request in full after so many milliseconds, breaks, or never ends; an aborted
  \<^verbatim>\<open>fetch\<close> rejects with the reason of the signal.
\<close>

datatype fetched = Responds int nat string | Breaks int string | NeverResponds

definition parseResponseBody :: "string \<Rightarrow> (string + json) option" where
  "parseResponseBody responseText =
     (if responseText = [] then None
      else case parse_json responseText of Some j \<Rightarrow> Some (Inr j) | None \<Rightarrow> Some (Inl responseText))"

text \<open>
  The end of a request: the time and what the promise settles with.  The timer of the caller, the signal of
  the application and the network run at the same time; the first of them decides.
\<close>

definition caller_request ::
  "caller \<Rightarrow> fetch_call \<Rightarrow> string \<Rightarrow> (int \<times> string) option \<Rightarrow> fetched \<Rightarrow>
   int \<times> (sdk_error + (string + json) option)" where
  "caller_request c r path externalSignal fetch =
     (let limit = timer_delay (ca_requestTimeoutMilliseconds c);
          (stop, reason) =
            (case externalSignal of
               None \<Rightarrow> (limit, PlainError RequestTimedOut)
             | Some (t, why) \<Rightarrow> if t < limit then (max 0 t, Aborted why) else (limit, PlainError RequestTimedOut)) in
      case fetch of
        Responds ms status responseText \<Rightarrow>
          if ms < stop
          then (ms,
            let responseBody = parseResponseBody responseText in
            if \<not> (200 \<le> status \<and> status \<le> 299)
            then Inl (R2RpcHttpError (RequestFailed (hr_method r) path status) status responseBody)
            else Inr responseBody)
          else (stop, Inl reason)
      | Breaks ms why \<Rightarrow> if ms < stop then (ms, Inl (Aborted why)) else (stop, Inl reason)
      | NeverResponds \<Rightarrow> (stop, Inl reason))"

section \<open>The target of a call\<close>

text \<open>
  How a server reads the path of a request: up to the query, split at the slashes, without the dot
  segments that the client resolves, each segment decoded.
\<close>

fun hex_value :: "char \<Rightarrow> nat" where
  "hex_value c = (let n = (of_char c :: nat) in if n < 58 then n - 48 else n - 55)"

fun decode_bytes :: "string \<Rightarrow> nat list" where
  "decode_bytes (p # a # b # rest) =
     (if p = CHR ''%'' then (16 * hex_value a + hex_value b) # decode_bytes rest
      else of_char p # decode_bytes (a # b # rest))"
| "decode_bytes (c # rest) = of_char c # decode_bytes rest"
| "decode_bytes [] = []"

fun utf8_decode :: "nat list \<Rightarrow> string" where
  "utf8_decode (a # b # rest) =
     (if a < 128 then char_of a # utf8_decode (b # rest) else char_of (64 * (a - 192) + (b - 128)) # utf8_decode rest)"
| "utf8_decode [a] = [char_of a]"
| "utf8_decode [] = []"

definition decodeURIComponent :: "string \<Rightarrow> string" where
  "decodeURIComponent s = utf8_decode (decode_bytes s)"

fun split_slash :: "string \<Rightarrow> string list" where
  "split_slash [] = [[]]"
| "split_slash (c # cs) =
     (if c = CHR ''/'' then [] # split_slash cs
      else case split_slash cs of [] \<Rightarrow> [[c]] | s # ss \<Rightarrow> (c # s) # ss)"

text \<open>A dot segment at the end leaves an empty one.\<close>

fun resolve_dots :: "string list \<Rightarrow> string list \<Rightarrow> string list" where
  "resolve_dots before [] = rev before"
| "resolve_dots before (s # ss) =
     (let before' = (if s = ''..'' then tl before else if s = ''.'' then before else s # before) in
      if ss = [] \<and> s \<in> {''.'', ''..''} then rev ([] # before') else resolve_dots before' ss)"

definition path_segments :: "string \<Rightarrow> string list" where
  "path_segments path =
     map decodeURIComponent (resolve_dots [] (tl (split_slash (takeWhile (\<lambda>c. c \<noteq> CHR ''?'') path))))"

section \<open>Encoding is undone by decoding\<close>

lemma hex_value_upper: "d < 16 \<Longrightarrow> hex_value (upper_hex d) = d"
  by (auto simp: upper_hex_def Let_def)

lemma decode_percent: "n < 256 \<Longrightarrow> decode_bytes (percent n @ rest) = n # decode_bytes rest"
  by (simp add: percent_def hex_value_upper del: hex_value.simps)

lemma decode_plain: "c \<noteq> CHR ''%'' \<Longrightarrow> decode_bytes (c # rest) = of_char c # decode_bytes rest"
  by (cases rest rule: list.exhaust; cases "tl rest" rule: list.exhaust) auto

lemma decode_percents:
  "list_all (\<lambda>n. n < 256) ns \<Longrightarrow> decode_bytes (concat (map percent ns) @ rest) = ns @ decode_bytes rest"
  by (induction ns) (simp_all add: decode_percent)

lemma utf8_bytes_small: "list_all (\<lambda>n. n < 256) (utf8_bytes c)"
proof -
  have "(of_char c :: nat) < 256" by simp
  moreover from this have "(of_char c :: nat) div 64 < 64"
    by (simp only: div_less_iff_less_mult)
  ultimately show ?thesis by (auto simp: utf8_bytes_def Let_def)
qed

lemma kept_bytes: "uri_kept c \<Longrightarrow> utf8_bytes c = [of_char c] \<and> c \<noteq> CHR ''%''"
  by (auto simp: uri_kept_def is_alphanumeric_def utf8_bytes_def Let_def)

lemma decode_encoded: "decode_bytes (encodeURIComponent s) = concat (map utf8_bytes s)"
proof (induction s)
  case (Cons c s)
  then show ?case
    using kept_bytes [of c] decode_percents [OF utf8_bytes_small]
    by (cases "uri_kept c") (simp_all add: encodeURIComponent_def percent_encoded_def decode_plain)
qed (simp add: encodeURIComponent_def)

lemma utf8_decode_bytes: "utf8_decode (utf8_bytes c @ rest) = c # utf8_decode rest"
proof (cases "(of_char c :: nat) < 128")
  case True
  then show ?thesis by (cases rest) (simp_all add: utf8_bytes_def)
next
  case False
  define n where "n = (of_char c :: nat)"
  have n: "128 \<le> n" "n < 256" "c = char_of n" using False by (simp_all add: n_def)
  then have "n div 64 \<le> 3" by (simp add: div_le_mono flip: less_eq_Suc_le)
  have "64 * (n div 64) + n mod 64 = n" by simp
  then show ?thesis using n by (simp add: utf8_bytes_def Let_def flip: n_def)
qed

lemma decode_encode: "decodeURIComponent (encodeURIComponent s) = s"
proof -
  have "utf8_decode (concat (map utf8_bytes s)) = s"
    by (induction s) (simp_all add: utf8_decode_bytes)
  then show ?thesis by (simp add: decodeURIComponent_def decode_encoded)
qed

lemma upper_hex_plain: "d < 16 \<Longrightarrow> upper_hex d \<noteq> CHR ''/'' \<and> upper_hex d \<noteq> CHR ''?''"
  by (auto simp: upper_hex_def char_of_eq_iff take_bit_eq_mod)

lemma encoded_plain: "c \<in> set (encodeURIComponent s) \<Longrightarrow> c \<noteq> CHR ''/'' \<and> c \<noteq> CHR ''?''"
proof -
  have percents: "c \<noteq> CHR ''/'' \<and> c \<noteq> CHR ''?''" if "c \<in> set (percent n)" "n < 256" for n
    using that upper_hex_plain [of "n div 16"] upper_hex_plain [of "n mod 16"]
    by (auto simp: percent_def div_less_iff_less_mult)
  have one: "c \<noteq> CHR ''/'' \<and> c \<noteq> CHR ''?''" if "c \<in> set (percent_encoded uri_kept d)" for d
    using that percents utf8_bytes_small [of d]
    by (auto simp: percent_encoded_def uri_kept_def is_alphanumeric_def list_all_iff split: if_splits)
  assume "c \<in> set (encodeURIComponent s)"
  then show ?thesis using one by (auto simp: encodeURIComponent_def)
qed

lemma split_slash_plain:
  assumes "CHR ''/'' \<notin> set s"
  shows "split_slash s = [s]" "split_slash (s @ CHR ''/'' # rest) = s # split_slash rest"
  using assms by (induction s) auto

lemma encode_dots: "encodeURIComponent s = ''.'' \<longleftrightarrow> s = ''.''" "encodeURIComponent s = ''..'' \<longleftrightarrow> s = ''..''"
proof -
  have "encodeURIComponent ''.'' = ''.''" "encodeURIComponent ''..'' = ''..''"
    by (simp_all add: encodeURIComponent_def percent_encoded_def uri_kept_def is_alphanumeric_def)
  then show "encodeURIComponent s = ''.'' \<longleftrightarrow> s = ''.''" "encodeURIComponent s = ''..'' \<longleftrightarrow> s = ''..''"
    by (metis decode_encode)+
qed

section \<open>Properties\<close>

lemma invoke_path_segments:
  "path_segments (invoke_path project action clientId) =
     map decodeURIComponent (resolve_dots [] [''rpc'', ''invoke'', encodeURIComponent project, encodeURIComponent action])"
proof -
  have plain: "CHR ''/'' \<notin> set (encodeURIComponent s)" "CHR ''?'' \<notin> set (encodeURIComponent s)" for s
    using encoded_plain [of _ s] by blast+
  define a where "a = ''/rpc/invoke/'' @ encodeURIComponent project @ CHR ''/'' # encodeURIComponent action"
  have "takeWhile (\<lambda>c. c \<noteq> CHR ''?'') (invoke_path project action clientId) = a"
  proof -
    have "\<forall>c \<in> set a. c \<noteq> CHR ''?''" using plain by (auto simp: a_def)
    then have "takeWhile (\<lambda>c. c \<noteq> CHR ''?'') (a @ rest) = a @ takeWhile (\<lambda>c. c \<noteq> CHR ''?'') rest" for rest
      by (simp add: takeWhile_append2)
    moreover have "invoke_path project action clientId =
        a @ (case clientId of None \<Rightarrow> [] | Some c \<Rightarrow> if c = [] then [] else ''?clientId='' @ form_encode c)"
      by (simp add: invoke_path_def a_def)
    ultimately show ?thesis by (simp split: option.split)
  qed
  moreover have "split_slash a = [[], ''rpc'', ''invoke'', encodeURIComponent project, encodeURIComponent action]"
    using plain by (simp add: a_def split_slash_plain)
  ultimately show ?thesis by (simp add: path_segments_def)
qed


definition phone_caller :: caller where
  "phone_caller = \<lparr>ca_baseUrl = ''http://h'', ca_accessToken = ''rk_a'', ca_requestTimeoutMilliseconds = Finite 20000\<rparr>"


text \<open>
  every request ends, and by the caller's own timer at the latest.  It ends with a body only when the
  network answered with a status from 200 to 299 before the timer and before the signal of the application.
  The timer does not follow the timeout of the call: a caller with default options has given up, after 20
  seconds, on every call whose timeout is 20 seconds or longer, before the server answers that it ran out.
\<close>

theorem request_ends_by_the_timer:
  fixes q :: fetch_call and path :: string and externalSignal :: "(int \<times> string) option"
  assumes "new_caller options = Inr c" "\<forall>ms status body. fetch = Responds ms status body \<longrightarrow> 0 \<le> ms"
    and "\<forall>ms why. fetch = Breaks ms why \<longrightarrow> 0 \<le> ms"
  defines "x \<equiv> caller_request c q path externalSignal fetch" and "limit \<equiv> timer_delay (ca_requestTimeoutMilliseconds c)"
  shows "0 \<le> fst x \<and> fst x \<le> limit \<and>
    (\<forall>body. snd x = Inr body \<longleftrightarrow> (\<exists>ms status text. fetch = Responds ms status text \<and> ms < limit \<and>
       (\<forall>t why. externalSignal = Some (t, why) \<longrightarrow> ms < t) \<and> 200 \<le> status \<and> status \<le> 299 \<and>
       body = parseResponseBody text)) \<and>
    (co_requestTimeoutMilliseconds options = None \<longrightarrow> (\<forall>s ms status text. 20 \<le> s \<longrightarrow> s * 1000 \<le> ms \<longrightarrow>
       fetch = Responds ms status text \<longrightarrow> externalSignal = None \<longrightarrow> x = (20000, Inl (PlainError RequestTimedOut))))"
proof -
  have limit: "1 \<le> limit" using timer_delay_bounds by (simp add: limit_def)
  have default: "limit = 20000" if "co_requestTimeoutMilliseconds options = None"
    using assms(1) that by (auto simp: new_caller_def limit_def or_default_def timer_delay_def Let_def split: if_splits)
  show ?thesis
    using limit default assms(2,3)
    by (cases fetch; cases externalSignal)
      (auto simp: x_def caller_request_def Let_def simp flip: limit_def split: prod.splits)
qed

theorem request_ends_by_the_timer_witness:
  "caller_request phone_caller (fetch_call_of phone_caller ''GET'' [] None) [] None (Responds 25000 200 []) =
     (20000, Inl (PlainError RequestTimedOut))"
proof -
  have "new_caller \<lparr>co_baseUrl = ''http://h/'', co_accessToken = ''rk_a'', co_requestTimeoutMilliseconds = None\<rparr> = Inr phone_caller"
    by (simp add: new_caller_def is_blank_def js_trim_def is_js_space_def or_default_def without_slash_def phone_caller_def)
  from request_ends_by_the_timer [OF this, of "Responds 25000 200 []" "fetch_call_of phone_caller ''GET'' [] None" "[]" None]
  show ?thesis by auto
qed

end
