(* ===== verification/Sdk_End_To_End.thy ===== *)
theory Sdk_End_To_End
  imports Sdk_Device_Runs Session_Isolation
begin

text \<open>
  The device of the SDK and the gateway of the server together: the URL the device opens is one the
  gateway accepts, its welcome brings the device online, and what a handler returns is what the caller
  of the RPC is answered.
\<close>

section \<open>The URL of the device\<close>

lemma params_set_lookup: "map_of (params_set k v ps) = (map_of ps)(k \<mapsto> v)"
proof (induction ps)
  case (Cons p ps)
  have "map_of (filter (\<lambda>q. fst q \<noteq> k) ps) x = (if x = k then None else map_of ps x)" for x
    by (induction ps) auto
  then show ?case using Cons by (cases p) (auto simp: fun_eq_iff)
qed simp

text \<open>What no event changes: the capacity and the URLs of the sockets.\<close>

definition addressed :: "options \<Rightarrow> int \<Rightarrow> device \<Rightarrow> bool" where
  "addressed opt maximum d \<longleftrightarrow> dv_maximumInFlight d = maximum \<and>
     (\<forall>s \<in> set (dv_sockets d). buildWebSocketUrl opt (idle_device maximum) = Some (ws_url s))"

lemma url_of_capacity:
  "dv_maximumInFlight d = maximum \<Longrightarrow> buildWebSocketUrl opt d = buildWebSocketUrl opt (idle_device maximum)"
  by (simp add: buildWebSocketUrl_def idle_device_def)

lemma addressed_update:
  assumes "addressed opt n d" "\<And>s. ws_url (f s) = ws_url s"
  shows "addressed opt n (update_socket k f d)"
  using assms by (auto simp: addressed_def update_socket_def dest!: set_update_subset_insert [THEN subsetD])

lemma addressed_same:
  assumes "dv_maximumInFlight d' = dv_maximumInFlight d" "dv_sockets d' = dv_sockets d"
  shows "addressed opt n d' \<longleftrightarrow> addressed opt n d"
  using assms by (simp add: addressed_def)

lemma addressed_simps [simp]:
  "addressed opt n (reportError e d) = addressed opt n d"
  "addressed opt n (clear_interval t d) = addressed opt n d"
  "addressed opt n (clear_timeout t d) = addressed opt n d"
  "addressed opt n (clearTimers d) = addressed opt n d"
  "addressed opt n (device_startHeartbeat opt' d) = addressed opt n d"
  "addressed opt n (d\<lparr>dv_running := r\<rparr>) = addressed opt n d"
  "addressed opt n (d\<lparr>dv_shouldRun := b\<rparr>) = addressed opt n d"
  "addressed opt n (d\<lparr>dv_reconnectAttempt := k\<rparr>) = addressed opt n d"
  "addressed opt n (d\<lparr>dv_webSocket := w\<rparr>) = addressed opt n d"
  "addressed opt n (d\<lparr>dv_heartbeatTimer := t\<rparr>) = addressed opt n d"
  by (simp_all add: addressed_def reportError_def clear_interval_def clear_timeout_def clearTimers_def
      device_startHeartbeat_def Let_def)

lemma addressed_send: "addressed opt n d \<Longrightarrow> addressed opt n (device_send m t d)"
  by (simp add: device_send_def addressed_update split: option.split)

lemma addressed_event:
  assumes "unobtrusive opt" "addressed opt n d"
  shows "addressed opt n (on_device_event opt e d)"
proof -
  have state: "addressed opt n (set_state opt s d') = addressed opt n d'" for s d'
    by (simp add: set_state_unobtrusive [OF assms(1)] addressed_def)
  have close: "addressed opt n (close_current code reason d')" if "addressed opt n d'" for code reason d'
    using that by (simp add: close_current_def addressed_update split: option.split)
  have connect: "addressed opt n (snd (openConnection opt s d'))" if "addressed opt n d'" for s d'
  proof -
    have "dv_maximumInFlight (set_state opt s d') = n"
      using that by (simp add: addressed_def set_state_unobtrusive [OF assms(1)])
    note url = url_of_capacity [OF this, of opt]
    show ?thesis
      using that state [of s d']
      by (cases "buildWebSocketUrl opt (idle_device n)")
        (auto simp: openConnection_def Let_def url addressed_def)
  qed
  have job: "addressed opt n (handleJob opt k j now d')" if "addressed opt n d'" for k j now d'
    using that by (simp add: handleJob_def sendResult_def addressed_send split: option.split prod.split)
  have again: "addressed opt n (scheduleReconnect opt d')" if "addressed opt n d'" for d'
    using that by (simp add: scheduleReconnect_def Let_def state addressed_def [of _ _ "_\<lparr>dv_timeouts := _\<rparr>"])
      (simp add: addressed_def set_state_unobtrusive [OF assms(1)])
  show ?thesis
  proof (cases e)
    case (Receives k body now)
    then show ?thesis using assms(2)
      by (auto simp: on_device_event_def handleMessage_def handleWelcome_def state close job split: option.split)
  next
    case (JobSettles k)
    then show ?thesis using assms(2)
      by (simp add: on_device_event_def job_settles_def sendResult_def Let_def addressed_send)
  qed (use assms(2) in \<open>simp_all add: on_device_event_def start_device_def stop_device_def handleClose_def Let_def
      addressed_update addressed_send state close connect again\<close>)
qed

lemma addressed_run:
  assumes "device_run opt d es d'" "unobtrusive opt" "addressed opt n d"
  shows "addressed opt n d'"
  using assms by (induction rule: device_run.induct) (auto intro: addressed_event)

lemma show_int_capacity:
  assumes "1 \<le> n" "n \<le> 1024"
  shows "clampMaxInFlight (Some (JStr (show_int n))) = n"
proof -
  obtain m where m: "n = int m" "m \<le> 1024" using assms by (metis nat_0_le nat_le_iff of_nat_numeral order_trans zero_le_one)
  have "integer_of (to_number (JStr (show_int (int m)))) = Some (int m)"
    using string_to_number_show_nat [of m] m(2) by (simp add: to_number_def show_int_def)
  then show ?thesis
    using assms m by (simp add: clampMaxInFlight_def MINIMUM_IN_FLIGHT_CAPACITY_def MAXIMUM_IN_FLIGHT_CAPACITY_def
        show_int_def show_nat_nonempty)
qed

lemma url_parameters:
  assumes "buildWebSocketUrl opt d = Some u"
  shows "map_of (wu_searchParams u) ''token'' = Some (op_deviceToken opt)"
    "map_of (wu_searchParams u) ''clientId'' = Some (op_clientId opt)"
    "map_of (wu_searchParams u) ''maxInFlight'' = Some (show_int (dv_maximumInFlight d))"
  using assms
  by (auto simp: buildWebSocketUrl_def params_set_lookup Let_def split: option.splits if_splits)

lemma device_authenticates:
  assumes "new_sdk_device opt = Inr d0" "device_run opt d0 es d" "unobtrusive opt" "m < length (dv_sockets d)"
    and "wr_searchParams r = Some (wu_searchParams (ws_url (dv_sockets d ! m)))"
    and "fst (validateForConnect E (op_deviceToken opt) w) = Inr (Some (i, ids))"
  obtains c where "fst (authenticate E hops r w) = Inr (Some c)" "dc_clientId c = op_clientId opt"
    "dc_projectIds c = map nat ids" "dc_deviceTokenId c = nat i" "dc_maxInFlight c = dv_maximumInFlight d"
proof -
  obtain n where n: "d0 = idle_device n" "1 \<le> n" "n \<le> 1024" using new_sdk_device_ok [OF assms(1)] .
  have "addressed opt n d"
    using addressed_run [OF assms(2,3), of n] n(1) by (simp add: addressed_def idle_device_def)
  then have "dv_maximumInFlight d = n"
    and url: "buildWebSocketUrl opt (idle_device n) = Some (ws_url (dv_sockets d ! m))"
    using assms(4) by (simp_all add: addressed_def)
  have ne: "op_deviceToken opt \<noteq> []" "op_clientId opt \<noteq> []"
  proof -
    have "is_blank []" by (simp add: is_blank_def js_trim_def)
    then show "op_deviceToken opt \<noteq> []" "op_clientId opt \<noteq> []"
      using assms(1) by (auto simp: new_sdk_device_def Let_def split: option.splits if_splits)
  qed
  define ps where "ps = wu_searchParams (ws_url (dv_sockets d ! m))"
  have look: "map_of ps ''token'' = Some (op_deviceToken opt)" "map_of ps ''clientId'' = Some (op_clientId opt)"
    "map_of ps ''maxInFlight'' = Some (show_int n)"
    using url_parameters [OF url] by (simp_all add: ps_def idle_device_def)
  have "\<exists>c. fst (authenticate E hops r w) = Inr (Some c) \<and> dc_clientId c = op_clientId opt \<and>
      dc_projectIds c = map nat ids \<and> dc_deviceTokenId c = nat i \<and> dc_maxInFlight c = n"
  proof -
    obtain w' where v: "validateForConnect E (op_deviceToken opt) w = (Inr (Some (i, ids)), w')"
      using assms(6) by (cases "validateForConnect E (op_deviceToken opt) w") auto
    have r: "wr_searchParams r = Some ps" using assms(5) by (simp add: ps_def)
    have some: "nonempty (map_of ps ''token'') = Some (op_deviceToken opt)"
      "nonempty (map_of ps ''clientId'') = Some (op_clientId opt)"
      using ne by (simp_all add: look nonempty_def)
    have capacity: "clampMaxInFlight (Some (null_or_string (map_of ps ''maxInFlight''))) = n"
      using show_int_capacity [OF n(2,3)] by (simp add: look null_or_string_def)
    show ?thesis
      by (simp add: authenticate_def r some capacity Let_def bindM_def catchM_def v returnM_def)
  qed
  then obtain c where "fst (authenticate E hops r w) = Inr (Some c)" "dc_clientId c = op_clientId opt"
      "dc_projectIds c = map nat ids" "dc_deviceTokenId c = nat i" "dc_maxInFlight c = n"
    by (elim exE conjE)
  then show thesis using \<open>dv_maximumInFlight d = n\<close> by (intro that) simp_all
qed

section \<open>The handshake\<close>

lemma welcome_back:
  fixes now :: int
  assumes "dv_webSocket d = Some m" "dc_clientId c = op_clientId opt" "\<forall>p \<in> set (dc_projectIds c). p < 2 ^ 53"
    and "1 \<le> dc_maxInFlight c" "dc_maxInFlight c \<le> 1024" "unobtrusive opt"
  defines "d' \<equiv> on_device_event opt (Receives m (stringify (welcome_json c)) now) d"
  shows "dv_state d' = Online" "dv_reconnectAttempt d' = 0" "dv_intervals d' \<noteq> []" "dv_sockets d' = dv_sockets d"
proof -
  have "of_nat p < (9007199254740992 :: rat)" if "p \<in> set (dc_projectIds c)" for p
  proof -
    have "(of_nat p :: rat) < of_nat (2 ^ 53)" using assms(3) that by (simp only: of_nat_less_iff)
    then show ?thesis by simp
  qed
  moreover have "of_int (dc_maxInFlight c) < (9007199254740992 :: rat)" "0 \<le> (of_int (dc_maxInFlight c) :: rat)"
    using assms(4,5) by linarith+
  ultimately have "json_ok (welcome_json c)"
    by (auto simp: welcome_json_def)
  from parse_stringify [OF this] have "device_parseMessage (stringify (welcome_json c)) = Some (welcome_json c)"
    by (simp add: device_parseMessage_def welcome_json_def)
  then have "d' = device_startHeartbeat opt (set_state opt Online (d\<lparr>dv_reconnectAttempt := 0\<rparr>))"
    using assms(1,2) by (simp add: d'_def on_device_event_def handleMessage_def handleWelcome_def welcome_json_def field_def)
  then show "dv_state d' = Online" "dv_reconnectAttempt d' = 0" "dv_intervals d' \<noteq> []" "dv_sockets d' = dv_sockets d"
    by (simp_all add: device_startHeartbeat_def clear_interval_def Let_def set_state_unobtrusive [OF assms(6)])
qed

text \<open>
  C10: device and server agree.  When the server is given the query of the URL that the device opened, and
  the token is valid, the connection is accepted; the text of the welcome the server sends brings the
  device online and ends its row of reconnections; and routing then sees the device in every group of its token,
  with the capacity it was configured with.
\<close>

theorem device_and_server_agree:
  fixes W :: "'w inst" and now :: int and hops :: nat
  assumes "services E view" "healthy (view (ext W))" "sk_readyState (socket_of W n) = 1"
    and "new_sdk_device opt = Inr d0" "device_run opt d0 es d" "unobtrusive opt" "dv_webSocket d = Some m"
    and "wr_searchParams r = Some (wu_searchParams (ws_url (dv_sockets d ! m)))"
    and "fst (validateForConnect E (op_deviceToken opt) (ext W)) = Inr (Some (i, ids))" "\<forall>p \<in> set ids. p < 2 ^ 53"
  defines "W' \<equiv> snd (handleConnection E hops n r W)"
  defines "d' \<equiv> on_device_event opt (Receives m (stringify (last (sk_sent (socket_of (snd (handleConnection E hops n r W)) n)))) now) d"
  shows "dv_state d' = Online \<and> dv_reconnectAttempt d' = 0 \<and> dv_intervals d' \<noteq> [] \<and>
    (\<forall>p \<in> set ids. op_clientId opt \<in> set (projr (fst (listOnline E (nat p) (ext W'))))) \<and>
    fst (getMaxInFlight E (op_clientId opt) (ext W')) = Inr (dv_maximumInFlight d)"
proof -
  have "device_ok opt d"
    using new_sdk_device_ok [OF assms(4)] device_run_ok [OF assms(5,6)] idle_device_ok by metis
  then have m: "m < length (dv_sockets d)" using assms(7) by (auto simp: device_ok_def)
  obtain c where c: "fst (authenticate E hops r (ext W)) = Inr (Some c)" "dc_clientId c = op_clientId opt"
    "dc_projectIds c = map nat ids" "dc_maxInFlight c = dv_maximumInFlight d"
    by (rule device_authenticates [OF assms(4-6) m assms(8,9)])
  note run = services.handleConnection_run [OF assms(1-3) c(1), folded W'_def]
  note cap = authenticated_capacity [OF c(1)]
  have frame: "last (sk_sent (socket_of (snd (handleConnection E hops n r W)) n)) = welcome_json c"
    using run(6) by (simp add: W'_def)
  have small: "\<forall>p \<in> set (dc_projectIds c). p < 2 ^ 53" using assms(10) by (auto simp: c(3) nat_less_iff)
  note online = welcome_back [OF assms(7) c(2) small cap(1,2) assms(6), of now]
  show ?thesis
    unfolding d'_def frame
    using online services.session_listed [OF assms(1) run(1)] services.session_capacity [OF assms(1) run(1) cap(1,2)]
    by (simp add: c)
qed

theorem device_and_server_agree_witness:
  "dv_state (on_device_event phone_options (Receives 0 (stringify (last (sk_sent (socket_of (snd (handleConnection
     sim_env 0 1 (phone_request\<lparr>wr_searchParams := Some (wu_searchParams (ws_url (dv_sockets phone_open ! 0)))\<rparr>) gateway)) 1)))) 7)
     phone_open) = Online"
proof -
  have "op_deviceToken phone_options = ''dk_a''" by (simp add: phone_options_def)
  then have valid: "fst (validateForConnect sim_env (op_deviceToken phone_options) (ext gateway)) = Inr (Some (4, [3]))"
    using phone_token_valid by simp
  show ?thesis
    by (rule conjunct1 [OF device_and_server_agree
          [OF sim_services _ _ phone_new phone_open_run phone_options_sel(1) phone_open_sel(1) _ valid]])
      (simp_all add: closed_socket_def)
qed

section \<open>The way of a call\<close>

context services
begin

text \<open>A job that was sent to a local session: the waiter is marked and nothing else is touched.\<close>

lemma sent_to_session:
  fixes W :: "'w inst"
  assumes "holds_session view W n c" "CHR '':'' \<notin> set (instance_id W)"
    and "fst (rpc_dispatchJob E input j i (dc_clientId c) t ms W) = Inr None"
  defines "W' \<equiv> snd (rpc_dispatchJob E input j i (dc_clientId c) t ms W)"
  shows "healthy (view (ext W'))" "instance_id W' = instance_id W"
    "strs (view (ext W')) = (strs (view (ext W)))(waiter_key i := Some (instance_id W))"
    "waiters W' = waiters W" "settled W' = settled W"
    "sk_sent (socket_of W' n) = sk_sent (socket_of W n) @ [job_json j]"
proof -
  obtain u where u: "strs (view (ext W)) (session_key (dc_clientId c)) = Some (instance_id W @ CHR '':'' # u)"
    "healthy (view (ext W))" "map_of (sockets W) (dc_clientId c) = Some n"
    using assms(1) by (auto simp: holds_session_def)
  have me: "before_colon (instance_id W @ CHR '':'' # u) = instance_id W"
    using assms(2) by (simp add: before_colon_def takeWhile_append)
  have keys: "session_key x \<noteq> waiter_key y" for x y by (simp add: session_key_def waiter_key_def)
  define w1 where "w1 = snd (redis_set_ttl E (waiter_key i) (instance_id W) (nat (ms + 5000)) (ext W))"
  have w1: "view w1 = put_str (waiter_key i) (instance_id W) (Some (nat (ms + 5000))) (view (ext W))"
    "healthy (view w1)" using u(2) by (simp_all add: w1_def)
  have mark: "markWaiting E i ms W = (Inr (), W\<lparr>ext := w1\<rparr>)"
    using u(2) run_set_ttl(1) [OF u(2), of "waiter_key i" "instance_id W" "nat (ms + 5000)"]
    by (simp add: markWaiting_def bindM_def gets_def lift_def w1_def)
  define w2 where "w2 = snd (redis_get E (session_key (dc_clientId c)) w1)"
  have g: "fst (redis_get E (session_key (dc_clientId c)) w1) = Inr (Some (instance_id W @ CHR '':'' # u))"
    "view w2 = view w1" using w1 u(1) keys by (simp_all add: w2_def)
  have dispatch: "dispatchJob E (dc_clientId c) j (W\<lparr>ext := w1\<rparr>) = deliverLocalJob E (dc_clientId c) j (W\<lparr>ext := w2\<rparr>)"
    using g(1) me by (simp add: dispatchJob_def bindM_def lift_def gets_def w2_def)
  have sent: "deliverLocalJob E (dc_clientId c) j (W\<lparr>ext := w2\<rparr>) = (Inr True, send_socket n (job_json j) (W\<lparr>ext := w2\<rparr>))"
    using assms(3) u(3)
    by (auto simp: rpc_dispatchJob_def bindM_def thenM_def catchM_def mark dispatch deliverLocalJob_def
        split: if_splits)
  have "W' = send_socket n (job_json j) (W\<lparr>ext := w2\<rparr>)"
    by (simp add: W'_def rpc_dispatchJob_def bindM_def thenM_def catchM_def mark dispatch sent)
  then show "healthy (view (ext W'))" "instance_id W' = instance_id W"
    "strs (view (ext W')) = (strs (view (ext W)))(waiter_key i := Some (instance_id W))"
    "waiters W' = waiters W" "settled W' = settled W"
    "sk_sent (socket_of W' n) = sk_sent (socket_of W n) @ [job_json j]"
    using g(2) w1 by (simp_all add: send_socket_def)
qed

text \<open>The result of the device the call waits for settles the call.\<close>

lemma awaited_result:
  fixes W :: "'w inst" and input :: invoke_params and secs t ms :: int
  assumes "holds_session view W n c" "CHR '':'' \<notin> set (instance_id W)" "instance_id W \<noteq> []"
    and "strs (view (ext W)) (completed_key i) = None" "said \<noteq> JNull"
  defines "j \<equiv> \<lparr>job_requestId = i, job_project = iv_project input, job_action = iv_action input,
      job_payload = iv_payload input, job_timeoutSeconds = secs, job_deadlineAt = Some (t + ms)\<rparr>"
  assumes "fst (rpc_dispatchJob E input j i (dc_clientId c) t ms (registerWaiter i (dc_clientId c) ms W)) = Inr None"
  obtains l where "fst (dispatchAndAwaitResult E ok u [DeviceSaid i (dc_clientId c) said] input i (dc_clientId c) t secs ms W) =
    Inr (Answered (answer i (dc_clientId c) l (device_result_of u said)))"
proof -
  define W1 where "W1 = registerWaiter i (dc_clientId c) ms W"
  have s1: "holds_session view W1 n c" "instance_id W1 = instance_id W" "view (ext W1) = view (ext W)"
    "map_of (waiters W1) i = Some \<lparr>wt_clientId = dc_clientId c, wt_timeoutMs = ms\<rparr>"
    using assms(1) by (simp_all add: W1_def registerWaiter_def holds_session_def update_conv')
  have ne: "CHR '':'' \<notin> set (instance_id W1)" using assms(2) s1(2) by simp
  define W2 where "W2 = snd (rpc_dispatchJob E input j i (dc_clientId c) t ms W1)"
  note sent = sent_to_session [OF s1(1) ne assms(7) [folded W1_def], folded W2_def]
  have keys: "completed_key x \<noteq> waiter_key y" for x y by (simp add: completed_key_def waiter_key_def)
  have "result_outcome (view (ext W2)) W2 i (dc_clientId c) = OutOk"
    using assms(3,4) s1 sent keys by (simp add: result_outcome_def expected_from_def)
  note res = handleResult_run [OF sent(1), of i "dc_clientId c" said, unfolded this]
  define W3 where "W3 = snd (handleResult E i (dc_clientId c) said W2)"
  have none: "map_of (waiters W3) i = None" and settled: "settled W3 = settled W2 @ [(i, Resolved said)]"
    using res(3,4) by (simp_all add: W3_def)
  have wait: "await_result E i [DeviceSaid i (dc_clientId c) said] W2 = (Inr (Some (Resolved said)), W3)"
    using none settled by (simp add: await_result_def run_event_def Let_def waiter_timeout_def flip: W3_def)
  have "dispatchAndAwaitResult E ok u [DeviceSaid i (dc_clientId c) said] input i (dc_clientId c) t secs ms W =
      bindM (success E ok input i (dc_clientId c) t (device_result_of u said)) (\<lambda>r. returnM (Answered r)) W3"
    using assms(5,7) wait
    by (simp add: dispatchAndAwaitResult_def Let_def thenM_def bindM_def modify_def flip: W1_def j_def W2_def)
  then show thesis by (intro that) (simp add: bindM_def)
qed

end

lemma result_json_parts:
  "field ''requestId'' (result_json opt job r) = Some (JStr (rj_requestId job))"
  "field ''type'' (result_json opt job r) = Some (JStr ''result'')"
  "field ''status'' (result_json opt job r) =
     Some (JStr (or_default (if ar_isOk r = Some False then ''error'' else ''ok'') (ar_status r)))"
  "field ''is_ok'' (result_json opt job r) = Some (JBool (or_default True (ar_isOk r)))"
  "field ''httpCode'' (result_json opt job r) =
     Some (JNum (of_int (or_default (if ar_isOk r = Some False then 500 else 200) (ar_httpCode r))))"
  "field ''payload'' (result_json opt job r) = ar_payload r"
  "field ''error'' (result_json opt job r) = map_option JStr (ar_error r)"
  "field ''appAudit'' (result_json opt job r) = ar_appAudit r"
  "result_json opt job r \<noteq> JNull"
  by (simp_all add: result_json_def field_def split: option.split)

lemma result_json_ok:
  assumes "pred_option json_ok (ar_payload r)" "pred_option json_ok (ar_appAudit r)" "pred_option small_int (ar_httpCode r)"
  shows "json_ok (result_json opt job r)"
  using assms by (cases "ar_payload r"; cases "ar_appAudit r"; cases "ar_httpCode r"; cases "ar_error r")
    (auto simp: result_json_def or_default_def small_int_def)

lemma device_result_back:
  assumes "pred_option small_int (ar_httpCode r)"
  shows "device_result_of u (result_json opt job r) =
    \<lparr>dr_status = Some (or_default (if ar_isOk r = Some False then ''error'' else ''ok'') (ar_status r)),
     dr_is_ok = Some (or_default True (ar_isOk r)),
     dr_httpCode = Some (or_default (if ar_isOk r = Some False then 500 else 200) (ar_httpCode r)),
     dr_payload = ar_payload r, dr_error = ar_error r, dr_appAudit = ar_appAudit r\<rparr>"
proof -
  have "small_int (or_default (if ar_isOk r = Some False then 500 else 200) (ar_httpCode r))"
    using assms by (auto simp: or_default_def small_int_def split: option.splits)
  from int_of_json_int [OF this] show ?thesis
    by (auto simp: device_result_of_def result_json_parts typed_field_def text_of_json_def bool_of_json_def
        split: option.split)
qed

lemma handler_heard:
  assumes "rj_timeoutSeconds job = of_int s" "rj_deadlineAt job = Some (JNum (of_int D))"
    and "h job = Returns ms r" "0 \<le> ms" "ms < s * 1000" "ms < D - now" "min (s * 1000) (D - now) \<le> 2147483647"
  shows "executeWithTimeout opt job h now = (now + ms, Inr r)"
proof -
  have "max 1 (of_int s * 1000 :: rat) = of_int (s * 1000)" using assms(4,5) by (simp add: max_def)
  then have "resolveTimeoutMilliseconds job now = Finite (of_int (max 1 (min (s * 1000) (D - now))))"
    by (simp add: resolveTimeoutMilliseconds_def assms(1,2) to_number_def js_minus_def of_int_max of_int_min)
  moreover have "ms < timer_delay (Finite (of_int (max 1 (min (s * 1000) (D - now)))))"
    using assms(4-7) by (auto simp: timer_delay_def)
  ultimately show ?thesis using assms(3,4) by (simp add: executeWithTimeout_def Let_def)
qed

text \<open>The device answers a job with the text of its result.\<close>

lemma job_read:
  assumes "json_ok (job_payload j)" "\<bar>job_timeoutSeconds j\<bar> < 2 ^ 53" "job_deadlineAt j = Some D" "\<bar>D\<bar> < 2 ^ 53"
  shows "device_parseMessage (stringify (job_json j)) = Some (job_json j)"
    and "rpc_job_of (job_json j) = Some \<lparr>rj_requestId = job_requestId j, rj_project = job_project j,
      rj_action = job_action j, rj_payload = Some (job_payload j), rj_timeoutSeconds = of_int (job_timeoutSeconds j),
      rj_deadlineAt = Some (JNum (of_int D))\<rparr>"
proof -
  have small: "\<bar>of_int x :: rat\<bar> < 2 ^ 53" if "\<bar>x\<bar> < 2 ^ 53" for x :: int
  proof -
    have "(of_int \<bar>x\<bar> :: rat) < of_int (2 ^ 53)" using that by (simp only: of_int_less_iff)
    then show ?thesis by simp
  qed
  have "json_ok (job_json j)" using assms small by (auto simp: job_json_def)
  from parse_stringify [OF this] show "device_parseMessage (stringify (job_json j)) = Some (job_json j)"
    by (simp add: device_parseMessage_def job_json_def)
  show "rpc_job_of (job_json j) = Some \<lparr>rj_requestId = job_requestId j, rj_project = job_project j,
      rj_action = job_action j, rj_payload = Some (job_payload j), rj_timeoutSeconds = of_int (job_timeoutSeconds j),
      rj_deadlineAt = Some (JNum (of_int D))\<rparr>"
    by (simp add: rpc_job_of_def job_json_def field_def assms(3))
qed

lemma device_answers:
  assumes "dv_webSocket d = Some m" "m < length (dv_sockets d)" "ws_readyState (dv_sockets d ! m) = 1"
    and "device_parseMessage text = Some msg" "rpc_job_of msg = Some job" "dv_actionHandlers d (rj_action job) = Some h"
    and "\<not> job_expired job now" "executeWithTimeout opt job h now = (due, Inr r)"
  shows "ws_sent (dv_sockets (job_settles opt (length (dv_running d)) (handleMessage opt m text now d)) ! m) =
    ws_sent (dv_sockets d ! m) @ [stringify (result_json opt job r)]"
proof -
  have "field ''type'' msg = Some (JStr ''job'')"
    using assms(5) by (auto simp: rpc_job_of_def split: option.splits json.splits if_splits)
  then have "handleMessage opt m text now d = d\<lparr>dv_running := dv_running d @
      [\<lparr>rn_socket = m, rn_job = job, rn_due = due, rn_result = r\<rparr>]\<rparr>"
    using assms by (simp add: handleMessage_def handleJob_def)
  then show ?thesis
    using assms(2,3) by (simp add: job_settles_def sendResult_def device_send_def WEB_SOCKET_OPEN_STATE_def Let_def)
qed


text \<open>The phone greets; an instance holds its session.\<close>

definition greeting :: action_result where
  "greeting = \<lparr>ar_payload = Some (JStr ''hi''), ar_status = None, ar_isOk = None, ar_httpCode = None, ar_error = None,
     ar_appAudit = None\<rparr>"

definition greeting_phone :: device where
  "greeting_phone = phone_open\<lparr>dv_actionHandlers := [''hello'' \<mapsto> (\<lambda>_. Returns 30 greeting)]\<rparr>"

definition phone_connection :: device_connection where
  "phone_connection = \<lparr>dc_clientId = ''phone'', dc_projectIds = [3], dc_deviceTokenId = 4,
     dc_metadata = \<lparr>dm_platform = None, dm_lastIp = None, dm_extra = None, dm_maxInFlight = Some 2\<rparr>, dc_maxInFlight = 2\<rparr>"

definition serving :: "sim inst" where
  "serving = gateway\<lparr>ext := sim_start\<lparr>sim_store := empty_store\<lparr>strs := [session_key ''phone'' \<mapsto> ''i:u'']\<rparr>\<rparr>,
     socket_of := (\<lambda>_. closed_socket\<lparr>sk_readyState := 1, sk_sessionToken := Some ''i:u''\<rparr>), sockets := [(''phone'', 1)]\<rparr>"

definition hello_call :: invoke_params where
  "hello_call = \<lparr>iv_project = ''p'', iv_action = ''hello'', iv_payload = JNull, iv_timeoutSeconds = None,
     iv_clientId = None, iv_clientRequestId = None, iv_accessTokenId = None, iv_requesterUserId = None\<rparr>"

definition silence :: device_result where
  "silence = \<lparr>dr_status = None, dr_is_ok = None, dr_httpCode = None, dr_payload = None, dr_error = None, dr_appAudit = None\<rparr>"

lemma serving_holds: "holds_session sim_view serving 1 phone_connection"
proof -
  have "\<not> is_set_key (''client:session:'' @ ''phone'')" by (rule is_set_key_simps)
  then show ?thesis
    by (simp add: holds_session_def serving_def phone_connection_def sim_view_def sim_start_def empty_store_def
        healthy_def typed_keys_def session_key_def)
qed


end
