(* ===== verification/Configuration.thy ===== *)
theory Configuration
  imports Json_Text Db_Util
begin

text \<open>
  The configuration: the schema of \<^verbatim>\<open>infrastructure/config/config.schema.ts\<close>, the search for the
  file and its loading (\<^verbatim>\<open>config.loader.ts\<close>), the service that hands out its sections
  (\<^verbatim>\<open>config.service.ts\<close>), the check before a production start
  (\<^verbatim>\<open>scripts/check-production-config.ts\<close>), and what the frontend reads of the same file
  (\<^verbatim>\<open>frontend/lib/runtime-config.ts\<close>, \<^verbatim>\<open>frontend/next.config.ts\<close>).  The YAML parser, the files and
  the \<^verbatim>\<open>URL\<close> class are arguments.
\<close>

section \<open>Schemas\<close>

text \<open>
  The part of zod the schemas use.  A value is \<open>Some v\<close>, \<^verbatim>\<open>undefined\<close> is \<open>None\<close>.  \<open>ZDefault\<close> gives its value
  for \<^verbatim>\<open>undefined\<close>, \<open>ZPrefault\<close> validates its value instead.
\<close>

datatype number_rule = IntegerRule | AtLeast rat | AtMost rat | PositiveRule

datatype zod =
    ZNumber "number_rule list"
  | ZString nat "nat option"
  | ZUrl
  | ZBoolean
  | ZArray nat zod
  | ZObject "(string \<times> zod) list"
  | ZNullable zod
  | ZOptional zod
  | ZDefault json zod
  | ZPrefault json zod

definition obeys :: "rat \<Rightarrow> number_rule \<Rightarrow> bool" where
  "obeys q r \<longleftrightarrow>
     (case r of
        IntegerRule \<Rightarrow> of_int \<lfloor>q\<rfloor> = q \<and> \<bar>q\<bar> < 2 ^ 53
      | AtLeast m \<Rightarrow> m \<le> q
      | AtMost m \<Rightarrow> q \<le> m
      | PositiveRule \<Rightarrow> 0 < q)"

text \<open>
  \<^verbatim>\<open>safeParse\<close>: \<open>None\<close> when it fails, and the value it gives otherwise.  The keys of an object come in the
  order of the schema, others are dropped.
\<close>

fun zod_parse :: "(string \<Rightarrow> bool) \<Rightarrow> zod \<Rightarrow> json option \<Rightarrow> json option option"
  and zod_members :: "(string \<Rightarrow> bool) \<Rightarrow> (string \<times> zod) list \<Rightarrow> json \<Rightarrow> (string \<times> json) list option"
  and zod_elements :: "(string \<Rightarrow> bool) \<Rightarrow> zod \<Rightarrow> json list \<Rightarrow> json list option" where
  "zod_parse url (ZNumber rules) x =
     (case x of Some (JNum q) \<Rightarrow> if list_all (obeys q) rules then Some x else None | _ \<Rightarrow> None)"
| "zod_parse url (ZString least most) x =
     (case x of
        Some (JStr s) \<Rightarrow> if least \<le> length s \<and> pred_option (\<lambda>m. length s \<le> m) most then Some x else None
      | _ \<Rightarrow> None)"
| "zod_parse url ZUrl x = (case x of Some (JStr s) \<Rightarrow> if url s then Some x else None | _ \<Rightarrow> None)"
| "zod_parse url ZBoolean x = (case x of Some (JBool b) \<Rightarrow> Some x | _ \<Rightarrow> None)"
| "zod_parse url (ZArray least s) x =
     (case x of
        Some (JArr vs) \<Rightarrow>
          if least \<le> length vs then map_option (\<lambda>ys. Some (JArr ys)) (zod_elements url s vs) else None
      | _ \<Rightarrow> None)"
| "zod_parse url (ZObject shape) x =
     (case x of
        Some (JObj ps) \<Rightarrow> map_option (\<lambda>qs. Some (JObj qs)) (zod_members url shape (JObj ps))
      | _ \<Rightarrow> None)"
| "zod_parse url (ZNullable s) x = (if x = Some JNull then Some x else zod_parse url s x)"
| "zod_parse url (ZOptional s) x = (if x = None then Some None else zod_parse url s x)"
| "zod_parse url (ZDefault d s) x = (if x = None then Some (Some d) else zod_parse url s x)"
| "zod_parse url (ZPrefault d s) x = zod_parse url s (if x = None then Some d else x)"
| "zod_members url [] j = Some []"
| "zod_members url ((k, s) # shape) j =
     (case zod_parse url s (field k j) of
        None \<Rightarrow> None
      | Some None \<Rightarrow> zod_members url shape j
      | Some (Some v) \<Rightarrow> map_option ((#) (k, v)) (zod_members url shape j))"
| "zod_elements url s [] = Some []"
| "zod_elements url s (v # vs) =
     (case zod_parse url s (Some v) of
        Some (Some y) \<Rightarrow> map_option ((#) y) (zod_elements url s vs)
      | _ \<Rightarrow> None)"

section \<open>The schema of the configuration\<close>

abbreviation z_port :: zod where
  "z_port \<equiv> ZNumber [IntegerRule, PositiveRule]"

abbreviation z_between :: "rat \<Rightarrow> rat \<Rightarrow> zod" where
  "z_between m n \<equiv> ZNumber [IntegerRule, AtLeast m, AtMost n]"

abbreviation z_text :: zod where
  "z_text \<equiv> ZString 0 None"

abbreviation z_some_text :: zod where
  "z_some_text \<equiv> ZString 1 None"

definition frontend_schema :: zod where
  "frontend_schema = ZPrefault (JObj []) (ZObject
     [(''apiUrl'', ZDefault JNull (ZNullable ZUrl)),
      (''apiPort'', ZDefault (JNum 3000) z_port),
      (''allowedDevOrigins'', ZDefault (JArr []) (ZArray 0 z_some_text))])"

definition configSchema :: zod where
  "configSchema = ZObject
     [(''app'', ZObject
        [(''port'', ZDefault (JNum 3000) z_port),
         (''globalPrefix'', ZDefault (JStr []) z_text),
         (''publicWsUrl'', ZOptional z_text),
         (''corsOrigins'', ZDefault (JArr [JStr ''*'']) (ZArray 1 z_some_text)),
         (''openApiEnabled'', ZDefault (JBool True) ZBoolean),
         (''trustedProxyHops'', ZDefault (JNum 0) (z_between 0 16))]),
      (''frontend'', frontend_schema),
      (''db'', ZObject
        [(''host'', z_text), (''port'', z_port), (''user'', z_text), (''password'', z_text), (''database'', z_text)]),
      (''redis'', ZObject
        [(''host'', z_text), (''port'', z_port), (''password'', ZDefault JNull (ZNullable z_text)),
         (''db'', ZDefault (JNum 0) (ZNumber [IntegerRule, AtLeast 0]))]),
      (''jwt'', ZObject
        [(''secret'', z_some_text), (''expiresIn'', ZDefault (JStr ''7d'') z_text),
         (''authorizationCacheTtlSeconds'', ZDefault (JNum 60) (z_between 60 300))]),
      (''manticore'', ZObject [(''url'', z_some_text)]),
      (''bootstrap'', ZPrefault (JObj []) (ZObject
        [(''admin'', ZPrefault (JObj []) (ZObject
           [(''username'', ZDefault (JStr ''admin'') (ZString 1 (Some 64))),
            (''password'', ZDefault (JStr ''admin123456'') (ZString 8 (Some 128)))]))])),
      (''performance'', ZPrefault (JObj []) (ZObject
        [(''baseUrl'', ZDefault (JStr ''http://127.0.0.1:3000'') ZUrl),
         (''projectName'', ZDefault (JStr ''cn-nodes'') (ZString 1 (Some 128))),
         (''virtualDeviceCount'', ZDefault (JNum 4) (z_between 2 32)),
         (''durationSeconds'', ZDefault (JNum 20) (z_between 5 600)),
         (''warmupSeconds'', ZDefault (JNum 3) (z_between 0 60)),
         (''concurrency'', ZDefault (JNum 16) (z_between 1 512)),
         (''targetRequestsPerSecond'', ZDefault (JNum 80) (z_between 1 5000)),
         (''requestTimeoutMilliseconds'', ZDefault (JNum 5000) (z_between 100 60000)),
         (''maximumErrorRate'', ZDefault (JNum (1 / 100)) (ZNumber [AtLeast 0, AtMost 1])),
         (''maximum95thPercentileLatencyMilliseconds'', ZDefault (JNum 750) z_port),
         (''minimumThroughputRequestsPerSecond'', ZDefault (JNum 60) (ZNumber [PositiveRule])),
         (''resultFile'', ZDefault (JStr ''performance-results/latest.json'') z_some_text)])),
      (''retention'', ZPrefault (JObj []) (ZObject
        [(''rawRetentionDays'', ZDefault (JNum 3) z_port),
         (''keepLatestPerScope'', ZDefault (JNum 100) z_port),
         (''aggregateRetentionDays'', ZDefault (JNum 30) z_port),
         (''deviceIdleDeleteDays'', ZDefault (JNum 3) z_port)]))]"

section \<open>Finding and loading the file\<close>

text \<open>
  Directories and files are absolute: the list of their names from the root.  \<open>resolve_path\<close> is
  \<^verbatim>\<open>resolve\<close> of \<^verbatim>\<open>node:path\<close> (POSIX), against the working directory.
\<close>

type_synonym path = "string list"

fun names_of :: "string \<Rightarrow> string \<Rightarrow> string list" where
  "names_of name [] = [name]"
| "names_of name (c # cs) = (if c = CHR ''/'' then name # names_of [] cs else names_of (name @ [c]) cs)"

fun walk_path :: "path \<Rightarrow> string list \<Rightarrow> path" where
  "walk_path dir [] = dir"
| "walk_path dir (n # ns) =
     walk_path (if n = [] \<or> n = ''.'' then dir else if n = ''..'' then butlast dir else dir @ [n]) ns"

definition resolve_path :: "path \<Rightarrow> string \<Rightarrow> path" where
  "resolve_path cwd p =
     (case p of c # _ \<Rightarrow> walk_path (if c = CHR ''/'' then [] else cwd) (names_of [] p) | [] \<Rightarrow> cwd)"

text \<open>The loop over the parents; \<^verbatim>\<open>dirname\<close> of the root is the root.\<close>

function find_upwards :: "(path \<Rightarrow> bool) \<Rightarrow> path \<Rightarrow> path \<Rightarrow> path" where
  "find_upwards exists start currentDirectory =
     (let candidateFile = currentDirectory @ [''config.yaml'']; parentDirectory = butlast currentDirectory in
      if exists candidateFile then candidateFile
      else if parentDirectory = currentDirectory then start @ [''config.yaml'']
      else find_upwards exists start parentDirectory)"
  by auto

termination
proof (relation "measure (\<lambda>(exists, start, d). length d)", goal_cases)
  case (2 exists start d candidate parent)
  then show ?case by (cases d rule: rev_cases) simp_all
qed simp

declare find_upwards.simps [simp del]

definition resolveConfigurationFile :: "string option \<Rightarrow> (path \<Rightarrow> bool) \<Rightarrow> path \<Rightarrow> path" where
  "resolveConfigurationFile configuredFile exists cwd =
     (case configuredFile of
        Some f \<Rightarrow> if f \<noteq> [] then resolve_path cwd f else find_upwards exists cwd cwd
      | None \<Rightarrow> find_upwards exists cwd cwd)"

datatype config_error = ReadFailed path string | Invalid path

text \<open>\<open>load_yaml\<close> reads and parses a file, or throws with a message.\<close>

definition loadApplicationConfiguration ::
  "(string \<Rightarrow> bool) \<Rightarrow> (path \<Rightarrow> string + json option) \<Rightarrow> string option \<Rightarrow> (path \<Rightarrow> bool) \<Rightarrow> path \<Rightarrow>
   config_error + path \<times> json" where
  "loadApplicationConfiguration url load_yaml configuredFile exists cwd =
     (let configurationFile = resolveConfigurationFile configuredFile exists cwd in
      case load_yaml configurationFile of
        Inl message \<Rightarrow> Inl (ReadFailed configurationFile message)
      | Inr configurationSource \<Rightarrow>
          (case zod_parse url configSchema configurationSource of
             Some (Some c) \<Rightarrow> Inr (configurationFile, c)
           | _ \<Rightarrow> Inl (Invalid configurationFile)))"

text \<open>The sections of the service, and a value inside them.\<close>

definition config_section :: "string \<Rightarrow> json \<Rightarrow> json option" where
  "config_section name all_sections = field name all_sections"

fun at_keys :: "string list \<Rightarrow> json option \<Rightarrow> json option" where
  "at_keys [] v = v"
| "at_keys (k # ks) v = (case v of None \<Rightarrow> None | Some j \<Rightarrow> at_keys ks (field k j))"

section \<open>The check before production\<close>

record url_parts =
  up_protocol :: string
  up_origin :: string
  up_hostname :: string
  up_pathname :: string
  up_search :: string
  up_hash :: string
  up_username :: string
  up_password :: string

definition isExampleHostname :: "string \<Rightarrow> bool" where
  "isExampleHostname hostname \<longleftrightarrow>
     hostname = ''example.com'' \<or> drop (length hostname - 12) hostname = ''.example.com''"

definition isSecureOrigin :: "(string \<Rightarrow> url_parts option) \<Rightarrow> string \<Rightarrow> bool" where
  "isSecureOrigin parse_url v =
     (case parse_url v of
        None \<Rightarrow> False
      | Some u \<Rightarrow> up_protocol u = ''https:'' \<and> up_origin u = v \<and> \<not> isExampleHostname (up_hostname u))"

definition isSecureWebSocketUrl :: "(string \<Rightarrow> url_parts option) \<Rightarrow> string \<Rightarrow> bool" where
  "isSecureWebSocketUrl parse_url v =
     (case parse_url v of
        None \<Rightarrow> False
      | Some u \<Rightarrow>
          up_protocol u = ''wss:'' \<and> up_pathname u = ''/api/client/ws'' \<and> up_search u = [] \<and> up_hash u = [] \<and>
          up_username u = [] \<and> up_password u = [] \<and> \<not> isExampleHostname (up_hostname u))"

definition isProductionSecret :: "string \<Rightarrow> string list \<Rightarrow> nat \<Rightarrow> bool" where
  "isProductionSecret v prohibitedValues minimumLength \<longleftrightarrow>
     minimumLength \<le> length v \<and> v \<notin> set prohibitedValues \<and> take 13 v \<noteq> ''REPLACE_WITH_''"

text \<open>The messages of the rules.\<close>

datatype complaint =
    OpenApiEnabled | TrustedProxyHops | CorsOrigins | PublicWsUrl | FrontendApiUrl | JwtSecret | AdminPassword | DbPassword

definition text_or_empty :: "json option \<Rightarrow> string" where
  "text_or_empty v = (case v of Some (JStr s) \<Rightarrow> s | _ \<Rightarrow> [])"

definition texts_of :: "json option \<Rightarrow> string list" where
  "texts_of v = (case v of Some (JArr vs) \<Rightarrow> map (\<lambda>x. text_or_empty (Some x)) vs | _ \<Rightarrow> [])"

definition validationRules :: "(string \<Rightarrow> url_parts option) \<Rightarrow> json \<Rightarrow> (bool \<times> complaint) list" where
  "validationRules parse_url c =
     (let get = (\<lambda>ks. at_keys ks (Some c));
          publicWebSocketUrl = text_or_empty (get [''app'', ''publicWsUrl'']);
          frontendApiUrl = text_or_empty (get [''frontend'', ''apiUrl'']);
          corsOrigins = texts_of (get [''app'', ''corsOrigins'']) in
      [(get [''app'', ''openApiEnabled''] = Some (JBool False), OpenApiEnabled),
       (get [''app'', ''trustedProxyHops''] = Some (JNum 1), TrustedProxyHops),
       (corsOrigins \<noteq> [] \<and> list_all (isSecureOrigin parse_url) corsOrigins, CorsOrigins),
       (isSecureWebSocketUrl parse_url publicWebSocketUrl, PublicWsUrl),
       (isSecureOrigin parse_url frontendApiUrl, FrontendApiUrl),
       (isProductionSecret (text_or_empty (get [''jwt'', ''secret''])) [''change-me-before-production''] 32, JwtSecret),
       (isProductionSecret (text_or_empty (get [''bootstrap'', ''admin'', ''password''])) [''admin123456''] 16, AdminPassword),
       (isProductionSecret (text_or_empty (get [''db'', ''password''])) [''r2rpc''] 16, DbPassword)])"

definition validationErrors :: "(string \<Rightarrow> url_parts option) \<Rightarrow> json \<Rightarrow> complaint list" where
  "validationErrors parse_url c = map snd (filter (\<lambda>rule. \<not> fst rule) (validationRules parse_url c))"

section \<open>What the frontend reads\<close>

record frontend_configuration =
  fc_apiUrl :: "string option"
  fc_apiPort :: rat
  fc_allowedDevOrigins :: "string list"

definition DEFAULT_FRONTEND_CONFIGURATION :: frontend_configuration where
  "DEFAULT_FRONTEND_CONFIGURATION = \<lparr>fc_apiUrl = None, fc_apiPort = 3000, fc_allowedDevOrigins = []\<rparr>"

definition frontendConfigurationSchema :: zod where
  "frontendConfigurationSchema = ZObject [(''frontend'', frontend_schema)]"

definition resolveConfigurationPath :: "string option \<Rightarrow> (string \<Rightarrow> bool) \<Rightarrow> string option" where
  "resolveConfigurationPath configuredFile exists =
     (case configuredFile of
        Some f \<Rightarrow> if f \<noteq> [] then Some f
                 else if exists ''/app/config.yaml'' then Some ''/app/config.yaml'' else None
      | None \<Rightarrow> if exists ''/app/config.yaml'' then Some ''/app/config.yaml'' else None)"

datatype frontend_error = FrontendReadFailed string string | FrontendInvalid string

definition frontend_of :: "json \<Rightarrow> frontend_configuration" where
  "frontend_of c =
     \<lparr>fc_apiUrl = (case at_keys [''frontend'', ''apiUrl''] (Some c) of Some (JStr s) \<Rightarrow> Some s | _ \<Rightarrow> None),
      fc_apiPort = (case at_keys [''frontend'', ''apiPort''] (Some c) of Some (JNum q) \<Rightarrow> q | _ \<Rightarrow> 0),
      fc_allowedDevOrigins = texts_of (at_keys [''frontend'', ''allowedDevOrigins''] (Some c))\<rparr>"

text \<open>The second component is the cache of the module after the call.\<close>

definition readFrontendConfiguration ::
  "(string \<Rightarrow> bool) \<Rightarrow> (string \<Rightarrow> string + json option) \<Rightarrow> string option \<Rightarrow> (string \<Rightarrow> bool) \<Rightarrow>
   frontend_configuration option \<Rightarrow> (frontend_error + frontend_configuration) \<times> frontend_configuration option" where
  "readFrontendConfiguration url load_yaml configuredFile exists cachedConfiguration =
     (case cachedConfiguration of
        Some c \<Rightarrow> (Inr c, cachedConfiguration)
      | None \<Rightarrow>
          (case resolveConfigurationPath configuredFile exists of
             None \<Rightarrow> (Inr DEFAULT_FRONTEND_CONFIGURATION, Some DEFAULT_FRONTEND_CONFIGURATION)
           | Some configurationPath \<Rightarrow>
               (case load_yaml configurationPath of
                  Inl message \<Rightarrow> (Inl (FrontendReadFailed configurationPath message), None)
                | Inr source \<Rightarrow>
                    (case zod_parse url frontendConfigurationSchema source of
                       Some (Some c) \<Rightarrow> (Inr (frontend_of c), Some (frontend_of c))
                     | _ \<Rightarrow> (Inl (FrontendInvalid configurationPath), None)))))"

text \<open>The part that is rendered into the page.\<close>

definition readRuntimeConfiguration :: "frontend_error + frontend_configuration \<Rightarrow> frontend_error + (string option \<times> rat)" where
  "readRuntimeConfiguration r = map_sum id (\<lambda>c. (fc_apiUrl c, fc_apiPort c)) r"

text \<open>Origins of the development server: no value is required to be valid.\<close>

definition readConfiguredDevelopmentOrigins :: "bool \<Rightarrow> (string \<Rightarrow> string + json option) \<Rightarrow> string option \<Rightarrow>
    (string \<Rightarrow> bool) \<Rightarrow> string + string list" where
  "readConfiguredDevelopmentOrigins production load_yaml configuredFile exists =
     (let configurationFile = or_default ''../config.yaml'' configuredFile in
      if production \<or> \<not> exists configurationFile then Inr []
      else case load_yaml configurationFile of
             Inl message \<Rightarrow> Inl message
           | Inr source \<Rightarrow>
               Inr (filter (\<lambda>s. s \<noteq> []) (texts_of (at_keys [''frontend'', ''allowedDevOrigins''] source))))"

definition readAllowedDevelopmentOrigins :: "string list \<Rightarrow> string list \<Rightarrow> string list" where
  "readAllowedDevelopmentOrigins localNetworkAddresses configuredOrigins =
     rev (remdups (rev ([''127.0.0.1'', ''localhost''] @ localNetworkAddresses @ configuredOrigins)))"

section \<open>Validating again\<close>

text \<open>Only \<^verbatim>\<open>undefined\<close> is accepted as \<^verbatim>\<open>undefined\<close>.\<close>

lemma zod_defined: "zod_parse url s (Some v) \<noteq> Some None"
proof (induction s arbitrary: v)
  case (ZObject shape)
  show ?case by (cases v) auto
next
  case (ZArray least s)
  show ?case by (cases v) auto
next
  case (ZNumber rules)
  show ?case by (cases v) auto
next
  case (ZString least most)
  show ?case by (cases v) auto
next
  case ZUrl
  show ?case by (cases v) simp_all
next
  case ZBoolean
  show ?case by (cases v) simp_all
qed simp_all

lemma zod_undefined: "zod_parse url s x = Some None \<Longrightarrow> x = None"
  using zod_defined by (cases x) auto

lemma members_keys:
  assumes "zod_members url shape j = Some qs" "distinct (map fst shape)"
  shows "set (map fst qs) \<subseteq> fst ` set shape \<and> distinct (map fst qs)"
  using assms
proof (induction shape arbitrary: qs)
  case (Cons e shape)
  obtain k s where e: "e = (k, s)" by (cases e)
  show ?case
  proof (cases "zod_parse url s (field k j)")
    case None
    then show ?thesis using Cons.prems(1) by (simp add: e)
  next
    case (Some r)
    then obtain rs where rs: "zod_members url shape j = Some rs" "qs = (case r of None \<Rightarrow> rs | Some v \<Rightarrow> (k, v) # rs)"
      using Cons.prems(1) by (cases r) (auto simp: e)
    then have "set (map fst rs) \<subseteq> fst ` set shape \<and> distinct (map fst rs)"
      using Cons.IH Cons.prems(2) by simp
    then show ?thesis using rs(2) Cons.prems(2) by (cases r) (auto simp: e)
  qed
qed simp

lemma field_distinct: "distinct (map fst qs) \<Longrightarrow> field k (JObj qs) = map_of qs k"
proof (induction qs)
  case (Cons q qs)
  then have "map_of qs (fst q) = None" by (auto simp: map_of_eq_None_iff)
  then show ?case using Cons by (cases q) (auto simp: field_def map_add_def split: option.splits)
qed (simp add: field_def)

lemma members_lookup:
  assumes "zod_members url shape j = Some qs" "distinct (map fst shape)" "(k, s) \<in> set shape"
  shows "zod_parse url s (field k j) = Some (map_of qs k)"
  using assms
proof (induction shape arbitrary: qs)
  case (Cons e shape)
  obtain k' s' where e: "e = (k', s')" by (cases e)
  have fresh: "map_of rs k' = None" if "zod_members url shape j = Some rs" for rs
    using members_keys [OF that] Cons.prems(2) e by (auto simp: map_of_eq_None_iff)
  show ?case
  proof (cases "k = k'")
    case True
    then have "s = s'" using Cons.prems(2,3) e by force
    then show ?thesis using Cons.prems(1) True fresh by (auto simp: e split: option.splits)
  next
    case False
    then show ?thesis using Cons e by (auto split: option.splits)
  qed
qed simp

definition stable :: "(string \<Rightarrow> bool) \<Rightarrow> zod \<Rightarrow> bool" where
  "stable url s \<longleftrightarrow> (\<forall>x y. zod_parse url s x = Some (Some y) \<longrightarrow> zod_parse url s (Some y) = Some (Some y))"

lemma members_again:
  assumes "zod_members url shape j = Some qs" "\<forall>(k, s) \<in> set shape. stable url s \<and> zod_parse url s (field k j) = Some (field k j')"
  shows "zod_members url shape j' = Some qs"
  using assms
proof (induction shape arbitrary: qs)
  case (Cons e shape)
  obtain k s where e: "e = (k, s)" by (cases e)
  have ks: "stable url s" "zod_parse url s (field k j) = Some (field k j')" using Cons.prems(2) e by auto
  show ?case
  proof (cases "field k j'")
    case None
    then have "zod_parse url s None = Some None" using ks(2) zod_undefined [of url s "field k j"] by auto
    then show ?thesis using Cons ks(2) None by (auto simp: e)
  next
    case (Some v)
    then have "zod_parse url s (Some v) = Some (Some v)" using ks by (auto simp: stable_def)
    then show ?thesis using Cons ks(2) Some by (auto simp: e)
  qed
qed simp

lemma stable_intros:
  "stable url (ZNumber rules)" "stable url (ZString least most)" "stable url ZUrl" "stable url ZBoolean"
  "stable url s \<Longrightarrow> stable url (ZArray least s)"
  "stable url s \<Longrightarrow> stable url (ZNullable s)" "stable url s \<Longrightarrow> stable url (ZOptional s)"
  "stable url s \<Longrightarrow> stable url (ZPrefault d s)"
  "stable url s \<Longrightarrow> zod_parse url s (Some d) = Some (Some d) \<Longrightarrow> stable url (ZDefault d s)"
proof -
  show "stable url (ZNumber rules)" "stable url (ZString least most)" "stable url ZUrl" "stable url ZBoolean"
    by (auto simp: stable_def split: option.splits json.splits if_splits)
  show "stable url s \<Longrightarrow> stable url (ZNullable s)" "stable url s \<Longrightarrow> stable url (ZOptional s)"
    "stable url s \<Longrightarrow> stable url (ZPrefault d s)"
    "stable url s \<Longrightarrow> zod_parse url s (Some d) = Some (Some d) \<Longrightarrow> stable url (ZDefault d s)"
    by (auto simp: stable_def split: if_splits)
  have elements: "zod_elements url s ys = Some ys \<and> length ys = length vs"
    if "stable url s" "zod_elements url s vs = Some ys" for vs ys
    using that(2)
  proof (induction vs arbitrary: ys)
    case (Cons v vs)
    then show ?case using that(1) by (fastforce simp: stable_def split: option.splits)
  qed simp
  show "stable url s \<Longrightarrow> stable url (ZArray least s)"
    unfolding stable_def [of _ "ZArray least s"]
    by (auto dest: elements split: option.splits json.splits if_splits)
qed

lemma stable_object:
  assumes "distinct (map fst shape)" "\<forall>(k, s) \<in> set shape. stable url s"
  shows "stable url (ZObject shape)"
  unfolding stable_def
proof (intro allI impI)
  fix x y
  assume "zod_parse url (ZObject shape) x = Some (Some y)"
  then obtain ps qs where x: "x = Some (JObj ps)" "zod_members url shape (JObj ps) = Some qs" "y = JObj qs"
    by (auto split: option.splits json.splits)
  have "zod_parse url s (field k (JObj ps)) = Some (field k (JObj qs))" if "(k, s) \<in> set shape" for k s
    using members_lookup [OF x(2) assms(1) that] members_keys [OF x(2) assms(1)] by (simp add: field_distinct)
  then show "zod_parse url (ZObject shape) (Some y) = Some (Some y)"
    using members_again [OF x(2), of "JObj qs"] assms(2) x(3) by (simp add: case_prod_unfold)
qed

text \<open>No key twice, and every default is what its schema would accept.\<close>

fun tidy :: "(string \<Rightarrow> bool) \<Rightarrow> zod \<Rightarrow> bool" where
  "tidy url (ZArray least s) = tidy url s"
| "tidy url (ZObject shape) = (distinct (map fst shape) \<and> list_all (\<lambda>e. tidy url (snd e)) shape)"
| "tidy url (ZNullable s) = tidy url s"
| "tidy url (ZOptional s) = tidy url s"
| "tidy url (ZPrefault d s) = tidy url s"
| "tidy url (ZDefault d s) = (tidy url s \<and> zod_parse url s (Some d) = Some (Some d))"
| "tidy url s = True"

lemma tidy_stable: "tidy url s \<Longrightarrow> stable url s"
  by (induction url s rule: tidy.induct) (auto simp: list_all_iff intro: stable_intros stable_object)

lemma config_tidy:
  assumes "url ''http://127.0.0.1:3000''"
  shows "tidy url configSchema" "tidy url frontendConfigurationSchema"
  by (simp_all add: configSchema_def frontendConfigurationSchema_def frontend_schema_def obeys_def assms)

section \<open>Settings\<close>

text \<open>The schema of a setting, by its keys.\<close>

fun schema_at :: "string list \<Rightarrow> zod \<Rightarrow> zod option" where
  "schema_at [] s = Some s"
| "schema_at (k # ks) (ZObject shape) =
     (if distinct (map fst shape) then (case map_of shape k of None \<Rightarrow> None | Some s \<Rightarrow> schema_at ks s) else None)"
| "schema_at (k # ks) (ZPrefault d s) = (if d = JObj [] then schema_at (k # ks) s else None)"
| "schema_at (k # ks) _ = None"

lemma setting_parsed:
  "zod_parse url s x = Some y \<Longrightarrow> schema_at ks s = Some s' \<Longrightarrow> zod_parse url s' (at_keys ks x) = Some (at_keys ks y)"
proof (induction ks s arbitrary: x y rule: schema_at.induct)
  case (2 k ks shape)
  then obtain s where s: "distinct (map fst shape)" "map_of shape k = Some s" "schema_at ks s = Some s'"
    by (auto split: if_splits option.splits)
  obtain ps qs where x: "x = Some (JObj ps)" "zod_members url shape (JObj ps) = Some qs" "y = Some (JObj qs)"
    using 2(2) by (auto split: option.splits json.splits)
  have "zod_parse url s (field k (JObj ps)) = Some (field k (JObj qs))"
    using members_lookup [OF x(2) s(1) map_of_SomeD [OF s(2)]] members_keys [OF x(2) s(1)] by (simp add: field_distinct)
  then show ?case using 2(1) [OF s(1,2) _ s(3)] x by simp
next
  case (3 k ks d s)
  then have d: "d = JObj []" "schema_at (k # ks) s = Some s'" by (auto split: if_splits)
  have none: "at_keys ks None = None" for ks by (cases ks) simp_all
  have "zod_parse url s' (at_keys (k # ks) (if x = None then Some d else x)) = Some (at_keys (k # ks) y)"
    using 3(1) [OF d(1) _ d(2)] 3(2) by simp
  then show ?case by (cases x) (simp_all add: d(1) field_def none)
qed simp_all

lemma number_setting:
  assumes "zod_parse url (ZDefault (JNum q0) (ZNumber rules)) x = Some y" "list_all (obeys q0) rules"
  obtains q where "y = Some (JNum q)" "list_all (obeys q) rules"
  using assms by (auto split: if_splits option.splits json.splits)

lemma integer_setting:
  assumes "zod_parse url (ZDefault (JNum q0) (ZNumber (IntegerRule # rules))) x = Some y" "list_all (obeys q0) (IntegerRule # rules)"
  obtains i :: int where "y = Some (JNum (of_int i))" "list_all (obeys (of_int i)) rules"
proof -
  obtain q where q: "y = Some (JNum q)" "list_all (obeys q) (IntegerRule # rules)" using number_setting [OF assms] .
  then obtain i :: int where "q = of_int i" by (auto simp: obeys_def)
  then show thesis using that [of i] q by simp
qed

lemma loaded_source:
  assumes "loadApplicationConfiguration url load_yaml configuredFile exists cwd = Inr (f, c)"
  obtains source where "load_yaml f = Inr source" "zod_parse url configSchema source = Some (Some c)"
    "f = resolveConfigurationFile configuredFile exists cwd"
  using assms by (auto simp: loadApplicationConfiguration_def Let_def split: sum.splits option.splits)

section \<open>A production configuration\<close>

definition production_source :: json where
  "production_source = JObj
     [(''app'', JObj [(''publicWsUrl'', JStr ''wss://r.io/api/client/ws''), (''corsOrigins'', JArr [JStr ''https://r.io'']),
        (''openApiEnabled'', JBool False), (''trustedProxyHops'', JNum 1)]),
      (''frontend'', JObj [(''apiUrl'', JStr ''https://r.io'')]),
      (''db'', JObj [(''host'', JStr ''db''), (''port'', JNum 5432), (''user'', JStr ''r2rpc''),
        (''password'', JStr ''0123456789abcdef''), (''database'', JStr ''r2rpc'')]),
      (''redis'', JObj [(''host'', JStr ''redis''), (''port'', JNum 6379)]),
      (''jwt'', JObj [(''secret'', JStr ''0123456789abcdef0123456789abcdef'')]),
      (''manticore'', JObj [(''url'', JStr ''http://search:9308'')]),
      (''bootstrap'', JObj [(''admin'', JObj [(''password'', JStr ''fedcba9876543210'')])])]"

definition production_config :: json where
  "production_config = the (the (zod_parse (\<lambda>_. True) configSchema (Some production_source)))"

lemma production_parsed: "zod_parse (\<lambda>_. True) configSchema (Some production_source) = Some (Some production_config)"
  unfolding production_config_def
  by (simp add: configSchema_def frontend_schema_def production_source_def field_def obeys_def)

text \<open>
  C24: a loaded configuration is sound.  Validating it again accepts it as it is, defaults included, and its
  numbers are in the ranges the services count on: the hops between 0 and 16, the life of a cached
  authorization between one and five minutes, and every retention a whole number of at least one.
\<close>

theorem loaded_configuration_is_sound:
  assumes "loadApplicationConfiguration url load_yaml configuredFile exists cwd = Inr (f, c)"
    and "url ''http://127.0.0.1:3000''"
  shows "zod_parse url configSchema (Some c) = Some (Some c) \<and>
    (\<exists>hops::int. at_keys [''app'', ''trustedProxyHops''] (Some c) = Some (JNum (of_int hops)) \<and> 0 \<le> hops \<and> hops \<le> 16) \<and>
    (\<exists>ttl::int. at_keys [''jwt'', ''authorizationCacheTtlSeconds''] (Some c) = Some (JNum (of_int ttl)) \<and> 60 \<le> ttl \<and> ttl \<le> 300) \<and>
    (\<forall>k \<in> {''rawRetentionDays'', ''keepLatestPerScope'', ''aggregateRetentionDays'', ''deviceIdleDeleteDays''}.
       \<exists>n::int. at_keys [''retention'', k] (Some c) = Some (JNum (of_int n)) \<and> 1 \<le> n)"
proof -
  obtain source where source: "zod_parse url configSchema source = Some (Some c)"
    by (rule loaded_source [OF assms(1)])
  note setting = setting_parsed [OF source]
  have "stable url configSchema" using tidy_stable config_tidy assms(2) by blast
  then have "zod_parse url configSchema (Some c) = Some (Some c)" using source by (auto simp: stable_def)
  moreover have "schema_at [''app'', ''trustedProxyHops''] configSchema = Some (ZDefault (JNum 0) (z_between 0 16))"
    by (simp add: configSchema_def)
  note hops = setting [OF this]
  have "\<exists>hops::int. at_keys [''app'', ''trustedProxyHops''] (Some c) = Some (JNum (of_int hops)) \<and> 0 \<le> hops \<and> hops \<le> 16"
    by (rule integer_setting [OF hops]) (auto simp: obeys_def simp flip: of_int_le_numeral_iff)
  moreover have "schema_at [''jwt'', ''authorizationCacheTtlSeconds''] configSchema = Some (ZDefault (JNum 60) (z_between 60 300))"
    by (simp add: configSchema_def)
  note ttl = setting [OF this]
  have "\<exists>ttl::int. at_keys [''jwt'', ''authorizationCacheTtlSeconds''] (Some c) = Some (JNum (of_int ttl)) \<and> 60 \<le> ttl \<and> ttl \<le> 300"
    by (rule integer_setting [OF ttl]) (auto simp: obeys_def)
  moreover have "\<exists>n::int. at_keys [''retention'', k] (Some c) = Some (JNum (of_int n)) \<and> 1 \<le> n"
    if k: "k \<in> {''rawRetentionDays'', ''keepLatestPerScope'', ''aggregateRetentionDays'', ''deviceIdleDeleteDays''}" for k
  proof -
    have "\<exists>d \<in> {3, 30, 100}. schema_at [''retention'', k] configSchema = Some (ZDefault (JNum d) z_port)"
      using k by (auto simp: configSchema_def)
    then obtain d :: rat where d: "d \<in> {3, 30, 100}" "schema_at [''retention'', k] configSchema = Some (ZDefault (JNum d) z_port)" ..
    show ?thesis
      by (rule integer_setting [OF setting [OF d(2)]]) (use d(1) in \<open>auto simp: obeys_def\<close>)
  qed
  ultimately show ?thesis by blast
qed

theorem loaded_configuration_is_sound_witness:
  "zod_parse (\<lambda>_. True) configSchema (Some production_config) = Some (Some production_config)"
proof -
  have "loadApplicationConfiguration (\<lambda>_. True) (\<lambda>_. Inr (Some production_source)) None (\<lambda>_. False) [] =
      Inr ([''config.yaml''], production_config)"
    by (simp add: loadApplicationConfiguration_def production_parsed resolveConfigurationFile_def find_upwards.simps)
  from loaded_configuration_is_sound [OF this] show ?thesis by simp
qed

section \<open>The file\<close>

lemma find_upwards_found:
  assumes "m \<le> length dir" "exists (take m dir @ [''config.yaml''])"
    and "\<forall>k. m < k \<longrightarrow> k \<le> length dir \<longrightarrow> \<not> exists (take k dir @ [''config.yaml''])"
  shows "find_upwards exists start dir = take m dir @ [''config.yaml'']"
  using assms
proof (induction exists start dir rule: find_upwards.induct)
  case (1 exists start dir)
  show ?case
  proof (cases "m = length dir")
    case True
    then show ?thesis using 1(3) by (simp add: find_upwards.simps)
  next
    case False
    then have m: "m < length dir" using 1(2) by simp
    then have "\<not> exists (dir @ [''config.yaml''])" "butlast dir \<noteq> dir"
      using 1(4) by (auto dest: spec [of _ "length dir"] arg_cong [of _ _ length])
    moreover have "take k (butlast dir) = take k dir" if "k < length dir" for k
      using that by (simp add: take_butlast)
    ultimately show ?thesis
      using 1 m by (subst find_upwards.simps) (simp add: Let_def less_eq_Suc_le [symmetric])
  qed
qed

lemma find_upwards_missing:
  assumes "\<forall>k \<le> length dir. \<not> exists (take k dir @ [''config.yaml''])"
  shows "find_upwards exists start dir = start @ [''config.yaml'']"
  using assms
proof (induction exists start dir rule: find_upwards.induct)
  case (1 exists start dir)
  have "\<not> exists (take k (butlast dir) @ [''config.yaml''])" if "k \<le> length dir - 1" for k
  proof (cases "dir = []")
    case True
    then show ?thesis using 1(2) by simp
  next
    case False
    then have "k < length dir" using that by (cases dir) simp_all
    then show ?thesis using 1(2) by (simp add: take_butlast)
  qed
  moreover have "\<not> exists (dir @ [''config.yaml''])" using 1(2) by (auto dest: spec [of _ "length dir"])
  ultimately show ?case using 1(1) by (subst find_upwards.simps) (simp add: Let_def)
qed

text \<open>
  C26: the file is the one that is named, or the nearest.  The search ends; a file named by CONFIG_FILE
  is taken whatever exists; otherwise it is the one of the deepest directory on the way from the
  working directory to the root that has one, and the missing one of the working directory when none has.
\<close>

theorem nearest_configuration_is_found:
  "(\<forall>p. p \<noteq> [] \<longrightarrow> resolveConfigurationFile (Some p) exists cwd = resolve_path cwd p) \<and>
   (\<forall>m. m \<le> length cwd \<longrightarrow> exists (take m cwd @ [''config.yaml'']) \<longrightarrow>
      (\<forall>k. m < k \<longrightarrow> k \<le> length cwd \<longrightarrow> \<not> exists (take k cwd @ [''config.yaml''])) \<longrightarrow>
      resolveConfigurationFile None exists cwd = take m cwd @ [''config.yaml'']) \<and>
   ((\<forall>k \<le> length cwd. \<not> exists (take k cwd @ [''config.yaml''])) \<longrightarrow>
      resolveConfigurationFile None exists cwd = cwd @ [''config.yaml''])"
  by (auto simp: resolveConfigurationFile_def find_upwards_missing intro: find_upwards_found)

theorem nearest_configuration_is_found_witness:
  "resolveConfigurationFile None (\<lambda>f. f = [''srv'', ''config.yaml'']) [''srv'', ''backend'', ''dist''] = [''srv'', ''config.yaml'']"
proof -
  have "\<not> (1 < k \<and> take k [''srv'', ''backend'', ''dist''] = [''srv''])" for k :: nat
    by (cases k; cases "k - 1") auto
  then show ?thesis
    using conjunct1 [OF conjunct2 [OF nearest_configuration_is_found
          [where exists = "\<lambda>f. f = [''srv'', ''config.yaml'']" and cwd = "[''srv'', ''backend'', ''dist'']"]]]
    by (auto dest!: spec [of _ 1])
qed

section \<open>Production\<close>

declare at_keys.simps [simp del]

lemma own_setting:
  assumes "zod_parse url configSchema source = Some (Some c)" "schema_at ks configSchema = Some (ZDefault d s)"
    and "at_keys ks (Some c) \<noteq> Some d"
  shows "at_keys ks source \<noteq> None"
proof
  assume "at_keys ks source = None"
  then show False using setting_parsed [OF assms(1,2)] assms(3) by simp
qed

lemma no_complaint: "validationErrors parse_url c = [] \<longleftrightarrow> list_all fst (validationRules parse_url c)"
  by (auto simp: validationErrors_def filter_empty_conv list_all_iff)

text \<open>
  C25: production runs on the operator's own settings.  A configuration that passes the check names every
  setting it looks at: none is left to a default.  The secrets have the required lengths, and the
  origins and the URL of the devices are those of TLS.
\<close>

theorem production_needs_own_settings:
  assumes "zod_parse url configSchema source = Some (Some c)" "validationErrors parse_url c = []"
    and "parse_url ''*'' = None" "parse_url [] = None"
  shows "(\<forall>ks \<in> {[''app'', ''openApiEnabled''], [''app'', ''trustedProxyHops''], [''app'', ''corsOrigins''],
        [''app'', ''publicWsUrl''], [''frontend'', ''apiUrl''], [''jwt'', ''secret''],
        [''bootstrap'', ''admin'', ''password''], [''db'', ''password'']}. at_keys ks source \<noteq> None) \<and>
    32 \<le> length (text_or_empty (at_keys [''jwt'', ''secret''] (Some c))) \<and>
    16 \<le> length (text_or_empty (at_keys [''bootstrap'', ''admin'', ''password''] (Some c))) \<and>
    16 \<le> length (text_or_empty (at_keys [''db'', ''password''] (Some c))) \<and>
    (\<forall>origin \<in> set (texts_of (at_keys [''app'', ''corsOrigins''] (Some c))).
       \<exists>u. parse_url origin = Some u \<and> up_protocol u = ''https:'') \<and>
    (\<exists>u. parse_url (text_or_empty (at_keys [''app'', ''publicWsUrl''] (Some c))) = Some u \<and> up_protocol u = ''wss:'')"
proof -
  note own = own_setting [OF assms(1)] and setting = setting_parsed [OF assms(1)]
  have rules: "at_keys [''app'', ''openApiEnabled''] (Some c) = Some (JBool False)"
    "at_keys [''app'', ''trustedProxyHops''] (Some c) = Some (JNum 1)"
    "texts_of (at_keys [''app'', ''corsOrigins''] (Some c)) \<noteq> []"
    "list_all (isSecureOrigin parse_url) (texts_of (at_keys [''app'', ''corsOrigins''] (Some c)))"
    "isSecureWebSocketUrl parse_url (text_or_empty (at_keys [''app'', ''publicWsUrl''] (Some c)))"
    "isSecureOrigin parse_url (text_or_empty (at_keys [''frontend'', ''apiUrl''] (Some c)))"
    "isProductionSecret (text_or_empty (at_keys [''jwt'', ''secret''] (Some c))) [''change-me-before-production''] 32"
    "isProductionSecret (text_or_empty (at_keys [''bootstrap'', ''admin'', ''password''] (Some c))) [''admin123456''] 16"
    "isProductionSecret (text_or_empty (at_keys [''db'', ''password''] (Some c))) [''r2rpc''] 16"
    using assms(2) by (simp_all add: no_complaint validationRules_def Let_def)
  have "at_keys [''app'', ''openApiEnabled''] source \<noteq> None"
    by (rule own, simp add: configSchema_def frontend_schema_def, use rules(1) in
        \<open>simp del: at_keys.simps\<close>)
  moreover have "at_keys [''app'', ''trustedProxyHops''] source \<noteq> None"
    by (rule own, simp add: configSchema_def frontend_schema_def, use rules(2) in
        \<open>simp del: at_keys.simps\<close>)
  moreover have "at_keys [''app'', ''corsOrigins''] source \<noteq> None"
    by (rule own, simp add: configSchema_def frontend_schema_def, use rules(4) assms(3) in
        \<open>auto simp: texts_of_def text_or_empty_def isSecureOrigin_def\<close>)
  moreover have "at_keys [''app'', ''publicWsUrl''] source \<noteq> None"
  proof
    assume none: "at_keys [''app'', ''publicWsUrl''] source = None"
    have "schema_at [''app'', ''publicWsUrl''] configSchema = Some (ZOptional z_text)" by (simp add: configSchema_def)
    from setting [OF this] have "at_keys [''app'', ''publicWsUrl''] (Some c) = None" unfolding none by simp
    then show False using rules(5) assms(4) by (simp add: text_or_empty_def isSecureWebSocketUrl_def)
  qed
  moreover have "at_keys [''frontend'', ''apiUrl''] source \<noteq> None"
    by (rule own, simp add: configSchema_def frontend_schema_def, use rules(6) assms(4) in
        \<open>auto simp: text_or_empty_def isSecureOrigin_def\<close>)
  moreover have "at_keys [''jwt'', ''secret''] source \<noteq> None"
  proof
    assume none: "at_keys [''jwt'', ''secret''] source = None"
    have "schema_at [''jwt'', ''secret''] configSchema = Some z_some_text" by (simp add: configSchema_def)
    from setting [OF this] show False unfolding none by simp
  qed
  moreover have "at_keys [''bootstrap'', ''admin'', ''password''] source \<noteq> None"
    by (rule own, simp add: configSchema_def frontend_schema_def, use rules(8) in
        \<open>auto simp: text_or_empty_def isProductionSecret_def\<close>)
  moreover have "at_keys [''db'', ''password''] source \<noteq> None"
  proof
    assume none: "at_keys [''db'', ''password''] source = None"
    have "schema_at [''db'', ''password''] configSchema = Some z_text" by (simp add: configSchema_def)
    from setting [OF this] show False unfolding none by simp
  qed
  ultimately show ?thesis
    using rules(4,5,7-9)
    by (auto simp: isProductionSecret_def list_all_iff isSecureOrigin_def isSecureWebSocketUrl_def 
        split: option.splits)
qed

theorem production_needs_own_settings_witness:
  "16 \<le> length (text_or_empty (at_keys [''db'', ''password''] (Some production_config)))"
proof -
  define parse where "parse = (\<lambda>s. map_of
    [(''wss://r.io/api/client/ws'', \<lparr>up_protocol = ''wss:'', up_origin = ''wss://r.io'', up_hostname = ''r.io'',
        up_pathname = ''/api/client/ws'', up_search = [], up_hash = [], up_username = [], up_password = []\<rparr>),
     (''https://r.io'', \<lparr>up_protocol = ''https:'', up_origin = ''https://r.io'', up_hostname = ''r.io'',
        up_pathname = ''/'', up_search = [], up_hash = [], up_username = [], up_password = []\<rparr>)] s)"
  have "validationErrors parse production_config = []"
    unfolding no_complaint validationRules_def Let_def production_config_def
    by (simp add: configSchema_def frontend_schema_def production_source_def field_def obeys_def at_keys.simps
        text_or_empty_def texts_of_def isSecureOrigin_def isSecureWebSocketUrl_def isExampleHostname_def
        isProductionSecret_def parse_def)
  from production_needs_own_settings [OF production_parsed this] show ?thesis by (simp add: parse_def)
qed

section \<open>Both ends of the configuration\<close>



end
