(* ===== verification/Console_Client.thy ===== *)
theory Console_Client
  imports Console_Authorization Sdk_Caller Sdk_Device Ws_Gateway
begin

text \<open>
  The console's client: requests to the API and the stored token
  (\<^verbatim>\<open>frontend/lib/api-client.ts\<close>), the session and what it offers (\<^verbatim>\<open>lib/auth.tsx\<close>,
  \<^verbatim>\<open>components/app-shell.tsx\<close>), and the short form of identifiers
  (\<^verbatim>\<open>components/masked-identifier.tsx\<close>).  The network is an argument.  The Chinese texts are arguments
  too: \<open>tx_separator\<close> joins several messages, \<open>tx_failed\<close> stands in for a missing one.
\<close>

section \<open>Requests\<close>

record ui_texts =
  tx_separator :: string
  tx_failed :: string

text \<open>
  The window of the browser; \<open>wn_config\<close> is what the server rendered into it, \<open>wn_storage\<close> the value under
  the key of the token, \<open>wn_assigned\<close> the locations the scripts have gone to.
\<close>

record window =
  wn_protocol :: string
  wn_hostname :: string
  wn_config :: "(string option \<times> int option) option"
  wn_storage :: "string option"
  wn_assigned :: "string list"

definition resolveApiBaseUrl :: "window option \<Rightarrow> string" where
  "resolveApiBaseUrl w =
     (case w of
        None \<Rightarrow> ''http://127.0.0.1:3000''
      | Some n \<Rightarrow>
          (case wn_config n of
             Some (Some u, port) \<Rightarrow>
               if u \<noteq> [] then without_slash u
               else wn_protocol n @ ''//'' @ wn_hostname n @ '':'' @ show_int (or_default 3000 port)
           | Some (None, port) \<Rightarrow> wn_protocol n @ ''//'' @ wn_hostname n @ '':'' @ show_int (or_default 3000 port)
           | None \<Rightarrow> wn_protocol n @ ''//'' @ wn_hostname n @ '':3000''))"

definition token_read :: "window \<Rightarrow> string option" where
  "token_read w = wn_storage w"

definition token_write :: "string \<Rightarrow> window \<Rightarrow> window" where
  "token_write t w = w\<lparr>wn_storage := Some t\<rparr>"

definition token_clear :: "window \<Rightarrow> window" where
  "token_clear w = w\<lparr>wn_storage := None\<rparr>"

definition assign_location :: "string \<Rightarrow> window \<Rightarrow> window" where
  "assign_location href w = w\<lparr>wn_assigned := wn_assigned w @ [href]\<rparr>"

fun join_with :: "string \<Rightarrow> string list \<Rightarrow> string" where
  "join_with separator [] = []"
| "join_with separator [s] = s"
| "join_with separator (s # t # ss) = s @ separator @ join_with separator (t # ss)"

definition extractErrorMessage :: "ui_texts \<Rightarrow> json option \<Rightarrow> string \<Rightarrow> string" where
  "extractErrorMessage tx responseBody fallback =
     (case Option.bind responseBody (field ''message'') of
        Some (JArr ms) \<Rightarrow> join_with (tx_separator tx) (map js_string ms)
      | Some (JStr s) \<Rightarrow> s
      | _ \<Rightarrow> fallback)"

datatype ui_error = ApiRequestError nat string | FetchFailed | SyntaxError | UndefinedRead

definition getRequestErrorMessage :: "ui_error \<Rightarrow> string \<Rightarrow> string" where
  "getRequestErrorMessage e fallback = (case e of ApiRequestError _ message \<Rightarrow> message | _ \<Rightarrow> fallback)"

text \<open>
  A request has two halves, because others run between them: the token that is read when it starts is
  sent, and decides later what a refusal means.  An empty token counts as none.
\<close>

record ui_request =
  uq_path :: string
  uq_method :: string
  uq_body :: "string option"

record api_response =
  rs_status :: nat
  rs_statusText :: string
  rs_body :: string

definition start_request :: "ui_request \<Rightarrow> window \<Rightarrow> string option \<times> fetch_call" where
  "start_request q w =
     (let authenticationToken = nonempty (token_read w) in
      (authenticationToken,
       \<lparr>hr_method = uq_method q, hr_url = resolveApiBaseUrl (Some w) @ uq_path q,
        hr_headers = (''content-type'', ''application/json'') #
          (case authenticationToken of None \<Rightarrow> [] | Some t \<Rightarrow> [(''Authorization'', ''Bearer '' @ t)]),
        hr_body = uq_body q\<rparr>))"

text \<open>\<open>None\<close> is a request that gets no response; the result is the parsed body, \<open>None\<close> for an empty one.\<close>

definition finish_request ::
  "ui_texts \<Rightarrow> string option \<Rightarrow> api_response option \<Rightarrow> window \<Rightarrow> (ui_error + json option) \<times> window" where
  "finish_request tx authenticationToken response w =
     (case response of
        None \<Rightarrow> (Inl FetchFailed, w)
      | Some r \<Rightarrow>
          let w' = (if rs_status r = 401 \<and> authenticationToken \<noteq> None
                    then assign_location ''/login'' (token_clear w) else w) in
          if \<not> (200 \<le> rs_status r \<and> rs_status r \<le> 299)
          then (Inl (ApiRequestError (rs_status r) (extractErrorMessage tx (parse_json (rs_body r))
                 (if rs_statusText r = [] then tx_failed tx else rs_statusText r))), w')
          else if rs_body r = [] then (Inr None, w')
          else (case parse_json (rs_body r) of Some j \<Rightarrow> (Inr (Some j), w') | None \<Rightarrow> (Inl SyntaxError, w')))"

text \<open>A request that is answered before anything else happens; \<open>ask\<close> is the network and the server.\<close>

definition requestApi ::
  "ui_texts \<Rightarrow> (fetch_call \<Rightarrow> 's \<Rightarrow> api_response option \<times> 's) \<Rightarrow> ui_request \<Rightarrow> window \<times> 's \<Rightarrow>
   (ui_error + json option) \<times> window \<times> 's" where
  "requestApi tx ask q = (\<lambda>(w, s).
     let (t, call) = start_request q w; (response, s') = ask call s; (result, w') = finish_request tx t response w in
     (result, w', s'))"

text \<open>\<^verbatim>\<open>URLSearchParams.toString()\<close>, and the query of the defined and non-empty values.\<close>

fun params_text :: "(string \<times> string) list \<Rightarrow> string" where
  "params_text [] = []"
| "params_text [(k, v)] = form_encode k @ ''='' @ form_encode v"
| "params_text ((k, v) # ps) = form_encode k @ ''='' @ form_encode v @ ''&'' @ params_text ps"

definition buildQueryString :: "(string \<times> string option) list \<Rightarrow> string" where
  "buildQueryString values =
     (let searchParameters = fold (\<lambda>(k, v) ps. case v of Some x \<Rightarrow> if x \<noteq> [] then params_set k x ps else ps | None \<Rightarrow> ps)
            values [];
          queryString = params_text searchParameters in
      if queryString = [] then [] else ''?'' @ queryString)"

section \<open>The session\<close>

text \<open>The user is the body the server sent; nothing checks it.\<close>

record session =
  ss_window :: window
  ss_user :: "json option"
  ss_isLoading :: bool

definition get_request :: "string \<Rightarrow> ui_request" where
  "get_request path = \<lparr>uq_path = path, uq_method = ''GET'', uq_body = None\<rparr>"

definition loadAuthenticatedUser ::
  "ui_texts \<Rightarrow> (fetch_call \<Rightarrow> 's \<Rightarrow> api_response option \<times> 's) \<Rightarrow> window \<times> 's \<Rightarrow>
   (ui_error + json option) \<times> window \<times> 's" where
  "loadAuthenticatedUser tx ask = requestApi tx ask (get_request ''/auth/me'')"

text \<open>The effect of the provider when the page is loaded.\<close>

definition mount_provider ::
  "ui_texts \<Rightarrow> (fetch_call \<Rightarrow> 's \<Rightarrow> api_response option \<times> 's) \<Rightarrow> session \<times> 's \<Rightarrow> session \<times> 's" where
  "mount_provider tx ask = (\<lambda>(ss, s).
     if nonempty (token_read (ss_window ss)) = None then (ss\<lparr>ss_isLoading := False\<rparr>, s)
     else case loadAuthenticatedUser tx ask (ss_window ss, s) of
            (Inr user, w, s') \<Rightarrow> (ss\<lparr>ss_window := w, ss_user := user, ss_isLoading := False\<rparr>, s')
          | (Inl e, w, s') \<Rightarrow> (ss\<lparr>ss_window := w, ss_user := None, ss_isLoading := False\<rparr>, s'))"

definition ui_login ::
  "ui_texts \<Rightarrow> (fetch_call \<Rightarrow> 's \<Rightarrow> api_response option \<times> 's) \<Rightarrow> string \<Rightarrow> string \<Rightarrow> session \<times> 's \<Rightarrow>
   ui_error option \<times> session \<times> 's" where
  "ui_login tx ask username password = (\<lambda>(ss, s).
     let q = \<lparr>uq_path = ''/auth/login'', uq_method = ''POST'',
              uq_body = Some (stringify (JObj [(''username'', JStr username), (''password'', JStr password)]))\<rparr> in
     case requestApi tx ask q (ss_window ss, s) of
       (Inl e, w, s1) \<Rightarrow> (Some e, ss\<lparr>ss_window := w\<rparr>, s1)
     | (Inr None, w, s1) \<Rightarrow> (Some UndefinedRead, ss\<lparr>ss_window := w\<rparr>, s1)
     | (Inr (Some loginResponse), w, s1) \<Rightarrow>
         let token = (case field ''token'' loginResponse of None \<Rightarrow> ''undefined'' | Some j \<Rightarrow> js_string j) in
         (case loadAuthenticatedUser tx ask (token_write token w, s1) of
            (Inl e, w', s2) \<Rightarrow> (Some e, ss\<lparr>ss_window := w'\<rparr>, s2)
          | (Inr user, w', s2) \<Rightarrow> (None, ss\<lparr>ss_window := w', ss_user := user\<rparr>, s2)))"

definition ui_logout :: "session \<Rightarrow> session" where
  "ui_logout ss = ss\<lparr>ss_window := assign_location ''/login'' (token_clear (ss_window ss)), ss_user := None\<rparr>"

definition permission_is :: "string \<Rightarrow> string \<Rightarrow> json \<Rightarrow> bool" where
  "permission_is action subject permission \<longleftrightarrow>
     field ''action'' permission = Some (JStr action) \<and> field ''subject'' permission = Some (JStr subject)"

definition ui_can :: "json option \<Rightarrow> string \<Rightarrow> string \<Rightarrow> bool" where
  "ui_can user action subject \<longleftrightarrow>
     (case user of
        None \<Rightarrow> False
      | Some u \<Rightarrow>
          field ''isRoot'' u = Some (JBool True) \<or>
          (case field ''permissions'' u of
             Some (JArr ps) \<Rightarrow> list_ex (\<lambda>p. permission_is ''manage'' ''all'' p \<or> permission_is action subject p) ps
           | _ \<Rightarrow> False))"

section \<open>The menu\<close>

record navigation_item =
  nv_href :: string
  nv_permission :: "(string \<times> string) option"

definition NAVIGATION_GROUPS :: "navigation_item list list" where
  "NAVIGATION_GROUPS =
     [[\<lparr>nv_href = ''/'', nv_permission = None\<rparr>,
       \<lparr>nv_href = ''/projects'', nv_permission = Some (''read'', ''project'')\<rparr>,
       \<lparr>nv_href = ''/devices'', nv_permission = Some (''read'', ''device'')\<rparr>,
       \<lparr>nv_href = ''/request-logs'', nv_permission = Some (''read'', ''monitor'')\<rparr>,
       \<lparr>nv_href = ''/rpc-debugger'', nv_permission = Some (''invoke'', ''manual-rpc'')\<rparr>],
      [\<lparr>nv_href = ''/device-tokens'', nv_permission = Some (''manage'', ''device-token'')\<rparr>,
       \<lparr>nv_href = ''/access-tokens'', nv_permission = Some (''manage'', ''access-token'')\<rparr>,
       \<lparr>nv_href = ''/users'', nv_permission = Some (''read'', ''user'')\<rparr>,
       \<lparr>nv_href = ''/permission-groups'', nv_permission = Some (''read'', ''rbac'')\<rparr>],
      [\<lparr>nv_href = ''/system-logs'', nv_permission = Some (''read'', ''system-log'')\<rparr>]]"

text \<open>A group without a visible item is not shown.\<close>

definition visible_navigation :: "json option \<Rightarrow> navigation_item list list" where
  "visible_navigation user =
     filter (\<lambda>items. items \<noteq> [])
       (map (filter (\<lambda>item. case nv_permission item of None \<Rightarrow> True | Some (a, s) \<Rightarrow> ui_can user a s)) NAVIGATION_GROUPS)"

text \<open>Which item is marked as the current page.\<close>

definition navigation_active :: "string \<Rightarrow> navigation_item \<Rightarrow> bool" where
  "navigation_active pathname item \<longleftrightarrow>
     (if nv_href item = ''/'' then pathname = ''/'' else take (length (nv_href item)) pathname = nv_href item)"

section \<open>Identifiers\<close>

definition VISIBLE_EDGE_LENGTH :: nat where
  "VISIBLE_EDGE_LENGTH = 4"

definition MINIMUM_MASK_LENGTH :: nat where
  "MINIMUM_MASK_LENGTH = 11"

definition OVERFLOW_MARK :: string where
  "OVERFLOW_MARK = ''****''"

definition maskIdentifier :: "string \<Rightarrow> string" where
  "maskIdentifier v =
     (if length v < MINIMUM_MASK_LENGTH then v
      else take VISIBLE_EDGE_LENGTH v @ OVERFLOW_MARK @ drop (length v - VISIBLE_EDGE_LENGTH) v)"

section \<open>What the console offers\<close>

lemma user_json_fields [simp]:
  "field ''isRoot'' (user_json u) = Some (JBool (au_isRoot u))"
  "field ''permissions'' (user_json u) =
     Some (JArr (map (\<lambda>(a, s). JObj [(''action'', JStr a), (''subject'', JStr s)]) (au_permissions u)))"
  by (simp_all add: user_json_def field_def)

lemma permission_is_json:
  "permission_is a s (case p of (x, y) \<Rightarrow> JObj [(''action'', JStr x), (''subject'', JStr y)]) \<longleftrightarrow> p = (a, s)"
  by (cases p) (auto simp: permission_is_def field_def)

lemma ui_can_user:
  "ui_can (Some (user_json u)) a s \<longleftrightarrow>
     au_isRoot u \<or> (''manage'', ''all'') \<in> set (au_permissions u) \<or> (a, s) \<in> set (au_permissions u)"
  by (auto simp: ui_can_def list_ex_iff permission_is_json)

lemma guard_user:
  assumes "\<And>ps a s. can ps a s \<longleftrightarrow> granted (set ps) a s"
  shows "permission_guard can (RequirePermission a s) (Some u) = Inr True \<longleftrightarrow>
    au_isRoot u \<or> granted (set (au_permissions u)) a s"
  by (simp add: permission_guard_def assms)


definition group_manager :: authenticated_user where
  "group_manager = \<lparr>au_id = 7, au_sub = None, au_username = None, au_permissions = [(''manage'', ''rbac'')], au_isRoot = False\<rparr>"


section \<open>The session and its token\<close>

lemma requestApi_answered:
  fixes w :: window
  assumes "ask (snd (start_request q w)) s = (Some r, s')" "200 \<le> rs_status r" "rs_status r \<le> 299"
    and "rs_body r = stringify j" "json_ok j"
  shows "requestApi tx ask q (w, s) = (Inr (Some j), w, s')"
proof -
  have "parse_json (rs_body r) = Some j" using parse_stringify [OF assms(5)] assms(4) by simp
  moreover have "parse_json [] = None" by (simp add: parse_json_def skip_space_def)
  then have "rs_body r \<noteq> []" using calculation by auto
  ultimately show ?thesis
    using assms by (simp add: requestApi_def finish_request_def split_def Let_def)
qed

text \<open>
  the session follows the token.  When the server answers a login with its token and the user's data for
  that token, the login stores the token and shows the user, and the data was asked for with that very
  token.  After a logout there is neither, and the next load of the page asks the server nothing.
\<close>

theorem session_follows_token:
  fixes ss :: session and s :: 's and sa :: 's and tx :: ui_texts and password :: string and username :: string
    and ask :: "fetch_call \<Rightarrow> 's \<Rightarrow> api_response option \<times> 's"
  assumes "ask (snd (start_request \<lparr>uq_path = ''/auth/login'', uq_method = ''POST'',
      uq_body = Some (stringify (JObj [(''username'', JStr username), (''password'', JStr password)]))\<rparr> (ss_window ss))) s =
      (Some ra, sa)" "rs_status ra = 201" "rs_body ra = stringify (login_json (t, i, username, role))"
    and "t \<noteq> []" "i < 2 ^ 31"
    and "\<And>call. map_of (hr_headers call) ''Authorization'' = Some (''Bearer '' @ t) \<Longrightarrow>
      ask call sa = (Some rb, sb)" "rs_status rb = 200" "rs_body rb = stringify (user_json u)" "json_ok (user_json u)"
  defines "ss' \<equiv> fst (snd (ui_login tx ask username password (ss, s)))"
  shows "ui_login tx ask username password (ss, s) = (None, ss', sb) \<and>
    token_read (ss_window ss') = Some t \<and> ss_user ss' = Some (user_json u) \<and>
    wn_assigned (ss_window ss') = wn_assigned (ss_window ss) \<and>
    token_read (ss_window (ui_logout ss')) = None \<and> ss_user (ui_logout ss') = None \<and>
    mount_provider tx ask (ui_logout ss', sc) = (ui_logout ss'\<lparr>ss_isLoading := False\<rparr>, sc)"
proof -
  have "(of_nat i :: rat) < of_nat (2 ^ 31)" using assms(5) by (simp only: of_nat_less_iff)
  then have ok: "json_ok (login_json (t, i, username, role))" by (simp add: login_json_def)
  have token: "field ''token'' (login_json x) = Some (JStr (fst x))" for x
    by (cases x) (simp add: login_json_def field_def)
  note first = requestApi_answered [where tx = tx and ask = ask and s = s and w = "ss_window ss", OF assms(1) _ _ assms(3) ok]
  have "map_of (hr_headers (snd (start_request (get_request ''/auth/me'') (token_write t (ss_window ss))))) ''Authorization'' =
      Some (''Bearer '' @ t)"
    using assms(4) by (simp add: start_request_def Let_def token_read_def token_write_def nonempty_def)
  from requestApi_answered [where tx = tx and ask = ask and s = sa and w = "token_write t (ss_window ss)", OF assms(6) [OF this] _ _ assms(8,9)]
  have second: "loadAuthenticatedUser tx ask (token_write t (ss_window ss), sa) =
      (Inr (Some (user_json u)), token_write t (ss_window ss), sb)"
    using assms(7) by (simp add: loadAuthenticatedUser_def)
  have "ui_login tx ask username password (ss, s) =
      (None, ss\<lparr>ss_window := token_write t (ss_window ss), ss_user := Some (user_json u)\<rparr>, sb)"
    using first assms(2) second by (simp add: ui_login_def Let_def token)
  then show ?thesis
    by (simp add: ss'_def token_read_def token_write_def ui_logout_def token_clear_def assign_location_def
        mount_provider_def nonempty_def)
qed

definition open_window :: "string option \<Rightarrow> window" where
  "open_window token = \<lparr>wn_protocol = ''https:'', wn_hostname = ''r.io'', wn_config = None, wn_storage = token,
     wn_assigned = []\<rparr>"

theorem session_follows_token_witness:
  "\<exists>ss'. ui_login \<lparr>tx_separator = '';'', tx_failed = ''failed''\<rparr>
     (\<lambda>call s. (Some (if map_of (hr_headers call) ''Authorization'' = None
        then \<lparr>rs_status = 201, rs_statusText = [], rs_body = stringify (login_json (''jwt'', 7, ''bob'', ''admin''))\<rparr>
        else \<lparr>rs_status = 200, rs_statusText = [], rs_body = stringify (user_json group_manager)\<rparr>), Suc s))
     ''bob'' ''secret'' (\<lparr>ss_window = open_window None, ss_user = None, ss_isLoading = False\<rparr>, 0) = (None, ss', 2) \<and>
     ss_user ss' = Some (user_json group_manager)"
proof -
  let ?tx = "\<lparr>tx_separator = '';'', tx_failed = ''failed''\<rparr>"
  let ?r1 = "\<lparr>rs_status = 201, rs_statusText = [], rs_body = stringify (login_json (''jwt'', 7, ''bob'', ''admin''))\<rparr>"
  let ?r2 = "\<lparr>rs_status = 200, rs_statusText = [], rs_body = stringify (user_json group_manager)\<rparr>"
  let ?ask = "\<lambda>call s. (Some (if map_of (hr_headers call) ''Authorization'' = None then ?r1 else ?r2), Suc s)"
  let ?ss = "\<lparr>ss_window = open_window None, ss_user = None, ss_isLoading = False\<rparr>"
  have "?ask (snd (start_request \<lparr>uq_path = ''/auth/login'', uq_method = ''POST'',
      uq_body = Some (stringify (JObj [(''username'', JStr ''bob''), (''password'', JStr ''secret'')]))\<rparr> (ss_window ?ss))) 0 =
      (Some ?r1, 1)"
    by (simp add: start_request_def Let_def token_read_def nonempty_def open_window_def)
  from session_follows_token [where tx = ?tx and ask = ?ask and t = "''jwt''" and i = 7 and username = "''bob''" and
      u = group_manager and ss = ?ss and sb = 2, OF this]
  show ?thesis by (fastforce simp: group_manager_def user_json_def)
qed

text \<open>
  C29: a refusal ends whatever session there is.  A response of 401 to a request that carried a token removes the
  stored token and leads to the login page, also when it is no longer the token of the request: the
  late answer to an old session ends the one that was opened since.  Without a token in the request
  nothing is touched.
\<close>

theorem refusal_ends_any_session:
  fixes w w' :: window
  assumes "rs_status r = 401" "start_request q w = (sent, call)"
  shows "(sent \<noteq> None \<longrightarrow> (\<exists>t. wn_storage w = Some t \<and> map_of (hr_headers call) ''Authorization'' = Some (''Bearer '' @ t)) \<and>
      token_read (snd (finish_request tx sent (Some r) (token_write new w'))) = None \<and>
      last (wn_assigned (snd (finish_request tx sent (Some r) (token_write new w')))) = ''/login'') \<and>
    (sent = None \<longrightarrow> snd (finish_request tx sent (Some r) w') = w') \<and>
    (\<exists>message. fst (finish_request tx sent (Some r) w') = Inl (ApiRequestError 401 message))"
proof -
  have "\<exists>t. wn_storage w = Some t \<and> map_of (hr_headers call) ''Authorization'' = Some (''Bearer '' @ t)" if "sent \<noteq> None"
    using that assms(2) by (auto simp: start_request_def Let_def token_read_def nonempty_def split: option.splits if_splits)
  then show ?thesis
    using assms(1)
    by (simp add: finish_request_def Let_def token_read_def token_write_def token_clear_def assign_location_def)
qed

theorem refusal_ends_any_session_witness:
  "token_read (snd (finish_request \<lparr>tx_separator = '';'', tx_failed = ''failed''\<rparr>
     (fst (start_request (get_request ''/users'') (open_window (Some ''old''))))
     (Some \<lparr>rs_status = 401, rs_statusText = [], rs_body = []\<rparr>) (token_write ''new'' (open_window (Some ''old''))))) = None"
proof -
  let ?start = "start_request (get_request ''/users'') (open_window (Some ''old''))"
  have "fst ?start \<noteq> None" by (simp add: start_request_def Let_def token_read_def nonempty_def open_window_def)
  then show ?thesis
    using refusal_ends_any_session [where q = "get_request ''/users''" and w = "open_window (Some ''old'')" and
        sent = "fst ?start" and call = "snd ?start" and new = "''new''" and w' = "open_window (Some ''old'')"]
    by simp
qed

end
