(* ===== verification/Console_Tables.thy ===== *)
theory Console_Tables
  imports Console_Client
begin

text \<open>
  The tables of the console: draft and applied filters (\<^verbatim>\<open>lib/use-filter-state.ts\<close>), the state of a
  paginated list and its query (\<^verbatim>\<open>lib/use-server-table.ts\<close>), and the pagination bar
  (\<^verbatim>\<open>components/pagination.tsx\<close>); with what the server answers to them.  Rendering, animations and
  the polling of the query library are not modelled.
\<close>

section \<open>Filters and pages\<close>

text \<open>Filters are texts under fixed keys, in the order of the empty filters of the page.\<close>

type_synonym filters = "(string \<times> string) list"

definition UI_DEFAULT_PAGE_SIZE :: int where
  "UI_DEFAULT_PAGE_SIZE = 10"

record server_table =
  tb_draft :: filters
  tb_applied :: filters
  tb_page :: int
  tb_pageSize :: int
  tb_forward :: bool
  tb_refreshes :: nat

definition new_table :: "filters \<Rightarrow> server_table" where
  "new_table emptyFilters =
     \<lparr>tb_draft = emptyFilters, tb_applied = emptyFilters, tb_page = 1, tb_pageSize = UI_DEFAULT_PAGE_SIZE,
      tb_forward = True, tb_refreshes = 0\<rparr>"

definition filters_update :: "string \<Rightarrow> string \<Rightarrow> server_table \<Rightarrow> server_table" where
  "filters_update k v T = T\<lparr>tb_draft := map (\<lambda>e. if fst e = k then (k, v) else e) (tb_draft T)\<rparr>"

definition filters_apply :: "server_table \<Rightarrow> server_table" where
  "filters_apply T = T\<lparr>tb_applied := tb_draft T, tb_forward := True, tb_page := 1\<rparr>"

definition filters_reset :: "filters \<Rightarrow> server_table \<Rightarrow> server_table" where
  "filters_reset emptyFilters T =
     T\<lparr>tb_draft := emptyFilters, tb_applied := emptyFilters, tb_forward := True, tb_page := 1,
       tb_refreshes := tb_refreshes T + 1\<rparr>"

definition page_change :: "int \<Rightarrow> server_table \<Rightarrow> server_table" where
  "page_change nextPage T = T\<lparr>tb_forward := (nextPage \<ge> tb_page T), tb_page := nextPage\<rparr>"

definition page_size_change :: "int \<Rightarrow> server_table \<Rightarrow> server_table" where
  "page_size_change newPageSize T = T\<lparr>tb_pageSize := newPageSize, tb_page := 1\<rparr>"

text \<open>The path of the request; \<open>transform\<close> rewrites the filters of some pages.\<close>

definition table_query :: "string \<Rightarrow> (filters \<Rightarrow> (string \<times> string option) list) \<Rightarrow> server_table \<Rightarrow> string" where
  "table_query endpoint transform T =
     endpoint @ buildQueryString (transform (tb_applied T) @
       [(''page'', Some (show_int (tb_page T))), (''pageSize'', Some (show_int (tb_pageSize T)))])"

section \<open>The pagination bar\<close>

datatype pagination_item = Page int | LeadingEllipsis | TrailingEllipsis

definition pageItems :: "int \<Rightarrow> int \<Rightarrow> pagination_item list" where
  "pageItems currentPage totalPages =
     (if totalPages \<le> 7 then map Page [1..totalPages]
      else if currentPage \<le> 4 then [Page 1, Page 2, Page 3, Page 4, Page 5, TrailingEllipsis, Page totalPages]
      else if currentPage \<ge> totalPages - 3
      then [Page 1, LeadingEllipsis, Page (totalPages - 4), Page (totalPages - 3), Page (totalPages - 2),
            Page (totalPages - 1), Page totalPages]
      else [Page 1, LeadingEllipsis, Page (currentPage - 1), Page currentPage, Page (currentPage + 1),
            TrailingEllipsis, Page totalPages])"

text \<open>What the bar is given: the page of the data, or of the state before any data came.\<close>

record pagination_view =
  pv_page :: int
  pv_pageSize :: int
  pv_total :: int
  pv_isTransitioning :: bool

definition pagination_props :: "'r paginated option \<Rightarrow> bool \<Rightarrow> server_table \<Rightarrow> pagination_view" where
  "pagination_props data isPlaceholder T =
     (case data of
        Some d \<Rightarrow> \<lparr>pv_page = pg_page d, pv_pageSize = pg_pageSize d, pv_total = pg_total d,
                    pv_isTransitioning = isPlaceholder\<rparr>
      | None \<Rightarrow> \<lparr>pv_page = tb_page T, pv_pageSize = tb_pageSize T, pv_total = 0, pv_isTransitioning = isPlaceholder\<rparr>)"

definition total_pages :: "pagination_view \<Rightarrow> int" where
  "total_pages v = max 1 \<lceil>(of_int (pv_total v) / of_int (pv_pageSize v) :: rat)\<rceil>"

definition current_page :: "pagination_view \<Rightarrow> int" where
  "current_page v = min (pv_page v) (total_pages v)"

definition first_item :: "pagination_view \<Rightarrow> int" where
  "first_item v = (if pv_total v = 0 then 0 else (current_page v - 1) * pv_pageSize v + 1)"

definition last_item :: "pagination_view \<Rightarrow> int" where
  "last_item v = min (current_page v * pv_pageSize v) (pv_total v)"

definition jump_target :: "string \<Rightarrow> pagination_view \<Rightarrow> int option" where
  "jump_target jumpPage v =
     (case integer_of (string_to_number jumpPage) of
        None \<Rightarrow> None
      | Some requestedPage \<Rightarrow> if requestedPage < 1 then None else Some (min requestedPage (total_pages v)))"

text \<open>The controls of the bar, and the page sizes it offers.\<close>

datatype pagination_event = PreviousPage | NextPage | ClickPage int | SelectPageSize int | JumpTo string

definition PAGE_SIZES :: "int list" where
  "PAGE_SIZES = [10, 20, 50, 100]"

definition pagination_enabled :: "pagination_view \<Rightarrow> pagination_event \<Rightarrow> bool" where
  "pagination_enabled v e \<longleftrightarrow>
     (case e of
        PreviousPage \<Rightarrow> 1 < current_page v \<and> \<not> pv_isTransitioning v
      | NextPage \<Rightarrow> current_page v < total_pages v \<and> \<not> pv_isTransitioning v
      | ClickPage p \<Rightarrow> Page p \<in> set (pageItems (current_page v) (total_pages v)) \<and> \<not> pv_isTransitioning v
      | SelectPageSize n \<Rightarrow> n \<in> set PAGE_SIZES \<and> \<not> pv_isTransitioning v
      | JumpTo s \<Rightarrow> \<not> pv_isTransitioning v)"

definition on_pagination :: "pagination_view \<Rightarrow> pagination_event \<Rightarrow> server_table \<Rightarrow> server_table" where
  "on_pagination v e T =
     (case e of
        PreviousPage \<Rightarrow> page_change (current_page v - 1) T
      | NextPage \<Rightarrow> page_change (current_page v + 1) T
      | ClickPage p \<Rightarrow> page_change p T
      | SelectPageSize n \<Rightarrow> page_size_change n T
      | JumpTo s \<Rightarrow> (case jump_target s v of None \<Rightarrow> T | Some p \<Rightarrow> page_change p T))"

text \<open>A page of the console in use: the user edits filters or works the bar, with whatever data is shown.\<close>

inductive table_run :: "filters \<Rightarrow> server_table \<Rightarrow> bool" for emptyFilters where
  fresh: "table_run emptyFilters (new_table emptyFilters)"
| edit: "table_run emptyFilters T \<Longrightarrow> table_run emptyFilters (filters_update k v T)"
| submit: "table_run emptyFilters T \<Longrightarrow> table_run emptyFilters (filters_apply T)"
| clear: "table_run emptyFilters T \<Longrightarrow> table_run emptyFilters (filters_reset emptyFilters T)"
| turn: "table_run emptyFilters T \<Longrightarrow> 1 \<le> pv_page v \<Longrightarrow> pagination_enabled v e \<Longrightarrow>
    table_run emptyFilters (on_pagination v e T)"

section \<open>The pages of the bar\<close>

lemma total_pages_positive: "1 \<le> total_pages v"
  by (simp add: total_pages_def)

lemma current_page_between: "1 \<le> pv_page v \<Longrightarrow> 1 \<le> current_page v \<and> current_page v \<le> total_pages v"
  using total_pages_positive [of v] by (simp add: current_page_def)

text \<open>Two entries that follow each other fit: neighbours, or an ellipsis for what is left out.\<close>

definition numbers_of :: "pagination_item list \<Rightarrow> int list" where
  "numbers_of = List.map_filter (\<lambda>x. case x of Page p \<Rightarrow> Some p | _ \<Rightarrow> None)"

fun gaps_marked :: "pagination_item list \<Rightarrow> bool" where
  "gaps_marked (Page p # Page q # xs) = (q = p + 1 \<and> gaps_marked (Page q # xs))"
| "gaps_marked (Page p # x # Page q # xs) = (p + 1 < q \<and> gaps_marked (Page q # xs))"
| "gaps_marked [Page p] = True"
| "gaps_marked _ = False"

lemma gaps_marked_range: "m \<le> n \<Longrightarrow> gaps_marked (map Page [m..n])"
proof (induction "nat (n - m)" arbitrary: m)
  case 0
  then show ?case by simp
next
  case (Suc k)
  then have "gaps_marked (map Page [m + 1..n])" "m < n" by simp_all
  then show ?case by (simp add: upto_rec1 [of m] upto_rec1 [of "m + 1"])
qed

text \<open>
  the bar leads everywhere.  It shows at most seven entries, all of them pages that exist; among them the
  first, the last, the current one and its neighbours; neighbouring entries are neighbouring pages or have
  an ellipsis between them, which always stands for pages that are left out; and a jump leads to a page
  that exists.
\<close>

theorem pages_are_reachable:
  assumes "1 \<le> c" "c \<le> t"
  shows "length (pageItems c t) \<le> 7 \<and> gaps_marked (pageItems c t) \<and>
    {1, c, t} \<union> {p. \<bar>p - c\<bar> = 1 \<and> 1 \<le> p \<and> p \<le> t} \<subseteq> set (numbers_of (pageItems c t)) \<and>
    set (numbers_of (pageItems c t)) \<subseteq> {1..t} \<and>
    (\<forall>v s p. jump_target s v = Some p \<longrightarrow> 1 \<le> p \<and> p \<le> total_pages v)"
proof -
  have map: "numbers_of (map Page ps) = ps" for ps by (induction ps) (simp_all add: numbers_of_def List.map_filter_simps)
  have jump: "1 \<le> p \<and> p \<le> total_pages v" if "jump_target s v = Some p" for s v p
    using that total_pages_positive [of v] by (auto simp: jump_target_def split: option.splits if_splits)
  have "length (pageItems c t) \<le> 7" by (auto simp: pageItems_def)
  moreover have "gaps_marked (pageItems c t)"
    using assms by (simp add: pageItems_def gaps_marked_range)
  moreover have "{1, c, t} \<union> {p. \<bar>p - c\<bar> = 1 \<and> 1 \<le> p \<and> p \<le> t} \<subseteq> set (numbers_of (pageItems c t))"
    "set (numbers_of (pageItems c t)) \<subseteq> {1..t}"
    using assms by (auto simp: pageItems_def map) (auto simp: numbers_of_def List.map_filter_simps)
  ultimately show ?thesis using jump by blast
qed

theorem pages_are_reachable_witness:
  "numbers_of (pageItems 6 12) = [1, 5, 6, 7, 12] \<and> gaps_marked (pageItems 6 12)"
  using pages_are_reachable [of 6 12] by (simp add: pageItems_def numbers_of_def List.map_filter_simps)

section \<open>The state of a table\<close>

lemma update_keys: "map fst (map (\<lambda>e. if fst e = k then (k, v) else e) fs) = map fst fs"
  by (induction fs) auto

lemma table_run_bounds:
  assumes "table_run emptyFilters T"
  shows "1 \<le> tb_page T \<and> tb_pageSize T \<in> set PAGE_SIZES \<and>
    map fst (tb_draft T) = map fst emptyFilters \<and> map fst (tb_applied T) = map fst emptyFilters"
  using assms
proof (induction rule: table_run.induct)
  case (turn T v e)
  have items: "1 \<le> p" if "Page p \<in> set (pageItems (current_page v) (total_pages v))" for p
    using that current_page_between [OF turn(2)] by (auto simp: pageItems_def split: if_splits)
  have "1 \<le> p" if "jump_target s v = Some p" for s p
    using that total_pages_positive [of v] by (auto simp: jump_target_def split: option.splits if_splits)
  then show ?case
    using turn items current_page_between [OF turn(2)]
    by (auto simp: on_pagination_def pagination_enabled_def page_change_def page_size_change_def
        split: pagination_event.splits option.splits)
qed (auto simp: new_table_def filters_update_def filters_apply_def filters_reset_def UI_DEFAULT_PAGE_SIZE_def
    PAGE_SIZES_def update_keys simp del: map_map split: if_splits)

text \<open>
  C23: what the bar shows is what the server gives, as long as the page exists.  Whatever the user did before, the
  server takes page and size as they are sent (up to page 1000000); the rows of its answer are those of
  the numbers the bar shows.  When rows have gone in the meantime and the page lies beyond the last one,
  the answer has no rows, and the bar shows the numbers and the number of the last page all the same.
\<close>

theorem table_shows_served_page:
  fixes xs :: "'r list"
  assumes "table_run emptyFilters T" "tb_page T \<le> MAXIMUM_PAGE"
  defines "b \<equiv> pageBounds (Some (tb_page T)) (Some (tb_pageSize T))"
  defines "served \<equiv> \<lparr>pg_rows = limit_offset (bd_pageSize b) (bd_offset b) xs, pg_page = bd_page b,
      pg_pageSize = bd_pageSize b, pg_total = int (length xs)\<rparr>"
  defines "v \<equiv> pagination_props (Some served) False T"
  shows "pg_page served = tb_page T \<and> pg_pageSize served = tb_pageSize T \<and>
    (tb_page T \<le> total_pages v \<longrightarrow>
       int (length (pg_rows served)) = (if xs = [] then 0 else last_item v - first_item v + 1) \<and>
       (\<forall>k < length (pg_rows served). pg_rows served ! k = xs ! nat (first_item v - 1 + int k))) \<and>
    (total_pages v < tb_page T \<longrightarrow>
       pg_rows served = [] \<and> current_page v = total_pages v \<and>
       (xs \<noteq> [] \<longrightarrow> last_item v = int (length xs) \<and> first_item v \<le> last_item v))"
proof -
  note bounds = table_run_bounds [OF assms(1)]
  define p where "p = tb_page T"
  define n where "n = tb_pageSize T"
  define l where "l = int (length xs)"
  have p: "1 \<le> p" "p \<le> MAXIMUM_PAGE" and n: "10 \<le> n" "n \<le> 100"
    using bounds assms(2) by (auto simp: p_def n_def PAGE_SIZES_def)
  have b: "bd_page b = p" "bd_pageSize b = n" "bd_offset b = (p - 1) * n"
    using p n by (simp_all add: b_def pageBounds_def or_default_def MAXIMUM_PAGE_SIZE_def Let_def flip: p_def n_def)
  have v: "pv_page v = p" "pv_pageSize v = n" "pv_total v = l"
    by (simp_all add: v_def pagination_props_def served_def b l_def)
  have rows: "pg_rows served = take (nat n) (drop (nat ((p - 1) * n)) xs)"
    by (simp add: served_def limit_offset_def b)
  define t where "t = total_pages v"
  define c where "c = \<lceil>(of_int l / of_int n :: rat)\<rceil>"
  have t: "t = max 1 c" by (simp add: t_def c_def total_pages_def v)
  have npos: "(0 :: rat) < of_int n" using n by simp
  have "of_int l / of_int n \<le> (of_int c :: rat)" "(of_int c :: rat) < of_int l / of_int n + 1"
    unfolding c_def by linarith+
  then have "(of_int l :: rat) \<le> of_int (c * n)" "(of_int (c * n) :: rat) < of_int (l + n)"
    using npos by (simp_all add: field_simps)
  then have c: "l \<le> c * n" "c * n < l + n" by (simp_all only: of_int_le_iff of_int_less_iff)
  have l: "0 \<le> l" by (simp add: l_def)
  have xs: "xs = [] \<longleftrightarrow> l = 0" by (simp add: l_def)
  have "(0 :: int) \<le> (p - 1) * n" using p n by simp
  then have len: "int (length (pg_rows served)) = min n (max 0 (l - (p - 1) * n))"
    using n by (simp add: rows l_def)
  have current: "current_page v = min p t" by (simp add: current_page_def v t_def)
  have pn: "p * n = (p - 1) * n + n" "c * n = (c - 1) * n + n" by (simp_all add: algebra_simps)
  have "int (length (pg_rows served)) = (if xs = [] then 0 else last_item v - first_item v + 1) \<and>
      (\<forall>k < length (pg_rows served). pg_rows served ! k = xs ! nat (first_item v - 1 + int k))" if "p \<le> t"
  proof (cases "l = 0")
    case True
    then have "length (pg_rows served) = 0" using len n \<open>0 \<le> (p - 1) * n\<close> by simp
    then show ?thesis using True xs by simp
  next
    case False
    then have "0 < c * n" using c(1) l by linarith
    then have "1 \<le> c" using n by (simp add: zero_less_mult_iff)
    then have "(p - 1) * n \<le> (c - 1) * n" using that t n by (intro mult_right_mono) auto
    then have before: "(p - 1) * n < l" using c(2) pn(2) by linarith
    have first: "first_item v = (p - 1) * n + 1" and last: "last_item v = min (p * n) l"
      using False that current by (simp_all add: first_item_def last_item_def v)
    have "int (length (pg_rows served)) = last_item v - first_item v + 1"
      using before len pn(1) n by (simp add: first last min_def)
    moreover have "pg_rows served ! k = xs ! nat (first_item v - 1 + int k)" if "k < length (pg_rows served)" for k
    proof -
      have "nat ((p - 1) * n) \<le> length xs" using before by (simp add: l_def nat_le_iff)
      then show ?thesis using that \<open>0 \<le> (p - 1) * n\<close> by (simp add: rows first nat_add_distrib)
    qed
    ultimately show ?thesis using False xs by simp
  qed
  moreover have "pg_rows served = [] \<and> current_page v = t \<and>
      (xs \<noteq> [] \<longrightarrow> last_item v = int (length xs) \<and> first_item v \<le> last_item v)" if "t < p"
  proof -
    have "c * n \<le> (p - 1) * n" using that t n by (intro mult_right_mono) auto
    then have "l \<le> (p - 1) * n" using c(1) by linarith
    then have "length (pg_rows served) = 0" using len n by simp
    moreover have "last_item v = l \<and> first_item v \<le> l" if "l \<noteq> 0"
    proof -
      have "0 < c * n" using c(1) l that by linarith
      then have "1 \<le> c" using n by (simp add: zero_less_mult_iff)
      then have "current_page v = c" using current t \<open>t < p\<close> by simp
      moreover have "(c - 1) * n + 1 \<le> l" using c(2) pn(2) by linarith
      moreover have "first_item v = (current_page v - 1) * n + 1" "last_item v = min (current_page v * n) l"
        using that by (simp_all only: first_item_def last_item_def v if_False)
      ultimately show ?thesis using c(1) by (simp only: min_absorb2)
    qed
    ultimately show ?thesis using current that xs by (simp flip: l_def)
  qed
  moreover have "pg_page served = p \<and> pg_pageSize served = n" by (simp add: served_def b)
  ultimately show ?thesis unfolding p_def [symmetric] n_def [symmetric] t_def [symmetric] by blast
qed

theorem table_shows_served_page_witness:
  "let b = pageBounds (Some 2) (Some 10); xs = [1..10] :: int list;
       served = \<lparr>pg_rows = limit_offset (bd_pageSize b) (bd_offset b) xs, pg_page = bd_page b,
         pg_pageSize = bd_pageSize b, pg_total = 10\<rparr> in
   pg_rows served = [] \<and> last_item (pagination_props (Some served) False (page_change 2 (new_table []))) = 10"
proof -
  let ?T = "page_change 2 (new_table [])"
  define v where "v = \<lparr>pv_page = 1, pv_pageSize = 10, pv_total = 11, pv_isTransitioning = False\<rparr>"
  have "\<lceil>11 / 10 :: rat\<rceil> = 2" by (rule ceiling_unique) simp_all
  then have v: "current_page v = 1" "total_pages v = 2"
    by (simp_all add: v_def current_page_def total_pages_def)
  have "table_run [] (on_pagination v NextPage (new_table []))"
    by (rule table_run.turn [OF table_run.fresh]) (use v in \<open>simp_all add: pagination_enabled_def\<close>, simp_all add: v_def)
  then have run: "table_run [] ?T" by (simp add: on_pagination_def v)
  have T: "tb_page ?T = 2" "tb_pageSize ?T = 10" by (simp_all add: page_change_def new_table_def UI_DEFAULT_PAGE_SIZE_def)
  from table_shows_served_page [OF run, of "[1..10] :: int list"]
  show ?thesis
    by (simp add: T Let_def MAXIMUM_PAGE_def total_pages_def pagination_props_def)
      (simp add: pageBounds_def or_default_def MAXIMUM_PAGE_SIZE_def MAXIMUM_PAGE_def)
qed

end
