(* ===== verification/Rpc_Debugger.thy ===== *)
theory Rpc_Debugger
  imports Console_Client
begin

text \<open>
  The RPC debugger of the console (\<^verbatim>\<open>app/(dashboard)/rpc-debugger/use-rpc-debugger.ts\<close>): the form,
  what it selects from the options the server offers, the request it shows and the request it sends.
  \<open>pretty\<close> is \<^verbatim>\<open>JSON.stringify(_, null, 2)\<close>; the toasts are results.
\<close>

section \<open>The form\<close>

record debugger_form =
  df_projectSelection :: string
  df_actionName :: string
  df_clientSelection :: string
  df_timeoutSeconds :: string
  df_payloadText :: string
  df_result :: "(json \<times> (ui_error + json option) \<times> nat) option"

text \<open>What the two queries for options hold; \<open>None\<close> before they are answered.\<close>

record debugger_options =
  do_projects :: "(string \<times> bool) list option"
  do_clientIds :: "string list option"

definition DEFAULT_ACTION_NAME :: string where
  "DEFAULT_ACTION_NAME = ''ping''"

definition DEFAULT_TIMEOUT_SECONDS :: string where
  "DEFAULT_TIMEOUT_SECONDS = ''20''"

definition DEFAULT_PAYLOAD_TEXT :: "(json \<Rightarrow> string) \<Rightarrow> string" where
  "DEFAULT_PAYLOAD_TEXT pretty = pretty (JObj [(''message'', JStr ''hello from console'')])"

definition new_form :: "(json \<Rightarrow> string) \<Rightarrow> debugger_form" where
  "new_form pretty =
     \<lparr>df_projectSelection = [], df_actionName = DEFAULT_ACTION_NAME, df_clientSelection = [],
      df_timeoutSeconds = DEFAULT_TIMEOUT_SECONDS, df_payloadText = DEFAULT_PAYLOAD_TEXT pretty, df_result = None\<rparr>"

datatype debugger_error = TargetMissing | TimeoutNotPositive | PayloadSyntax | PayloadNotObject

definition parsePayloadObject :: "string \<Rightarrow> debugger_error + json" where
  "parsePayloadObject payloadText =
     (case parse_json (if payloadText = [] then ''{}'' else payloadText) of
        None \<Rightarrow> Inl PayloadSyntax
      | Some (JObj ps) \<Rightarrow> Inr (JObj ps)
      | Some _ \<Rightarrow> Inl PayloadNotObject)"

definition buildRequestPath :: "string \<Rightarrow> string \<Rightarrow> string \<Rightarrow> string" where
  "buildRequestPath projectName actionName clientId =
     ''/rpc/debug/invoke/'' @ encodeURIComponent projectName @ ''/'' @ encodeURIComponent actionName @
       buildQueryString [(''clientId'', Some clientId)]"

definition option_projects :: "debugger_options \<Rightarrow> (string \<times> bool) list" where
  "option_projects opt = or_default [] (do_projects opt)"

text \<open>The selection if it is still offered, else the first enabled project, else the first.\<close>

definition selectedProjectName :: "debugger_options \<Rightarrow> debugger_form \<Rightarrow> string" where
  "selectedProjectName opt f =
     (case find (\<lambda>p. fst p = df_projectSelection f) (option_projects opt) of
        Some p \<Rightarrow> fst p
      | None \<Rightarrow>
          (case find snd (option_projects opt) of
             Some p \<Rightarrow> fst p
           | None \<Rightarrow> (case option_projects opt of p # _ \<Rightarrow> fst p | [] \<Rightarrow> [])))"

definition selectedProject :: "debugger_options \<Rightarrow> debugger_form \<Rightarrow> (string \<times> bool) option" where
  "selectedProject opt f = find (\<lambda>p. fst p = selectedProjectName opt f) (option_projects opt)"

definition selectedClientId :: "debugger_options \<Rightarrow> debugger_form \<Rightarrow> string" where
  "selectedClientId opt f =
     (if df_clientSelection f \<in> set (or_default [] (do_clientIds opt)) then df_clientSelection f else [])"

section \<open>The request\<close>

definition requestPreview :: "debugger_options \<Rightarrow> debugger_form \<Rightarrow> string \<times> json" where
  "requestPreview opt f =
     (let payload = (case parsePayloadObject (df_payloadText f) of Inr j \<Rightarrow> j | Inl _ \<Rightarrow> JStr (df_payloadText f));
          parsedTimeoutSeconds = string_to_number (df_timeoutSeconds f) in
      (if selectedProjectName opt f \<noteq> [] \<and> js_trim (df_actionName f) \<noteq> []
       then buildRequestPath (selectedProjectName opt f) (js_trim (df_actionName f)) (selectedClientId opt f)
       else ''/rpc/debug/invoke/{project}/{action}'',
       JObj [(''timeoutSeconds'', case integer_of parsedTimeoutSeconds of
                Some n \<Rightarrow> JNum (of_int n) | None \<Rightarrow> JStr (df_timeoutSeconds f)),
             (''payload'', payload)]))"

text \<open>The request that is sent, or what the toast complains of.\<close>

definition executeInvocation :: "debugger_options \<Rightarrow> debugger_form \<Rightarrow> debugger_error + string \<times> json" where
  "executeInvocation opt f =
     (let normalizedActionName = js_trim (df_actionName f);
          parsedTimeoutSeconds = string_to_number (df_timeoutSeconds f) in
      if selectedProjectName opt f = [] \<or> normalizedActionName = [] then Inl TargetMissing
      else case integer_of parsedTimeoutSeconds of
             None \<Rightarrow> Inl TimeoutNotPositive
           | Some n \<Rightarrow>
               if n < 1 then Inl TimeoutNotPositive
               else (case parsePayloadObject (df_payloadText f) of
                       Inl e \<Rightarrow> Inl e
                     | Inr payload \<Rightarrow>
                         Inr (buildRequestPath (selectedProjectName opt f) normalizedActionName (selectedClientId opt f),
                              JObj [(''timeoutSeconds'', JNum (of_int n)), (''payload'', payload)])))"

definition selectProject :: "string \<Rightarrow> debugger_form \<Rightarrow> debugger_form" where
  "selectProject projectName f = f\<lparr>df_projectSelection := projectName, df_clientSelection := [], df_result := None\<rparr>"

definition formatPayload :: "(json \<Rightarrow> string) \<Rightarrow> debugger_form \<Rightarrow> debugger_error option \<times> debugger_form" where
  "formatPayload pretty f =
     (case parsePayloadObject (df_payloadText f) of
        Inl e \<Rightarrow> (Some e, f)
      | Inr payload \<Rightarrow> (None, f\<lparr>df_payloadText := pretty payload\<rparr>))"

text \<open>The mutation settles: the result names the request, the answer and the status of the transport.\<close>

definition invocation_settles :: "json \<Rightarrow> ui_error + json option \<Rightarrow> debugger_form \<Rightarrow> debugger_form" where
  "invocation_settles request result f =
     f\<lparr>df_result := Some (request, result,
        (case result of Inr _ \<Rightarrow> 200 | Inl (ApiRequestError statusCode _) \<Rightarrow> statusCode | Inl _ \<Rightarrow> 0))\<rparr>"

text \<open>What \<^verbatim>\<open>requestApi\<close> is given.\<close>

definition invocation_request :: "string \<times> json \<Rightarrow> ui_request" where
  "invocation_request r = \<lparr>uq_path = fst r, uq_method = ''POST'', uq_body = Some (stringify (snd r))\<rparr>"

section \<open>Paths\<close>

definition is_dots :: "string \<Rightarrow> bool" where
  "is_dots s \<longleftrightarrow> s = ''.'' \<or> s = ''..''"

definition encoded_path :: "string list \<Rightarrow> string" where
  "encoded_path ss = concat (map (\<lambda>s. CHR ''/'' # encodeURIComponent s) ss)"

lemma encoded_no_mark: "CHR ''/'' \<notin> set (encodeURIComponent s)" "CHR ''?'' \<notin> set (encodeURIComponent s)"
  using encoded_plain [of _ s] by blast+

lemma split_encoded_path: "split_slash (encodeURIComponent s @ encoded_path ss) = map encodeURIComponent (s # ss)"
proof (induction ss arbitrary: s)
  case Nil
  then show ?case by (simp add: encoded_path_def split_slash_plain encoded_no_mark)
next
  case (Cons t ss)
  have "split_slash (encodeURIComponent s @ encoded_path (t # ss)) =
      encodeURIComponent s # split_slash (encodeURIComponent t @ encoded_path ss)"
    by (simp add: encoded_path_def split_slash_plain encoded_no_mark)
  then show ?case using Cons by simp
qed

lemma resolve_plain: "\<forall>s \<in> set ss. \<not> is_dots s \<Longrightarrow> resolve_dots before ss = rev before @ ss"
  by (induction ss arbitrary: before) (simp_all add: is_dots_def)

lemma path_of_encoded:
  assumes "\<forall>s \<in> set (s # ss). \<not> is_dots s" "rest = [] \<or> hd rest = CHR ''?''"
  shows "path_segments (encoded_path (s # ss) @ rest) = s # ss"
proof -
  have "\<forall>c \<in> set (encoded_path (s # ss)). c \<noteq> CHR ''?''"
    using encoded_no_mark(2) by (auto simp: encoded_path_def)
  then have "takeWhile (\<lambda>c. c \<noteq> CHR ''?'') (encoded_path (s # ss) @ rest) = encoded_path (s # ss)"
    using assms(2) by (cases rest) (simp_all add: takeWhile_append2)
  moreover have "split_slash (encoded_path (s # ss)) = [] # map encodeURIComponent (s # ss)"
    using split_encoded_path [of s ss] by (simp add: encoded_path_def)
  moreover have "resolve_dots [] (map encodeURIComponent (s # ss)) = map encodeURIComponent (s # ss)"
    using assms(1) by (subst resolve_plain) (auto simp: is_dots_def encode_dots)
  ultimately show ?thesis by (simp add: path_segments_def comp_def decode_encode)
qed

lemma query_start: "buildQueryString values = [] \<or> hd (buildQueryString values) = CHR ''?''"
  by (simp add: buildQueryString_def Let_def)

lemma request_path_segments:
  assumes "\<not> is_dots p" "\<not> is_dots a"
  shows "path_segments (buildRequestPath p a c) = [''rpc'', ''debug'', ''invoke'', p, a]"
proof -
  have "encodeURIComponent ''rpc'' = ''rpc''" "encodeURIComponent ''debug'' = ''debug''" "encodeURIComponent ''invoke'' = ''invoke''"
    by (simp_all add: encodeURIComponent_def percent_encoded_def uri_kept_def is_alphanumeric_def)
  then have "buildRequestPath p a c = encoded_path [''rpc'', ''debug'', ''invoke'', p, a] @ buildQueryString [(''clientId'', Some c)]"
    by (simp add: buildRequestPath_def encoded_path_def)
  then show ?thesis
    using path_of_encoded [of "''rpc''" "[''debug'', ''invoke'', p, a]"] query_start assms by (simp add: is_dots_def)
qed

section \<open>What is sent\<close>

lemma find_member: "find P xs = Some x \<Longrightarrow> x \<in> set xs"
  by (induction xs) (auto split: if_splits)

lemma selected_is_offered:
  "selectedProjectName opt f \<noteq> [] \<Longrightarrow> selectedProjectName opt f \<in> fst ` set (option_projects opt)"
proof -
  have found: "fst p \<in> fst ` set (option_projects opt)" if "find P (option_projects opt) = Some p" for P p
    using find_member [OF that] by simp
  assume "selectedProjectName opt f \<noteq> []"
  then show ?thesis
    by (cases "find (\<lambda>p. fst p = df_projectSelection f) (option_projects opt)"; cases "find snd (option_projects opt)")
      (auto simp: selectedProjectName_def found split: list.splits)
qed

text \<open>
  C28: the debugger sends what it shows, and only what the server takes.  A call that is sent is the one of the
  preview; its project is one the server offers, its device one that was online or none, its timeout a
  whole number of seconds and its payload an object; and unless a name is a dot segment, the server reads
  the project and the action back from its path, whatever characters they have.
\<close>

theorem debugger_sends_what_it_shows:
  assumes "executeInvocation opt f = Inr (path, body)"
  shows "requestPreview opt f = (path, body) \<and>
    (\<exists>project action n ps.
       project \<in> fst ` set (option_projects opt) \<and> action = js_trim (df_actionName f) \<and> action \<noteq> [] \<and>
       1 \<le> n \<and> body = JObj [(''timeoutSeconds'', JNum (of_int n)), (''payload'', JObj ps)] \<and>
       (\<not> is_dots project \<longrightarrow> \<not> is_dots action \<longrightarrow>
          path_segments path = [''rpc'', ''debug'', ''invoke'', project, action]) \<and>
       (selectedClientId opt f = [] \<or> selectedClientId opt f \<in> set (or_default [] (do_clientIds opt))))"
proof -
  obtain n payload where n: "integer_of (string_to_number (df_timeoutSeconds f)) = Some n" "1 \<le> n"
    and payload: "parsePayloadObject (df_payloadText f) = Inr payload"
    and target: "selectedProjectName opt f \<noteq> []" "js_trim (df_actionName f) \<noteq> []"
    and sent: "path = buildRequestPath (selectedProjectName opt f) (js_trim (df_actionName f)) (selectedClientId opt f)"
      "body = JObj [(''timeoutSeconds'', JNum (of_int n)), (''payload'', payload)]"
    using assms by (auto simp: executeInvocation_def Let_def not_less split: option.splits sum.splits if_splits)
  obtain ps where "payload = JObj ps"
    using payload by (auto simp: parsePayloadObject_def split: option.splits json.splits)
  moreover have "requestPreview opt f = (path, body)"
    using n payload target sent by (simp add: requestPreview_def Let_def)
  moreover have "selectedClientId opt f = [] \<or> selectedClientId opt f \<in> set (or_default [] (do_clientIds opt))"
    by (simp add: selectedClientId_def)
  ultimately show ?thesis
    using n(2) target selected_is_offered [OF target(1)] sent request_path_segments by blast
qed

definition debugger_example :: debugger_options where
  "debugger_example = \<lparr>do_projects = Some [(''old'', False), (''eu/west'', True)], do_clientIds = Some [''phone'']\<rparr>"

theorem debugger_sends_what_it_shows_witness:
  "\<exists>path body. executeInvocation debugger_example
     \<lparr>df_projectSelection = [], df_actionName = ''hello'', df_clientSelection = ''phone'', df_timeoutSeconds = ''5'',
      df_payloadText = [], df_result = None\<rparr> = Inr (path, body) \<and>
     path_segments path = [''rpc'', ''debug'', ''invoke'', ''eu/west'', ''hello'']"
proof -
  let ?f = "\<lparr>df_projectSelection = [], df_actionName = ''hello'', df_clientSelection = ''phone'', df_timeoutSeconds = ''5'',
      df_payloadText = [], df_result = None\<rparr>"
  have selected: "selectedProjectName debugger_example ?f = ''eu/west''"
    by (simp add: selectedProjectName_def debugger_example_def option_projects_def or_default_def)
  have "show_nat 5 = ''5''" by code_simp
  then have five: "string_to_number ''5'' = Finite 5" using string_to_number_show_nat [of 5] by simp
  have empty: "parse_json ''{}'' = Some (JObj [])" using parse_stringify [of "JObj []"] by simp
  have trim: "js_trim ''hello'' = ''hello''" by (simp add: js_trim_def is_js_space_def)
  obtain path body where sent: "executeInvocation debugger_example ?f = Inr (path, body)"
    by (simp add: executeInvocation_def selected five trim parsePayloadObject_def empty integer_of_def Let_def)
  have path: "path = buildRequestPath ''eu/west'' ''hello'' (selectedClientId debugger_example ?f)"
    using sent by (simp add: executeInvocation_def selected five trim parsePayloadObject_def empty integer_of_def Let_def)
  from debugger_sends_what_it_shows [OF sent] show ?thesis
    using sent request_path_segments [of "''eu/west''" "''hello''"] by (simp add: path is_dots_def)
qed

end
