(* ===== verification/Spec2Isabelle.thy ===== *)
theory Spec2Isabelle
  imports Connection_Registry Presence Cache_Aside Metrics Projects Devices Access_Token Device_Token Guards Worker
    App_Audit Rpc_Service Rpc_Controller Root_Account Session_Isolation Sdk_Device_Runs
    Sdk_App_Audit Sdk_Caller Sdk_End_To_End Configuration Console_Tables Rpc_Debugger
begin

text \<open>
  Verification of the R2RPC backend and SDK.
\<close>

end
